(* ===== verification/Portal_Prelude.thy ===== *)
theory Portal_Prelude
  imports Main "HOL-Library.Multiset" "HOL-Library.Char_ord" "HOL-Library.List_Lexorder"
begin

text \<open>
  What every component shares: the result type of a fallible Go function, the loop that
  stops at the first error, Go maps as the sequence of entries a \<open>range\<close> visits, and
  \<open>sort.Slice\<close> with the contract its comparison functions must satisfy.
\<close>

named_theorems go_simps \<open>unfolding rules for the Go library model\<close>
named_theorems portal_defs \<open>definitions of the program model that proofs unfold\<close>

section \<open>Results\<close>

text \<open>A Go function returning \<open>(T, error)\<close> yields \<open>Inl\<close> the error or \<open>Inr\<close> the value.\<close>

type_synonym ('e, 'a) result = "'e + 'a"

fun and_then :: "'e + 'a \<Rightarrow> ('a \<Rightarrow> 'e + 'b) \<Rightarrow> 'e + 'b" where
  "and_then (Inl e) f = Inl e"
| "and_then (Inr a) f = f a"

lemma and_then_eq_Inr [simp]:
  "and_then r f = Inr b \<longleftrightarrow> (\<exists>a. r = Inr a \<and> f a = Inr b)"
  by (cases r) auto

lemma and_then_eq_Inl:
  "and_then r f = Inl e \<longleftrightarrow> r = Inl e \<or> (\<exists>a. r = Inr a \<and> f a = Inl e)"
  by (cases r) auto

lemma and_thenE:
  assumes "and_then r f = Inr b"
  obtains a where "r = Inr a" and "f a = Inr b"
  using assms by auto

text \<open>A guard: \<open>if bad { return err }\<close>.\<close>

definition reject_if :: "bool \<Rightarrow> 'e \<Rightarrow> 'e + unit" where
  "reject_if bad e = (if bad then Inl e else Inr ())"

lemma reject_if_eq_Inr [simp]: "reject_if bad e = Inr u \<longleftrightarrow> \<not> bad"
  by (simp add: reject_if_def)

lemma reject_if_eq_Inl [simp]: "reject_if bad e = Inl e' \<longleftrightarrow> bad \<and> e' = e"
  by (auto simp: reject_if_def)

text \<open>
  A \<open>for index, x := range xs\<close> loop that appends one result per element and returns at the
  first error.
\<close>

fun each :: "(nat \<Rightarrow> 'a \<Rightarrow> 'e + 'b) \<Rightarrow> nat \<Rightarrow> 'a list \<Rightarrow> 'e + 'b list" where
  "each f i [] = Inr []"
| "each f i (x # xs) = and_then (f i x) (\<lambda>y. and_then (each f (Suc i) xs) (\<lambda>ys. Inr (y # ys)))"

lemma each_Inr_length: "each f i xs = Inr ys \<Longrightarrow> length ys = length xs"
  by (induction xs arbitrary: i ys) auto

lemma each_Inr_nth:
  "each f i xs = Inr ys \<Longrightarrow> k < length xs \<Longrightarrow> f (i + k) (xs ! k) = Inr (ys ! k)"
proof (induction xs arbitrary: i ys k)
  case (Cons x xs)
  then show ?case by (cases k) fastforce+
qed simp

lemma each_Inr_set:
  assumes "each f i xs = Inr ys" and "y \<in> set ys"
  shows "\<exists>k x. x \<in> set xs \<and> f k x = Inr y"
  using assms by (induction xs arbitrary: i ys) fastforce+

lemma each_InrI:
  assumes "\<And>k x. x \<in> set xs \<Longrightarrow> \<exists>y. f k x = Inr y"
  shows "\<exists>ys. each f i xs = Inr ys"
  using assms
proof (induction xs arbitrary: i)
  case (Cons x xs)
  obtain y where "f i x = Inr y" using Cons.prems by fastforce
  moreover obtain ys where "each f (Suc i) xs = Inr ys" using Cons by fastforce
  ultimately show ?case by simp
qed simp

section \<open>Maps\<close>

text \<open>
  A Go map is the list of its entries in the order a \<open>range\<close> over it visits them: the
  language leaves that order open, so a model that iterates takes it as part of the value,
  and its theorems say whether the result depends on it. A lookup is \<open>map_of\<close>.
\<close>

type_synonym ('k, 'v) gomap = "('k \<times> 'v) list"

abbreviation gomap_wf :: "('k, 'v) gomap \<Rightarrow> bool" where
  "gomap_wf m \<equiv> distinct (map fst m)"

definition gomap_get :: "('k, 'v) gomap \<Rightarrow> 'k \<Rightarrow> 'v \<Rightarrow> 'v" where
  "gomap_get m k zero = (case map_of m k of None \<Rightarrow> zero | Some v \<Rightarrow> v)"

definition gomap_has :: "('k, 'v) gomap \<Rightarrow> 'k \<Rightarrow> bool" where
  "gomap_has m k \<longleftrightarrow> k \<in> fst ` set m"

definition gomap_put :: "('k, 'v) gomap \<Rightarrow> 'k \<Rightarrow> 'v \<Rightarrow> ('k, 'v) gomap" where
  "gomap_put m k v = (if k \<in> fst ` set m then map (\<lambda>(k', v'). if k' = k then (k', v) else (k', v')) m
                      else m @ [(k, v)])"

lemma gomap_has_iff: "gomap_has m k \<longleftrightarrow> map_of m k \<noteq> None"
  by (simp add: gomap_has_def map_of_eq_None_iff)

lemma fst_gomap_put:
  "map fst (gomap_put m k v) = (if k \<in> fst ` set m then map fst m else map fst m @ [k])"
  by (auto simp: gomap_put_def case_prod_beta)

lemma gomap_wf_put [simp]: "gomap_wf (gomap_put m k v) \<longleftrightarrow> gomap_wf m"
  by (auto simp: fst_gomap_put)

lemma map_of_update_all:
  "map_of (map (\<lambda>(k', v'). if k' = k then (k', v) else (k', v')) m) k'' =
     (if k'' = k \<and> k \<in> fst ` set m then Some v else map_of m k'')"
proof (induction m)
  case (Cons e m)
  obtain k1 v1 where "e = (k1, v1)" by (cases e)
  with Cons.IH show ?case by (cases "k1 = k"; cases "k'' = k1"; cases "k'' = k") simp_all
qed simp

lemma map_of_gomap_put [simp]: "map_of (gomap_put m k v) = (map_of m)(k \<mapsto> v)"
proof (rule ext)
  fix k'
  show "map_of (gomap_put m k v) k' = ((map_of m)(k \<mapsto> v)) k'"
  proof (cases "k \<in> fst ` set m")
    case True
    then show ?thesis by (simp add: gomap_put_def map_of_update_all del: map_map)
  next
    case False
    then have "map_of m k = None" by (simp add: map_of_eq_None_iff)
    with False show ?thesis
      by (cases "map_of m k'") (auto simp: gomap_put_def map_add_def)
  qed
qed

text \<open>Two visits of the same map are permutations of each other, and agree on every lookup.\<close>

lemma map_of_permute:
  assumes "gomap_wf m" and "mset m = mset m'"
  shows "map_of m = map_of m'"
proof -
  have "set m = set m'" using assms(2) by (rule mset_eq_setD)
  moreover have "gomap_wf m'"
    using assms by (metis mset_map mset_eq_imp_distinct_iff)
  ultimately show ?thesis using assms(1) by (simp add: map_of_inject_set)
qed

section \<open>Sorting\<close>

text \<open>
  \<open>sort.Slice\<close> leaves elements in non-descending order of a comparison function. The
  model inserts one element after another, keeping the order of elements the comparison does
  not separate.
\<close>

fun insert_by :: "('a \<Rightarrow> 'a \<Rightarrow> bool) \<Rightarrow> 'a \<Rightarrow> 'a list \<Rightarrow> 'a list" where
  "insert_by lt x [] = [x]"
| "insert_by lt x (y # ys) = (if lt y x then y # insert_by lt x ys else x # y # ys)"

definition sort_slice :: "('a \<Rightarrow> 'a \<Rightarrow> bool) \<Rightarrow> 'a list \<Rightarrow> 'a list" where
  "sort_slice lt xs = foldr (insert_by lt) xs []"

lemma sort_slice_simps [simp]:
  "sort_slice lt [] = []"
  "sort_slice lt (x # xs) = insert_by lt x (sort_slice lt xs)"
  by (simp_all add: sort_slice_def)

lemma mset_insert_by [simp]: "mset (insert_by lt x ys) = add_mset x (mset ys)"
  by (induction ys) auto

lemma mset_sort_slice [simp]: "mset (sort_slice lt xs) = mset xs"
  by (induction xs) auto

lemma set_insert_by [simp]: "set (insert_by lt x ys) = insert x (set ys)"
  by (induction ys) auto

lemma set_sort_slice [simp]: "set (sort_slice lt xs) = set xs"
  by (induction xs) auto

lemma length_sort_slice [simp]: "length (sort_slice lt xs) = length xs"
  by (metis mset_sort_slice size_mset)

lemma distinct_map_sort_slice [simp]:
  "distinct (map f (sort_slice lt xs)) \<longleftrightarrow> distinct (map f xs)"
  by (metis mset_map mset_sort_slice mset_eq_imp_distinct_iff)

lemma distinct_sort_slice [simp]: "distinct (sort_slice lt xs) \<longleftrightarrow> distinct xs"
  by (metis mset_sort_slice mset_eq_imp_distinct_iff)

text \<open>
  The contract of a comparison function: a strict weak order. Every component that sorts
  interprets this locale on its own comparison.
\<close>

locale sort_order =
  fixes lt :: "'a \<Rightarrow> 'a \<Rightarrow> bool"
  assumes less_asym: "lt x y \<Longrightarrow> \<not> lt y x"
    and less_cotrans: "lt x z \<Longrightarrow> lt x y \<or> lt y z"
begin

lemma less_irrefl: "\<not> lt x x"
  using less_asym by blast

lemma less_trans: "lt x y \<Longrightarrow> lt y z \<Longrightarrow> lt x z"
  using less_asym less_cotrans by blast

lemma not_less_trans: "\<not> lt y x \<Longrightarrow> \<not> lt z y \<Longrightarrow> \<not> lt z x"
  using less_cotrans by blast

lemma sorted_insert_by:
  assumes "sorted_wrt (\<lambda>x y. \<not> lt y x) ys"
  shows "sorted_wrt (\<lambda>x y. \<not> lt y x) (insert_by lt x ys)"
  using assms
proof (induction ys)
  case (Cons y ys)
  show ?case
  proof (cases "lt y x")
    case True
    with Cons show ?thesis by (simp add: less_asym)
  next
    case False
    with Cons.prems show ?thesis using not_less_trans [of y x] by auto
  qed
qed simp

lemma sorted_sort_slice: "sorted_wrt (\<lambda>x y. \<not> lt y x) (sort_slice lt xs)"
  by (induction xs) (auto intro: sorted_insert_by)

text \<open>Where the comparison separates the distinct elements of a list, the sorted order is unique.\<close>

lemma sorted_unique:
  assumes "mset xs = mset ys"
    and "sorted_wrt (\<lambda>x y. \<not> lt y x) xs" and "sorted_wrt (\<lambda>x y. \<not> lt y x) ys"
    and "\<forall>x \<in> set xs. \<forall>y \<in> set xs. x \<noteq> y \<longrightarrow> lt x y \<or> lt y x"
  shows "xs = ys"
  using assms
proof (induction xs arbitrary: ys)
  case (Cons x xs)
  then obtain y ys' where ys: "ys = y # ys'"
    by (metis list.exhaust mset.simps(1) mset_zero_iff list.distinct(1))
  have sets: "set (x # xs) = set (y # ys')" using Cons.prems(1) ys by (metis mset_eq_setD)
  have "x = y"
  proof (rule ccontr)
    assume ne: "x \<noteq> y"
    with sets have mem: "x \<in> set ys'" "y \<in> set xs" by auto
    with Cons.prems(2,3) ys have "\<not> lt x y" "\<not> lt y x" by auto
    with ne mem Cons.prems(4) show False by auto
  qed
  with Cons ys show ?case by auto
qed simp

lemma sort_slice_permute_on:
  assumes "mset xs = mset ys" and "\<forall>x \<in> set xs. \<forall>y \<in> set xs. x \<noteq> y \<longrightarrow> lt x y \<or> lt y x"
  shows "sort_slice lt xs = sort_slice lt ys"
  by (rule sorted_unique) (use assms sorted_sort_slice in auto)

end

text \<open>
  A comparison that also separates distinct elements fixes the result: the output depends only
  on the elements, not on the order they came in.
\<close>

locale total_sort_order = sort_order +
  assumes less_total: "x \<noteq> y \<Longrightarrow> lt x y \<or> lt y x"
begin

lemma sort_slice_permute: "mset xs = mset ys \<Longrightarrow> sort_slice lt xs = sort_slice lt ys"
  by (rule sort_slice_permute_on) (use less_total in auto)

end

text \<open>A lexicographic comparison: first a key, then a second comparison on equal keys.\<close>

definition lex_less :: "('a \<Rightarrow> 'k::linorder) \<Rightarrow> ('a \<Rightarrow> 'a \<Rightarrow> bool) \<Rightarrow> 'a \<Rightarrow> 'a \<Rightarrow> bool" where
  "lex_less key lt x y \<longleftrightarrow> (if key x \<noteq> key y then key x < key y else lt x y)"

lemma sort_order_key: "sort_order (\<lambda>x y. key x < (key y :: 'k::linorder))"
  by unfold_locales auto

lemma sort_order_lex:
  assumes "sort_order lt"
  shows "sort_order (lex_less key lt)"
proof
  fix x y z
  show "lex_less key lt x y \<Longrightarrow> \<not> lex_less key lt y x"
    using sort_order.less_asym [OF assms] by (auto simp: lex_less_def split: if_splits)
  show "lex_less key lt x z \<Longrightarrow> lex_less key lt x y \<or> lex_less key lt y z"
    using sort_order.less_cotrans [OF assms] by (auto simp: lex_less_def split: if_splits)
qed

lemma sort_order_map:
  assumes "sort_order lt"
  shows "sort_order (\<lambda>x y. lt (f x) (f y))"
  using sort_order.less_asym [OF assms] sort_order.less_cotrans [OF assms] by unfold_locales blast+

text \<open>\<open>sort.Strings\<close> and \<open>sort.Ints\<close> sort by the element itself.\<close>

definition sort_linear :: "'a::linorder list \<Rightarrow> 'a list" where
  "sort_linear = sort_slice (<)"

interpretation linear_order: total_sort_order "(<) :: 'a::linorder \<Rightarrow> 'a \<Rightarrow> bool"
  by unfold_locales auto

lemma set_sort_linear [simp]: "set (sort_linear xs) = set xs"
  by (simp add: sort_linear_def)

lemma mset_sort_linear [simp]: "mset (sort_linear xs) = mset xs"
  by (simp add: sort_linear_def)

lemma distinct_sort_linear [simp]: "distinct (sort_linear xs) = distinct xs"
  by (simp add: sort_linear_def)

lemma sorted_sort_linear [simp]: "sorted (sort_linear xs)"
  using linear_order.sorted_sort_slice [of xs] by (simp add: sort_linear_def not_less)

lemma sort_linear_eq_sort: "sort_linear xs = sort xs"
  by (metis properties_for_sort mset_sort_linear sorted_sort_linear)

end
