(* ===== verification/Go_Strings.thy ===== *)
theory Go_Strings
  imports Portal_Prelude
begin

text \<open>
  The parts of Go's \<open>strings\<close>, \<open>strconv\<close>, \<open>unicode\<close> and \<open>unicode/utf8\<close>
  packages that Velociportal uses. A Go string is a sequence of bytes, so it is a HOL string
  whose characters are bytes; \<open><\<close> on strings is Go's bytewise comparison. Case folding
  (\<open>ToLower\<close>, \<open>EqualFold\<close>) covers the ASCII letters; bytes outside ASCII keep their value.
\<close>

section \<open>Bytes\<close>

abbreviation byte :: "char \<Rightarrow> nat" where
  "byte c \<equiv> of_char c"

definition is_digit :: "char \<Rightarrow> bool" where
  "is_digit c \<longleftrightarrow> 48 \<le> byte c \<and> byte c \<le> 57"

definition is_lower :: "char \<Rightarrow> bool" where
  "is_lower c \<longleftrightarrow> 97 \<le> byte c \<and> byte c \<le> 122"

definition is_upper :: "char \<Rightarrow> bool" where
  "is_upper c \<longleftrightarrow> 65 \<le> byte c \<and> byte c \<le> 90"

definition is_ascii :: "char \<Rightarrow> bool" where
  "is_ascii c \<longleftrightarrow> byte c < 128"

text \<open>\<open>unicode.IsSpace\<close> on the bytes of one rune: one, two or three bytes of UTF-8.\<close>

definition ascii_space :: "char \<Rightarrow> bool" where
  "ascii_space c \<longleftrightarrow> byte c = 32 \<or> (9 \<le> byte c \<and> byte c \<le> 13)"

definition space2 :: "char \<Rightarrow> char \<Rightarrow> bool" where
  "space2 a b \<longleftrightarrow> byte a = 0xC2 \<and> (byte b = 0x85 \<or> byte b = 0xA0)"

definition space3 :: "char \<Rightarrow> char \<Rightarrow> char \<Rightarrow> bool" where
  "space3 a b c \<longleftrightarrow>
     (byte a = 0xE1 \<and> byte b = 0x9A \<and> byte c = 0x80) \<or>
     (byte a = 0xE2 \<and> byte b = 0x80 \<and>
        ((0x80 \<le> byte c \<and> byte c \<le> 0x8A) \<or> byte c = 0xA8 \<or> byte c = 0xA9 \<or> byte c = 0xAF)) \<or>
     (byte a = 0xE2 \<and> byte b = 0x81 \<and> byte c = 0x9F) \<or>
     (byte a = 0xE3 \<and> byte b = 0x80 \<and> byte c = 0x80)"

section \<open>TrimSpace\<close>

text \<open>The length in bytes of the white-space rune a string starts with, or ends with; 0 for none.\<close>

definition space_prefix :: "string \<Rightarrow> nat" where
  "space_prefix s = (case s of [] \<Rightarrow> 0 | a # s1 \<Rightarrow>
     if ascii_space a then 1 else
     (case s1 of [] \<Rightarrow> 0 | b # s2 \<Rightarrow>
        if space2 a b then 2 else
        (case s2 of [] \<Rightarrow> 0 | c # _ \<Rightarrow> if space3 a b c then 3 else 0)))"

definition space_suffix_rev :: "string \<Rightarrow> nat" where
  "space_suffix_rev r = (case r of [] \<Rightarrow> 0 | c # r1 \<Rightarrow>
     if ascii_space c then 1 else
     (case r1 of [] \<Rightarrow> 0 | b # r2 \<Rightarrow>
        if space2 b c then 2 else
        (case r2 of [] \<Rightarrow> 0 | a # _ \<Rightarrow> if space3 a b c then 3 else 0)))"

lemma space_prefix_le: "space_prefix s \<le> length s"
  by (auto simp: space_prefix_def split: list.splits)

lemma space_suffix_rev_le: "space_suffix_rev r \<le> length r"
  by (auto simp: space_suffix_rev_def split: list.splits)

function trim_left :: "string \<Rightarrow> string" where
  "trim_left s = (if space_prefix s = 0 then s else trim_left (drop (space_prefix s) s))"
  by pat_completeness auto
termination
proof (relation "measure length")
  fix s
  assume "space_prefix s \<noteq> 0"
  then show "(drop (space_prefix s) s, s) \<in> measure length"
    using space_prefix_le [of s] by (cases s) auto
qed simp

function trim_right_rev :: "string \<Rightarrow> string" where
  "trim_right_rev r = (if space_suffix_rev r = 0 then r else trim_right_rev (drop (space_suffix_rev r) r))"
  by pat_completeness auto
termination
proof (relation "measure length")
  fix r
  assume "space_suffix_rev r \<noteq> 0"
  then show "(drop (space_suffix_rev r) r, r) \<in> measure length"
    using space_suffix_rev_le [of r] by (cases r) auto
qed simp

declare trim_left.simps [simp del] trim_right_rev.simps [simp del]

definition trim_space :: "string \<Rightarrow> string" where
  "trim_space s = rev (trim_right_rev (rev (trim_left s)))"

lemma space_prefix_trim_left [simp]: "space_prefix (trim_left s) = 0"
  by (induction s rule: trim_left.induct) (subst trim_left.simps, simp)

lemma space_suffix_trim_right [simp]: "space_suffix_rev (trim_right_rev r) = 0"
  by (induction r rule: trim_right_rev.induct) (subst trim_right_rev.simps, simp)

lemma trim_left_id: "space_prefix s = 0 \<Longrightarrow> trim_left s = s"
  by (subst trim_left.simps) simp

lemma trim_right_rev_id: "space_suffix_rev r = 0 \<Longrightarrow> trim_right_rev r = r"
  by (subst trim_right_rev.simps) simp

lemma trim_right_rev_drop: "\<exists>n. trim_right_rev r = drop n r"
proof (induction r rule: trim_right_rev.induct)
  case (1 r)
  show ?case
  proof (cases "space_suffix_rev r = 0")
    case True
    then have "trim_right_rev r = drop 0 r" by (simp add: trim_right_rev_id)
    then show ?thesis ..
  next
    case False
    with "1.IH" obtain n where "trim_right_rev (drop (space_suffix_rev r) r) = drop n (drop (space_suffix_rev r) r)"
      by blast
    with False show ?thesis
      by (subst trim_right_rev.simps) auto
  qed
qed

lemma space_prefix_take:
  assumes "space_prefix s = 0"
  shows "space_prefix (take n s) = 0"
proof (cases "n < 3 \<and> n < length s")
  case True
  then consider "n = 0" | "n = 1" | "n = 2" by linarith
  then show ?thesis
    using assms by cases (auto simp: space_prefix_def numeral_2_eq_2 take_Suc_conv_app_nth split: list.splits if_splits)
next
  case False
  then show ?thesis using assms
    by (cases s; cases "tl s"; cases "tl (tl s)"; cases "n < 3")
      (auto simp: space_prefix_def take_Cons' split: if_splits)
qed

lemma trim_space_take: "\<exists>n. trim_space s = take n (trim_left s)"
proof -
  obtain n where "trim_right_rev (rev (trim_left s)) = drop n (rev (trim_left s))"
    using trim_right_rev_drop by blast
  then show ?thesis by (auto simp: trim_space_def rev_drop)
qed

lemma trim_space_idem [simp]: "trim_space (trim_space s) = trim_space s"
proof -
  have "space_prefix (trim_space s) = 0"
    using trim_space_take [of s] by (auto simp: space_prefix_take)
  moreover have "space_suffix_rev (rev (trim_space s)) = 0"
    by (simp add: trim_space_def)
  ultimately show ?thesis
    by (simp add: trim_space_def trim_left_id trim_right_rev_id)
qed

lemma trim_space_Nil [simp]: "trim_space [] = []"
  by (simp add: trim_space_def trim_left_id trim_right_rev_id space_prefix_def space_suffix_rev_def)

lemma trim_left_subset: "set (trim_left s) \<subseteq> set s"
proof (induction s rule: trim_left.induct)
  case (1 s)
  then show ?case by (subst trim_left.simps) (auto dest: in_set_dropD)
qed

lemma trim_space_subset: "set (trim_space s) \<subseteq> set s"
  using trim_space_take [of s] trim_left_subset [of s] by (metis set_take_subset subset_trans)

text \<open>A string none of whose bytes can belong to a white-space rune at either end is unchanged.\<close>

lemma ascii_not_space:
  "is_ascii a \<Longrightarrow> \<not> space2 a b" "is_ascii a \<Longrightarrow> \<not> space3 a b c"
  "is_ascii b \<Longrightarrow> \<not> space2 a b" "is_ascii c \<Longrightarrow> \<not> space3 a b c"
  by (simp_all add: is_ascii_def space2_def space3_def)

lemma trim_space_id:
  assumes "\<forall>c \<in> set s. is_ascii c \<and> \<not> ascii_space c"
  shows "trim_space s = s"
proof -
  have "space_prefix t = 0" "space_suffix_rev t = 0" if "\<forall>c \<in> set t. is_ascii c \<and> \<not> ascii_space c" for t
    using that by (simp_all add: space_prefix_def space_suffix_rev_def ascii_not_space split: list.split)
  from this(1) [of s] this(2) [of "rev s"] assms show ?thesis
    by (simp add: trim_space_def trim_left_id trim_right_rev_id)
qed

section \<open>Searching and cutting\<close>

definition has_prefix :: "string \<Rightarrow> string \<Rightarrow> bool" where
  "has_prefix s p \<longleftrightarrow> take (length p) s = p"

definition has_suffix :: "string \<Rightarrow> string \<Rightarrow> bool" where
  "has_suffix s p \<longleftrightarrow> length p \<le> length s \<and> drop (length s - length p) s = p"

definition trim_prefix :: "string \<Rightarrow> string \<Rightarrow> string" where
  "trim_prefix s p = (if has_prefix s p then drop (length p) s else s)"

definition trim_suffix :: "string \<Rightarrow> string \<Rightarrow> string" where
  "trim_suffix s p = (if has_suffix s p then take (length s - length p) s else s)"

definition contains_byte :: "string \<Rightarrow> char \<Rightarrow> bool" where
  "contains_byte s c \<longleftrightarrow> c \<in> set s"

definition contains_any :: "string \<Rightarrow> string \<Rightarrow> bool" where
  "contains_any s cs \<longleftrightarrow> (\<exists>c \<in> set s. c \<in> set cs)"

definition count_byte :: "string \<Rightarrow> char \<Rightarrow> nat" where
  "count_byte s c = count_list s c"

text \<open>\<open>IndexByte\<close>, \<open>LastIndexByte\<close>: the position, \<open>None\<close> for \<open>-1\<close>.\<close>

fun index_byte :: "string \<Rightarrow> char \<Rightarrow> nat option" where
  "index_byte [] c = None"
| "index_byte (x # s) c = (if x = c then Some 0 else map_option Suc (index_byte s c))"

fun last_index_byte :: "string \<Rightarrow> char \<Rightarrow> nat option" where
  "last_index_byte [] c = None"
| "last_index_byte (x # s) c =
     (case last_index_byte s c of Some i \<Rightarrow> Some (Suc i) | None \<Rightarrow> if x = c then Some 0 else None)"

text \<open>\<open>strings.Split\<close> at a one-byte separator: one more piece than separators.\<close>

fun split_byte :: "char \<Rightarrow> string \<Rightarrow> string list" where
  "split_byte c [] = [[]]"
| "split_byte c (x # s) =
     (if x = c then [] # split_byte c s
      else (case split_byte c s of [] \<Rightarrow> [[x]] | p # ps \<Rightarrow> (x # p) # ps))"

text \<open>\<open>strings.Cut\<close> at a one-byte separator.\<close>

definition cut_byte :: "string \<Rightarrow> char \<Rightarrow> (string \<times> string) option" where
  "cut_byte s c = (case index_byte s c of None \<Rightarrow> None | Some i \<Rightarrow> Some (take i s, drop (Suc i) s))"

definition ascii_lower :: "char \<Rightarrow> char" where
  "ascii_lower c = (if is_upper c then char_of (byte c + 32) else c)"

definition to_lower :: "string \<Rightarrow> string" where
  "to_lower s = map ascii_lower s"

definition equal_fold :: "string \<Rightarrow> string \<Rightarrow> bool" where
  "equal_fold s t \<longleftrightarrow> to_lower s = to_lower t"

fun join_with :: "string \<Rightarrow> string list \<Rightarrow> string" where
  "join_with sep [] = []"
| "join_with sep [s] = s"
| "join_with sep (s # t # ss) = s @ sep @ join_with sep (t # ss)"

lemma has_prefix_iff: "has_prefix s p \<longleftrightarrow> (\<exists>t. s = p @ t)"
  by (metis append_eq_conv_conj append_take_drop_id has_prefix_def)

lemma has_suffix_iff: "has_suffix s p \<longleftrightarrow> (\<exists>t. s = t @ p)"
  by (metis append_eq_conv_conj append_take_drop_id diff_diff_cancel diff_is_0_eq' has_suffix_def
      length_append length_drop linorder_linear add_diff_cancel_right' le_add2)

lemma index_byte_None_iff: "index_byte s c = None \<longleftrightarrow> c \<notin> set s"
  by (induction s) auto

lemma last_index_byte_None_iff: "last_index_byte s c = None \<longleftrightarrow> c \<notin> set s"
  by (induction s) (auto split: option.splits)

lemma index_byte_SomeD:
  "index_byte s c = Some i \<Longrightarrow> i < length s \<and> s ! i = c \<and> c \<notin> set (take i s)"
  by (induction s arbitrary: i) (auto split: if_splits)

lemma last_index_byte_SomeD:
  "last_index_byte s c = Some i \<Longrightarrow> i < length s \<and> s ! i = c \<and> c \<notin> set (drop (Suc i) s)"
proof (induction s arbitrary: i)
  case (Cons x s)
  then show ?case
    by (auto split: option.splits if_splits simp: last_index_byte_None_iff)
qed simp

lemma index_byte_append:
  "c \<notin> set s \<Longrightarrow> index_byte (s @ c # t) c = Some (length s)"
  by (induction s) auto

lemma last_index_byte_append:
  "c \<notin> set t \<Longrightarrow> last_index_byte (s @ c # t) c = Some (length s)"
proof (induction s)
  case Nil
  then show ?case by (simp add: last_index_byte_None_iff [THEN iffD2])
qed simp

lemma split_byte_nonempty [simp]: "split_byte c s \<noteq> []"
  by (cases s) (auto split: list.splits)

lemma split_byte_no_sep: "p \<in> set (split_byte c s) \<Longrightarrow> c \<notin> set p"
proof (induction s arbitrary: p)
  case (Cons x s)
  then show ?case by (cases "split_byte c s") (auto split: if_splits)
qed simp

lemma split_byte_subset: "p \<in> set (split_byte c s) \<Longrightarrow> set p \<subseteq> set s"
proof (induction s arbitrary: p)
  case (Cons x s)
  then show ?case by (cases "split_byte c s") (fastforce split: if_splits)+
qed simp

lemma length_split_byte: "length (split_byte c s) = Suc (count_list s c)"
  by (induction s) (auto split: list.splits)

lemma join_split_byte: "join_with [c] (split_byte c s) = s"
proof (induction s)
  case (Cons x s)
  then show ?case
    by (cases "split_byte c s"; cases "tl (split_byte c s)") auto
qed simp

lemma split_byte_single: "c \<notin> set s \<Longrightarrow> split_byte c s = [s]"
  by (induction s) auto

lemma split_byte_append: "c \<notin> set s \<Longrightarrow> split_byte c (s @ c # t) = s # split_byte c t"
  by (induction s) auto

lemma to_lower_Nil [simp]: "to_lower s = [] \<longleftrightarrow> s = []"
  by (simp add: to_lower_def)

lemma ascii_lower_idem [simp]: "ascii_lower (ascii_lower c) = ascii_lower c"
  by (auto simp: ascii_lower_def is_upper_def)

lemma to_lower_idem [simp]: "to_lower (to_lower s) = to_lower s"
  by (simp add: to_lower_def)

section \<open>Control characters and UTF-8\<close>

text \<open>
  A rune is a control character when it is below 32, 127, or between 128 and 159; the last
  ones are the byte 0xC2 followed by a byte from 0x80 to 0x9F.
\<close>

fun contains_control :: "string \<Rightarrow> bool" where
  "contains_control [] = False"
| "contains_control [a] = (byte a < 32 \<or> byte a = 127)"
| "contains_control (a # b # s) =
     (byte a < 32 \<or> byte a = 127 \<or> (byte a = 0xC2 \<and> 0x80 \<le> byte b \<and> byte b \<le> 0x9F)
        \<or> contains_control (b # s))"

definition cont_byte :: "char \<Rightarrow> bool" where
  "cont_byte c \<longleftrightarrow> 0x80 \<le> byte c \<and> byte c \<le> 0xBF"

text \<open>The number of bytes of the rune a string starts with (1 for an invalid byte), and whether it is valid.\<close>

fun decode_rune :: "string \<Rightarrow> nat \<times> bool" where
  "decode_rune [] = (0, True)"
| "decode_rune (a # s) =
     (if byte a < 0x80 then (1, True)
      else if 0xC2 \<le> byte a \<and> byte a \<le> 0xDF then
        (case s of b # _ \<Rightarrow> if cont_byte b then (2, True) else (1, False) | _ \<Rightarrow> (1, False))
      else if 0xE0 \<le> byte a \<and> byte a \<le> 0xEF then
        (case s of b # c # _ \<Rightarrow>
           if cont_byte b \<and> cont_byte c \<and> (byte a = 0xE0 \<longrightarrow> 0xA0 \<le> byte b) \<and> (byte a = 0xED \<longrightarrow> byte b \<le> 0x9F)
           then (3, True) else (1, False) | _ \<Rightarrow> (1, False))
      else if 0xF0 \<le> byte a \<and> byte a \<le> 0xF4 then
        (case s of b # c # d # _ \<Rightarrow>
           if cont_byte b \<and> cont_byte c \<and> cont_byte d \<and> (byte a = 0xF0 \<longrightarrow> 0x90 \<le> byte b) \<and> (byte a = 0xF4 \<longrightarrow> byte b \<le> 0x8F)
           then (4, True) else (1, False) | _ \<Rightarrow> (1, False))
      else (1, False))"

lemma decode_rune_pos: "s \<noteq> [] \<Longrightarrow> 0 < fst (decode_rune s)"
  by (cases s) (auto split: list.splits)

function runes :: "string \<Rightarrow> (string \<times> bool) list" where
  "runes s = (if s = [] then []
     else (take (fst (decode_rune s)) s, snd (decode_rune s)) # runes (drop (fst (decode_rune s)) s))"
  by pat_completeness auto
termination
  using decode_rune_pos by (relation "measure length") (auto simp: length_greater_0_conv)

declare runes.simps [simp del]

definition utf8_valid :: "string \<Rightarrow> bool" where
  "utf8_valid s \<longleftrightarrow> (\<forall>r \<in> set (runes s). snd r)"

definition rune_count :: "string \<Rightarrow> nat" where
  "rune_count s = length (runes s)"

section \<open>Numbers\<close>

definition digit_value :: "char \<Rightarrow> nat" where
  "digit_value c = byte c - 48"

definition digit_char :: "nat \<Rightarrow> char" where
  "digit_char d = char_of (48 + d)"

definition parse_digits :: "string \<Rightarrow> nat option" where
  "parse_digits s = (if s \<noteq> [] \<and> list_all is_digit s
     then Some (foldl (\<lambda>n c. 10 * n + digit_value c) 0 s) else None)"

fun show_nat :: "nat \<Rightarrow> string" where
  "show_nat n = (if n < 10 then [digit_char n] else show_nat (n div 10) @ [digit_char (n mod 10)])"

declare show_nat.simps [simp del]

definition show_int :: "int \<Rightarrow> string" where
  "show_int i = (if i < 0 then CHR ''-'' # show_nat (nat (- i)) else show_nat (nat i))"

text \<open>\<open>strconv.Atoi\<close> and \<open>ParseInt(s, 10, 64)\<close>: an optional sign, digits, within 64 bits.\<close>

definition max_int64 :: int where "max_int64 = 2 ^ 63 - 1"
definition min_int64 :: int where "min_int64 = - (2 ^ 63)"

definition in_int64 :: "int \<Rightarrow> int option" where
  "in_int64 i = (if min_int64 \<le> i \<and> i \<le> max_int64 then Some i else None)"

definition atoi :: "string \<Rightarrow> int option" where
  "atoi s = (case s of [] \<Rightarrow> None | c # r \<Rightarrow>
     if c = CHR ''-'' then (case parse_digits r of None \<Rightarrow> None | Some n \<Rightarrow> in_int64 (- int n))
     else if c = CHR ''+'' then (case parse_digits r of None \<Rightarrow> None | Some n \<Rightarrow> in_int64 (int n))
     else (case parse_digits s of None \<Rightarrow> None | Some n \<Rightarrow> in_int64 (int n)))"

lemma byte_digit_char [simp]: "d < 10 \<Longrightarrow> byte (digit_char d) = 48 + d"
  by (simp add: digit_char_def)

lemma is_digit_digit_char [simp]: "d < 10 \<Longrightarrow> is_digit (digit_char d)"
  by (simp add: is_digit_def)

lemma digit_value_digit_char [simp]: "d < 10 \<Longrightarrow> digit_value (digit_char d) = d"
  by (simp add: digit_value_def)

lemma show_nat_nonempty [simp]: "show_nat n \<noteq> []"
  by (subst show_nat.simps) simp

lemma show_nat_digits: "list_all is_digit (show_nat n)"
proof (induction n rule: show_nat.induct)
  case (1 n)
  then show ?case by (subst show_nat.simps) auto
qed

lemma parse_show_nat [simp]: "parse_digits (show_nat n) = Some n"
proof -
  have "foldl (\<lambda>n c. 10 * n + digit_value c) 0 (show_nat n) = n"
  proof (induction n rule: show_nat.induct)
    case (1 n)
    then show ?case by (subst show_nat.simps) auto
  qed
  then show ?thesis by (simp add: parse_digits_def show_nat_digits)
qed

lemma digit_not_sign: "is_digit c \<Longrightarrow> c \<noteq> CHR ''-'' \<and> c \<noteq> CHR ''+''"
  by (auto simp: is_digit_def)

lemma atoi_show_int:
  assumes "min_int64 \<le> i" and "i \<le> max_int64"
  shows "atoi (show_int i) = Some i"
proof (cases "i < 0")
  case True
  with assms show ?thesis by (simp add: atoi_def show_int_def in_int64_def)
next
  case False
  obtain c r where cr: "show_nat (nat i) = c # r" by (cases "show_nat (nat i)") auto
  then have "is_digit c" using show_nat_digits [of "nat i"] by simp
  with cr False assms show ?thesis
    using parse_show_nat [of "nat i"] digit_not_sign [of c]
    by (simp add: atoi_def show_int_def in_int64_def)
qed

lemma show_nat_inject [simp]: "show_nat m = show_nat n \<longleftrightarrow> m = n"
  by (metis option.inject parse_show_nat)

end
