(* ===== verification/Go_Netip.thy ===== *)
theory Go_Netip
  imports Go_Strings "HOL-Library.Word"
begin

unbundle bit_operations_syntax

text \<open>
  Go's \<open>net\<close> and \<open>net/netip\<close>: parsing and printing addresses, prefixes and their
  membership tests. An IPv4 address is 32 bits, an IPv6 address 128 bits with a zone; the
  \<open>net\<close> package's \<open>IP\<close> is the 128-bit form, in which IPv4 is the mapped range.
\<close>

section \<open>Addresses\<close>

datatype addr = V4 "32 word" | V6 "128 word" string

definition v4_of_octets :: "nat list \<Rightarrow> 32 word" where
  "v4_of_octets os = of_nat (foldl (\<lambda>a d. 256 * a + d) 0 os)"

definition octets_of_v4 :: "32 word \<Rightarrow> nat list" where
  "octets_of_v4 w = [unat w div 2 ^ 24 mod 256, unat w div 2 ^ 16 mod 256, unat w div 2 ^ 8 mod 256, unat w mod 256]"

definition v6_of_groups :: "nat list \<Rightarrow> 128 word" where
  "v6_of_groups gs = of_nat (foldl (\<lambda>a g. 65536 * a + g) 0 gs)"

definition groups_of_v6 :: "128 word \<Rightarrow> nat list" where
  "groups_of_v6 w = map (\<lambda>i. unat w div 65536 ^ (7 - i) mod 65536) [0, 1, 2, 3, 4, 5, 6, 7]"

text \<open>One field of a dotted address: digits, no leading zero, at most 255.\<close>

definition parse_octet :: "string \<Rightarrow> nat option" where
  "parse_octet p = (if 1 < length p \<and> hd p = CHR ''0'' then None
     else case parse_digits p of None \<Rightarrow> None | Some n \<Rightarrow> if n \<le> 255 then Some n else None)"

definition parse_v4_fields :: "string \<Rightarrow> nat list option" where
  "parse_v4_fields s = (case map parse_octet (split_byte CHR ''.'' s) of
     [Some a, Some b, Some c, Some d] \<Rightarrow> Some [a, b, c, d] | _ \<Rightarrow> None)"

definition is_hex :: "char \<Rightarrow> bool" where
  "is_hex c \<longleftrightarrow> is_digit c \<or> (97 \<le> byte c \<and> byte c \<le> 102) \<or> (65 \<le> byte c \<and> byte c \<le> 70)"

definition hex_value :: "char \<Rightarrow> nat" where
  "hex_value c = (if is_digit c then byte c - 48 else if 97 \<le> byte c then byte c - 87 else byte c - 55)"

definition hex_number :: "string \<Rightarrow> nat" where
  "hex_number s = foldl (\<lambda>n c. 16 * n + hex_value c) 0 s"

text \<open>
  The loop of \<open>parseIPv6\<close>: the number of groups that may still follow, the groups read,
  the position of the ellipsis, and the rest of the text.
\<close>

fun v6_loop :: "nat \<Rightarrow> nat list \<Rightarrow> nat option \<Rightarrow> string \<Rightarrow> (nat list \<times> nat option \<times> string) option" where
  "v6_loop 0 gs el s = Some (gs, el, s)"
| "v6_loop (Suc n) gs el s =
     (let h = takeWhile is_hex s; r = dropWhile is_hex s; gs' = gs @ [hex_number h] in
      if h = [] \<or> 4 < length h then None
      else if r \<noteq> [] \<and> hd r = CHR ''.'' then
        (if el = None \<and> length gs \<noteq> 6 \<or> 8 < length gs + 2 then None
         else case parse_v4_fields s of None \<Rightarrow> None
           | Some os \<Rightarrow> Some (gs @ [256 * os ! 0 + os ! 1, 256 * os ! 2 + os ! 3], el, []))
      else if r = [] then Some (gs', el, [])
      else if hd r \<noteq> CHR '':'' \<or> length r = 1 then None
      else if hd (tl r) = CHR '':'' then
        (if el \<noteq> None then None
         else if tl (tl r) = [] then Some (gs', Some (length gs'), [])
         else v6_loop n gs' (Some (length gs')) (tl (tl r)))
      else v6_loop n gs' el (tl r))"

definition v6_expand :: "nat list \<times> nat option \<times> string \<Rightarrow> nat list option" where
  "v6_expand p = (case p of (gs, el, rest) \<Rightarrow>
     if rest \<noteq> [] then None
     else if length gs < 8 then
       (case el of None \<Rightarrow> None | Some e \<Rightarrow> Some (take e gs @ replicate (8 - length gs) 0 @ drop e gs))
     else (case el of None \<Rightarrow> Some gs | Some _ \<Rightarrow> None))"

definition parse_v6_groups :: "string \<Rightarrow> nat list option" where
  "parse_v6_groups s =
     (if has_prefix s ''::'' then
        (if drop 2 s = [] then Some (replicate 8 0)
         else Option.bind (v6_loop 8 [] (Some 0) (drop 2 s)) v6_expand)
      else Option.bind (v6_loop 8 [] None s) v6_expand)"

definition parse_v6 :: "string \<Rightarrow> addr option" where
  "parse_v6 s = (case cut_byte s CHR ''%'' of
     None \<Rightarrow> (case parse_v6_groups s of None \<Rightarrow> None | Some gs \<Rightarrow> Some (V6 (v6_of_groups gs) []))
   | Some (a, zone) \<Rightarrow> if zone = [] then None
       else (case parse_v6_groups a of None \<Rightarrow> None | Some gs \<Rightarrow> Some (V6 (v6_of_groups gs) zone)))"

text \<open>\<open>netip.ParseAddr\<close>: the first of \<open>.\<close>, \<open>:\<close> and \<open>%\<close> decides.\<close>

definition parse_addr :: "string \<Rightarrow> addr option" where
  "parse_addr s = (case find (\<lambda>c. c = CHR ''.'' \<or> c = CHR '':'' \<or> c = CHR ''%'') s of
     None \<Rightarrow> None
   | Some c \<Rightarrow> if c = CHR ''.'' then (case parse_v4_fields s of None \<Rightarrow> None | Some os \<Rightarrow> Some (V4 (v4_of_octets os)))
       else if c = CHR '':'' then parse_v6 s else None)"

fun addr_zone :: "addr \<Rightarrow> string" where
  "addr_zone (V4 w) = []"
| "addr_zone (V6 w z) = z"

fun addr_is4 :: "addr \<Rightarrow> bool" where
  "addr_is4 (V4 w) = True"
| "addr_is4 (V6 w z) = False"

definition mapped_v4 :: "128 word \<Rightarrow> bool" where
  "mapped_v4 w \<longleftrightarrow> drop_bit 32 w = 0xFFFF"

fun addr_is4in6 :: "addr \<Rightarrow> bool" where
  "addr_is4in6 (V4 w) = False"
| "addr_is4in6 (V6 w z) = mapped_v4 w"

fun addr_unmap :: "addr \<Rightarrow> addr" where
  "addr_unmap (V4 w) = V4 w"
| "addr_unmap (V6 w z) = (if mapped_v4 w then V4 (ucast w) else V6 w z)"

fun addr_as16 :: "addr \<Rightarrow> 128 word" where
  "addr_as16 (V4 w) = push_bit 32 0xFFFF OR ucast w"
| "addr_as16 (V6 w z) = w"

section \<open>Printing\<close>

definition v4_string :: "32 word \<Rightarrow> string" where
  "v4_string w = join_with ''.'' (map show_nat (octets_of_v4 w))"

definition hex_char :: "nat \<Rightarrow> char" where
  "hex_char d = (if d < 10 then char_of (48 + d) else char_of (87 + d))"

fun show_hex :: "nat \<Rightarrow> string" where
  "show_hex n = (if n < 16 then [hex_char n] else show_hex (n div 16) @ [hex_char (n mod 16)])"

declare show_hex.simps [simp del]

text \<open>The longest run of at least two zero groups, the first one on ties: \<open>(start, length)\<close>.\<close>

definition zero_run_at :: "nat list \<Rightarrow> nat \<Rightarrow> nat" where
  "zero_run_at gs i = length (takeWhile (\<lambda>g. g = 0) (drop i gs))"

definition longest_zero_run :: "nat list \<Rightarrow> nat \<times> nat" where
  "longest_zero_run gs = foldl (\<lambda>(s, l) i. if 2 \<le> zero_run_at gs i \<and> l < zero_run_at gs i
     then (i, zero_run_at gs i) else (s, l)) (255, 0) [0, 1, 2, 3, 4, 5, 6, 7]"

definition v6_groups_string :: "nat list \<Rightarrow> string" where
  "v6_groups_string gs = (case longest_zero_run gs of (s, l) \<Rightarrow>
     if l = 0 then join_with '':'' (map show_hex gs)
     else join_with '':'' (map show_hex (take s gs)) @ ''::'' @
          join_with '':'' (map show_hex (drop (s + l) gs)))"

fun addr_string :: "addr \<Rightarrow> string" where
  "addr_string (V4 w) = v4_string w"
| "addr_string (V6 w z) =
     (if mapped_v4 w then ''::ffff:'' @ v4_string (ucast w) else v6_groups_string (groups_of_v6 w))
       @ (if z = [] then [] else CHR ''%'' # z)"

section \<open>Prefixes\<close>

record prefix =
  prefix_addr :: addr
  prefix_bits :: nat

definition parse_prefix :: "string \<Rightarrow> prefix option" where
  "parse_prefix s = (case last_index_byte s CHR ''/'' of None \<Rightarrow> None | Some i \<Rightarrow>
     (let bits = drop (Suc i) s in
      case parse_addr (take i s) of None \<Rightarrow> None | Some a \<Rightarrow>
        if addr_zone a \<noteq> [] \<or> 1 < length bits \<and> \<not> (49 \<le> byte (hd bits) \<and> byte (hd bits) \<le> 57) then None
        else case atoi bits of None \<Rightarrow> None | Some n \<Rightarrow>
          if n < 0 \<or> (if addr_is4 a then 32 else 128) < n then None
          else Some \<lparr>prefix_addr = a, prefix_bits = nat n\<rparr>))"

definition prefix_contains :: "prefix \<Rightarrow> addr \<Rightarrow> bool" where
  "prefix_contains p a = (if addr_zone a \<noteq> [] then False else
     case (prefix_addr p, a) of
       (V4 b, V4 w) \<Rightarrow> drop_bit (32 - prefix_bits p) (w XOR b) = 0
     | (V6 b _, V6 w _) \<Rightarrow> drop_bit (128 - prefix_bits p) (w XOR b) = 0
     | _ \<Rightarrow> False)"

definition prefix_masked :: "prefix \<Rightarrow> prefix" where
  "prefix_masked p = p\<lparr>prefix_addr := (case prefix_addr p of
     V4 b \<Rightarrow> V4 (push_bit (32 - prefix_bits p) (drop_bit (32 - prefix_bits p) b))
   | V6 b z \<Rightarrow> V6 (push_bit (128 - prefix_bits p) (drop_bit (128 - prefix_bits p) b)) [])\<rparr>"

definition prefix_string :: "prefix \<Rightarrow> string" where
  "prefix_string p = addr_string (prefix_addr p) @ CHR ''/'' # show_nat (prefix_bits p)"

section \<open>The net package\<close>

text \<open>\<open>net.ParseIP\<close> returns the 16-byte form; a zone is refused.\<close>

definition net_parse_ip :: "string \<Rightarrow> 128 word option" where
  "net_parse_ip s = (case parse_addr s of None \<Rightarrow> None
     | Some a \<Rightarrow> if addr_zone a \<noteq> [] then None else Some (addr_as16 a))"

definition ip_to4 :: "128 word \<Rightarrow> 32 word option" where
  "ip_to4 ip = (if mapped_v4 ip then Some (ucast ip) else None)"

definition net_ip_string :: "128 word \<Rightarrow> string" where
  "net_ip_string ip = (case ip_to4 ip of Some w \<Rightarrow> v4_string w | None \<Rightarrow> addr_string (V6 ip []))"

text \<open>An \<open>IPNet\<close>: a 4-byte or a 16-byte address with a mask of that length.\<close>

datatype ipnet = Net4 "32 word" nat | Net6 "128 word" nat

definition mask4 :: "nat \<Rightarrow> 32 word" where
  "mask4 n = push_bit (32 - n) (- 1)"

definition mask16 :: "nat \<Rightarrow> 128 word" where
  "mask16 n = push_bit (128 - n) (- 1)"

definition net_parse_cidr :: "string \<Rightarrow> (128 word \<times> ipnet) option" where
  "net_parse_cidr s = (case cut_byte s CHR ''/'' of None \<Rightarrow> None | Some (a, m) \<Rightarrow>
     (case parse_addr a of None \<Rightarrow> None | Some ad \<Rightarrow>
        if addr_zone ad \<noteq> [] then None
        else case parse_digits m of None \<Rightarrow> None | Some n \<Rightarrow>
          (case ad of
             V4 w \<Rightarrow> if 32 < n then None else Some (addr_as16 ad, Net4 (w AND mask4 n) n)
           | V6 w z \<Rightarrow> if 128 < n then None else Some (w, Net6 (w AND mask16 n) n))))"

fun ipnet_contains :: "ipnet \<Rightarrow> 128 word \<Rightarrow> bool" where
  "ipnet_contains (Net4 b n) ip = (case ip_to4 ip of
     Some w \<Rightarrow> b AND mask4 n = w AND mask4 n | None \<Rightarrow> False)"
| "ipnet_contains (Net6 b n) ip = (case ip_to4 b of
     Some b4 \<Rightarrow> (case ip_to4 ip of
        Some w \<Rightarrow> b4 AND ucast (mask16 n) = w AND ucast (mask16 n) | None \<Rightarrow> False)
   | None \<Rightarrow> (case ip_to4 ip of
        Some w \<Rightarrow> False | None \<Rightarrow> b AND mask16 n = ip AND mask16 n))"

section \<open>Facts\<close>

lemma parse_octet_show [simp]: "n \<le> 255 \<Longrightarrow> parse_octet (show_nat n) = Some n"
proof -
  assume n: "n \<le> 255"
  have "hd (show_nat n) \<noteq> CHR ''0''" if "1 < length (show_nat n)"
    using that
  proof (induction n rule: show_nat.induct)
    case (1 n)
    show ?case
    proof (cases "n < 10")
      case True
      then have "length (show_nat n) = 1" by (subst show_nat.simps) simp
      with "1.prems" show ?thesis by simp
    next
      case False
      then have eq: "show_nat n = show_nat (n div 10) @ [digit_char (n mod 10)]"
        by (subst show_nat.simps) simp
      show ?thesis
      proof (cases "n div 10 < 10")
        case True
        then have "show_nat (n div 10) = [digit_char (n div 10)]" by (subst show_nat.simps) simp
        moreover have "digit_char (n div 10) \<noteq> CHR ''0''"
        proof
          assume "digit_char (n div 10) = CHR ''0''"
          then have "byte (digit_char (n div 10)) = 48" by simp
          with True False show False by simp
        qed
        ultimately show ?thesis using eq by simp
      next
        case F: False
        then have "show_nat (n div 10) = show_nat (n div 10 div 10) @ [digit_char (n div 10 mod 10)]"
          by (subst show_nat.simps) simp
        then have "1 < length (show_nat (n div 10))"
          using show_nat_nonempty [of "n div 10 div 10"] by (cases "show_nat (n div 10 div 10)") auto
        with "1.IH" False have "hd (show_nat (n div 10)) \<noteq> CHR ''0''" by simp
        with eq show ?thesis by simp
      qed
    qed
  qed
  with n show ?thesis by (auto simp: parse_octet_def)
qed

lemma is_digit_not [simp]: "is_digit c \<Longrightarrow> c \<noteq> CHR ''.'' \<and> c \<noteq> CHR '':'' \<and> c \<noteq> CHR ''%''"
  by (auto simp: is_digit_def)

lemma show_nat_no_sep: "\<not> is_digit c \<Longrightarrow> c \<notin> set (show_nat n)"
  using show_nat_digits [of n] by (auto simp: list_all_iff)

lemma octets_small: "d \<in> set (octets_of_v4 w) \<Longrightarrow> d \<le> 255"
proof -
  have "x mod 256 \<le> 255" for x :: nat
    using mod_less_divisor [of 256 x] by simp
  then show "d \<in> set (octets_of_v4 w) \<Longrightarrow> d \<le> 255" by (auto simp: octets_of_v4_def)
qed

lemma bytes_recompose:
  assumes "(x::nat) < 2 ^ 32"
  shows "256 * (256 * (256 * (x div 2 ^ 24 mod 256) + x div 2 ^ 16 mod 256) + x div 2 ^ 8 mod 256) + x mod 256 = x"
proof -
  have step: "256 * (y div 256) + y mod 256 = y" for y :: nat by simp
  have "x div 2 ^ 24 mod 256 = x div 2 ^ 16 div 256"
    using assms by (simp add: div_mult2_eq [symmetric])
  moreover have "x div 2 ^ 16 = x div 2 ^ 8 div 256" and "x div 2 ^ 8 = x div 256"
    by (simp_all add: div_mult2_eq [symmetric])
  ultimately show ?thesis by (simp only: step)
qed

lemma v4_of_octets_of_v4 [simp]: "v4_of_octets (octets_of_v4 w) = w"
proof -
  have "unat w < 2 ^ LENGTH(32)" by (rule unsigned_less)
  then have "unat w < 2 ^ 32" by simp
  then have "v4_of_octets (octets_of_v4 w) = of_nat (unat w)"
    unfolding v4_of_octets_def octets_of_v4_def
    by (simp only: foldl.simps mult_0_right add_0 bytes_recompose)
  then show ?thesis by simp
qed

lemma parse_v4_fields_string: "parse_v4_fields (v4_string w) = Some (octets_of_v4 w)"
proof -
  obtain a b c d where o: "octets_of_v4 w = [a, b, c, d]" by (simp add: octets_of_v4_def)
  have nodot: "CHR ''.'' \<notin> set (show_nat n)" for n
    by (rule show_nat_no_sep) (simp add: is_digit_def)
  have "a \<le> 255" "b \<le> 255" "c \<le> 255" "d \<le> 255"
    using octets_small [of _ w] o by simp_all
  then show ?thesis
    using o by (simp add: parse_v4_fields_def v4_string_def split_byte_append split_byte_single nodot)
qed

lemma find_Some_append: "(\<forall>x \<in> set xs. \<not> P x) \<Longrightarrow> P y \<Longrightarrow> find P (xs @ y # ys) = Some y"
  by (induction xs) auto

lemma parse_addr_v4_string [simp]: "parse_addr (v4_string w) = Some (V4 w)"
proof -
  have "v4_string w = show_nat (unat w div 2 ^ 24 mod 256) @ CHR ''.'' #
      join_with ''.'' (map show_nat (tl (octets_of_v4 w)))"
    by (simp add: v4_string_def octets_of_v4_def)
  moreover have "\<forall>c \<in> set (show_nat n). \<not> (c = CHR ''.'' \<or> c = CHR '':'' \<or> c = CHR ''%'')" for n
    using show_nat_digits [of n] by (auto simp: list_all_iff)
  ultimately have "find (\<lambda>c. c = CHR ''.'' \<or> c = CHR '':'' \<or> c = CHR ''%'') (v4_string w) = Some CHR ''.''"
    by (simp add: find_Some_append)
  then show ?thesis by (simp add: parse_addr_def parse_v4_fields_string)
qed

lemma net_parse_ip_star [simp]: "net_parse_ip ''*'' = None"
  by (simp add: net_parse_ip_def parse_addr_def)

text \<open>A parsed network contains the address it was written with.\<close>

lemma low_word_of_or: "ucast (push_bit 32 k OR ucast w :: 128 word) = (w :: 32 word)"
  by (rule bit_word_eqI) (auto simp: bit_simps)

lemma ip_to4_as16_V4 [simp]: "ip_to4 (addr_as16 (V4 w)) = Some w"
proof -
  have "drop_bit 32 (push_bit 32 0xFFFF OR ucast w :: 128 word) = 0xFFFF"
    by (rule bit_word_eqI) (auto simp: bit_simps dest: bit_imp_le_length)
  then show ?thesis
    unfolding ip_to4_def mapped_v4_def addr_as16.simps by (simp only: low_word_of_or if_True refl)
qed

end
