(* ===== verification/Go_Json.thy ===== *)
theory Go_Json
  imports Go_Netip
begin

text \<open>
  Go's \<open>encoding/json\<close> as Velociportal uses it: parsing bytes to a value (with the order
  and the duplicates of object members kept), and decoding a value into the Go types that
  appear in the source. A \<open>json.RawMessage\<close> is the value it holds.
\<close>

datatype json =
    JNull
  | JBool bool
  | JNum string
  | JStr string
  | JArr "json list"
  | JObj "(string \<times> json) list"

section \<open>Parsing\<close>

definition json_space :: "char \<Rightarrow> bool" where
  "json_space c \<longleftrightarrow> byte c = 32 \<or> byte c = 9 \<or> byte c = 10 \<or> byte c = 13"

definition skip_space :: "string \<Rightarrow> string" where
  "skip_space s = dropWhile json_space s"

text \<open>Encoding a code point as UTF-8, and the replacement character U+FFFD.\<close>

definition encode_rune :: "nat \<Rightarrow> string" where
  "encode_rune r =
     (if r < 0x80 then [char_of r]
      else if r < 0x800 then [char_of (0xC0 + r div 64), char_of (0x80 + r mod 64)]
      else if r < 0x10000 then
        [char_of (0xE0 + r div 4096), char_of (0x80 + r div 64 mod 64), char_of (0x80 + r mod 64)]
      else [char_of (0xF0 + r div 262144), char_of (0x80 + r div 4096 mod 64),
            char_of (0x80 + r div 64 mod 64), char_of (0x80 + r mod 64)])"

definition replacement :: string where
  "replacement = encode_rune 0xFFFD"

text \<open>\<open>getu4\<close>: the four hexadecimal digits after a backslash and a \<open>u\<close>.\<close>

definition read_u4 :: "string \<Rightarrow> nat option" where
  "read_u4 s = (case s of
     b # u # h1 # h2 # h3 # h4 # _ \<Rightarrow>
       if byte b = 92 \<and> u = CHR ''u'' \<and> is_hex h1 \<and> is_hex h2 \<and> is_hex h3 \<and> is_hex h4
       then Some (hex_number [h1, h2, h3, h4]) else None
   | _ \<Rightarrow> None)"

text \<open>The code point and the length of a \<open>u\<close> escape; a lone surrogate is replaced.\<close>

definition read_escape_u :: "string \<Rightarrow> (string \<times> nat) option" where
  "read_escape_u s = (case read_u4 s of None \<Rightarrow> None | Some r \<Rightarrow>
     if 0xD800 \<le> r \<and> r \<le> 0xDFFF then
       (case read_u4 (drop 6 s) of
          Some r2 \<Rightarrow> if r \<le> 0xDBFF \<and> 0xDC00 \<le> r2 \<and> r2 \<le> 0xDFFF
            then Some (encode_rune ((r - 0xD800) * 1024 + (r2 - 0xDC00) + 0x10000), 12)
            else Some (replacement, 6)
        | None \<Rightarrow> Some (replacement, 6))
     else Some (encode_rune r, 6))"

definition simple_escape :: "char \<Rightarrow> char option" where
  "simple_escape c =
     (if byte c = 34 \<or> byte c = 92 \<or> byte c = 47 then Some c
      else if c = CHR ''b'' then Some (char_of (8::nat)) else if c = CHR ''f'' then Some (char_of (12::nat))
      else if c = CHR ''n'' then Some (char_of (10::nat)) else if c = CHR ''r'' then Some (char_of (13::nat))
      else if c = CHR ''t'' then Some (char_of (9::nat)) else None)"

text \<open>The rest of a string literal after its opening quote: its bytes and what follows it.\<close>

function p_chars :: "string \<Rightarrow> (string \<times> string) option" where
  "p_chars s = (case s of [] \<Rightarrow> None | c # t \<Rightarrow>
     if byte c = 34 then Some ([], t)
     else if byte c < 32 then None
     else if byte c = 92 then
       (case t of [] \<Rightarrow> None | e # u \<Rightarrow>
          if e = CHR ''u'' then
            (case read_escape_u s of None \<Rightarrow> None
             | Some (bs, n) \<Rightarrow> map_option (\<lambda>(v, r). (bs @ v, r)) (p_chars (drop (max 1 n) s)))
          else (case simple_escape e of None \<Rightarrow> None
             | Some b \<Rightarrow> map_option (\<lambda>(v, r). (b # v, r)) (p_chars u)))
     else (let (n, ok) = decode_rune s in
       map_option (\<lambda>(v, r). ((if ok then take n s else replacement) @ v, r)) (p_chars (drop (max 1 n) s))))"
  by pat_completeness auto
termination
  by (relation "measure length") (auto split: prod.splits)

declare p_chars.simps [simp del]

text \<open>A number literal: an optional minus, an integer part, a fraction, an exponent.\<close>

definition p_int_part :: "string \<Rightarrow> (string \<times> string) option" where
  "p_int_part s = (case s of [] \<Rightarrow> None | c # t \<Rightarrow>
     if c = CHR ''0'' then Some ([c], t)
     else if is_digit c then Some (takeWhile is_digit s, dropWhile is_digit s) else None)"

definition p_fraction :: "string \<Rightarrow> (string \<times> string) option" where
  "p_fraction s = (case s of [] \<Rightarrow> Some ([], s) | c # t \<Rightarrow>
     if c \<noteq> CHR ''.'' then Some ([], s)
     else if takeWhile is_digit t = [] then None
     else Some (c # takeWhile is_digit t, dropWhile is_digit t))"

definition p_exponent :: "string \<Rightarrow> (string \<times> string) option" where
  "p_exponent s = (case s of [] \<Rightarrow> Some ([], s) | c # t \<Rightarrow>
     if c \<noteq> CHR ''e'' \<and> c \<noteq> CHR ''E'' then Some ([], s)
     else (let (sign, u) = (case t of d # u \<Rightarrow> if d = CHR ''+'' \<or> d = CHR ''-'' then ([d], u) else ([], t) | [] \<Rightarrow> ([], t)) in
       if takeWhile is_digit u = [] then None
       else Some (c # sign @ takeWhile is_digit u, dropWhile is_digit u)))"

definition p_number :: "string \<Rightarrow> (json \<times> string) option" where
  "p_number s =
     (let (sign, s0) = (case s of c # t \<Rightarrow> if c = CHR ''-'' then ([c], t) else ([], s) | [] \<Rightarrow> ([], s)) in
      case p_int_part s0 of None \<Rightarrow> None | Some (i, s1) \<Rightarrow>
      (case p_fraction s1 of None \<Rightarrow> None | Some (f, s2) \<Rightarrow>
      (case p_exponent s2 of None \<Rightarrow> None | Some (e, s3) \<Rightarrow> Some (JNum (sign @ i @ f @ e), s3))))"

text \<open>The literals that are not arrays or objects.\<close>

definition p_scalar :: "string \<Rightarrow> (json \<times> string) option" where
  "p_scalar s =
     (if has_prefix s ''null'' then Some (JNull, drop 4 s)
      else if has_prefix s ''true'' then Some (JBool True, drop 4 s)
      else if has_prefix s ''false'' then Some (JBool False, drop 5 s)
      else (case s of c # t \<Rightarrow>
          if byte c = 34 then map_option (\<lambda>(v, r). (JStr v, r)) (p_chars t) else p_number s
        | [] \<Rightarrow> None))"

text \<open>
  Values, the elements of an array and the members of an object, each with a fuel argument
  that bounds the number of nested calls. A closing bracket ends a non-empty list after an
  element; an empty one is read by \<open>p_value\<close> itself.
\<close>

fun p_value :: "nat \<Rightarrow> string \<Rightarrow> (json \<times> string) option"
and p_elems :: "nat \<Rightarrow> string \<Rightarrow> (json list \<times> string) option"
and p_members :: "nat \<Rightarrow> string \<Rightarrow> ((string \<times> json) list \<times> string) option" where
  "p_value 0 s = None"
| "p_value (Suc n) s = (case skip_space s of [] \<Rightarrow> None | c # t \<Rightarrow>
     if c = CHR ''['' then
       (case skip_space t of [] \<Rightarrow> None | d # u \<Rightarrow>
          if d = CHR '']'' then Some (JArr [], u)
          else map_option (\<lambda>(v, r). (JArr v, r)) (p_elems n (d # u)))
     else if c = CHR ''{'' then
       (case skip_space t of [] \<Rightarrow> None | d # u \<Rightarrow>
          if d = CHR ''}'' then Some (JObj [], u)
          else map_option (\<lambda>(v, r). (JObj v, r)) (p_members n (d # u)))
     else p_scalar (c # t))"
| "p_elems 0 s = None"
| "p_elems (Suc n) s = (case p_value n s of None \<Rightarrow> None | Some (v, r) \<Rightarrow>
     (case skip_space r of [] \<Rightarrow> None | c # t \<Rightarrow>
        if c = CHR '']'' then Some ([v], t)
        else if c = CHR '','' then map_option (\<lambda>(vs, r'). (v # vs, r')) (p_elems n t)
        else None))"
| "p_members 0 s = None"
| "p_members (Suc n) s = (case skip_space s of [] \<Rightarrow> None | q # s1 \<Rightarrow>
     if byte q \<noteq> 34 then None
     else (case p_chars s1 of None \<Rightarrow> None | Some (k, s2) \<Rightarrow>
       (case skip_space s2 of [] \<Rightarrow> None | c # s3 \<Rightarrow>
          if c \<noteq> CHR '':'' then None
          else (case p_value n s3 of None \<Rightarrow> None | Some (v, r) \<Rightarrow>
            (case skip_space r of [] \<Rightarrow> None | d # t \<Rightarrow>
               if d = CHR ''}'' then Some ([(k, v)], t)
               else if d = CHR '','' then map_option (\<lambda>(ms, r'). ((k, v) # ms, r')) (p_members n t)
               else None)))))"

text \<open>\<open>json.Valid\<close> and the syntax check of \<open>json.Unmarshal\<close>: one value and white space around it.\<close>

definition json_parse :: "string \<Rightarrow> json option" where
  "json_parse s = (case p_value (2 * length s + 2) s of
     Some (v, r) \<Rightarrow> if skip_space r = [] then Some v else None | None \<Rightarrow> None)"

section \<open>The fuel of the parser\<close>

lemma length_skip_space [simp]: "length (skip_space s) \<le> length s"
  by (simp add: skip_space_def length_dropWhile_le)

lemma skip_space_Cons: "skip_space s = c # t \<Longrightarrow> length t < length s"
  using length_skip_space [of s] by simp

lemma p_chars_shorter: "p_chars s = Some (v, r) \<Longrightarrow> length r < length s"
proof (induction s arbitrary: v r rule: measure_induct_rule [of length])
  case (less s)
  have IH: "p_chars u = Some (v', r') \<Longrightarrow> length u < length s \<Longrightarrow> length r' < length s" for u v' r'
    using less.IH [of u v' r'] by simp
  show ?case
  proof (cases s)
    case Nil
    with less.prems show ?thesis by (simp add: p_chars.simps [of "[]"])
  next
    case (Cons c t)
    from less.prems have "p_chars (c # t) = Some (v, r)" by (simp add: Cons)
    then show ?thesis
      by (subst (asm) p_chars.simps)
        (auto simp: Cons simp del: drop_Suc_Cons split: if_splits list.splits option.splits prod.splits dest!: IH)
  qed
qed

lemma length_dropWhile_Cons: "length (dropWhile P t) < Suc (length t)"
  by (simp add: length_dropWhile_le less_Suc_eq_le)

lemma p_number_shorter: "p_number s = Some (v, r) \<Longrightarrow> length r < length s"
proof -
  have int: "length r < length s" if "p_int_part s = Some (v, r)" for s v r
    using that length_dropWhile_Cons
    by (auto simp: p_int_part_def split: list.splits if_splits)
  have frac: "length r \<le> length s" if "p_fraction s = Some (v, r)" for s v r
    using that length_dropWhile_le [of is_digit "tl s"]
    by (auto simp: p_fraction_def split: list.splits if_splits)
  have expo: "length r \<le> length s" if "p_exponent s = Some (v, r)" for s v r
    using that length_dropWhile_le [of is_digit "tl s"] length_dropWhile_le [of is_digit "tl (tl s)"]
    by (auto simp: p_exponent_def split: list.splits if_splits)
  assume "p_number s = Some (v, r)"
  then show ?thesis
    by (auto simp: p_number_def split: list.splits if_splits option.splits dest!: int frac expo)
qed

lemma p_scalar_shorter: "p_scalar s = Some (v, r) \<Longrightarrow> length r < length s"
  by (cases s) (auto simp: p_scalar_def has_prefix_def split: if_splits dest!: p_chars_shorter p_number_shorter)

lemma parse_shorter:
  "p_value n s = Some (v, r) \<Longrightarrow> length r < length s"
  "p_elems n s = Some (vs, r) \<Longrightarrow> length r < length s"
  "p_members n s = Some (ms, r) \<Longrightarrow> length r < length s"
proof (induction n s and n s and n s arbitrary: v r and vs r and ms r
    rule: p_value_p_elems_p_members.induct)
  case (2 n s)
  show ?case
  proof (cases "skip_space s")
    case Nil
    with "2.prems" show ?thesis by simp
  next
    case (Cons c t)
    consider "c = CHR ''[''" | "c \<noteq> CHR ''[''" "c = CHR ''{''" | "c \<noteq> CHR ''[''" "c \<noteq> CHR ''{''" by blast
    then have "length r \<le> length t"
    proof cases
      case 1
      with "2.prems" Cons "2.IH"(1) [OF Cons 1] show ?thesis
        by (cases "skip_space t") (fastforce split: if_splits dest: skip_space_Cons)+
    next
      case 2
      with "2.prems" Cons "2.IH"(2) [OF Cons 2] show ?thesis
        by (cases "skip_space t") (fastforce split: if_splits dest: skip_space_Cons)+
    next
      case 3
      with "2.prems" Cons show ?thesis by (auto dest: p_scalar_shorter)
    qed
    with skip_space_Cons [OF Cons] show ?thesis by simp
  qed
next
  case (4 n s)
  from "4.prems" obtain v r1 c t where v: "p_value n s = Some (v, r1)" and c: "skip_space r1 = c # t"
    and k: "c = CHR '']'' \<and> r = t \<or> c = CHR '','' \<and> (\<exists>ws. p_elems n t = Some (ws, r))"
    by (auto split: if_splits list.splits option.splits)
  have "length r \<le> length t"
    using k "4.IH"(2) [OF v _ c] by (auto dest: less_imp_le)
  with "4.IH"(1) [OF v] skip_space_Cons [OF c] show ?case by simp
next
  case (6 n s)
  from "6.prems" obtain q s1 k s2 c s3 v r1 d t where q: "skip_space s = q # s1" "byte q = 34"
    and k: "p_chars s1 = Some (k, s2)" and c: "skip_space s2 = c # s3" "c = CHR '':''"
    and v: "p_value n s3 = Some (v, r1)" and d: "skip_space r1 = d # t"
    and m: "d = CHR ''}'' \<and> r = t \<or> d = CHR '','' \<and> (\<exists>ms'. p_members n t = Some (ms', r))"
    by (auto split: if_splits list.splits option.splits)
  have "length r \<le> length t"
    using m "6.IH"(2) [OF q(1) _ k _ c(1) _ v _ d] q(2) c(2) by (force intro: less_imp_le)
  moreover have "length r1 < length s3"
    using "6.IH"(1) [OF q(1) _ k _ c(1) _ v] q(2) c(2) by simp
  ultimately show ?case
    using skip_space_Cons [OF q(1)] p_chars_shorter [OF k] skip_space_Cons [OF c(1)] skip_space_Cons [OF d]
    by simp
qed simp_all

text \<open>
  Each call of the array and object loops consumes at least a byte for two units of fuel, so
  twice the length of the text is enough: more fuel never changes what is read.
\<close>

lemma fuel_value_step:
  assumes "\<And>t. length t < length s \<Longrightarrow> p_elems n t = p_elems m t"
    and "\<And>t. length t < length s \<Longrightarrow> p_members n t = p_members m t"
  shows "p_value (Suc n) s = p_value (Suc m) s"
proof (cases "skip_space s")
  case (Cons c t)
  have "length (d # u) < length s" if "skip_space t = d # u" for d u
    using length_skip_space [of t] skip_space_Cons [OF Cons] that by simp
  with assms Cons show ?thesis by (cases "skip_space t") simp_all
qed simp

lemma fuel_elems_step:
  assumes v: "p_value n s = p_value m s" and es: "\<And>t. length t < length s \<Longrightarrow> p_elems n t = p_elems m t"
  shows "p_elems (Suc n) s = p_elems (Suc m) s"
proof (cases "p_value n s")
  case (Some vr)
  then obtain a r1 where a: "p_value n s = Some (a, r1)" by (cases vr) auto
  have "p_elems n t = p_elems m t" if "skip_space r1 = c # t" for c t
    using es parse_shorter(1) [OF a] skip_space_Cons [OF that] by simp
  with a v show ?thesis by (cases "skip_space r1") simp_all
qed (use v in simp)

lemma fuel_members_step:
  assumes v: "\<And>t. length t < length s \<Longrightarrow> p_value n t = p_value m t"
    and ms: "\<And>t. length t < length s \<Longrightarrow> p_members n t = p_members m t"
  shows "p_members (Suc n) s = p_members (Suc m) s"
proof (cases "skip_space s")
  case q: (Cons q s1)
  show ?thesis
  proof (cases "byte q = 34 \<and> p_chars s1 \<noteq> None")
    case False
    with q show ?thesis by (cases "p_chars s1") auto
  next
    case True
    then obtain k s2 where k: "byte q = 34" "p_chars s1 = Some (k, s2)" by auto
    show ?thesis
    proof (cases "skip_space s2")
      case Nil
      with q k show ?thesis by simp
    next
      case (Cons c s3)
      have short: "length s3 < length s"
        using skip_space_Cons [OF q] skip_space_Cons [OF Cons] p_chars_shorter [OF k(2)] by simp
      have after: "p_members n t = p_members m t" if "p_value n s3 = Some (w, r1)" "skip_space r1 = d # t" for w r1 d t
        using ms short parse_shorter(1) [OF that(1)] skip_space_Cons [OF that(2)] by simp
      show ?thesis
      proof (cases "p_value n s3")
        case None
        with v [OF short] q k Cons show ?thesis by simp
      next
        case (Some vr)
        then obtain w r1 where w: "p_value n s3 = Some (w, r1)" by (cases vr) auto
        then have "p_value m s3 = Some (w, r1)" using v [OF short] by simp
        with w after [OF w] q k Cons show ?thesis by (cases "skip_space r1") simp_all
      qed
    qed
  qed
qed simp

lemma fuel_enough:
  "2 * length s < n \<Longrightarrow> 2 * length s < m \<Longrightarrow> p_value n s = p_value m s"
  "2 * length s + 1 < n \<Longrightarrow> 2 * length s + 1 < m \<Longrightarrow> p_elems n s = p_elems m s"
  "2 * length s + 1 < n \<Longrightarrow> 2 * length s + 1 < m \<Longrightarrow> p_members n s = p_members m s"
proof (induction n arbitrary: s m)
  case (Suc n)
  {
    case 1
    then obtain m' where m: "m = Suc m'" by (cases m) simp_all
    have "p_elems n t = p_elems m' t" "p_members n t = p_members m' t" if "length t < length s" for t
      using Suc.IH(2, 3) [of t m'] that 1 m by simp_all
    then show ?case unfolding m by (rule fuel_value_step)
  next
    case 2
    then obtain m' where m: "m = Suc m'" by (cases m) simp_all
    have v: "p_value n s = p_value m' s" using Suc.IH(1) [of s m'] 2 m by simp
    have "p_elems n t = p_elems m' t" if "length t < length s" for t using Suc.IH(2) [of t m'] that 2 m by simp
    with v show ?case unfolding m by (rule fuel_elems_step)
  next
    case 3
    then obtain m' where m: "m = Suc m'" by (cases m) simp_all
    have "p_value n t = p_value m' t" "p_members n t = p_members m' t" if "length t < length s" for t
      using Suc.IH(1, 3) [of t m'] that 3 m by simp_all
    then show ?case unfolding m by (rule fuel_members_step)
  }
qed simp_all

corollary json_parse_fuel:
  assumes "2 * length s < n"
  shows "json_parse s = (case p_value n s of
     Some (v, r) \<Rightarrow> if skip_space r = [] then Some v else None | None \<Rightarrow> None)"
  using fuel_enough(1) [of s "2 * length s + 2" n] assms by (simp add: json_parse_def)

section \<open>Decoding into Go types\<close>

text \<open>
  Each function is \<open>json.Unmarshal\<close> into a zero value of one Go type: \<open>None\<close> where it
  returns an error. JSON null leaves the zero value.
\<close>

definition obj_map :: "(string \<times> 'a) list \<Rightarrow> (string, 'a) gomap" where
  "obj_map ms = foldl (\<lambda>m (k, v). gomap_put m k v) [] ms"

lemma obj_map_wf [simp]: "gomap_wf (obj_map ms)"
proof -
  have "gomap_wf (foldl (\<lambda>m (k, v). gomap_put m k v) m ms)" if "gomap_wf m" for m :: "(string, 'a) gomap"
    using that by (induction ms arbitrary: m) (auto simp: case_prod_beta)
  then show ?thesis by (simp add: obj_map_def)
qed

lemma set_obj_map: "set (obj_map ms) \<subseteq> set ms"
proof -
  have put: "set (gomap_put m k v) \<subseteq> insert (k, v) (set m)" for m :: "(string, 'a) gomap" and k v
    by (auto simp: gomap_put_def split: if_splits)
  have "set (foldl (\<lambda>m (k, v). gomap_put m k v) m ms) \<subseteq> set m \<union> set ms" for m :: "(string, 'a) gomap"
  proof (induction ms arbitrary: m)
    case (Cons kv ms)
    obtain k v where kv: "kv = (k, v)" by (cases kv)
    have "set (foldl (\<lambda>m (k, v). gomap_put m k v) m (kv # ms)) \<subseteq> set (gomap_put m k v) \<union> set ms"
      using Cons.IH [of "gomap_put m k v"] by (simp add: kv)
    also have "\<dots> \<subseteq> set m \<union> set (kv # ms)" using put [of m k v] by (auto simp: kv)
    finally show ?case .
  qed simp
  from this [of "[]"] show ?thesis by (simp add: obj_map_def)
qed

lemma keys_obj_map [simp]: "fst ` set (obj_map ms) = fst ` set ms"
proof -
  have "fst ` set (foldl (\<lambda>m (k, v). gomap_put m k v) m ms) = fst ` set m \<union> fst ` set ms" for m :: "(string, 'a) gomap"
  proof (induction ms arbitrary: m)
    case (Cons kv ms)
    obtain k v where kv: "kv = (k, v)" by (cases kv)
    have "fst ` set (gomap_put m k v) = insert k (fst ` set m)"
      using arg_cong [OF fst_gomap_put [of m k v], of set] by (auto split: if_splits)
    with Cons show ?case by (simp add: kv)
  qed simp
  from this [of "[]"] show ?thesis by (simp add: obj_map_def)
qed

fun as_string :: "json \<Rightarrow> string option" where
  "as_string JNull = Some []"
| "as_string (JStr s) = Some s"
| "as_string _ = None"

text \<open>\<open>[]string\<close>: \<open>Some None\<close> is the nil slice JSON null decodes to.\<close>

fun as_strings_nil :: "json \<Rightarrow> string list option option" where
  "as_strings_nil JNull = Some None"
| "as_strings_nil (JArr vs) = (if list_all (\<lambda>v. as_string v \<noteq> None) vs
     then Some (Some (map (\<lambda>v. the (as_string v)) vs)) else None)"
| "as_strings_nil _ = None"

definition or_empty :: "'a list option \<Rightarrow> 'a list" where
  "or_empty x = (case x of None \<Rightarrow> [] | Some xs \<Rightarrow> xs)"

definition as_strings :: "json \<Rightarrow> string list option" where
  "as_strings v = map_option or_empty (as_strings_nil v)"

text \<open>\<open>[]json.RawMessage\<close> and \<open>map[string]json.RawMessage\<close>, nil for null.\<close>

fun as_raws :: "json \<Rightarrow> json list option option" where
  "as_raws JNull = Some None"
| "as_raws (JArr vs) = Some (Some vs)"
| "as_raws _ = None"

fun as_raw_map :: "json \<Rightarrow> (string, json) gomap option option" where
  "as_raw_map JNull = Some None"
| "as_raw_map (JObj ms) = Some (Some (obj_map ms))"
| "as_raw_map _ = None"

text \<open>\<open>[]map[string]json.RawMessage\<close>: a nil map has no keys, like an empty one.\<close>

definition as_raw_maps :: "json \<Rightarrow> (string, json) gomap list option" where
  "as_raw_maps v = (case as_raws v of None \<Rightarrow> None
     | Some vs \<Rightarrow> if list_all (\<lambda>w. as_raw_map w \<noteq> None) (or_empty vs)
         then Some (map (\<lambda>w. or_empty (the (as_raw_map w))) (or_empty vs)) else None)"

text \<open>
  \<open>map[string]string\<close> and \<open>map[string][]string\<close>: every member must decode, also one that
  a later member of the same name replaces.
\<close>

definition as_map_of :: "(json \<Rightarrow> 'a option) \<Rightarrow> json \<Rightarrow> (string, 'a) gomap option" where
  "as_map_of f v = (case v of JNull \<Rightarrow> Some []
     | JObj ms \<Rightarrow> if list_all (\<lambda>(k, w). f w \<noteq> None) ms
         then Some (obj_map (map (\<lambda>(k, w). (k, the (f w))) ms)) else None
     | _ \<Rightarrow> None)"

lemma as_map_of_wf: "as_map_of f v = Some m \<Longrightarrow> gomap_wf m"
  by (auto simp: as_map_of_def split: json.splits if_splits)

text \<open>\<open>int\<close> takes an integer literal within 64 bits, \<open>bool\<close> a boolean.\<close>

definition int_literal :: "string \<Rightarrow> int option" where
  "int_literal s = (case s of [] \<Rightarrow> None | c # r \<Rightarrow>
     if c = CHR ''-'' then (case parse_digits r of None \<Rightarrow> None | Some n \<Rightarrow> in_int64 (- int n))
     else (case parse_digits s of None \<Rightarrow> None | Some n \<Rightarrow> in_int64 (int n)))"

fun as_int :: "json \<Rightarrow> int option" where
  "as_int JNull = Some 0"
| "as_int (JNum s) = int_literal s"
| "as_int _ = None"

fun as_bool :: "json \<Rightarrow> bool option" where
  "as_bool JNull = Some False"
| "as_bool (JBool b) = Some b"
| "as_bool _ = None"

end
