(* ===== verification/Go_Utf8.thy ===== *)
theory Go_Utf8
  imports Go_Json
begin

text \<open>
  Runes as bytes: which byte sequences are one valid rune, the value of such a sequence, and the
  inverse laws between \<open>utf8.EncodeRune\<close> and decoding that the printers of strings rely on.
\<close>

section \<open>The bytes of one rune\<close>

definition rune_bytes :: "string \<Rightarrow> bool" where
  "rune_bytes bs \<longleftrightarrow> bs \<noteq> [] \<and> decode_rune bs = (length bs, True)"

definition rune_value :: "string \<Rightarrow> nat" where
  "rune_value bs = (case bs of
     [a] \<Rightarrow> byte a
   | [a, b] \<Rightarrow> byte a mod 32 * 64 + byte b mod 64
   | [a, b, c] \<Rightarrow> byte a mod 16 * 4096 + byte b mod 64 * 64 + byte c mod 64
   | [a, b, c, d] \<Rightarrow> byte a mod 8 * 262144 + byte b mod 64 * 4096 + byte c mod 64 * 64 + byte d mod 64
   | _ \<Rightarrow> 0)"

lemma decode_rune_ascii: "byte a < 128 \<Longrightarrow> decode_rune (a # s) = (1, True)"
  by simp

lemma decode_rune_Cons: "byte a < 128 \<or> fst (decode_rune (a # s)) \<ge> 1"
  using decode_rune_pos [of "a # s"] by auto

lemma rune_bytes_cases:
  assumes "decode_rune s = (n, True)" and "s \<noteq> []"
  obtains (one) a t where "s = a # t" "n = 1" "byte a < 128"
  | (two) a b t where "s = a # b # t" "n = 2" "0xC2 \<le> byte a" "byte a \<le> 0xDF" "cont_byte b"
  | (three) a b c t where "s = a # b # c # t" "n = 3" "0xE0 \<le> byte a" "byte a \<le> 0xEF" "cont_byte b" "cont_byte c"
      "byte a = 0xE0 \<Longrightarrow> 0xA0 \<le> byte b" "byte a = 0xED \<Longrightarrow> byte b \<le> 0x9F"
  | (four) a b c d t where "s = a # b # c # d # t" "n = 4" "0xF0 \<le> byte a" "byte a \<le> 0xF4" "cont_byte b" "cont_byte c" "cont_byte d"
      "byte a = 0xF0 \<Longrightarrow> 0x90 \<le> byte b" "byte a = 0xF4 \<Longrightarrow> byte b \<le> 0x8F"
proof -
  obtain a u where s: "s = a # u" using assms(2) by (cases s) auto
  show ?thesis
  proof (cases "byte a < 128")
    case True
    with assms s show ?thesis by (intro one) auto
  next
    case a: False
    show ?thesis
    proof (cases "byte a \<le> 0xDF")
      case True
      then obtain b t where "u = b # t" using assms s a by (cases u) (auto split: if_splits)
      with assms s a True show ?thesis by (intro two [of a b t]) (auto split: if_splits)
    next
      case 2: False
      show ?thesis
      proof (cases "byte a \<le> 0xEF")
        case True
        obtain b c t where u: "u = b # c # t"
          using assms s a 2 True by (cases u; cases "tl u") (auto split: if_splits)
        have "cont_byte b \<and> cont_byte c \<and> (byte a = 0xE0 \<longrightarrow> 0xA0 \<le> byte b) \<and> (byte a = 0xED \<longrightarrow> byte b \<le> 0x9F) \<and> n = 3"
          using assms(1) s a 2 True u by (simp split: if_split_asm)
        with s u 2 True show ?thesis by (intro three [of a b c t]) auto
      next
        case 3: False
        then have 4: "byte a \<le> 0xF4" using assms s by (auto split: if_splits)
        obtain b c d t where u: "u = b # c # d # t"
          using assms s 3 4 by (cases u; cases "tl u"; cases "tl (tl u)") (auto split: if_splits)
        have "cont_byte b \<and> cont_byte c \<and> cont_byte d \<and> (byte a = 0xF0 \<longrightarrow> 0x90 \<le> byte b) \<and> (byte a = 0xF4 \<longrightarrow> byte b \<le> 0x8F) \<and> n = 4"
          using assms(1) s 3 4 u by (simp split: if_split_asm)
        with s u 3 4 show ?thesis by (intro four [of a b c d t]) auto
      qed
    qed
  qed
qed

lemma decode_rune_append: "rune_bytes bs \<Longrightarrow> decode_rune (bs @ t) = (length bs, True)"
proof -
  assume r: "rune_bytes bs"
  then have d: "decode_rune bs = (length bs, True)" "bs \<noteq> []" by (auto simp: rune_bytes_def)
  from d show ?thesis by (cases rule: rune_bytes_cases) auto
qed

lemma rune_bytes_take:
  assumes "decode_rune s = (n, True)" and "s \<noteq> []"
  shows "rune_bytes (take n s)" "n \<le> length s" "0 < n"
proof -
  show "rune_bytes (take n s)" "n \<le> length s" "0 < n"
    using assms by (cases rule: rune_bytes_cases; auto simp: rune_bytes_def)+
qed

lemma decode_rune_invalid: "decode_rune s = (n, False) \<Longrightarrow> n = 1 \<and> (\<exists>c t. s = c # t \<and> 128 \<le> byte c)"
  by (cases s) (auto split: if_splits list.splits)

text \<open>A rune is one ASCII byte, or starts with a byte from 0xC2 up.\<close>

lemma rune_bytes_head:
  assumes "rune_bytes bs"
  shows "(\<exists>c. bs = [c] \<and> byte c < 128) \<or> (\<exists>a b t. bs = a # b # t \<and> 128 \<le> byte a \<and> (\<forall>x \<in> set bs. 128 \<le> byte x))"
proof -
  from assms have "decode_rune bs = (length bs, True)" "bs \<noteq> []" by (auto simp: rune_bytes_def)
  then show ?thesis by (cases rule: rune_bytes_cases) (auto simp: cont_byte_def)
qed

section \<open>Induction over the runes of a string\<close>

lemma runes_Nil [simp]: "runes [] = []"
  by (simp add: runes.simps)

lemma runes_valid: "rune_bytes bs \<Longrightarrow> runes (bs @ s) = (bs, True) # runes s"
  using decode_rune_append [of bs s] by (subst runes.simps) (auto simp: rune_bytes_def)

lemma runes_invalid: "decode_rune (c # s) = (1, False) \<Longrightarrow> runes (c # s) = ([c], False) # runes s"
  by (subst runes.simps) simp

lemma rune_induct [case_names Nil Valid Invalid]:
  assumes "P []"
    and "\<And>bs s. rune_bytes bs \<Longrightarrow> P s \<Longrightarrow> P (bs @ s)"
    and "\<And>c s. decode_rune (c # s) = (1, False) \<Longrightarrow> 128 \<le> byte c \<Longrightarrow> P s \<Longrightarrow> P (c # s)"
  shows "P s"
proof (induction s rule: measure_induct_rule [of length])
  case (less s)
  show ?case
  proof (cases s)
    case Nil
    with assms(1) show ?thesis by simp
  next
    case (Cons c t)
    obtain n ok where d: "decode_rune s = (n, ok)" by (cases "decode_rune s")
    show ?thesis
    proof (cases ok)
      case True
      with d Cons have r: "rune_bytes (take n s)" "0 < n" "n \<le> length s" using rune_bytes_take [of s n] by auto
      then have "P (drop n s)" using Cons by (intro less) simp
      from assms(2) [OF r(1) this] show ?thesis by simp
    next
      case False
      with d decode_rune_invalid [of s n] Cons have "decode_rune (c # t) = (1, False)" "128 \<le> byte c" by auto
      with assms(3) less [of t] Cons show ?thesis by simp
    qed
  qed
qed

section \<open>Encoding is the inverse of decoding\<close>

lemma lead_mod:
  fixes x :: nat
  assumes "d * j \<le> x" and "x < d * Suc j"
  shows "d * j + x mod d = x"
proof -
  have "x div d = j" using assms by (intro div_nat_eqI) (simp_all add: mult.commute)
  then show ?thesis using mult_div_mod_eq [of d x] by simp
qed

lemma lead_bits:
  fixes x :: nat
  shows "0x80 \<le> x \<Longrightarrow> x \<le> 0xBF \<Longrightarrow> 0x80 + x mod 64 = x"
    "0xC0 \<le> x \<Longrightarrow> x \<le> 0xDF \<Longrightarrow> 0xC0 + x mod 32 = x"
    "0xE0 \<le> x \<Longrightarrow> x \<le> 0xEF \<Longrightarrow> 0xE0 + x mod 16 = x"
    "0xF0 \<le> x \<Longrightarrow> x \<le> 0xF4 \<Longrightarrow> 0xF0 + x mod 8 = x"
  using lead_mod [of 64 2 x] lead_mod [of 32 6 x] lead_mod [of 16 14 x] lead_mod [of 8 30 x] by simp_all

lemma last_six:
  fixes v x r :: nat
  assumes "v = x * 64 + r" and "r < 64"
  shows "v mod 64 = r" "v div 64 = x"
  using assms by simp_all

lemma div_by_six:
  fixes v :: nat
  shows "v div 4096 = v div 64 div 64" "v div 262144 = v div 64 div 64 div 64"
  by (simp_all add: div_mult2_eq [symmetric])

lemma encode_rune_value:
  assumes "rune_bytes bs"
  shows "encode_rune (rune_value bs) = bs" "rune_value bs \<le> 0x10FFFF"
    "\<not> (0xD800 \<le> rune_value bs \<and> rune_value bs \<le> 0xDFFF)"
proof -
  from assms have d: "decode_rune bs = (length bs, True)" "bs \<noteq> []" by (auto simp: rune_bytes_def)
  have char: "char_of n = c" if "n = byte c" for n and c :: char
    using that by simp
  from d have "encode_rune (rune_value bs) = bs \<and> rune_value bs \<le> 0x10FFFF \<and> \<not> (0xD800 \<le> rune_value bs \<and> rune_value bs \<le> 0xDFFF)"
  proof (cases rule: rune_bytes_cases)
    case (one a t)
    then show ?thesis by (simp add: rune_value_def encode_rune_def)
  next
    case (two a b t)
    define p q v where "p = byte a mod 32" and "q = byte b mod 64" and "v = rune_value bs"
    have pq: "0xC0 + p = byte a" "0x80 + q = byte b" "q < 64"
      using two by (simp_all add: p_def q_def cont_byte_def lead_bits)
    then have p: "2 \<le> p" "p < 32" using two by simp_all
    have v: "v = p * 64 + q" using two by (simp add: rune_value_def p_def q_def v_def)
    note six = last_six [OF v pq(3)]
    have "128 \<le> v" "v < 0x800" using v p pq(3) by simp_all
    with six pq two show ?thesis unfolding v_def [symmetric] by (simp add: encode_rune_def char)
  next
    case (three a b c t)
    define p q r v where "p = byte a mod 16" and "q = byte b mod 64" and "r = byte c mod 64" and "v = rune_value bs"
    have pq: "0xE0 + p = byte a" "0x80 + q = byte b" "0x80 + r = byte c" "q < 64" "r < 64"
      using three by (simp_all add: p_def q_def r_def v_def cont_byte_def lead_bits)
    then have p: "p < 16" "p = 0 \<Longrightarrow> 32 \<le> q" "p = 13 \<Longrightarrow> q < 32" using three by (simp_all add: p_def)
    have v: "v = (p * 64 + q) * 64 + r" using three by (simp add: rune_value_def p_def q_def r_def v_def)
    note six = last_six [OF v pq(5)] last_six [OF refl pq(4), of p]
    have "0x800 \<le> v \<and> v < 0x10000 \<and> \<not> (0xD800 \<le> v \<and> v \<le> 0xDFFF)"
      using v p pq(4,5) by (cases "p = 0"; cases "p < 13"; cases "p = 13") simp_all
    with six pq three show ?thesis unfolding v_def [symmetric] by (simp add: encode_rune_def char div_by_six)
  next
    case (four a b c e t)
    define p q r s v where "p = byte a mod 8" and "q = byte b mod 64" and "r = byte c mod 64" and "s = byte e mod 64"
      and "v = rune_value bs"
    have pq: "0xF0 + p = byte a" "0x80 + q = byte b" "0x80 + r = byte c" "0x80 + s = byte e" "q < 64" "r < 64" "s < 64"
      using four by (simp_all add: p_def q_def r_def s_def cont_byte_def lead_bits)
    then have p: "p \<le> 4" "p = 0 \<Longrightarrow> 16 \<le> q" "p = 4 \<Longrightarrow> q < 16" using four by auto
    have v: "v = ((p * 64 + q) * 64 + r) * 64 + s"
      using four by (simp add: rune_value_def p_def q_def r_def s_def v_def)
    note six = last_six [OF v pq(7)] last_six [OF refl pq(6), of "p * 64 + q"] last_six [OF refl pq(5), of p]
    have "0x10000 \<le> v \<and> v \<le> 0x10FFFF"
      using v p pq(5-7) by (cases "p = 0"; cases "p < 4") simp_all
    with six pq four show ?thesis unfolding v_def [symmetric] by (simp add: encode_rune_def char div_by_six)
  qed
  then show "encode_rune (rune_value bs) = bs" "rune_value bs \<le> 0x10FFFF"
    "\<not> (0xD800 \<le> rune_value bs \<and> rune_value bs \<le> 0xDFFF)" by auto
qed

end
