(* ===== verification/Go_Quote.thy ===== *)
theory Go_Quote
  imports Go_Utf8
begin

text \<open>
  \<open>strconv.Quote\<close> and \<open>strconv.Unquote\<close> for double quotes. Which runes beyond ASCII are printable is
  a table of the Unicode package: a parameter that decides on the bytes of a rune.
\<close>

abbreviation backslash :: char where "backslash \<equiv> char_of (92::nat)"
abbreviation quote_mark :: char where "quote_mark \<equiv> char_of (34::nat)"

section \<open>Quoting\<close>

text \<open>A number with a fixed count of hexadecimal digits.\<close>

fun hex_digits :: "nat \<Rightarrow> nat \<Rightarrow> string" where
  "hex_digits 0 v = []"
| "hex_digits (Suc n) v = hex_digits n (v div 16) @ [hex_char (v mod 16)]"

definition control_escape :: "nat \<Rightarrow> char option" where
  "control_escape b =
     (if b = 7 then Some (CHR ''a'') else if b = 8 then Some (CHR ''b'') else if b = 12 then Some (CHR ''f'')
      else if b = 10 then Some (CHR ''n'') else if b = 13 then Some (CHR ''r'') else if b = 9 then Some (CHR ''t'')
      else if b = 11 then Some (CHR ''v'') else None)"

definition go_quote_rune :: "(string \<Rightarrow> bool) \<Rightarrow> string \<times> bool \<Rightarrow> string" where
  "go_quote_rune printable r = (case r of (bs, ok) \<Rightarrow>
     if \<not> ok then backslash # CHR ''x'' # hex_digits 2 (byte (hd bs))
     else (case bs of
         [c] \<Rightarrow>
           if byte c = 34 \<or> byte c = 92 then [backslash, c]
           else if 32 \<le> byte c \<and> byte c < 127 then [c]
           else (case control_escape (byte c) of Some e \<Rightarrow> [backslash, e]
             | None \<Rightarrow> backslash # CHR ''x'' # hex_digits 2 (byte c))
       | _ \<Rightarrow>
           if printable bs then bs
           else if rune_value bs < 0x10000 then backslash # CHR ''u'' # hex_digits 4 (rune_value bs)
           else backslash # CHR ''U'' # hex_digits 8 (rune_value bs)))"

definition quote_body :: "(string \<Rightarrow> bool) \<Rightarrow> string \<Rightarrow> string" where
  "quote_body printable s = concat (map (go_quote_rune printable) (runes s))"

definition go_quote :: "(string \<Rightarrow> bool) \<Rightarrow> string \<Rightarrow> string" where
  "go_quote printable s = quote_mark # quote_body printable s @ [quote_mark]"

section \<open>Unquoting\<close>

definition valid_rune :: "nat \<Rightarrow> bool" where
  "valid_rune v \<longleftrightarrow> v < 0xD800 \<or> (0xDFFF < v \<and> v \<le> 0x10FFFF)"

definition read_hex :: "nat \<Rightarrow> string \<Rightarrow> nat option" where
  "read_hex n s = (if length s < n \<or> \<not> list_all is_hex (take n s) then None else Some (hex_number (take n s)))"

definition is_octal :: "char \<Rightarrow> bool" where
  "is_octal c \<longleftrightarrow> 48 \<le> byte c \<and> byte c \<le> 55"

definition letter_escape :: "char \<Rightarrow> char option" where
  "letter_escape e =
     (if e = CHR ''a'' then Some (char_of (7::nat)) else if e = CHR ''b'' then Some (char_of (8::nat))
      else if e = CHR ''f'' then Some (char_of (12::nat)) else if e = CHR ''n'' then Some (char_of (10::nat))
      else if e = CHR ''r'' then Some (char_of (13::nat)) else if e = CHR ''t'' then Some (char_of (9::nat))
      else if e = CHR ''v'' then Some (char_of (11::nat))
      else if byte e = 92 \<or> byte e = 34 then Some e else None)"

text \<open>An escape after its backslash: its bytes and how many characters it takes.\<close>

definition read_escape :: "string \<Rightarrow> (string \<times> nat) option" where
  "read_escape t = (case t of [] \<Rightarrow> None | e # u \<Rightarrow>
     if e = CHR ''x'' then (case read_hex 2 u of None \<Rightarrow> None | Some v \<Rightarrow> Some ([char_of v], 3))
     else if e = CHR ''u'' then (case read_hex 4 u of None \<Rightarrow> None | Some v \<Rightarrow>
       if valid_rune v then Some (encode_rune v, 5) else None)
     else if e = CHR ''U'' then (case read_hex 8 u of None \<Rightarrow> None | Some v \<Rightarrow>
       if valid_rune v then Some (encode_rune v, 9) else None)
     else if is_octal e then
       (case u of a # b # _ \<Rightarrow>
          if is_octal a \<and> is_octal b \<and> (byte e - 48) * 64 + (byte a - 48) * 8 + (byte b - 48) \<le> 255
          then Some ([char_of ((byte e - 48) * 64 + (byte a - 48) * 8 + (byte b - 48))], 3) else None
        | _ \<Rightarrow> None)
     else (case letter_escape e of None \<Rightarrow> None | Some c \<Rightarrow> Some ([c], 1)))"

function unquote_body :: "string \<Rightarrow> string option" where
  "unquote_body s = (case s of [] \<Rightarrow> Some [] | c # t \<Rightarrow>
     if byte c = 10 \<or> byte c = 34 then None
     else if byte c \<ge> 0x80 then
       (let (n, ok) = decode_rune s in
        case unquote_body (drop (max 1 n) s) of None \<Rightarrow> None | Some r \<Rightarrow> Some ((if ok then take n s else replacement) @ r))
     else if byte c \<noteq> 92 then (case unquote_body t of None \<Rightarrow> None | Some r \<Rightarrow> Some (c # r))
     else (case read_escape t of None \<Rightarrow> None
       | Some (bs, n) \<Rightarrow> (case unquote_body (drop n t) of None \<Rightarrow> None | Some r \<Rightarrow> Some (bs @ r))))"
  by pat_completeness auto
termination
  by (relation "measure length") (auto split: prod.splits)

declare unquote_body.simps [simp del]

definition go_unquote :: "string \<Rightarrow> string option" where
  "go_unquote s = (if length s < 2 \<or> hd s \<noteq> quote_mark \<or> last s \<noteq> quote_mark then None else unquote_body (butlast (tl s)))"

section \<open>Unquoting a quoted string\<close>

lemma hex_char_value:
  assumes "d < 16"
  shows "is_hex (hex_char d)" "hex_value (hex_char d) = d"
  using assms by (auto simp: is_hex_def hex_value_def hex_char_def is_digit_def)

lemma length_hex_digits [simp]: "length (hex_digits n v) = n"
  by (induction n arbitrary: v) simp_all

lemma is_hex_digits: "list_all is_hex (hex_digits n v)"
  by (induction n arbitrary: v) (simp_all add: hex_char_value)

lemma hex_number_digits: "v < 16 ^ n \<Longrightarrow> hex_number (hex_digits n v) = v"
proof (induction n arbitrary: v)
  case (Suc n)
  then have "v div 16 < 16 ^ n" by (simp add: less_mult_imp_div_less mult.commute)
  from Suc.IH [OF this] show ?case by (simp add: hex_number_def hex_char_value)
qed (simp add: hex_number_def)

lemma read_hex_digits: "v < 16 ^ n \<Longrightarrow> read_hex n (hex_digits n v @ t) = Some v"
  by (simp add: read_hex_def is_hex_digits hex_number_digits)

lemma prefix_one: "(@) [c] = (#) c"
  by (rule ext) simp

lemma unquote_Nil [simp]: "unquote_body [] = Some []"
  by (simp add: unquote_body.simps)

lemma unquote_plain:
  "byte c < 128 \<Longrightarrow> byte c \<noteq> 10 \<Longrightarrow> byte c \<noteq> 34 \<Longrightarrow> byte c \<noteq> 92 \<Longrightarrow>
     unquote_body (c # t) = map_option ((#) c) (unquote_body t)"
  by (subst unquote_body.simps) (simp split: option.split)

lemma unquote_escape:
  "read_escape t = Some (bs, n) \<Longrightarrow> unquote_body (backslash # t) = map_option ((@) bs) (unquote_body (drop n t))"
  by (subst unquote_body.simps) (simp split: option.split)

lemma unquote_rune:
  assumes "rune_bytes bs" and "128 \<le> byte (hd bs)"
  shows "unquote_body (bs @ t) = map_option ((@) bs) (unquote_body t)"
proof -
  obtain a b where bs: "bs = a # b" using assms by (cases bs) (simp_all add: rune_bytes_def)
  have "byte a \<noteq> 10" "byte a \<noteq> 34" "byte a \<noteq> 92" "128 \<le> byte a" using assms(2) bs by auto
  moreover have "decode_rune (a # b @ t) = (Suc (length b), True)" using decode_rune_append [OF assms(1)] bs by simp
  ultimately show ?thesis unfolding bs
    by (subst unquote_body.simps) (simp del: decode_rune.simps split: option.split)
qed

text \<open>The escapes that printing uses read back as the bytes they stand for.\<close>

lemma read_escape_x: "v < 256 \<Longrightarrow> read_escape (CHR ''x'' # hex_digits 2 v @ t) = Some ([char_of v], 3)"
  by (simp add: read_escape_def read_hex_digits)

lemma read_escape_u: "v < 0x10000 \<Longrightarrow> valid_rune v \<Longrightarrow> read_escape (CHR ''u'' # hex_digits 4 v @ t) = Some (encode_rune v, 5)"
  by (simp add: read_escape_def read_hex_digits)

lemma read_escape_U: "v \<le> 0x10FFFF \<Longrightarrow> valid_rune v \<Longrightarrow> read_escape (CHR ''U'' # hex_digits 8 v @ t) = Some (encode_rune v, 9)"
  by (simp add: read_escape_def read_hex_digits)

lemma byte_is:
  "byte c = n \<Longrightarrow> c = char_of n"
  by auto

lemma read_control_escape: "control_escape (byte c) = Some e \<Longrightarrow> read_escape (e # t) = Some ([c], 1)"
  by (simp add: control_escape_def split: if_split_asm; drule byte_is; hypsubst; simp add: read_escape_def is_octal_def letter_escape_def)

lemma read_punct_escape: "byte c = 34 \<or> byte c = 92 \<Longrightarrow> read_escape (c # t) = Some ([c], 1)"
  by (elim disjE; drule byte_is; hypsubst; simp add: read_escape_def is_octal_def letter_escape_def char_of_def bit_0)

lemma unquote_quoted_valid:
  assumes "rune_bytes bs"
  shows "unquote_body (go_quote_rune printable (bs, True) @ t) = map_option ((@) bs) (unquote_body t)"
  using rune_bytes_head [OF assms]
proof (elim disjE exE conjE)
  fix c
  assume bs: "bs = [c]" "byte c < 128"
  consider "byte c = 34 \<or> byte c = 92" | "byte c \<noteq> 34" "byte c \<noteq> 92" "32 \<le> byte c \<and> byte c < 127"
    | e where "byte c \<noteq> 34" "byte c \<noteq> 92" "\<not> (32 \<le> byte c \<and> byte c < 127)" "control_escape (byte c) = Some e"
    | "byte c \<noteq> 34" "byte c \<noteq> 92" "\<not> (32 \<le> byte c \<and> byte c < 127)" "control_escape (byte c) = None"
    by (cases "control_escape (byte c)") auto
  then show ?thesis
  proof cases
    case 1
    with unquote_escape [OF read_punct_escape [OF 1]] show ?thesis by (simp add: go_quote_rune_def bs)
  next
    case 2
    then have "byte c \<noteq> 10" by simp
    with 2 bs unquote_plain [of c t] show ?thesis by (simp add: go_quote_rune_def bs prefix_one)
  next
    case 3
    with unquote_escape [OF read_control_escape [OF 3(4)]] show ?thesis by (auto simp: go_quote_rune_def bs)
  next
    case 4
    with unquote_escape [OF read_escape_x [of "byte c" t]] show ?thesis by (auto simp: go_quote_rune_def bs)
  qed
next
  fix a b u
  assume bs: "bs = a # b # u" "128 \<le> byte a"
  note enc = encode_rune_value [OF assms]
  have valid: "valid_rune (rune_value bs)" using enc(2,3) by (auto simp: valid_rune_def)
  show ?thesis
  proof (cases "printable bs")
    case True
    with unquote_rune [OF assms, of t] bs show ?thesis by (simp add: go_quote_rune_def)
  next
    case False
    show ?thesis
    proof (cases "rune_value bs < 0x10000")
      case True
      with unquote_escape [OF read_escape_u [OF True valid, of t]] False enc(1) bs
      show ?thesis by (simp add: go_quote_rune_def)
    next
      case False
      with unquote_escape [OF read_escape_U [OF enc(2) valid, of t]] \<open>\<not> printable bs\<close> enc(1) bs
      show ?thesis by (simp add: go_quote_rune_def)
    qed
  qed
qed

lemma unquote_quoted_invalid:
  "unquote_body (go_quote_rune printable ([c], False) @ t) = map_option ((#) c) (unquote_body t)"
  using unquote_escape [OF read_escape_x [of "byte c" t]] by (simp add: go_quote_rune_def prefix_one)

lemma unquote_quote_body: "unquote_body (quote_body printable s) = Some s"
proof (induction s rule: rune_induct)
  case Nil
  show ?case by (simp add: quote_body_def)
next
  case (Valid bs s)
  with unquote_quoted_valid [OF Valid(1)] show ?case by (simp add: quote_body_def runes_valid)
next
  case (Invalid c s)
  with unquote_quoted_invalid show ?case by (simp add: quote_body_def runes_invalid)
qed

theorem unquote_quote: "go_unquote (go_quote printable s) = Some s"
  using unquote_quote_body [of printable s] by (simp add: go_unquote_def go_quote_def butlast_append)

section \<open>The bytes of a quoted string\<close>

text \<open>A piece of a quoted string that a scan for the closing quote passes over.\<close>

definition quoted_piece :: "string \<Rightarrow> bool" where
  "quoted_piece u \<longleftrightarrow> (\<forall>c \<in> set u. 32 \<le> byte c) \<and>
     (list_all (\<lambda>c. byte c \<noteq> 34 \<and> byte c \<noteq> 92) u
      \<or> (\<exists>e v. u = backslash # e # v \<and> list_all (\<lambda>c. byte c \<noteq> 34 \<and> byte c \<noteq> 92) v))"

lemma hex_char_plain: "d < 16 \<Longrightarrow> 48 \<le> byte (hex_char d) \<and> byte (hex_char d) \<noteq> 34 \<and> byte (hex_char d) \<noteq> 92"
  by (auto simp: hex_char_def)

lemma hex_digits_plain: "c \<in> set (hex_digits n v) \<Longrightarrow> 48 \<le> byte c \<and> byte c \<noteq> 34 \<and> byte c \<noteq> 92"
  by (induction n arbitrary: v) (auto dest: hex_char_plain [of "_ mod 16"] simp: hex_char_plain)

lemma quoted_piece_escape:
  "32 \<le> byte e \<Longrightarrow> quoted_piece (backslash # e # hex_digits n v)" "32 \<le> byte e \<Longrightarrow> quoted_piece [backslash, e]"
  using hex_digits_plain [of _ n v] by (fastforce simp: quoted_piece_def list_all_iff)+

lemma control_escape_letter: "control_escape b = Some e \<Longrightarrow> 32 \<le> byte e"
  by (auto simp: control_escape_def split: if_splits)

lemma quoted_piece_rune:
  assumes "rune_bytes bs"
  shows "quoted_piece (go_quote_rune printable (bs, True))"
  using rune_bytes_head [OF assms]
proof (elim disjE exE conjE)
  fix c
  assume "bs = [c]" "byte c < 128"
  then show ?thesis
    by (auto simp: go_quote_rune_def quoted_piece_escape dest: control_escape_letter split: option.split)
      (simp_all add: quoted_piece_def)
next
  fix a b u
  assume bs: "bs = a # b # u" and big: "\<forall>x \<in> set bs. 128 \<le> byte x"
  then have "quoted_piece bs" by (auto simp: quoted_piece_def list_all_iff)
  with bs show ?thesis by (simp add: go_quote_rune_def quoted_piece_escape)
qed

lemma quoted_piece_invalid: "quoted_piece (go_quote_rune printable ([c], False))"
  by (simp add: go_quote_rune_def quoted_piece_escape)

lemma quote_body_induct [case_names Nil Piece]:
  assumes "P []" and "\<And>u t. quoted_piece u \<Longrightarrow> P t \<Longrightarrow> P (u @ t)"
  shows "P (quote_body printable s)"
proof (induction s rule: rune_induct)
  case Nil
  show ?case using assms(1) by (simp add: quote_body_def)
next
  case (Valid bs s)
  then show ?case using assms(2) [OF quoted_piece_rune [OF Valid(1)]] by (simp add: quote_body_def runes_valid)
next
  case (Invalid c s)
  then show ?case using assms(2) [OF quoted_piece_invalid] by (simp add: quote_body_def runes_invalid)
qed

lemma go_quote_printable: "c \<in> set (go_quote printable s) \<Longrightarrow> 32 \<le> byte c"
proof -
  have "\<forall>c \<in> set (quote_body printable s). 32 \<le> byte c"
    by (induction rule: quote_body_induct) (auto simp: quoted_piece_def)
  then show "c \<in> set (go_quote printable s) \<Longrightarrow> 32 \<le> byte c" by (auto simp: go_quote_def)
qed

end
