(* ===== verification/Envfile.thy ===== *)
theory Envfile
  imports Go_Quote
begin

text \<open>
  Environment files (\<open>envfile.go\<close>): the parser of \<open>KEY=VALUE\<close> lines, the serialiser, and the replacement
  of the file on disk with each call of the operating system that may fail. Locks are left out.
\<close>

datatype env_error =
    EnvLineTooLong nat | EnvForbiddenByte nat | EnvNoEquals nat | EnvBadKey nat | EnvDuplicate nat | EnvBadQuote nat | EnvBadValue nat
  | EnvInvalidKey string | EnvInvalidValue string

section \<open>Keys and values\<close>

definition isEnvSpace :: "char \<Rightarrow> bool" where
  "isEnvSpace c \<longleftrightarrow> byte c = 32 \<or> byte c = 9"

definition key_initial :: "char \<Rightarrow> bool" where
  "key_initial c \<longleftrightarrow> c = CHR ''_'' \<or> is_upper c \<or> is_lower c"

definition validateEnvKey :: "string \<Rightarrow> bool" where
  "validateEnvKey key \<longleftrightarrow> (case key of [] \<Rightarrow> False | c # s \<Rightarrow> key_initial c \<and> list_all (\<lambda>d. key_initial d \<or> is_digit d) s)"

definition forbidden_byte :: "char \<Rightarrow> bool" where
  "forbidden_byte c \<longleftrightarrow> byte c \<in> {0, 10, 13}"

definition validateEnvValue :: "string \<Rightarrow> bool" where
  "validateEnvValue value \<longleftrightarrow> \<not> list_ex forbidden_byte value"

text \<open>The closing double quote of a value: the first one that is not escaped.\<close>

fun double_quote_end :: "bool \<Rightarrow> nat \<Rightarrow> string \<Rightarrow> nat option" where
  "double_quote_end escaped i [] = None"
| "double_quote_end escaped i (c # s) =
     (if escaped then double_quote_end False (Suc i) s
      else if byte c = 92 then double_quote_end True (Suc i) s
      else if byte c = 34 then Some i else double_quote_end False (Suc i) s)"

definition findDoubleQuoteEnd :: "string \<Rightarrow> nat option" where
  "findDoubleQuoteEnd raw = double_quote_end False 1 (tl raw)"

definition validateQuotedRemainder :: "string \<Rightarrow> bool" where
  "validateQuotedRemainder remainder \<longleftrightarrow> (let r = trim_space remainder in r = [] \<or> has_prefix r ''#'')"

text \<open>The start of a comment: a number sign at the beginning or after a space or tab.\<close>

fun before_env_comment :: "bool \<Rightarrow> string \<Rightarrow> string" where
  "before_env_comment start [] = []"
| "before_env_comment start (c # s) = (if c = CHR ''#'' \<and> start then [] else c # before_env_comment (isEnvSpace c) s)"

definition parseUnquotedEnvValue :: "string \<Rightarrow> string" where
  "parseUnquotedEnvValue raw = trim_space (before_env_comment True raw)"

definition single_quote :: char where "single_quote = char_of (39::nat)"

definition parseEnvValue :: "string \<Rightarrow> string option" where
  "parseEnvValue raw = (case raw of [] \<Rightarrow> Some [] | q # s \<Rightarrow>
     if q = single_quote then
       (case index_byte s single_quote of None \<Rightarrow> None | Some i \<Rightarrow>
          if validateQuotedRemainder (drop (Suc i) s) then Some (take i s) else None)
     else if q = quote_mark then
       (case findDoubleQuoteEnd raw of None \<Rightarrow> None | Some i \<Rightarrow>
          if validateQuotedRemainder (drop (Suc i) raw) then go_unquote (take (Suc i) raw) else None)
     else Some (parseUnquotedEnvValue raw))"

section \<open>Files\<close>

text \<open>The lines without their terminators; a carriage return goes only with a line feed.\<close>

definition env_lines :: "string \<Rightarrow> string list" where
  "env_lines s = (let ps = split_byte (char_of (10::nat)) s in
     map (\<lambda>p. trim_suffix p [char_of (13::nat)]) (butlast ps) @ (if last ps = [] then [] else [last ps]))"

definition after_export :: "string \<Rightarrow> string" where
  "after_export t = (if has_prefix t ''export'' \<and> length t > 6 \<and> isEnvSpace (t ! 6) then dropWhile isEnvSpace (drop 6 t) else t)"

text \<open>One line: nothing, or a key and its value.\<close>

definition env_line :: "nat \<Rightarrow> (string, string) gomap \<Rightarrow> string \<Rightarrow> env_error + (string \<times> string) option" where
  "env_line n values line =
     and_then (reject_if (int (length line) > 1024 * 1024) (EnvLineTooLong n)) (\<lambda>_.
     and_then (reject_if (list_ex forbidden_byte line) (EnvForbiddenByte n)) (\<lambda>_.
       let trimmed = trim_space line in
       if trimmed = [] \<or> has_prefix trimmed ''#'' then Inr None
       else (case cut_byte (after_export trimmed) (CHR ''='') of None \<Rightarrow> Inl (EnvNoEquals n) | Some (k, v) \<Rightarrow>
         and_then (reject_if (\<not> validateEnvKey (trim_space k)) (EnvBadKey n)) (\<lambda>_.
         and_then (reject_if (gomap_has values (trim_space k)) (EnvDuplicate n)) (\<lambda>_.
         (case parseEnvValue (dropWhile isEnvSpace v) of None \<Rightarrow> Inl (EnvBadQuote n) | Some value \<Rightarrow>
            and_then (reject_if (\<not> validateEnvValue value) (EnvBadValue n)) (\<lambda>_. Inr (Some (trim_space k, value)))))))))"

fun env_entries :: "nat \<Rightarrow> (string, string) gomap \<Rightarrow> string list \<Rightarrow> env_error + (string, string) gomap" where
  "env_entries n values [] = Inr values"
| "env_entries n values (line # ls) = (case env_line n values line of Inl e \<Rightarrow> Inl e
     | Inr None \<Rightarrow> env_entries (Suc n) values ls
     | Inr (Some (k, v)) \<Rightarrow> env_entries (Suc n) (gomap_put values k v) ls)"

definition parseEnvFile :: "string \<Rightarrow> env_error + (string, string) gomap" where
  "parseEnvFile s = env_entries 1 [] (env_lines s)"

text \<open>The first key or value that cannot be written; the map is visited in any order.\<close>

fun unserializable :: "(string, string) gomap \<Rightarrow> env_error option" where
  "unserializable [] = None"
| "unserializable ((k, v) # m) = (if \<not> validateEnvKey k then Some (EnvInvalidKey k)
     else if \<not> validateEnvValue v then Some (EnvInvalidValue k) else unserializable m)"

definition serializeEnvFile :: "(string \<Rightarrow> bool) \<Rightarrow> (string, string) gomap \<Rightarrow> env_error + string" where
  "serializeEnvFile printable values = (case unserializable values of Some e \<Rightarrow> Inl e
     | None \<Rightarrow> Inr (concat (map (\<lambda>k. k @ ''='' @ go_quote printable (gomap_get values k []) @ [char_of (10::nat)])
         (sort_linear (map fst values)))))"

text \<open>A lookup in a parsed file.\<close>

definition mapConfigLookup :: "(string, string) gomap \<Rightarrow> string \<Rightarrow> string option" where
  "mapConfigLookup values key = map_of values key"

section \<open>Replacing the file\<close>

text \<open>The calls that may fail; \<open>StageRemove\<close> is the removal of the temporary file, whose error is ignored.\<close>

datatype env_write_stage = StageCreate | StageChmod | StageWrite | StageSync | StageClose | StageRead | StageRename | StageRemove

datatype env_write_error = WriteEmptyPath | WriteSerialize env_error | WriteFailed env_write_stage | WriteChanged

text \<open>The file at the path and the temporary file beside it; \<open>None\<close> is a file that does not exist.\<close>

record env_disk =
  env_file :: "string option"
  env_temporary :: "string option"

text \<open>A snapshot: whether the file exists, and its bytes.\<close>

definition captureEnvFileSnapshot :: "(env_write_stage \<Rightarrow> bool) \<Rightarrow> env_disk \<Rightarrow> env_write_error + string option" where
  "captureEnvFileSnapshot fails d = (if fails StageRead then Inl (WriteFailed StageRead) else Inr (env_file d))"

definition envFileMatchesSnapshot :: "(env_write_stage \<Rightarrow> bool) \<Rightarrow> env_disk \<Rightarrow> string option \<Rightarrow> env_write_error + unit" where
  "envFileMatchesSnapshot fails d expected =
     and_then (captureEnvFileSnapshot fails d) (\<lambda>current. reject_if (current \<noteq> expected) WriteChanged)"

text \<open>The deferred removal of the temporary file.\<close>

definition remove_temporary :: "(env_write_stage \<Rightarrow> bool) \<Rightarrow> env_disk \<Rightarrow> env_disk" where
  "remove_temporary fails d = (if fails StageRemove then d else d\<lparr>env_temporary := None\<rparr>)"

definition attempt :: "(env_write_stage \<Rightarrow> bool) \<Rightarrow> env_write_stage \<Rightarrow> env_disk \<Rightarrow> env_disk \<Rightarrow>
    (env_disk \<Rightarrow> (env_write_error + unit) \<times> env_disk) \<Rightarrow> (env_write_error + unit) \<times> env_disk" where
  "attempt fails stage failed done rest =
     (if fails stage then (Inl (WriteFailed stage), remove_temporary fails failed) else rest done)"

text \<open>A write that fails may have written some bytes already.\<close>

definition writeEnvFileWithSnapshot :: "(string \<Rightarrow> bool) \<Rightarrow> (env_write_stage \<Rightarrow> bool) \<Rightarrow> nat \<Rightarrow> string \<Rightarrow> (string, string) gomap \<Rightarrow>
    string option option \<Rightarrow> env_disk \<Rightarrow> (env_write_error + unit) \<times> env_disk" where
  "writeEnvFileWithSnapshot printable fails partial path vals expected d =
     (if trim_space path = [] then (Inl WriteEmptyPath, d)
      else (case serializeEnvFile printable vals of Inl e \<Rightarrow> (Inl (WriteSerialize e), d)
        | Inr contents \<Rightarrow>
          (if fails StageCreate then (Inl (WriteFailed StageCreate), d)
           else attempt fails StageChmod (d\<lparr>env_temporary := Some []\<rparr>) (d\<lparr>env_temporary := Some []\<rparr>) (\<lambda>d.
             attempt fails StageWrite (d\<lparr>env_temporary := Some (take partial contents)\<rparr>) (d\<lparr>env_temporary := Some contents\<rparr>) (\<lambda>d.
             attempt fails StageSync d d (\<lambda>d.
             attempt fails StageClose d d (\<lambda>d.
               (case (case expected of None \<Rightarrow> Inr () | Some e \<Rightarrow> envFileMatchesSnapshot fails d e) of
                  Inl e \<Rightarrow> (Inl e, remove_temporary fails d)
                | Inr _ \<Rightarrow> attempt fails StageRename d (d\<lparr>env_file := env_temporary d, env_temporary := None\<rparr>) (\<lambda>d. (Inr (), d)))))))))) "

text \<open>
  C36: Replacing the environment file is all or nothing. Whichever calls of the operating system fail, on
  success the file holds exactly the serialised values, no temporary file is left, and the file was the
  expected one when a snapshot was given; on every error the file is as it was, and a temporary file is left
  only when removing it failed as well.
\<close>
theorem env_write_atomic:
  "(case writeEnvFileWithSnapshot printable fails partial path vals expected (d\<lparr>env_temporary := None\<rparr>) of
      (Inr _, d') \<Rightarrow> (\<exists>contents. serializeEnvFile printable vals = Inr contents \<and> env_file d' = Some contents)
        \<and> env_temporary d' = None \<and> expected \<in> {None, Some (env_file d)}
    | (Inl _, d') \<Rightarrow> env_file d' = env_file d \<and> (env_temporary d' = None \<or> fails StageRemove))"
  by (auto simp: writeEnvFileWithSnapshot_def attempt_def remove_temporary_def envFileMatchesSnapshot_def
      captureEnvFileSnapshot_def and_then_eq_Inl reject_if_def split: sum.splits option.splits)

section \<open>The round trip\<close>

lemma double_quote_plain:
  "list_all (\<lambda>c. byte c \<noteq> 34 \<and> byte c \<noteq> 92) u \<Longrightarrow> double_quote_end False i (u @ t) = double_quote_end False (i + length u) t"
  by (induction u arbitrary: i) auto

lemma double_quote_piece:
  "quoted_piece u \<Longrightarrow> double_quote_end False i (u @ t) = double_quote_end False (i + length u) t"
  by (auto simp: quoted_piece_def double_quote_plain)

lemma double_quote_body:
  "double_quote_end False i (quote_body printable s @ t) = double_quote_end False (i + length (quote_body printable s)) t"
  by (induction arbitrary: i rule: quote_body_induct) (simp_all add: double_quote_piece add.assoc)

lemma findDoubleQuoteEnd_quote: "findDoubleQuoteEnd (go_quote printable s) = Some (Suc (length (quote_body printable s)))"
  by (simp add: findDoubleQuoteEnd_def go_quote_def double_quote_body)

lemma quote_mark_not_single: "quote_mark \<noteq> single_quote"
proof
  assume "quote_mark = single_quote"
  then have "byte quote_mark = byte single_quote" by simp
  then show False by (simp add: single_quote_def)
qed

lemma parseEnvValue_quote: "parseEnvValue (go_quote printable s) = Some s"
proof -
  have len: "length (go_quote printable s) = Suc (Suc (length (quote_body printable s)))" by (simp add: go_quote_def)
  have "validateQuotedRemainder []" by (simp add: validateQuotedRemainder_def)
  then show ?thesis
    using unquote_quote [of printable s] findDoubleQuoteEnd_quote [of printable s] len quote_mark_not_single
    by (cases "go_quote printable s") (auto simp: parseEnvValue_def go_quote_def)
qed

text \<open>One line as the serialiser writes it.\<close>

definition written_line :: "(string \<Rightarrow> bool) \<Rightarrow> string \<Rightarrow> string \<Rightarrow> string" where
  "written_line printable k v = k @ ''='' @ go_quote printable v"

lemma key_char:
  assumes "validateEnvKey k" and "c \<in> set k"
  shows "is_ascii c" "\<not> ascii_space c" "c \<noteq> CHR ''=''" "c \<noteq> CHR ''#''" "\<not> isEnvSpace c" "32 \<le> byte c"
proof -
  have "key_initial c \<or> is_digit c" using assms by (cases k) (auto simp: validateEnvKey_def list_all_iff)
  then show "is_ascii c" "\<not> ascii_space c" "c \<noteq> CHR ''=''" "c \<noteq> CHR ''#''" "\<not> isEnvSpace c" "32 \<le> byte c"
    by (auto simp: key_initial_def is_digit_def is_upper_def is_lower_def is_ascii_def ascii_space_def isEnvSpace_def)
qed

lemma trim_space_ends:
  assumes "s \<noteq> []" and "is_ascii (hd s)" "\<not> ascii_space (hd s)" and "is_ascii (last s)" "\<not> ascii_space (last s)"
  shows "trim_space s = s"
proof -
  have "space_prefix s = 0" using assms by (cases s) (simp_all add: space_prefix_def ascii_not_space split: list.split)
  moreover have "space_suffix_rev (rev s) = 0"
    using assms by (cases s rule: rev_cases) (simp_all add: space_suffix_rev_def ascii_not_space split: list.split)
  ultimately show ?thesis by (simp add: trim_space_def trim_left_id trim_right_rev_id)
qed

lemma written_line_trim:
  assumes "validateEnvKey k"
  shows "trim_space (written_line printable k v) = written_line printable k v"
proof -
  obtain c u where k: "k = c # u" using assms by (cases k) (simp_all add: validateEnvKey_def)
  show ?thesis
    by (rule trim_space_ends)
      (use key_char [OF assms, of c] k in \<open>simp_all add: written_line_def go_quote_def is_ascii_def ascii_space_def\<close>)
qed

lemma written_line_export:
  assumes "validateEnvKey k"
  shows "after_export (written_line printable k v) = written_line printable k v"
proof -
  have "\<not> isEnvSpace (written_line printable k v ! 6)" if p: "has_prefix (written_line printable k v) ''export''"
  proof -
    have "6 \<le> length k"
    proof (rule ccontr)
      assume short: "\<not> 6 \<le> length k"
      have "take 6 (written_line printable k v) ! length k = CHR ''=''"
        using short by (simp add: written_line_def nth_append)
      moreover have "take 6 (written_line printable k v) = ''export''" using p by (simp add: has_prefix_def numeral_eq_Suc)
      ultimately have "''export'' ! length k = CHR ''=''" by simp
      moreover have "length k < length ''export''" using short by simp
      ultimately have "CHR ''='' \<in> set ''export''" using nth_mem [of "length k" "''export''"] by simp
      then show False by simp
    qed
    then show ?thesis using key_char(5) [OF assms nth_mem, of 6]
      by (cases "length k = 6") (auto simp: written_line_def nth_append isEnvSpace_def)
  qed
  then show ?thesis by (auto simp: after_export_def)
qed

lemma written_line_bytes:
  assumes "validateEnvKey k" and "c \<in> set (written_line printable k v)"
  shows "32 \<le> byte c"
  using assms key_char(6) [OF assms(1)] go_quote_printable by (auto simp: written_line_def)

lemma cut_written_line: "validateEnvKey k \<Longrightarrow> cut_byte (written_line printable k v) (CHR ''='') = Some (k, go_quote printable v)"
  by (subgoal_tac "CHR ''='' \<notin> set k") (auto simp: cut_byte_def written_line_def index_byte_append dest: key_char(3))

lemma env_line_written:
  assumes "validateEnvKey k" and "validateEnvValue v" and "\<not> gomap_has m k"
    and "int (length (written_line printable k v)) \<le> 1024 * 1024"
  shows "env_line n m (written_line printable k v) = Inr (Some (k, v))"
proof -
  let ?l = "written_line printable k v"
  obtain c u where k: "k = c # u" using assms(1) by (cases k) (simp_all add: validateEnvKey_def)
  have "\<not> list_ex forbidden_byte ?l"
    using written_line_bytes [OF assms(1)] by (fastforce simp: list_ex_iff forbidden_byte_def)
  moreover have "?l \<noteq> []" "\<not> has_prefix ?l ''#''"
    using key_char(4) [OF assms(1), of c] k by (simp_all add: written_line_def has_prefix_def)
  moreover have "trim_space k = k" using key_char(1,2) [OF assms(1)] by (intro trim_space_id) blast
  moreover have "dropWhile isEnvSpace (go_quote printable v) = go_quote printable v"
    by (simp add: go_quote_def isEnvSpace_def)
  ultimately show ?thesis
    using assms(1,2,3,4) written_line_trim [OF assms(1)] written_line_export [OF assms(1)] cut_written_line [OF assms(1)]
    by (simp add: env_line_def reject_if_def parseEnvValue_quote)
qed

lemma env_entries_written:
  assumes "\<forall>k \<in> set ks. validateEnvKey k \<and> validateEnvValue (f k) \<and> int (length (written_line printable k (f k))) \<le> 1024 * 1024"
    and "distinct ks" and "\<forall>k \<in> set ks. k \<notin> fst ` set m"
  shows "env_entries n m (map (\<lambda>k. written_line printable k (f k)) ks) = Inr (m @ map (\<lambda>k. (k, f k)) ks)"
  using assms
proof (induction ks arbitrary: n m)
  case (Cons k ks)
  have "env_line n m (written_line printable k (f k)) = Inr (Some (k, f k))"
    using Cons.prems by (intro env_line_written) (simp_all add: gomap_has_def)
  moreover have "gomap_put m k (f k) = m @ [(k, f k)]" using Cons.prems by (simp add: gomap_put_def)
  moreover have "\<forall>k' \<in> set ks. k' \<notin> fst ` set (m @ [(k, f k)])" using Cons.prems by auto
  ultimately show ?case using Cons.IH [of "m @ [(k, f k)]" "Suc n"] Cons.prems by simp
qed simp

lemma env_lines_written:
  assumes "\<forall>l \<in> set ls. (\<forall>c \<in> set l. 32 \<le> byte c)"
  shows "env_lines (concat (map (\<lambda>l. l @ [char_of (10::nat)]) ls)) = ls"
proof -
  have lf: "char_of (10::nat) \<notin> set l" "trim_suffix l [char_of (13::nat)] = l" if "l \<in> set ls" for l
    using assms that by (fastforce simp: trim_suffix_def has_suffix_iff)+
  have "split_byte (char_of (10::nat)) (concat (map (\<lambda>l. l @ [char_of (10::nat)]) ls)) = ls @ [[]]"
    using lf(1) by (induction ls) (simp_all add: split_byte_append)
  then show ?thesis using lf(2) by (simp add: env_lines_def map_idI)
qed

lemma unserializable_None_iff:
  "unserializable m = None \<longleftrightarrow> (\<forall>(k, v) \<in> set m. validateEnvKey k \<and> validateEnvValue v)"
  by (induction m rule: unserializable.induct) auto

lemma serializeEnvFile_written:
  "unserializable m = None \<Longrightarrow> serializeEnvFile printable m =
     Inr (concat (map (\<lambda>l. l @ [char_of (10::nat)]) (map (\<lambda>k. written_line printable k (gomap_get m k [])) (sort_linear (map fst m)))))"
  by (simp add: serializeEnvFile_def written_line_def comp_def)

lemma map_of_sorted_entries:
  "map_of (map (\<lambda>k. (k, gomap_get m k [])) (sort_linear (map fst m))) = map_of m"
proof (rule ext)
  fix k
  show "map_of (map (\<lambda>k. (k, gomap_get m k [])) (sort_linear (map fst m))) k = map_of m k"
  proof (cases "k \<in> fst ` set m")
    case True
    then have "map_of m k \<noteq> None" by (simp add: map_of_eq_None_iff)
    with True show ?thesis by (auto simp: map_of_map_restrict gomap_get_def restrict_map_def)
  next
    case False
    then have "map_of m k = None" by (simp add: map_of_eq_None_iff)
    with False show ?thesis by (simp add: map_of_map_restrict restrict_map_def)
  qed
qed

text \<open>
  C34: Writing an environment file and reading it back loses nothing. A map whose keys and values can be
  written, with lines of at most 1 MiB, is serialised to a text that the parser reads as the same map with
  its keys in order, whatever runes the quoting regards as printable and in whatever order the map is
  visited; a map with an invalid key or value is never serialised.
\<close>
theorem env_file_round_trip:
  assumes "gomap_wf m"
    and "\<forall>(k, v) \<in> set m. int (length (written_line printable k v)) \<le> 1024 * 1024"
  shows "(case serializeEnvFile printable m of
       Inr s \<Rightarrow> (\<forall>(k, v) \<in> set m. validateEnvKey k \<and> validateEnvValue v)
         \<and> (\<exists>m'. parseEnvFile s = Inr m' \<and> map fst m' = sort (map fst m) \<and> map_of m' = map_of m)
     | Inl e \<Rightarrow> \<exists>(k, v) \<in> set m. \<not> validateEnvKey k \<or> \<not> validateEnvValue v)"
proof (cases "unserializable m")
  case None
  let ?ks = "sort_linear (map fst m)" and ?f = "\<lambda>k. gomap_get m k []"
  have valid: "\<forall>(k, v) \<in> set m. validateEnvKey k \<and> validateEnvValue v" using None by (simp add: unserializable_None_iff)
  have entry: "(k, ?f k) \<in> set m" if "k \<in> set ?ks" for k
    using that assms(1) by (auto simp: gomap_get_def)
  have lines: "\<forall>l \<in> set (map (\<lambda>k. written_line printable k (?f k)) ?ks). (\<forall>c \<in> set l. 32 \<le> byte c)"
    using entry valid written_line_bytes by fastforce
  have "\<forall>k \<in> set ?ks. validateEnvKey k \<and> validateEnvValue (?f k) \<and> int (length (written_line printable k (?f k))) \<le> 1024 * 1024"
    using entry valid assms(2) by blast
  then have "env_entries 1 [] (map (\<lambda>k. written_line printable k (?f k)) ?ks) = Inr ([] @ map (\<lambda>k. (k, ?f k)) ?ks)"
    using assms(1) by (intro env_entries_written) auto
  then have "parseEnvFile (concat (map (\<lambda>l. l @ [char_of (10::nat)]) (map (\<lambda>k. written_line printable k (?f k)) ?ks)))
      = Inr (map (\<lambda>k. (k, ?f k)) ?ks)"
    using env_lines_written [OF lines] by (simp add: parseEnvFile_def)
  then show ?thesis
    using valid serializeEnvFile_written [OF None, of printable] map_of_sorted_entries [of m] sort_linear_eq_sort [of "map fst m"]
    by (auto simp: comp_def)
next
  case (Some e)
  then have "serializeEnvFile printable m = Inl e" by (simp add: serializeEnvFile_def)
  moreover have "\<exists>(k, v) \<in> set m. \<not> validateEnvKey k \<or> \<not> validateEnvValue v"
    using Some unserializable_None_iff [of m] by auto
  ultimately show ?thesis by simp
qed

definition env_example :: "(string, string) gomap" where
  "env_example = [(''TOKEN'', ''a # \"b\"''), (''PORT'', [char_of (92::nat), char_of (9::nat)])]"

lemma quote_body_ascii:
  "byte c < 128 \<Longrightarrow> quote_body printable (c # s) = go_quote_rune printable ([c], True) @ quote_body printable s"
  using runes_valid [of "[c]" s] by (simp add: quote_body_def rune_bytes_def)

lemma env_file_round_trip_witness:
  "\<exists>s m'. serializeEnvFile (\<lambda>_. False) env_example = Inr s \<and> parseEnvFile s = Inr m' \<and> map_of m' = map_of env_example
     \<and> map fst m' = [''PORT'', ''TOKEN'']"
proof -
  have "gomap_wf env_example" by (simp add: env_example_def)
  moreover have "\<forall>(k, v) \<in> set env_example. int (length (written_line (\<lambda>_. False) k v)) \<le> 1024 * 1024"
    by (simp add: env_example_def written_line_def go_quote_def quote_body_ascii go_quote_rune_def control_escape_def)
      (simp add: quote_body_def)
  moreover have "unserializable env_example = None" by code_simp
  then have "\<exists>s. serializeEnvFile (\<lambda>_. False) env_example = Inr s" by (simp add: serializeEnvFile_def)
  moreover have "sort (map fst env_example) = [''PORT'', ''TOKEN'']" by code_simp
  ultimately show ?thesis using env_file_round_trip [of env_example "\<lambda>_. False"] by auto
qed

end
