(* ===== verification/Go_Net.thy ===== *)
theory Go_Net
  imports Go_Netip
begin

text \<open>\<open>net.SplitHostPort\<close> and \<open>net.JoinHostPort\<close>.\<close>

definition SplitHostPort :: "string \<Rightarrow> (string \<times> string) option" where
  "SplitHostPort s = (case last_index_byte s (CHR '':'') of None \<Rightarrow> None | Some i \<Rightarrow>
     (if hd s = CHR ''['' then
        (case index_byte s (CHR '']'') of None \<Rightarrow> None | Some e \<Rightarrow>
           if Suc e \<noteq> i then None
           else if contains_byte (drop 1 s) (CHR ''['') \<or> contains_byte (drop (Suc e) s) (CHR '']'') then None
           else Some (drop 1 (take e s), drop (Suc i) s))
      else if contains_byte (take i s) (CHR '':'') then None
      else if contains_byte s (CHR ''['') \<or> contains_byte s (CHR '']'') then None
      else Some (take i s, drop (Suc i) s)))"

definition JoinHostPort :: "string \<Rightarrow> string \<Rightarrow> string" where
  "JoinHostPort host port =
     (if contains_byte host (CHR '':'') then CHR ''['' # host @ '']:'' @ port else host @ CHR '':'' # port)"

definition net_byte :: "char \<Rightarrow> bool" where
  "net_byte c \<longleftrightarrow> c \<noteq> CHR ''['' \<and> c \<noteq> CHR '']''"

text \<open>Splitting undoes joining for a host and a port without brackets, and a port without colon.\<close>

lemma split_join_host_port:
  assumes "\<forall>c \<in> set (host @ port). net_byte c" and "CHR '':'' \<notin> set port"
  shows "SplitHostPort (JoinHostPort host port) = Some (host, port)"
proof (cases "contains_byte host (CHR '':'')")
  case True
  let ?s = "CHR ''['' # host @ '']:'' @ port"
  have s: "?s = (CHR ''['' # host @ '']'') @ CHR '':'' # port" by simp
  have "last_index_byte ?s (CHR '':'') = Some (length (CHR ''['' # host @ '']''))"
    unfolding s by (rule last_index_byte_append) (rule assms(2))
  moreover have "CHR '']'' \<notin> set (CHR ''['' # host)" using assms(1) by (auto simp: net_byte_def)
  from index_byte_append [OF this, of "'':'' @ port"]
  have "index_byte ?s (CHR '']'') = Some (length (CHR ''['' # host))" by simp
  ultimately show ?thesis
    using True assms(1) by (auto simp: SplitHostPort_def JoinHostPort_def contains_byte_def net_byte_def)
next
  case False
  then have "last_index_byte (host @ CHR '':'' # port) (CHR '':'') = Some (length host)"
    by (intro last_index_byte_append assms(2))
  moreover have "hd (host @ CHR '':'' # port) \<noteq> CHR ''[''" using assms(1) by (cases host) (auto simp: net_byte_def)
  ultimately show ?thesis
    using False assms(1) by (auto simp: SplitHostPort_def JoinHostPort_def contains_byte_def net_byte_def)
qed

end
