(* ===== verification/Netip_Print.thy ===== *)
theory Netip_Print
  imports Go_Net
begin

text \<open>
  Printed addresses are read back: every IPv6 address in the form with the longest run of zero groups left out, and
  with it the host of a connection as \<open>net.TCPAddr\<close> prints it, with or without a zone.
\<close>

section \<open>Groups\<close>

lemma group_digit_value [simp]:
  assumes "d < 16"
  shows "is_hex (hex_char d)" "hex_value (hex_char d) = d"
  using assms by (auto simp: is_hex_def is_digit_def hex_char_def hex_value_def)

lemma group_digit_plain: "is_hex c \<Longrightarrow> c \<noteq> CHR '':'' \<and> c \<noteq> CHR ''.'' \<and> c \<noteq> CHR ''%'' \<and> c \<noteq> CHR ''/'' \<and> net_byte c \<and> is_ascii c \<and> \<not> ascii_space c"
  by (auto simp: is_hex_def is_digit_def net_byte_def is_ascii_def ascii_space_def)

lemma hex_number_snoc: "hex_number (s @ [c]) = 16 * hex_number s + hex_value c"
  by (simp add: hex_number_def)

lemma show_hex_reads: "list_all is_hex (show_hex n) \<and> hex_number (show_hex n) = n \<and> show_hex n \<noteq> []"
proof (induction n rule: show_hex.induct)
  case (1 n)
  show ?case
  proof (cases "n < 16")
    case True
    then show ?thesis by (subst (1 2 3) show_hex.simps) (simp add: hex_number_def)
  next
    case False
    with 1 show ?thesis by (subst (1 2 3) show_hex.simps) (simp add: hex_number_snoc)
  qed
qed

lemma show_hex_length: "n < 16 ^ Suc k \<Longrightarrow> length (show_hex n) \<le> Suc k"
proof (induction k arbitrary: n)
  case 0
  then show ?case by (subst show_hex.simps) simp
next
  case (Suc k)
  then have "n div 16 < 16 ^ Suc k" by (simp add: less_mult_imp_div_less)
  with Suc.IH have "length (show_hex (n div 16)) \<le> Suc k" .
  then show ?case by (subst show_hex.simps) simp
qed

definition group_ok :: "nat \<Rightarrow> bool" where
  "group_ok g \<longleftrightarrow> g < 65536"

lemma group_text:
  assumes "group_ok g"
  shows "list_all is_hex (show_hex g)" "hex_number (show_hex g) = g" "show_hex g \<noteq> []" "\<not> 4 < length (show_hex g)"
  using show_hex_reads [of g] show_hex_length [of g 3] assms by (auto simp: group_ok_def)

lemma take_group:
  assumes "group_ok g" and "r = [] \<or> \<not> is_hex (hd r)"
  shows "takeWhile is_hex (show_hex g @ r) = show_hex g" "dropWhile is_hex (show_hex g @ r) = r"
proof -
  have all: "\<forall>c \<in> set (show_hex g). is_hex c" using group_text(1) [OF assms(1)] by (simp add: list_all_iff)
  with assms(2) show "takeWhile is_hex (show_hex g @ r) = show_hex g" "dropWhile is_hex (show_hex g @ r) = r"
    by (cases r; simp add: takeWhile_append2 dropWhile_append2)+
qed

lemma colon_not_hex: "\<not> is_hex (CHR '':'')"
  by (simp add: is_hex_def is_digit_def)

section \<open>The loop\<close>

definition groups_text :: "nat list \<Rightarrow> string" where
  "groups_text hs = join_with '':'' (map show_hex hs)"

lemma groups_text_simps [simp]:
  "groups_text [] = []" "groups_text [h] = show_hex h" "groups_text (h # k # hs) = show_hex h @ CHR '':'' # groups_text (k # hs)"
  by (simp_all add: groups_text_def)

lemma groups_text_head: "list_all group_ok hs \<Longrightarrow> hs \<noteq> [] \<Longrightarrow> \<exists>c r. groups_text hs = c # r \<and> is_hex c"
proof -
  assume "list_all group_ok hs" "hs \<noteq> []"
  then obtain h ks where h: "hs = h # ks" "group_ok h" by (cases hs) auto
  from group_text(1,3) [OF h(2)] obtain c r where "show_hex h = c # r" "is_hex c" by (cases "show_hex h") auto
  with h show ?thesis by (cases ks) auto
qed

lemma v6_loop_last:
  assumes "group_ok h"
  shows "v6_loop (Suc n) gs el (show_hex h) = Some (gs @ [h], el, [])"
proof -
  have "takeWhile is_hex (show_hex h) = show_hex h" "dropWhile is_hex (show_hex h) = []"
    using take_group [OF assms, of "[]"] by simp_all
  with group_text [OF assms] show ?thesis by (simp only: v6_loop.simps Let_def) simp
qed

lemma v6_loop_more:
  assumes "group_ok h" and "r = c # r'" and "c \<noteq> CHR '':''"
  shows "v6_loop (Suc n) gs el (show_hex h @ CHR '':'' # r) = v6_loop n (gs @ [h]) el r"
  using take_group [OF assms(1), of "CHR '':'' # r"] group_text [OF assms(1)] colon_not_hex assms(2, 3) by (simp add: Let_def)

lemma v6_loop_ellipsis:
  assumes "group_ok h"
  shows "v6_loop (Suc n) gs None (show_hex h @ ''::'' @ r) =
    (if r = [] then Some (gs @ [h], Some (Suc (length gs)), []) else v6_loop n (gs @ [h]) (Some (Suc (length gs))) r)"
  using take_group [OF assms(1), of "''::'' @ r"] group_text [OF assms(1)] colon_not_hex by (simp add: Let_def)

lemma v6_loop_groups:
  assumes "list_all group_ok hs" and "hs \<noteq> []" and "length hs \<le> n"
  shows "v6_loop n gs el (groups_text hs) = Some (gs @ hs, el, [])"
  using assms
proof (induction hs arbitrary: n gs)
  case (Cons h hs)
  then obtain m where n: "n = Suc m" by (cases n) auto
  show ?case
  proof (cases hs)
    case Nil
    with Cons show ?thesis by (simp add: n v6_loop_last del: v6_loop.simps)
  next
    case (Cons k ks)
    with Cons.prems obtain c r where "groups_text hs = c # r" "is_hex c" using groups_text_head [of hs] by auto
    with Cons.prems Cons Cons.IH [of m "gs @ [h]"] group_digit_plain [of c] show ?thesis
      by (simp add: n v6_loop_more del: v6_loop.simps)
  qed
qed simp

lemma v6_loop_compressed:
  assumes "list_all group_ok hs" and "hs \<noteq> []" and "list_all group_ok ks" and "length hs + length ks \<le> n"
  shows "v6_loop n gs None (groups_text hs @ ''::'' @ groups_text ks) = Some (gs @ hs @ ks, Some (length gs + length hs), [])"
  using assms
proof (induction hs arbitrary: n gs)
  case (Cons h hs)
  then obtain m where n: "n = Suc m" by (cases n) auto
  show ?case
  proof (cases hs)
    case Nil
    show ?thesis
    proof (cases "ks = []")
      case True
      with Cons Nil v6_loop_ellipsis [of h m gs "[]"] show ?thesis by (simp add: n del: v6_loop.simps)
    next
      case False
      then have "groups_text ks \<noteq> []" using groups_text_head [OF Cons.prems(3)] by auto
      with Cons.prems Nil False v6_loop_groups [of ks m "gs @ [h]" "Some (Suc (length gs))"] v6_loop_ellipsis [of h m gs "groups_text ks"]
      show ?thesis by (simp add: n del: v6_loop.simps)
    qed
  next
    case (Cons k hs')
    with Cons.prems obtain c r where "groups_text hs = c # r" "is_hex c" using groups_text_head [of hs] by auto
    with Cons.prems Cons Cons.IH [of m "gs @ [h]"] group_digit_plain [of c] show ?thesis
      by (simp add: n v6_loop_more del: v6_loop.simps)
  qed
qed simp

section \<open>The whole text\<close>

lemma longest_zero_run_prop:
  assumes "longest_zero_run gs = (s, l)" and "length gs = 8"
  shows "l = 0 \<or> 2 \<le> l \<and> s + l \<le> 8 \<and> take l (drop s gs) = replicate l 0"
proof -
  define ok where "ok = (\<lambda>(s, l). l = 0 \<or> 2 \<le> l \<and> s + l \<le> 8 \<and> take l (drop s gs) = replicate l 0)"
  have run: "2 \<le> zero_run_at gs i \<Longrightarrow> ok (i, zero_run_at gs i)" for i
  proof -
    assume two: "2 \<le> zero_run_at gs i"
    have "take (zero_run_at gs i) (drop i gs) = takeWhile (\<lambda>g. g = 0) (drop i gs)"
      by (simp add: zero_run_at_def takeWhile_eq_take [symmetric])
    also have "\<dots> = replicate (zero_run_at gs i) 0"
      unfolding zero_run_at_def by (rule replicate_length_same [symmetric]) (auto dest: set_takeWhileD)
    moreover have "zero_run_at gs i \<le> length gs - i"
      unfolding zero_run_at_def by (metis length_drop length_takeWhile_le)
    ultimately show "ok (i, zero_run_at gs i)" using two assms(2) by (auto simp: ok_def)
  qed
  have fold: "ok p \<Longrightarrow> ok (foldl (\<lambda>(s, l) i. if 2 \<le> zero_run_at gs i \<and> l < zero_run_at gs i then (i, zero_run_at gs i) else (s, l)) p is)" for p "is"
    using run by (induction "is" arbitrary: p) (auto split: prod.splits)
  have "ok (longest_zero_run gs)" unfolding longest_zero_run_def by (rule fold) (simp add: ok_def)
  with assms(1) show ?thesis by (simp add: ok_def)
qed

lemma parse_v6_groups_string:
  assumes "length gs = 8" and "list_all group_ok gs"
  shows "parse_v6_groups (v6_groups_string gs) = Some gs"
proof -
  obtain s l where run: "longest_zero_run gs = (s, l)" by fastforce
  show ?thesis
  proof (cases "l = 0")
    case True
    moreover from assms(1) have "gs \<noteq> []" by auto
    with assms(2) obtain c r where c: "groups_text gs = c # r" "is_hex c" using groups_text_head by blast
    moreover have "v6_loop 8 [] None (groups_text gs) = Some (gs, None, [])"
      using v6_loop_groups [of gs 8 "[]" None] assms \<open>gs \<noteq> []\<close> by simp
    moreover have "\<not> has_prefix (groups_text gs) ''::''" using c group_digit_plain [of c] by (simp add: has_prefix_def)
    ultimately show ?thesis using assms run
      by (simp add: parse_v6_groups_def v6_groups_string_def groups_text_def [symmetric] v6_expand_def)
  next
    case False
    let ?hs = "take s gs" and ?ks = "drop (s + l) gs"
    from longest_zero_run_prop [OF run assms(1)] False have l: "2 \<le> l" "s + l \<le> 8" "take l (drop s gs) = replicate l 0" by auto
    have ok: "list_all group_ok ?hs" "list_all group_ok ?ks"
      using assms(2) by (auto simp: list_all_iff dest: in_set_takeD in_set_dropD)
    have split: "?hs @ replicate l 0 @ ?ks = gs"
      using l(3) by (metis append_take_drop_id drop_drop add.commute)
    have str: "v6_groups_string gs = groups_text ?hs @ ''::'' @ groups_text ?ks"
      using False run by (simp add: v6_groups_string_def groups_text_def)
    have sizes: "length ?hs = s" "length ?ks = 8 - (s + l)" using l assms(1) by simp_all
    have expand: "v6_expand (?hs @ ?ks, Some s, []) = Some gs"
      using l sizes split assms(1) by (simp add: v6_expand_def)
    show ?thesis
    proof (cases "?hs = []")
      case True
      show ?thesis
      proof (cases "?ks = []")
        case True
        then have "s + l = 8" using sizes l by simp
        moreover have "s = 0" using \<open>?hs = []\<close> sizes by (metis list.size(3))
        ultimately have "gs = replicate 8 0" using split True by simp
        then show ?thesis using str \<open>?hs = []\<close> True by (simp add: parse_v6_groups_def has_prefix_def)
      next
        case F: False
        then obtain c r where "groups_text ?ks = c # r" using groups_text_head [OF ok(2)] by blast
        moreover have "v6_loop 8 [] (Some 0) (groups_text ?ks) = Some (?ks, Some 0, [])"
          using v6_loop_groups [OF ok(2) F, of 8 "[]" "Some 0"] sizes by simp
        moreover have "s = 0" using True sizes by (metis list.size(3))
        ultimately show ?thesis using str True expand by (simp add: parse_v6_groups_def has_prefix_def)
      qed
    next
      case F: False
      then obtain c r where c: "groups_text ?hs = c # r" "is_hex c" using groups_text_head [OF ok(1)] by blast
      have "v6_loop 8 [] None (groups_text ?hs @ ''::'' @ groups_text ?ks) = Some (?hs @ ?ks, Some s, [])"
        using v6_loop_compressed [OF ok(1) F ok(2), of 8 "[]"] sizes l by simp
      moreover have "\<not> has_prefix (groups_text ?hs @ ''::'' @ groups_text ?ks) ''::''"
        using c group_digit_plain [of c] by (simp add: has_prefix_def)
      ultimately show ?thesis using expand unfolding str by (simp add: parse_v6_groups_def)
    qed
  qed
qed

section \<open>Words and groups\<close>

lemma groups_of_v6_ok: "length (groups_of_v6 w) = 8" "list_all group_ok (groups_of_v6 w)"
  by (simp_all add: groups_of_v6_def group_ok_def)

lemma foldl_groups:
  fixes x a b :: nat
  shows "foldl (\<lambda>a g. b * a + g) a (map (\<lambda>i. x div b ^ i mod b) (rev [0..<n])) = a * b ^ n + x mod b ^ n"
proof (induction n arbitrary: a)
  case (Suc n)
  have "x mod b ^ Suc n = b ^ n * (x div b ^ n mod b) + x mod b ^ n" by (simp only: power_Suc2 mod_mult2_eq)
  with Suc show ?case by (simp add: algebra_simps)
qed simp

lemma v6_of_groups_of_v6 [simp]: "v6_of_groups (groups_of_v6 w) = w"
proof -
  have "rev [0..<8] = [7, 6, 5, 4, 3, 2, 1, 0 :: nat]" by code_simp
  then have "groups_of_v6 w = map (\<lambda>i. unat w div 65536 ^ i mod 65536) (rev [0..<8])"
    by (simp add: groups_of_v6_def)
  then have "foldl (\<lambda>a g. 65536 * a + g) 0 (groups_of_v6 w) = unat w mod 65536 ^ 8" by (simp only: foldl_groups)
  moreover have "unat w < 2 ^ LENGTH(128)" by (rule unsigned_less)
  then have "unat w < 65536 ^ 8" by simp
  ultimately show ?thesis by (simp only: v6_of_groups_def mod_less) simp
qed

section \<open>Addresses as text\<close>

lemma v6_groups_string_bytes:
  assumes "c \<in> set (v6_groups_string gs)"
  shows "is_hex c \<or> c = CHR '':''"
proof -
  have join: "c \<in> set (groups_text hs) \<Longrightarrow> is_hex c \<or> c = CHR '':''" for hs
  proof (induction hs rule: induct_list012)
    case (3 h k hs)
    then show ?case using show_hex_reads [of h] by (auto simp: list_all_iff)
  qed (use show_hex_reads in \<open>auto simp: list_all_iff\<close>)
  from assms join show ?thesis by (auto simp: v6_groups_string_def groups_text_def [symmetric] split: prod.splits if_splits)
qed

lemma v6_groups_string_head:
  assumes "length gs = 8"
  shows "\<exists>a r. v6_groups_string gs = a @ CHR '':'' # r \<and> list_all is_hex a"
proof -
  have many: "\<exists>a r. groups_text hs @ t = a @ CHR '':'' # r \<and> list_all is_hex a" if "t = [] \<longrightarrow> 2 \<le> length hs" "t = [] \<or> hd t = CHR '':''" for hs t
    using that show_hex_reads
    by (cases "(hs, t)" rule: prod.exhaust, cases hs rule: remdups_adj.cases) (cases t; fastforce)+
  obtain s l where run: "longest_zero_run gs = (s, l)" by fastforce
  show ?thesis
  proof (cases "l = 0")
    case True
    with run many [of "[]" gs] assms show ?thesis by (simp add: v6_groups_string_def groups_text_def)
  next
    case False
    with run many [of "''::'' @ groups_text (drop (s + l) gs)" "take s gs"] show ?thesis by (simp add: v6_groups_string_def groups_text_def)
  qed
qed

lemma parse_addr_groups_string:
  assumes "length gs = 8" and "list_all group_ok gs"
  shows "parse_addr (v6_groups_string gs) = Some (V6 (v6_of_groups gs) [])"
proof -
  obtain a r where head: "v6_groups_string gs = a @ CHR '':'' # r" "list_all is_hex a" using v6_groups_string_head [OF assms(1)] by blast
  then have "\<forall>c \<in> set a. \<not> (c = CHR ''.'' \<or> c = CHR '':'' \<or> c = CHR ''%'')" using group_digit_plain by (auto simp: list_all_iff)
  from find_Some_append [OF this] have "find (\<lambda>c. c = CHR ''.'' \<or> c = CHR '':'' \<or> c = CHR ''%'') (v6_groups_string gs) = Some CHR '':''"
    unfolding head(1) by simp
  moreover have "CHR ''%'' \<notin> set (v6_groups_string gs)" using v6_groups_string_bytes [of "CHR ''%''" gs] group_digit_plain by auto
  then have "cut_byte (v6_groups_string gs) CHR ''%'' = None" by (simp add: cut_byte_def index_byte_None_iff [THEN iffD2])
  ultimately show ?thesis using parse_v6_groups_string [OF assms] by (simp add: parse_addr_def parse_v6_def)
qed

text \<open>The address that the text of an IP stands for: IPv4 for the mapped ones.\<close>

definition addr_of_ip :: "128 word \<Rightarrow> addr" where
  "addr_of_ip ip = addr_unmap (V6 ip [])"

lemma parse_addr_net_ip_string [simp]: "parse_addr (net_ip_string ip) = Some (addr_of_ip ip)"
  using parse_addr_groups_string [OF groups_of_v6_ok, of ip] by (simp add: net_ip_string_def ip_to4_def addr_of_ip_def)

lemma mapped_v4_split: "mapped_v4 ip \<Longrightarrow> addr_as16 (V4 (ucast ip)) = ip"
proof -
  assume "mapped_v4 ip"
  then have high: "drop_bit 32 ip = 0xFFFF" by (simp add: mapped_v4_def)
  have low: "ucast (ucast ip :: 32 word) = take_bit 32 ip" by (rule bit_word_eqI) (auto simp: bit_simps)
  have "push_bit 32 (drop_bit 32 ip) OR take_bit 32 ip = ip" by (rule bit_word_eqI) (auto simp: bit_simps)
  then show ?thesis by (simp only: high low addr_as16.simps)
qed

lemma addr_of_ip [simp]: "addr_as16 (addr_of_ip ip) = ip" "addr_zone (addr_of_ip ip) = []" "addr_unmap (addr_of_ip ip) = addr_of_ip ip"
    "addr_string (addr_of_ip ip) = net_ip_string ip" "addr_is4 (addr_of_ip ip) \<longleftrightarrow> mapped_v4 ip"
  using mapped_v4_split [of ip] by (simp_all add: addr_of_ip_def net_ip_string_def ip_to4_def del: addr_as16.simps(1))

lemma net_parse_ip_string [simp]: "net_parse_ip (net_ip_string ip) = Some ip"
  by (simp add: net_parse_ip_def)

section \<open>The text of a connection\<close>

text \<open>The host of \<open>net.TCPAddr\<close>: the IP, and behind a percent sign its zone.\<close>

definition peer_text :: "128 word \<Rightarrow> string \<Rightarrow> string" where
  "peer_text ip zone = net_ip_string ip @ (if zone = [] then [] else CHR ''%'' # zone)"

text \<open>The address of a connection, as the server puts it into the request.\<close>

definition peer_address :: "128 word \<Rightarrow> string \<Rightarrow> nat \<Rightarrow> string" where
  "peer_address ip zone port = JoinHostPort (peer_text ip zone) (show_nat port)"

text \<open>The name of an interface, which stands between the percent sign and the end of the host.\<close>

definition zone_name :: "string \<Rightarrow> bool" where
  "zone_name zone \<longleftrightarrow> (\<forall>c \<in> set zone. net_byte c \<and> c \<noteq> CHR ''%'')"

lemma v4_string_bytes: "c \<in> set (v4_string w) \<Longrightarrow> is_digit c \<or> c = CHR ''.''"
proof -
  have "set (join_with sep ps) \<subseteq> set sep \<union> (\<Union>p \<in> set ps. set p)" for sep ps
    by (induction sep ps rule: join_with.induct) auto
  from this [of "''.''" "map show_nat (octets_of_v4 w)"]
  show "c \<in> set (v4_string w) \<Longrightarrow> is_digit c \<or> c = CHR ''.''"
    using show_nat_digits by (fastforce simp: v4_string_def list_all_iff)
qed

lemma show_nat_bytes: "c \<in> set (show_nat n) \<Longrightarrow> is_digit c"
  using show_nat_digits [of n] by (simp add: list_all_iff)

lemma ip_text_bytes:
  assumes "c \<in> set (net_ip_string ip)"
  shows "is_ascii c" "\<not> ascii_space c" "net_byte c" "c \<noteq> CHR ''%''" "c \<noteq> CHR ''/''"
proof -
  have "is_hex c \<or> c = CHR '':'' \<or> c = CHR ''.''"
    using assms v4_string_bytes [of c] v6_groups_string_bytes [of c]
    by (auto simp: net_ip_string_def ip_to4_def is_hex_def split: if_splits)
  then show "is_ascii c" "\<not> ascii_space c" "net_byte c" "c \<noteq> CHR ''%''" "c \<noteq> CHR ''/''"
    using group_digit_plain [of c] by (auto simp: net_byte_def is_ascii_def ascii_space_def)
qed

lemma split_peer_address:
  assumes "zone_name zone"
  shows "SplitHostPort (peer_address ip zone port) = Some (peer_text ip zone, show_nat port)"
  unfolding peer_address_def
proof (rule split_join_host_port)
  have "net_byte c" if "c \<in> set (show_nat port)" for c
    using show_nat_bytes [OF that] by (auto simp: net_byte_def is_digit_def)
  then show "\<forall>c \<in> set (peer_text ip zone @ show_nat port). net_byte c"
    using ip_text_bytes(3) assms by (auto simp: peer_text_def zone_name_def net_byte_def)
  show "CHR '':'' \<notin> set (show_nat port)" using show_nat_bytes [of "CHR '':''"] by (auto simp: is_digit_def)
qed

text \<open>What both readers of a peer do: cut the host at its last percent sign.\<close>

lemma cut_peer_zone:
  assumes "zone_name zone"
  shows "(case last_index_byte (peer_text ip zone) (CHR ''%'') of Some i \<Rightarrow> take i (peer_text ip zone) | None \<Rightarrow> peer_text ip zone)
    = net_ip_string ip"
proof (cases "zone = []")
  case True
  moreover have "last_index_byte (net_ip_string ip) (CHR ''%'') = None"
    using ip_text_bytes(4) [of _ ip] by (auto simp: last_index_byte_None_iff)
  ultimately show ?thesis by (simp add: peer_text_def)
next
  case False
  moreover have "CHR ''%'' \<notin> set zone" using assms by (auto simp: zone_name_def)
  ultimately show ?thesis by (simp add: peer_text_def last_index_byte_append)
qed

lemma trim_space_between:
  assumes "is_ascii c" "\<not> ascii_space c" and "is_ascii d" "\<not> ascii_space d"
  shows "trim_space (c # s @ [d]) = c # s @ [d]"
  using assms
  by (simp add: trim_space_def trim_left_id trim_right_rev_id space_prefix_def space_suffix_rev_def ascii_not_space split: list.split)

lemma trim_peer_address: "trim_space (peer_address ip zone port) = peer_address ip zone port"
proof -
  obtain p d where port: "show_nat port = p @ [d]" using show_nat_nonempty [of port] by (metis rev_exhaust)
  with show_nat_bytes [of d port] have d: "is_ascii d" "\<not> ascii_space d" by (auto simp: is_digit_def is_ascii_def ascii_space_def)
  obtain c s where c: "peer_address ip zone port = c # s @ [d]" "is_ascii c" "\<not> ascii_space c"
  proof (cases "contains_byte (peer_text ip zone) (CHR '':'')")
    case True
    then show ?thesis using that [of "CHR ''[''" "peer_text ip zone @ '']:'' @ p"]
      by (simp add: peer_address_def JoinHostPort_def port is_ascii_def ascii_space_def)
  next
    case False
    have "net_ip_string ip \<noteq> []" using parse_addr_net_ip_string [of ip] by (auto simp: parse_addr_def)
    then obtain c s where "net_ip_string ip = c # s" by (cases "net_ip_string ip") auto
    moreover from this have "is_ascii c" "\<not> ascii_space c" using ip_text_bytes(1,2) [of c ip] by auto
    ultimately show ?thesis using False that [of c "s @ (if zone = [] then [] else CHR ''%'' # zone) @ CHR '':'' # p"]
      by (simp add: peer_address_def JoinHostPort_def peer_text_def port)
  qed
  from trim_space_between [OF c(2,3) d] show ?thesis unfolding c(1) .
qed

end
