(* ===== verification/Policy_Types.thy ===== *)
theory Policy_Types
  imports Go_Json
begin

text \<open>
  The control-plane data of \<open>controlplane.go\<close>: the policy, its rules and capabilities, the
  nodes; the selector classes; and \<open>stripPort\<close> of \<open>matcher.go\<close>, which the policy validator
  and the matcher share.
\<close>

section \<open>Data\<close>

datatype controlPlaneProvider = Headscale | Tailscale
datatype policyMode = LegacyACL | NetworkAccess

datatype accessRuleKind = RuleACL | RuleGrant
datatype sshPolicyState = SSHAbsent | SSHSupported | SSHUnsupported
datatype sshUnsupportedReason =
    SSHNoReason | SSHProvider | SSHSectionShape | SSHRuleShape | SSHUnknownField | SSHAction
  | SSHSource | SSHDestination | SSHUser | SSHCheckPeriod

record SSHRule =
  ssh_Action :: string
  ssh_Src :: "string list"
  ssh_Dst :: "string list"
  ssh_Users :: "string list"
  ssh_CheckPeriod :: int

record SSHPolicy =
  State :: sshPolicyState
  Rules :: "SSHRule list"
  RuleCount :: nat
  UnsupportedReason :: sshUnsupportedReason

record grantIPCapability =
  AllProtocols :: bool
  Protocol :: "8 word"
  AllPorts :: bool
  PortStart :: int
  PortEnd :: int

record ACLRule =
  acl_Action :: string
  acl_Src :: "string list"
  acl_Dst :: "string list"

record GrantRule =
  grant_Src :: "string list"
  grant_BrowserSrc :: "string list"
  grant_Dst :: "string list"
  grant_IPCapabilities :: "grantIPCapability list"

record Policy =
  Groups :: "(string, string list) gomap"
  TagOwners :: "(string, string list) gomap"
  ACLs :: "ACLRule list"
  Grants :: "GrantRule list"
  Hosts :: "(string, string) gomap"
  SSH :: SSHPolicy

record Node =
  node_ID :: string
  node_Name :: string
  OwnerLogin :: string
  Tags :: "string list"
  Addresses :: "string list"

text \<open>\<open>accessRule\<close>: an ACL or Grant as the matcher sees it.\<close>

record accessRule =
  rule_Kind :: accessRuleKind
  rule_Index :: nat
  rule_Src :: "string list"
  rule_Dst :: "string list"
  rule_IPCapabilities :: "grantIPCapability list"

section \<open>Access rules\<close>

definition acl_access_rule :: "nat \<Rightarrow> ACLRule \<Rightarrow> accessRule" where
  "acl_access_rule i r = \<lparr>rule_Kind = RuleACL, rule_Index = i, rule_Src = acl_Src r, rule_Dst = acl_Dst r,
     rule_IPCapabilities = []\<rparr>"

definition grant_access_rule :: "nat \<Rightarrow> GrantRule \<Rightarrow> accessRule" where
  "grant_access_rule i r = \<lparr>rule_Kind = RuleGrant, rule_Index = i, rule_Src = grant_BrowserSrc r,
     rule_Dst = grant_Dst r, rule_IPCapabilities = grant_IPCapabilities r\<rparr>"

text \<open>A nil policy is \<open>None\<close>.\<close>

definition accessRules :: "Policy option \<Rightarrow> accessRule list" where
  "accessRules p = (case p of None \<Rightarrow> [] | Some p \<Rightarrow>
     map (\<lambda>(i, r). acl_access_rule i r) (enumerate 0 (ACLs p)) @
     map (\<lambda>(i, r). grant_access_rule i r) (enumerate 0 (Grants p)))"

definition accessRuleCount :: "Policy option \<Rightarrow> nat" where
  "accessRuleCount p = (case p of None \<Rightarrow> 0 | Some p \<Rightarrow> length (ACLs p) + length (Grants p))"

definition capability_permitsTCP :: "grantIPCapability \<Rightarrow> int \<Rightarrow> bool" where
  "capability_permitsTCP c port \<longleftrightarrow>
     (if \<not> AllProtocols c \<and> Protocol c \<noteq> 6 then False
      else if AllPorts c then True
      else PortStart c \<le> port \<and> port \<le> PortEnd c)"

definition rule_permitsTCP :: "accessRule \<Rightarrow> int \<Rightarrow> bool" where
  "rule_permitsTCP r port \<longleftrightarrow>
     (if rule_Kind r = RuleACL then True
      else if port < 1 \<or> port > 65535 then False
      else list_ex (\<lambda>c. capability_permitsTCP c port) (rule_IPCapabilities r))"

lemma length_accessRules: "length (accessRules p) = accessRuleCount p"
  by (simp add: accessRules_def accessRuleCount_def split: option.splits)

lemma accessRules_cases:
  assumes "r \<in> set (accessRules (Some p))"
  obtains (acl) i where "i < length (ACLs p)" and "r = acl_access_rule i (ACLs p ! i)"
  | (grant) i where "i < length (Grants p)" and "r = grant_access_rule i (Grants p ! i)"
  using assms by (auto simp: accessRules_def in_set_enumerate_eq)

section \<open>Selectors\<close>

text \<open>\<open>isPortLike\<close> ranges over code points; a byte outside ASCII is no digit either way.\<close>

definition isPortLike :: "string \<Rightarrow> bool" where
  "isPortLike s \<longleftrightarrow> (if s = ''*'' then True else if s = [] then False else list_all is_digit s)"

definition stripPort :: "string \<Rightarrow> string" where
  "stripPort d =
     (case (if has_prefix d ''['' then index_byte d (CHR '']'') else None) of
        Some e \<Rightarrow> drop 1 (take e d)
      | None \<Rightarrow>
        if net_parse_ip d \<noteq> None then d
        else (case last_index_byte d (CHR '':'') of
            Some i \<Rightarrow> if isPortLike (drop (i + 1) d) then take i d else d
          | None \<Rightarrow> d))"

definition unsupportedPolicySelector :: "string \<Rightarrow> bool" where
  "unsupportedPolicySelector s \<longleftrightarrow>
     has_prefix s ''ipset:'' \<or> has_prefix s ''svc:'' \<or> has_prefix s ''posture:''"

definition reservedPolicySelector :: "string \<Rightarrow> bool" where
  "reservedPolicySelector s \<longleftrightarrow>
     (if s = ''*'' \<or> net_parse_ip s \<noteq> None then True
      else if net_parse_cidr s \<noteq> None then True
      else has_prefix s ''group:'' \<or> has_prefix s ''tag:'' \<or> has_prefix s ''autogroup:''
        \<or> unsupportedPolicySelector s \<or> contains_byte s (CHR ''@''))"

text \<open>
  \<open>normalizeStrings\<close>: the set of trimmed, non-blank values, sorted. The Go map the values
  are collected in is visited in an arbitrary order before the sort.
\<close>

definition normalizeStrings :: "string list \<Rightarrow> string list" where
  "normalizeStrings values =
     sort_linear (remdups (List.filter (\<lambda>v. v \<noteq> []) (List.map trim_space values)))"

lemma normalizeStrings_set: "set (normalizeStrings xs) = {trim_space x | x. x \<in> set xs \<and> trim_space x \<noteq> []}"
  by (auto simp: normalizeStrings_def)

lemma normalizeStrings_sorted: "sorted (normalizeStrings xs)" "distinct (normalizeStrings xs)"
  by (simp_all add: normalizeStrings_def)

text \<open>The result is a function of the set of values: neither order nor repetition matters.\<close>

lemma normalizeStrings_cong:
  assumes "set xs = set ys"
  shows "normalizeStrings xs = normalizeStrings ys"
  using assms normalizeStrings_sorted [of xs] normalizeStrings_sorted [of ys]
  by (intro sorted_distinct_set_unique) (simp_all add: normalizeStrings_set)

lemma normalizeStrings_fixed:
  assumes "\<forall>x \<in> set xs. x \<noteq> [] \<and> trim_space x = x"
  shows "set (normalizeStrings xs) = set xs"
  using assms by (auto simp: normalizeStrings_set) (metis)+

lemma normalizeStrings_idem: "normalizeStrings (normalizeStrings xs) = normalizeStrings xs"
proof -
  have fixed: "set (normalizeStrings (normalizeStrings xs)) = set (normalizeStrings xs)"
    by (rule normalizeStrings_fixed) (auto simp: normalizeStrings_set)
  show ?thesis
    by (rule sorted_distinct_set_unique) (use normalizeStrings_sorted fixed in auto)
qed

section \<open>Facts about \<open>stripPort\<close>\<close>

lemma stripPort_star [simp]: "stripPort ''*'' = ''*''"
  by (simp add: stripPort_def has_prefix_def)

text \<open>A plain address keeps its colons; a host with a port loses only the port.\<close>

lemma stripPort_ip: "net_parse_ip d \<noteq> None \<Longrightarrow> \<not> has_prefix d ''['' \<Longrightarrow> stripPort d = d"
  by (auto simp: stripPort_def)

lemma stripPort_host_port:
  assumes "\<not> has_prefix h ''[''" and "h \<noteq> []" and "isPortLike p" and "net_parse_ip (h @ CHR '':'' # p) = None"
    and "CHR '':'' \<notin> set p"
  shows "stripPort (h @ CHR '':'' # p) = h"
proof -
  have "last_index_byte (h @ CHR '':'' # p) (CHR '':'') = Some (length h)"
    using assms(5) by (rule last_index_byte_append)
  moreover have "\<not> has_prefix (h @ CHR '':'' # p) ''[''"
    using assms(1,2) by (cases h) (auto simp: has_prefix_def)
  ultimately show ?thesis using assms(3,4) by (simp add: stripPort_def)
qed

lemma stripPort_bracket:
  assumes "CHR '']'' \<notin> set h"
  shows "stripPort (CHR ''['' # h @ CHR '']'' # rest) = h"
proof -
  have "index_byte (CHR ''['' # h @ CHR '']'' # rest) (CHR '']'') = Some (length (CHR ''['' # h))"
    using index_byte_append [of "CHR '']''" "CHR ''['' # h" rest] assms by simp
  then show ?thesis by (simp add: stripPort_def has_prefix_def)
qed

end
