(* ===== verification/Ssh_Policy.thy ===== *)
theory Ssh_Policy
  imports Policy_Types
begin

text \<open>
  The \<open>ssh\<close> section of the policy (\<open>controlplane.go\<close>): \<open>normalizeSSHPolicy\<close> turns it into
  rules that are all supported, or into an \<open>Unsupported\<close> state with a reason and no rule.
\<close>

section \<open>Fields of a rule\<close>

text \<open>
  \<open>firstUnknownField\<close> returns the least name outside the allowed ones, and the empty string
  when there is none. The keys of a Go map come in any order; the sort removes it.
\<close>

definition firstUnknownField :: "(string, json) gomap \<Rightarrow> string list \<Rightarrow> string" where
  "firstUnknownField wire allowed =
     (case sort_linear (List.filter (\<lambda>f. f \<notin> set allowed) (map fst wire)) of [] \<Rightarrow> [] | u # _ \<Rightarrow> u)"

definition canonicalSSHString :: "(string, json) gomap \<Rightarrow> string \<Rightarrow> string option" where
  "canonicalSSHString wire name = (case map_of wire name of None \<Rightarrow> None | Some raw \<Rightarrow>
     (case as_string raw of None \<Rightarrow> None | Some v \<Rightarrow>
        if v = [] \<or> trim_space v \<noteq> v then None else Some v))"

definition canonicalSSHStringSlice :: "(string, json) gomap \<Rightarrow> string \<Rightarrow> string list option" where
  "canonicalSSHStringSlice wire name = (case map_of wire name of None \<Rightarrow> None | Some raw \<Rightarrow>
     if raw = JNull then None
     else (case as_strings raw of None \<Rightarrow> None | Some vs \<Rightarrow>
        if vs = [] then None
        else if list_ex (\<lambda>v. v = [] \<or> trim_space v \<noteq> v) vs \<or> \<not> distinct vs then None
        else Some vs))"

definition allSSHSelectors :: "string list \<Rightarrow> (string \<Rightarrow> bool) \<Rightarrow> bool" where
  "allSSHSelectors vs supported \<longleftrightarrow> list_all supported vs"

definition ssh_separators :: string where
  "ssh_separators = [CHR '' '', char_of (9::nat), char_of (13::nat), char_of (10::nat), CHR '':'']"

definition exactSSHLogin :: "string \<Rightarrow> bool" where
  "exactSSHLogin s \<longleftrightarrow>
     (if count_byte s (CHR ''@'') \<noteq> 1 \<or> contains_any s ssh_separators then False
      else (case cut_byte s (CHR ''@'') of Some (l, r) \<Rightarrow> l \<noteq> [] \<and> r \<noteq> [] | None \<Rightarrow> False))"

definition tailscaleHumanRoles :: "string list" where
  "tailscaleHumanRoles = [''admin'', ''member'', ''owner'', ''it-admin'', ''network-admin'', ''billing-admin'', ''auditor'']"

definition supportedSSHSource :: "(string, string list) gomap \<Rightarrow> string \<Rightarrow> bool" where
  "supportedSSHSource groups s \<longleftrightarrow>
     (if exactSSHLogin s then True
      else if has_prefix s ''group:'' then
        (case map_of groups s of None \<Rightarrow> False | Some members \<Rightarrow> list_all exactSSHLogin members)
      else if has_prefix s ''autogroup:'' then trim_prefix s ''autogroup:'' \<in> set tailscaleHumanRoles
      else False)"

definition supportedSSHDestination :: "string \<Rightarrow> bool" where
  "supportedSSHDestination s \<longleftrightarrow>
     (if s = ''autogroup:self'' then True
      else if \<not> has_prefix s ''tag:'' then False
      else trim_prefix s ''tag:'' \<noteq> [] \<and> \<not> contains_any (trim_prefix s ''tag:'') ssh_separators)"

definition sshUserInitial :: "char \<Rightarrow> bool" where
  "sshUserInitial c \<longleftrightarrow> c = CHR ''_'' \<or> is_lower c \<or> is_upper c"

definition sshUserBody :: "char \<Rightarrow> bool" where
  "sshUserBody c \<longleftrightarrow> sshUserInitial c \<or> is_digit c \<or> c = CHR ''.'' \<or> c = CHR ''-''"

text \<open>The loop over the bytes after the first: a dollar sign is allowed at the very end.\<close>

fun ssh_user_rest :: "string \<Rightarrow> bool" where
  "ssh_user_rest [] = True"
| "ssh_user_rest (c # cs) =
     (if sshUserBody c then ssh_user_rest cs
      else if c = CHR ''$'' \<and> cs = [] then ssh_user_rest cs
      else False)"

definition supportedSSHUser :: "string \<Rightarrow> bool" where
  "supportedSSHUser u \<longleftrightarrow>
     (if u = ''autogroup:nonroot'' then True
      else if has_prefix u ''autogroup:'' \<or> has_prefix u ''localpart:'' then False
      else (case u of [] \<Rightarrow> False | c # cs \<Rightarrow>
        if length u > 256 \<or> \<not> sshUserInitial c then False else ssh_user_rest cs))"

text \<open>Durations are nanoseconds.\<close>

definition minute :: int where "minute = 60 * 1000000000"
definition hour :: int where "hour = 60 * minute"

text \<open>\<open>time.ParseDuration\<close> on digits and one unit: an error when the value leaves 64 bits.\<close>

definition parse_period :: "string \<Rightarrow> int \<Rightarrow> int option" where
  "parse_period ds unit = (case parse_digits ds of None \<Rightarrow> None | Some n \<Rightarrow> in_int64 (int n * unit))"

definition canonicalSSHCheckPeriod :: "json \<Rightarrow> int option" where
  "canonicalSSHCheckPeriod raw = (case as_string raw of None \<Rightarrow> None | Some v \<Rightarrow>
     if length v < 2 \<or> trim_space v \<noteq> v \<or> hd v = CHR ''0'' then None
     else if last v \<noteq> CHR ''m'' \<and> last v \<noteq> CHR ''h'' then None
     else if \<not> list_all is_digit (butlast v) then None
     else (case parse_period (butlast v) (if last v = CHR ''m'' then minute else hour) of
         None \<Rightarrow> None
       | Some period \<Rightarrow> if period < minute \<or> period > 168 * hour then None else Some period))"

section \<open>The section\<close>

definition unsupportedSSHPolicy :: "nat \<Rightarrow> sshUnsupportedReason \<Rightarrow> SSHPolicy" where
  "unsupportedSSHPolicy n reason =
     \<lparr>State = SSHUnsupported, Rules = [], RuleCount = n, UnsupportedReason = reason\<rparr>"

definition absentSSHPolicy :: SSHPolicy where
  "absentSSHPolicy = \<lparr>State = SSHAbsent, Rules = [], RuleCount = 0, UnsupportedReason = SSHNoReason\<rparr>"

text \<open>The body of the loop: one rule, or the reason it is not supported.\<close>

definition ssh_check_period :: "string \<Rightarrow> json option \<Rightarrow> int option" where
  "ssh_check_period action raw = (case raw of None \<Rightarrow> Some 0 | Some v \<Rightarrow>
     if action \<noteq> ''check'' then None else canonicalSSHCheckPeriod v)"

definition ssh_option :: "'a option \<Rightarrow> 'e \<Rightarrow> 'e + 'a" where
  "ssh_option x e = (case x of None \<Rightarrow> Inl e | Some a \<Rightarrow> Inr a)"

definition ssh_selectors ::
  "(string, json) gomap \<Rightarrow> string \<Rightarrow> (string \<Rightarrow> bool) \<Rightarrow> sshUnsupportedReason \<Rightarrow> sshUnsupportedReason + string list" where
  "ssh_selectors wire name supported reason =
     and_then (ssh_option (canonicalSSHStringSlice wire name) reason) (\<lambda>vs.
     and_then (reject_if (\<not> allSSHSelectors vs supported) reason) (\<lambda>_. Inr vs))"

definition ssh_rule_fields :: "string list" where
  "ssh_rule_fields = [''action'', ''src'', ''dst'', ''users'', ''checkPeriod'']"

definition normalizeSSHRule :: "(string, string list) gomap \<Rightarrow> json \<Rightarrow> sshUnsupportedReason + SSHRule" where
  "normalizeSSHRule groups raw =
     (case as_raw_map raw of
        Some (Some wire) \<Rightarrow>
          and_then (reject_if (firstUnknownField wire ssh_rule_fields \<noteq> []) SSHUnknownField) (\<lambda>_.
          and_then (ssh_option (canonicalSSHString wire ''action'') SSHAction) (\<lambda>action.
          and_then (reject_if (action \<noteq> ''accept'' \<and> action \<noteq> ''check'') SSHAction) (\<lambda>_.
          and_then (ssh_selectors wire ''src'' (supportedSSHSource groups) SSHSource) (\<lambda>src.
          and_then (ssh_selectors wire ''dst'' supportedSSHDestination SSHDestination) (\<lambda>dst.
          and_then (ssh_selectors wire ''users'' supportedSSHUser SSHUser) (\<lambda>users.
          and_then (ssh_option (ssh_check_period action (map_of wire ''checkPeriod'')) SSHCheckPeriod) (\<lambda>period.
            Inr \<lparr>ssh_Action = action, ssh_Src = normalizeStrings src, ssh_Dst = normalizeStrings dst,
                 ssh_Users = normalizeStrings users, ssh_CheckPeriod = period\<rparr>)))))))
      | _ \<Rightarrow> Inl SSHRuleShape)"

definition normalizeSSHPolicy :: "json \<Rightarrow> (string, string list) gomap \<Rightarrow> bool \<Rightarrow> SSHPolicy" where
  "normalizeSSHPolicy raw groups normalizeRules =
     (case as_raws raw of
        Some (Some wireRules) \<Rightarrow>
          if wireRules = [] then absentSSHPolicy
          else if \<not> normalizeRules then unsupportedSSHPolicy (length wireRules) SSHProvider
          else (case each (\<lambda>_. normalizeSSHRule groups) 0 wireRules of
              Inl reason \<Rightarrow> unsupportedSSHPolicy (length wireRules) reason
            | Inr rules \<Rightarrow>
                \<lparr>State = SSHSupported, Rules = rules, RuleCount = length rules, UnsupportedReason = SSHNoReason\<rparr>)
      | _ \<Rightarrow> unsupportedSSHPolicy 0 SSHSectionShape)"

section \<open>What a normalised rule satisfies\<close>

text \<open>
  The specification of a supported rule, in terms of the selectors alone: the contract the
  machine matcher relies on.
\<close>

definition canonical_values :: "string list \<Rightarrow> bool" where
  "canonical_values xs \<longleftrightarrow> xs \<noteq> [] \<and> sorted xs \<and> distinct xs \<and> (\<forall>x \<in> set xs. x \<noteq> [] \<and> trim_space x = x)"

definition ssh_rule_ok :: "(string, string list) gomap \<Rightarrow> SSHRule \<Rightarrow> bool" where
  "ssh_rule_ok groups r \<longleftrightarrow>
     (ssh_Action r = ''accept'' \<or> ssh_Action r = ''check'') \<and>
     canonical_values (ssh_Src r) \<and> list_all (supportedSSHSource groups) (ssh_Src r) \<and>
     canonical_values (ssh_Dst r) \<and> list_all supportedSSHDestination (ssh_Dst r) \<and>
     canonical_values (ssh_Users r) \<and> list_all supportedSSHUser (ssh_Users r) \<and>
     (ssh_CheckPeriod r = 0 \<or> ssh_Action r = ''check'' \<and> minute \<le> ssh_CheckPeriod r \<and> ssh_CheckPeriod r \<le> 168 * hour)"

lemma ssh_option_eq_Inr [simp]: "ssh_option x e = Inr a \<longleftrightarrow> x = Some a"
  by (simp add: ssh_option_def split: option.splits)

lemma ssh_option_eq_Inl: "ssh_option x e = Inl e' \<longleftrightarrow> x = None \<and> e' = e"
  by (auto simp: ssh_option_def split: option.splits)

lemma ssh_selectors_canonical:
  assumes "ssh_selectors wire name supported reason = Inr vs"
  shows "canonical_values (normalizeStrings vs)" and "list_all supported (normalizeStrings vs)"
proof -
  have vs: "vs \<noteq> []" "\<forall>v \<in> set vs. v \<noteq> [] \<and> trim_space v = v" "list_all supported vs"
    using assms by (auto simp: ssh_selectors_def canonicalSSHStringSlice_def allSSHSelectors_def list_ex_iff
        split: option.splits if_splits)
  have set: "set (normalizeStrings vs) = set vs" using vs(2) by (rule normalizeStrings_fixed)
  then have "normalizeStrings vs \<noteq> []" using vs(1) by (metis set_empty)
  with set vs show "canonical_values (normalizeStrings vs)"
    by (simp add: canonical_values_def normalizeStrings_sorted)
  from set vs(3) show "list_all supported (normalizeStrings vs)" by (simp add: list_all_iff)
qed

lemma canonicalSSHCheckPeriod_bounds:
  "canonicalSSHCheckPeriod raw = Some p \<Longrightarrow> minute \<le> p \<and> p \<le> 168 * hour"
  by (auto simp: canonicalSSHCheckPeriod_def split: option.splits if_splits)

lemma normalizeSSHRule_ok:
  assumes "normalizeSSHRule groups raw = Inr r"
  shows "ssh_rule_ok groups r"
proof -
  from assms obtain wire action src dst users period where
    action: "action = ''accept'' \<or> action = ''check''"
    and src: "ssh_selectors wire ''src'' (supportedSSHSource groups) SSHSource = Inr src"
    and dst: "ssh_selectors wire ''dst'' supportedSSHDestination SSHDestination = Inr dst"
    and users: "ssh_selectors wire ''users'' supportedSSHUser SSHUser = Inr users"
    and period: "ssh_check_period action (map_of wire ''checkPeriod'') = Some period"
    and r: "r = \<lparr>ssh_Action = action, ssh_Src = normalizeStrings src, ssh_Dst = normalizeStrings dst,
                 ssh_Users = normalizeStrings users, ssh_CheckPeriod = period\<rparr>"
    by (auto simp: normalizeSSHRule_def split: option.splits)
  have "period = 0 \<or> action = ''check'' \<and> minute \<le> period \<and> period \<le> 168 * hour"
    using period canonicalSSHCheckPeriod_bounds by (auto simp: ssh_check_period_def split: option.splits if_splits)
  with action ssh_selectors_canonical [OF src] ssh_selectors_canonical [OF dst] ssh_selectors_canonical [OF users]
  show ?thesis by (simp add: r ssh_rule_ok_def)
qed

text \<open>The invariant of an \<open>SSHPolicy\<close>: rules exist in the supported state only, and are counted.\<close>

definition ssh_policy_ok :: "(string, string list) gomap \<Rightarrow> SSHPolicy \<Rightarrow> bool" where
  "ssh_policy_ok groups p \<longleftrightarrow>
     (State p = SSHSupported \<longrightarrow> Rules p \<noteq> [] \<and> RuleCount p = length (Rules p) \<and> UnsupportedReason p = SSHNoReason
        \<and> list_all (ssh_rule_ok groups) (Rules p)) \<and>
     (State p \<noteq> SSHSupported \<longrightarrow> Rules p = []) \<and>
     (State p = SSHUnsupported \<longrightarrow> UnsupportedReason p \<noteq> SSHNoReason) \<and>
     (State p = SSHAbsent \<longrightarrow> RuleCount p = 0 \<and> UnsupportedReason p = SSHNoReason)"

lemma absentSSHPolicy_ok [simp]: "ssh_policy_ok groups absentSSHPolicy"
  by (simp add: ssh_policy_ok_def absentSSHPolicy_def)

lemma normalizeSSHRule_reason:
  "normalizeSSHRule groups raw = Inl reason \<Longrightarrow> reason \<noteq> SSHNoReason"
  by (auto simp: normalizeSSHRule_def ssh_selectors_def and_then_eq_Inl ssh_option_eq_Inl split: option.splits)

lemma each_Inl: "each f i xs = Inl e \<Longrightarrow> \<exists>k x. x \<in> set xs \<and> f k x = Inl e"
  by (induction xs arbitrary: i) (fastforce simp: and_then_eq_Inl)+

end
