(* ===== verification/Policy_Doc.thy ===== *)
theory Policy_Doc
  imports Ssh_Policy
begin

text \<open>
  Validation of a policy document (\<open>controlplane.go\<close>): every section is decoded, and
  anything outside the supported access semantics is an error. An error carries the section
  and the reason the Go error message is formatted from.
\<close>

section \<open>Errors\<close>

datatype shape_error = NotObject | ObjectNull | NotArray | ArrayNull | NotStrings

datatype field_error = FieldMissing string | FieldType string | FieldEmpty string | FieldBlank string

datatype selector_error =
  SelectorBlank | GroupUndefined | TagBlank | AutogroupUnsupported | SelectorClass | NotForFunnel

datatype capability_error = CapBlank | CapSeparator | CapProtocol | CapPortForm | CapPort | CapRange

datatype proto_error = ProtoBlank | ProtoType

datatype reason =
    NotByThisControlPlane | InvalidShape shape_error | OutsideVisibility | UnknownSection
  | UnknownField nat string
  | InvalidField nat string shape_error
  | UsesField nat string
  | InvalidProto nat proto_error
  | ActionUnsupported nat string
  | SourceUnsupported nat string selector_error
  | DestinationUnsupported nat string selector_error
  | SelfNonHuman nat
  | InvalidCapability nat string capability_error
  | TargetUnsupported nat string selector_error
  | AttributeUnsupported nat string

datatype policy_error =
    DecodePolicy
  | PolicyNotObject
  | DecodeSection string
  | SectionShape string shape_error
  | DecodeRule string nat field_error
  | UnsupportedPolicy string reason

section \<open>Shapes and required fields\<close>

definition jsonStringSliceEmpty :: "json \<Rightarrow> shape_error + bool" where
  "jsonStringSliceEmpty raw = (case as_strings raw of None \<Rightarrow> Inl NotStrings | Some vs \<Rightarrow> Inr (vs = []))"

definition jsonObjectEmpty :: "json \<Rightarrow> shape_error + bool" where
  "jsonObjectEmpty raw = (case as_raw_map raw of None \<Rightarrow> Inl NotObject | Some m \<Rightarrow> Inr (or_empty m = []))"

definition jsonSectionObjectEmpty :: "json \<Rightarrow> shape_error + bool" where
  "jsonSectionObjectEmpty raw = (if raw = JNull then Inl ObjectNull else jsonObjectEmpty raw)"

definition jsonArrayEmpty :: "json \<Rightarrow> shape_error + bool" where
  "jsonArrayEmpty raw = (if raw = JNull then Inl ArrayNull
     else (case as_raws raw of None \<Rightarrow> Inl NotArray | Some vs \<Rightarrow> Inr (or_empty vs = [])))"

definition validateIgnoredProtocol :: "json \<Rightarrow> proto_error + unit" where
  "validateIgnoredProtocol raw =
     (case as_string raw of
        Some t \<Rightarrow> if trim_space t = [] then Inl ProtoBlank else Inr ()
      | None \<Rightarrow> (case raw of JNum _ \<Rightarrow> Inr () | _ \<Rightarrow> Inl ProtoType))"

text \<open>\<open>unmarshalRequiredACLField\<close> on a field of one Go type, given by its decoder.\<close>

definition unmarshalRequiredACLField :: "(json \<Rightarrow> 'a option) \<Rightarrow> (string, json) gomap \<Rightarrow> string \<Rightarrow> field_error + 'a" where
  "unmarshalRequiredACLField decode wire name = (case map_of wire name of
     None \<Rightarrow> Inl (FieldMissing name)
   | Some raw \<Rightarrow> (case decode raw of None \<Rightarrow> Inl (FieldType name) | Some v \<Rightarrow> Inr v))"

definition unmarshalRequiredStringSlice :: "(string, json) gomap \<Rightarrow> string \<Rightarrow> field_error + string list" where
  "unmarshalRequiredStringSlice wire name = (case map_of wire name of
     None \<Rightarrow> Inl (FieldMissing name)
   | Some raw \<Rightarrow> (case as_strings raw of
       None \<Rightarrow> Inl (FieldType name)
     | Some vs \<Rightarrow> if vs = [] then Inl (FieldEmpty name)
         else if list_ex (\<lambda>v. trim_space v = []) vs then Inl (FieldBlank name) else Inr vs))"

text \<open>Renaming the error of a step: \<open>fmt.Errorf\<close> and the error types wrap the cause.\<close>

fun wrap :: "('e \<Rightarrow> 'f) \<Rightarrow> 'e + 'a \<Rightarrow> 'f + 'a" where
  "wrap f (Inl e) = Inl (f e)"
| "wrap f (Inr a) = Inr a"

lemma wrap_eq_Inr [simp]: "wrap f r = Inr a \<longleftrightarrow> r = Inr a"
  by (cases r) simp_all

section \<open>ACL rules\<close>

definition check_selectors :: "(string \<Rightarrow> 'e + 'b) \<Rightarrow> string list \<Rightarrow> 'e + 'b list" where
  "check_selectors f xs = each (\<lambda>_. f) 0 xs"

definition acl_fields :: "string list" where
  "acl_fields = [''action'', ''src'', ''dst'', ''proto'', ''srcPosture'']"

definition validateACLRule :: "nat \<Rightarrow> (string, json) gomap \<Rightarrow> policy_error + ACLRule" where
  "validateACLRule index wire = (let unsupported = (\<lambda>r. UnsupportedPolicy ''acls'' r) in
     and_then (reject_if (firstUnknownField wire acl_fields \<noteq> [])
       (unsupported (UnknownField index (firstUnknownField wire acl_fields)))) (\<lambda>_.
     and_then (case map_of wire ''srcPosture'' of None \<Rightarrow> Inr () | Some v \<Rightarrow>
       (case jsonStringSliceEmpty v of
          Inl e \<Rightarrow> Inl (unsupported (InvalidField index ''srcPosture'' e))
        | Inr isempty \<Rightarrow> reject_if (\<not> isempty) (unsupported (UsesField index ''srcPosture'')))) (\<lambda>_.
     and_then (case map_of wire ''proto'' of None \<Rightarrow> Inr () | Some v \<Rightarrow>
       wrap (\<lambda>e. unsupported (InvalidProto index e)) (validateIgnoredProtocol v)) (\<lambda>_.
     and_then (wrap (DecodeRule ''acls'' index) (unmarshalRequiredACLField as_string wire ''action'')) (\<lambda>action.
     and_then (reject_if (action \<noteq> ''accept'') (unsupported (ActionUnsupported index action))) (\<lambda>_.
     and_then (wrap (DecodeRule ''acls'' index) (unmarshalRequiredACLField as_strings wire ''src'')) (\<lambda>src.
     and_then (wrap (DecodeRule ''acls'' index) (unmarshalRequiredACLField as_strings wire ''dst'')) (\<lambda>dst.
     and_then (check_selectors (\<lambda>s. reject_if (unsupportedPolicySelector (trim_space s))
       (unsupported (SourceUnsupported index (trim_space s) SelectorClass))) src) (\<lambda>_.
     and_then (check_selectors (\<lambda>d. reject_if (unsupportedPolicySelector (stripPort (trim_space d)))
       (unsupported (DestinationUnsupported index (stripPort (trim_space d)) SelectorClass))) dst) (\<lambda>_.
       Inr \<lparr>acl_Action = action, acl_Src = src, acl_Dst = dst\<rparr>))))))))))"

definition validateACLRules :: "json \<Rightarrow> policy_error + ACLRule list" where
  "validateACLRules raw = (case as_raw_maps raw of
     None \<Rightarrow> Inl (DecodeSection ''acls'')
   | Some wireRules \<Rightarrow> each validateACLRule 0 wireRules)"

section \<open>Grant capabilities\<close>

definition parseGrantPortRange :: "string \<Rightarrow> capability_error + (int \<times> int)" where
  "parseGrantPortRange raw = (case split_byte (CHR ''-'') raw of
     [a] \<Rightarrow> (case atoi (trim_space a) of None \<Rightarrow> Inl CapPort | Some start \<Rightarrow>
        if start < 1 \<or> start > 65535 then Inl CapPort else Inr (start, start))
   | [a, b] \<Rightarrow> (case atoi (trim_space a) of None \<Rightarrow> Inl CapPort | Some start \<Rightarrow>
        if start < 1 \<or> start > 65535 then Inl CapPort
        else (case atoi (trim_space b) of None \<Rightarrow> Inl CapRange | Some finish \<Rightarrow>
          if finish < start \<or> finish > 65535 then Inl CapRange else Inr (start, finish)))
   | _ \<Rightarrow> Inl CapPortForm)"

definition protocol_aliases :: "(string, 8 word) gomap" where
  "protocol_aliases = [(''icmp'', 1), (''igmp'', 2), (''ipv4'', 4), (''ip-in-ip'', 4), (''tcp'', 6),
     (''egp'', 8), (''igp'', 9), (''udp'', 17), (''gre'', 47), (''esp'', 50), (''ah'', 51), (''sctp'', 132)]"

definition parseGrantProtocol :: "string \<Rightarrow> capability_error + 8 word" where
  "parseGrantProtocol raw = (let value = to_lower (trim_space raw) in
     case map_of protocol_aliases value of
       Some p \<Rightarrow> Inr p
     | None \<Rightarrow> (case atoi value of None \<Rightarrow> Inl CapProtocol | Some number \<Rightarrow>
         if number < 1 \<or> number > 255 then Inl CapProtocol else Inr (word_of_int number)))"

definition parseGrantIPCapability :: "string \<Rightarrow> capability_error + grantIPCapability" where
  "parseGrantIPCapability raw = (let value = trim_space raw in
     if value = [] then Inl CapBlank
     else if value = ''*'' then
       Inr \<lparr>AllProtocols = True, Protocol = 0, AllPorts = True, PortStart = 0, PortEnd = 0\<rparr>
     else if count_byte value (CHR '':'') > 1 then Inl CapSeparator
     else (case cut_byte value (CHR '':'') of
         None \<Rightarrow> and_then (parseGrantPortRange value) (\<lambda>(start, finish).
           Inr \<lparr>AllProtocols = True, Protocol = 0, AllPorts = False, PortStart = start, PortEnd = finish\<rparr>)
       | Some (proto, ports) \<Rightarrow> and_then (parseGrantProtocol proto) (\<lambda>protocol.
           if ports = ''*'' then
             Inr \<lparr>AllProtocols = False, Protocol = protocol, AllPorts = True, PortStart = 0, PortEnd = 0\<rparr>
           else and_then (parseGrantPortRange ports) (\<lambda>(start, finish).
             Inr \<lparr>AllProtocols = False, Protocol = protocol, AllPorts = False, PortStart = start, PortEnd = finish\<rparr>))))"

section \<open>Grant selectors\<close>

datatype grantSourceKind = SourceWildcard | SourceHuman | SourceGroup | SourceRole | SourceMachine

definition browserEligible :: "grantSourceKind \<Rightarrow> bool" where
  "browserEligible k \<longleftrightarrow> k = SourceWildcard \<or> k = SourceHuman \<or> k = SourceGroup \<or> k = SourceRole"

definition supportsSelf :: "grantSourceKind \<Rightarrow> bool" where
  "supportsSelf k \<longleftrightarrow> k = SourceHuman \<or> k = SourceGroup \<or> k = SourceRole"

definition grantSourceAutogroups :: "string list" where
  "grantSourceAutogroups = [''admin'', ''member'', ''owner'', ''it-admin'', ''network-admin'', ''billing-admin'',
     ''auditor'', ''tagged'', ''shared'']"

definition email_like :: "string \<Rightarrow> bool" where
  "email_like s \<longleftrightarrow> contains_byte s (CHR ''@'') \<and> \<not> contains_byte s (CHR '':'')"

definition validateGrantSourceSelector :: "string \<Rightarrow> Policy \<Rightarrow> selector_error + grantSourceKind" where
  "validateGrantSourceSelector selector policy = (let s = trim_space selector in
     if s = [] then Inl SelectorBlank
     else if s = ''*'' then Inr SourceWildcard
     else if net_parse_ip s \<noteq> None then Inr SourceMachine
     else if net_parse_cidr s \<noteq> None then Inr SourceMachine
     else if has_prefix s ''group:'' then
       (if gomap_has (Groups policy) s then Inr SourceGroup else Inl GroupUndefined)
     else if has_prefix s ''tag:'' then
       (if trim_prefix s ''tag:'' \<noteq> [] then Inr SourceMachine else Inl TagBlank)
     else if has_prefix s ''autogroup:'' then
       (let role = trim_prefix s ''autogroup:'' in
        if role \<in> set tailscaleHumanRoles then Inr SourceRole
        else if role \<in> set grantSourceAutogroups then Inr SourceMachine
        else Inl AutogroupUnsupported)
     else if unsupportedPolicySelector s then Inl SelectorClass
     else if gomap_has (Hosts policy) s then Inr SourceMachine
     else if email_like s then Inr SourceHuman
     else Inl SelectorClass)"

definition validateGrantDestinationSelector :: "string \<Rightarrow> Policy \<Rightarrow> selector_error + unit" where
  "validateGrantDestinationSelector selector policy = (let s = trim_space selector in
     if s = [] then Inl SelectorBlank
     else if s = ''*'' \<or> s = ''autogroup:self'' \<or> net_parse_ip s \<noteq> None then Inr ()
     else if net_parse_cidr s \<noteq> None then Inr ()
     else if has_prefix s ''tag:'' then (if trim_prefix s ''tag:'' \<noteq> [] then Inr () else Inl TagBlank)
     else if reservedPolicySelector s then Inl SelectorClass
     else if gomap_has (Hosts policy) s then Inr ()
     else Inl SelectorClass)"

definition grantSourcesSupportSelf :: "grantSourceKind list \<Rightarrow> bool" where
  "grantSourcesSupportSelf kinds \<longleftrightarrow> (if kinds = [] then False else list_all supportsSelf kinds)"

definition validateFunnelNodeAttrTarget :: "string \<Rightarrow> Policy \<Rightarrow> selector_error + unit" where
  "validateFunnelNodeAttrTarget selector policy = (let s = trim_space selector in
     if s = ''*'' \<or> s = ''autogroup:member'' then Inr ()
     else if has_prefix s ''group:'' then (if gomap_has (Groups policy) s then Inr () else Inl GroupUndefined)
     else if has_prefix s ''tag:'' then (if trim_prefix s ''tag:'' \<noteq> [] then Inr () else Inl TagBlank)
     else if email_like s then Inr ()
     else Inl NotForFunnel)"

section \<open>Grant rules\<close>

definition grant_fields :: "string list" where
  "grant_fields = [''src'', ''dst'', ''ip'', ''app'', ''srcPosture'', ''via'']"

definition reject_present ::
  "(json \<Rightarrow> shape_error + bool) \<Rightarrow> string \<Rightarrow> nat \<Rightarrow> string \<Rightarrow> (string, json) gomap \<Rightarrow> policy_error + unit" where
  "reject_present isEmpty section index field wire = (case map_of wire field of None \<Rightarrow> Inr () | Some v \<Rightarrow>
     (case isEmpty v of
        Inl e \<Rightarrow> Inl (UnsupportedPolicy section (InvalidField index field e))
      | Inr isempty \<Rightarrow> reject_if (\<not> isempty) (UnsupportedPolicy section (UsesField index field))))"

definition validateGrantRule :: "Policy \<Rightarrow> nat \<Rightarrow> (string, json) gomap \<Rightarrow> policy_error + GrantRule" where
  "validateGrantRule policy index wire = (let unsupported = (\<lambda>r. UnsupportedPolicy ''grants'' r) in
     and_then (reject_if (firstUnknownField wire grant_fields \<noteq> [])
       (unsupported (UnknownField index (firstUnknownField wire grant_fields)))) (\<lambda>_.
     and_then (reject_present jsonObjectEmpty ''grants'' index ''app'' wire) (\<lambda>_.
     and_then (reject_present jsonStringSliceEmpty ''grants'' index ''srcPosture'' wire) (\<lambda>_.
     and_then (reject_present jsonStringSliceEmpty ''grants'' index ''via'' wire) (\<lambda>_.
     and_then (wrap (DecodeRule ''grants'' index) (unmarshalRequiredStringSlice wire ''src'')) (\<lambda>src.
     and_then (wrap (DecodeRule ''grants'' index) (unmarshalRequiredStringSlice wire ''dst'')) (\<lambda>dst.
     and_then (wrap (DecodeRule ''grants'' index) (unmarshalRequiredStringSlice wire ''ip'')) (\<lambda>ip.
     and_then (check_selectors (\<lambda>s. wrap (\<lambda>e. unsupported (SourceUnsupported index s e))
       (validateGrantSourceSelector s policy)) src) (\<lambda>kinds.
     and_then (check_selectors (\<lambda>s. wrap (\<lambda>e. unsupported (DestinationUnsupported index s e))
       (validateGrantDestinationSelector s policy)) dst) (\<lambda>_.
     and_then (reject_if (list_ex (\<lambda>s. trim_space s = ''autogroup:self'') dst \<and> \<not> grantSourcesSupportSelf kinds)
       (unsupported (SelfNonHuman index))) (\<lambda>_.
     and_then (check_selectors (\<lambda>v. wrap (\<lambda>e. unsupported (InvalidCapability index v e))
       (parseGrantIPCapability v)) ip) (\<lambda>capabilities.
       Inr \<lparr>grant_Src = normalizeStrings src,
            grant_BrowserSrc = normalizeStrings (map fst (List.filter (\<lambda>(s, k). browserEligible k) (zip src kinds))),
            grant_Dst = normalizeStrings dst,
            grant_IPCapabilities = capabilities\<rparr>))))))))))))"

definition validateGrantRules :: "json \<Rightarrow> Policy \<Rightarrow> policy_error + GrantRule list" where
  "validateGrantRules raw policy = (case as_raw_maps raw of
     None \<Rightarrow> Inl (DecodeSection ''grants'')
   | Some wireRules \<Rightarrow> each (validateGrantRule policy) 0 wireRules)"

section \<open>Node attributes\<close>

definition nodeattr_fields :: "string list" where
  "nodeattr_fields = [''target'', ''attr'', ''app'']"

definition validateNodeAttr :: "Policy \<Rightarrow> nat \<Rightarrow> (string, json) gomap \<Rightarrow> policy_error + unit" where
  "validateNodeAttr policy index entry = (let unsupported = (\<lambda>r. UnsupportedPolicy ''nodeAttrs'' r) in
     and_then (reject_if (firstUnknownField entry nodeattr_fields \<noteq> [])
       (unsupported (UnknownField index (firstUnknownField entry nodeattr_fields)))) (\<lambda>_.
     and_then (wrap (DecodeRule ''nodeAttrs'' index) (unmarshalRequiredStringSlice entry ''target'')) (\<lambda>target.
     and_then (reject_present jsonObjectEmpty ''nodeAttrs'' index ''app'' entry) (\<lambda>_.
     and_then (wrap (DecodeRule ''nodeAttrs'' index) (unmarshalRequiredStringSlice entry ''attr'')) (\<lambda>attr.
     and_then (check_selectors (\<lambda>s. wrap (\<lambda>e. unsupported (TargetUnsupported index s e))
       (validateFunnelNodeAttrTarget s policy)) target) (\<lambda>_.
     and_then (check_selectors (\<lambda>a. reject_if (trim_space a \<noteq> ''funnel'')
       (unsupported (AttributeUnsupported index a))) attr) (\<lambda>_. Inr ())))))))"

definition validateNodeAttrs :: "json \<Rightarrow> Policy \<Rightarrow> policy_error + bool" where
  "validateNodeAttrs raw policy = (case as_raw_maps raw of
     None \<Rightarrow> Inl (DecodeSection ''nodeAttrs'')
   | Some entries \<Rightarrow> and_then (each (validateNodeAttr policy) 0 entries) (\<lambda>_. Inr (entries \<noteq> [])))"

section \<open>The document\<close>

record policyValidationOptions =
  AllowGrants :: bool
  AllowNodeAttrs :: bool
  NormalizeSSHRules :: bool

record validatedPolicy =
  vp_Policy :: Policy
  PolicyMode :: policyMode
  NodeAttrsPresent :: bool

definition emptyPolicy :: Policy where
  "emptyPolicy = \<lparr>Groups = [], TagOwners = [], ACLs = [], Grants = [], Hosts = [], SSH = absentSSHPolicy\<rparr>"

definition benignPolicySections :: "string list" where
  "benignPolicySections = [''autoApprovers'', ''tests'', ''sshTests'', ''derpMap'', ''disableIPv4'',
     ''oneCGNATRoute'', ''randomizeClientPort'']"

definition knownPolicySections :: "string list" where
  "knownPolicySections = [''groups'', ''tagOwners'', ''hosts'', ''acls'', ''grants'', ''postures'', ''ipsets'',
     ''nodeAttrs'', ''ssh'']"

text \<open>A section that is decoded into a map when it is present.\<close>

definition decode_map_section :: "(json \<Rightarrow> 'a option) \<Rightarrow> (string, json) gomap \<Rightarrow> string \<Rightarrow> policy_error + (string, 'a) gomap" where
  "decode_map_section decode sections name = (case map_of sections name of
     None \<Rightarrow> Inr []
   | Some value \<Rightarrow> (case jsonSectionObjectEmpty value of
       Inl e \<Rightarrow> Inl (SectionShape name e)
     | Inr _ \<Rightarrow> (case as_map_of decode value of None \<Rightarrow> Inl (DecodeSection name) | Some m \<Rightarrow> Inr m)))"

definition acls_section :: "(string, json) gomap \<Rightarrow> policy_error + ACLRule list" where
  "acls_section sections = (case map_of sections ''acls'' of None \<Rightarrow> Inr [] | Some value \<Rightarrow>
     and_then (wrap (SectionShape ''acls'') (jsonArrayEmpty value)) (\<lambda>_. validateACLRules value))"

definition grants_section :: "bool \<Rightarrow> Policy \<Rightarrow> (string, json) gomap \<Rightarrow> policy_error + GrantRule list" where
  "grants_section allow policy sections = (case map_of sections ''grants'' of None \<Rightarrow> Inr [] | Some value \<Rightarrow>
     and_then (wrap (SectionShape ''grants'') (jsonArrayEmpty value)) (\<lambda>isempty.
     and_then (reject_if (\<not> allow \<and> \<not> isempty) (UnsupportedPolicy ''grants'' NotByThisControlPlane)) (\<lambda>_.
     if allow then validateGrantRules value policy else Inr [])))"

definition empty_section :: "(string, json) gomap \<Rightarrow> string \<Rightarrow> policy_error + unit" where
  "empty_section sections name = (case map_of sections name of None \<Rightarrow> Inr () | Some value \<Rightarrow>
     and_then (wrap (\<lambda>e. UnsupportedPolicy name (InvalidShape e)) (jsonSectionObjectEmpty value)) (\<lambda>isempty.
     reject_if (\<not> isempty) (UnsupportedPolicy name OutsideVisibility)))"

definition nodeAttrs_section :: "bool \<Rightarrow> Policy \<Rightarrow> (string, json) gomap \<Rightarrow> policy_error + bool" where
  "nodeAttrs_section allow policy sections = (case map_of sections ''nodeAttrs'' of None \<Rightarrow> Inr False | Some value \<Rightarrow>
     and_then (wrap (SectionShape ''nodeAttrs'') (jsonArrayEmpty value)) (\<lambda>isempty.
     and_then (reject_if (\<not> allow \<and> \<not> isempty) (UnsupportedPolicy ''nodeAttrs'' NotByThisControlPlane)) (\<lambda>_.
     if allow then validateNodeAttrs value policy else Inr False)))"

definition ssh_section :: "bool \<Rightarrow> Policy \<Rightarrow> (string, json) gomap \<Rightarrow> SSHPolicy" where
  "ssh_section normalizeRules policy sections = (case map_of sections ''ssh'' of
     None \<Rightarrow> absentSSHPolicy
   | Some value \<Rightarrow> normalizeSSHPolicy value (Groups policy) normalizeRules)"

definition unknownSections :: "(string, json) gomap \<Rightarrow> string list" where
  "unknownSections sections =
     sort_linear (List.filter (\<lambda>s. s \<notin> set knownPolicySections \<and> s \<notin> set benignPolicySections) (map fst sections))"

definition validatePolicySections :: "(string, json) gomap \<Rightarrow> policyValidationOptions \<Rightarrow> policy_error + validatedPolicy" where
  "validatePolicySections sections options =
     and_then (decode_map_section as_strings sections ''groups'') (\<lambda>groups.
     and_then (decode_map_section as_strings sections ''tagOwners'') (\<lambda>tagOwners.
     and_then (decode_map_section as_string sections ''hosts'') (\<lambda>hosts.
     and_then (acls_section sections) (\<lambda>acls.
     let policy = emptyPolicy\<lparr>Groups := groups, TagOwners := tagOwners, Hosts := hosts, ACLs := acls\<rparr> in
     and_then (grants_section (AllowGrants options) policy sections) (\<lambda>grants.
     and_then (empty_section sections ''postures'') (\<lambda>_.
     and_then (empty_section sections ''ipsets'') (\<lambda>_.
     and_then (nodeAttrs_section (AllowNodeAttrs options) policy sections) (\<lambda>present.
     let ssh = ssh_section (NormalizeSSHRules options) policy sections in
     case unknownSections sections of
       u # _ \<Rightarrow> Inl (UnsupportedPolicy u UnknownSection)
     | [] \<Rightarrow> Inr \<lparr>vp_Policy = policy\<lparr>Grants := grants, SSH := ssh\<rparr>,
                 PolicyMode = (if grants \<noteq> [] then NetworkAccess else LegacyACL),
                 NodeAttrsPresent = present\<rparr>))))))))"

definition validatePolicyDocumentWithOptions :: "string \<Rightarrow> policyValidationOptions \<Rightarrow> policy_error + validatedPolicy" where
  "validatePolicyDocumentWithOptions raw options =
     (if trim_space raw = [] then
        Inr \<lparr>vp_Policy = emptyPolicy, PolicyMode = LegacyACL, NodeAttrsPresent = False\<rparr>
      else (case json_parse raw of None \<Rightarrow> Inl DecodePolicy | Some v \<Rightarrow>
        (case as_raw_map v of
           None \<Rightarrow> Inl DecodePolicy
         | Some None \<Rightarrow> Inl PolicyNotObject
         | Some (Some sections) \<Rightarrow> validatePolicySections sections options)))"

definition validatePolicyDocument :: "string \<Rightarrow> policy_error + validatedPolicy" where
  "validatePolicyDocument raw = validatePolicyDocumentWithOptions raw
     \<lparr>AllowGrants = True, AllowNodeAttrs = True, NormalizeSSHRules = True\<rparr>"

definition validateLegacyPolicyDocument :: "string \<Rightarrow> policy_error + validatedPolicy" where
  "validateLegacyPolicyDocument raw = validatePolicyDocumentWithOptions raw
     \<lparr>AllowGrants = False, AllowNodeAttrs = False, NormalizeSSHRules = False\<rparr>"


section \<open>What an accepted document satisfies\<close>

definition capability_ok :: "grantIPCapability \<Rightarrow> bool" where
  "capability_ok c \<longleftrightarrow> (AllProtocols c \<or> Protocol c \<noteq> 0) \<and>
     (AllPorts c \<or> 1 \<le> PortStart c \<and> PortStart c \<le> PortEnd c \<and> PortEnd c \<le> 65535)"

definition acl_rule_ok :: "ACLRule \<Rightarrow> bool" where
  "acl_rule_ok r \<longleftrightarrow> acl_Action r = ''accept'' \<and>
     (\<forall>s \<in> set (acl_Src r). \<not> unsupportedPolicySelector (trim_space s)) \<and>
     (\<forall>d \<in> set (acl_Dst r). \<not> unsupportedPolicySelector (stripPort (trim_space d)))"

definition source_kind_is :: "Policy \<Rightarrow> (grantSourceKind \<Rightarrow> bool) \<Rightarrow> string \<Rightarrow> bool" where
  "source_kind_is policy P s \<longleftrightarrow> (case validateGrantSourceSelector s policy of Inl _ \<Rightarrow> False | Inr k \<Rightarrow> P k)"

text \<open>
  The browser sources are exactly the sources of a human kind, in the same order; a rule that
  grants \<open>autogroup:self\<close> has human sources only.
\<close>

definition grant_rule_ok :: "Policy \<Rightarrow> GrantRule \<Rightarrow> bool" where
  "grant_rule_ok policy g \<longleftrightarrow>
     canonical_values (grant_Src g) \<and> list_all (source_kind_is policy (\<lambda>_. True)) (grant_Src g) \<and>
     grant_BrowserSrc g = List.filter (source_kind_is policy browserEligible) (grant_Src g) \<and>
     canonical_values (grant_Dst g) \<and> (\<forall>d \<in> set (grant_Dst g). validateGrantDestinationSelector d policy = Inr ()) \<and>
     (''autogroup:self'' \<in> set (grant_Dst g) \<longrightarrow> list_all (source_kind_is policy supportsSelf) (grant_Src g)) \<and>
     grant_IPCapabilities g \<noteq> [] \<and> list_all capability_ok (grant_IPCapabilities g)"

definition policy_ok :: "Policy \<Rightarrow> bool" where
  "policy_ok p \<longleftrightarrow> gomap_wf (Groups p) \<and> gomap_wf (TagOwners p) \<and> gomap_wf (Hosts p) \<and>
     list_all acl_rule_ok (ACLs p) \<and> list_all (grant_rule_ok p) (Grants p) \<and> ssh_policy_ok (Groups p) (SSH p)"

lemma check_selectors_all2:
  "check_selectors f xs = Inr ys \<Longrightarrow> list_all2 (\<lambda>x y. f x = Inr y) xs ys"
proof -
  have "each (\<lambda>_. f) i xs = Inr ys \<Longrightarrow> list_all2 (\<lambda>x y. f x = Inr y) xs ys" for i
    by (induction xs arbitrary: i ys) auto
  then show "check_selectors f xs = Inr ys \<Longrightarrow> list_all2 (\<lambda>x y. f x = Inr y) xs ys"
    by (simp add: check_selectors_def)
qed

lemma check_selectors_set:
  "check_selectors f xs = Inr ys \<Longrightarrow> x \<in> set xs \<Longrightarrow> \<exists>y \<in> set ys. f x = Inr y"
  by (drule check_selectors_all2) (auto simp: list_all2_conv_all_nth in_set_conv_nth)

lemma each_list_all:
  assumes "each f i xs = Inr ys" and "\<And>k x y. x \<in> set xs \<Longrightarrow> f k x = Inr y \<Longrightarrow> P y"
  shows "list_all P ys"
  using each_Inr_set [OF assms(1)] assms(2) by (fastforce simp: list_all_iff)

text \<open>Capabilities.\<close>

lemma parseGrantPortRange_bounds:
  assumes "parseGrantPortRange raw = Inr (a, b)"
  shows "1 \<le> a \<and> a \<le> b \<and> b \<le> 65535"
  using assms unfolding parseGrantPortRange_def
  by (cases "split_byte (CHR ''-'') raw" rule: remdups_adj.cases)
    (auto split: option.splits if_splits list.splits)

lemma alias_nonzero: "map_of protocol_aliases v = Some p \<Longrightarrow> p \<noteq> 0"
  by (auto simp: protocol_aliases_def split: if_splits)

lemma parseGrantProtocol_nonzero:
  assumes "parseGrantProtocol raw = Inr p"
  shows "p \<noteq> 0"
proof (cases "map_of protocol_aliases (to_lower (trim_space raw))")
  case (Some q)
  with assms have "p = q" by (simp add: parseGrantProtocol_def)
  with alias_nonzero [OF Some] show ?thesis by simp
next
  case None
  then have "\<exists>number. 1 \<le> number \<and> number \<le> 255 \<and> p = word_of_int number"
    using assms by (fastforce simp: parseGrantProtocol_def not_less split: option.splits if_splits)
  then obtain number where n: "1 \<le> number" "number \<le> 255" "p = word_of_int number" by blast
  then have "uint p = number" by (simp add: uint_word_of_int_eq take_bit_int_eq_self)
  with n(1) show ?thesis by auto
qed

lemma parseGrantIPCapability_ok:
  "parseGrantIPCapability raw = Inr c \<Longrightarrow> capability_ok c"
  unfolding parseGrantIPCapability_def Let_def
  by (auto simp: capability_ok_def split: option.splits if_splits
      dest!: parseGrantPortRange_bounds parseGrantProtocol_nonzero)

text \<open>Selectors are read up to surrounding white space.\<close>

lemma source_selector_trim [simp]:
  "validateGrantSourceSelector (trim_space s) policy = validateGrantSourceSelector s policy"
  by (simp add: validateGrantSourceSelector_def)

lemma destination_selector_trim [simp]:
  "validateGrantDestinationSelector (trim_space s) policy = validateGrantDestinationSelector s policy"
  by (simp add: validateGrantDestinationSelector_def)

lemma required_slice:
  "unmarshalRequiredStringSlice wire name = Inr vs \<Longrightarrow> vs \<noteq> [] \<and> (\<forall>v \<in> set vs. trim_space v \<noteq> [])"
  by (auto simp: unmarshalRequiredStringSlice_def list_ex_iff split: option.splits if_splits)

lemma normalizeStrings_canonical:
  assumes "vs \<noteq> []" and "\<forall>v \<in> set vs. trim_space v \<noteq> []"
  shows "canonical_values (normalizeStrings vs)" and "set (normalizeStrings vs) = trim_space ` set vs"
proof -
  show set: "set (normalizeStrings vs) = trim_space ` set vs"
    using assms(2) by (auto simp: normalizeStrings_set)
  with assms(1) have "normalizeStrings vs \<noteq> []" by (metis set_empty image_is_empty)
  with set assms(2) show "canonical_values (normalizeStrings vs)"
    by (auto simp: canonical_values_def normalizeStrings_sorted)
qed

lemma browser_sources:
  assumes "check_selectors f src = Inr kinds" and "\<forall>v \<in> set src. trim_space v \<noteq> []"
    and f: "\<And>s k. f s = Inr k \<longleftrightarrow> validateGrantSourceSelector s policy = Inr k"
  shows "normalizeStrings (map fst (List.filter (\<lambda>(s, k). P k) (zip src kinds))) =
    List.filter (source_kind_is policy P) (normalizeStrings src)"
proof -
  have kinds: "list_all2 (\<lambda>s k. validateGrantSourceSelector s policy = Inr k) src kinds"
    using check_selectors_all2 [OF assms(1)] by (simp add: f)
  have member: "s \<in> set (map fst (List.filter (\<lambda>(s, k). P k) (zip src kinds))) \<longleftrightarrow> s \<in> set src \<and> source_kind_is policy P s" for s
    using kinds
    by (induction src kinds rule: list_all2_induct) (auto simp: source_kind_is_def)
  have trim: "source_kind_is policy P (trim_space s) = source_kind_is policy P s" for s
    by (simp add: source_kind_is_def)
  let ?xs = "map fst (List.filter (\<lambda>(s, k). P k) (zip src kinds))"
  have "set (normalizeStrings ?xs) = set (List.filter (source_kind_is policy P) (normalizeStrings src))"
    using assms(2) trim by (auto simp: normalizeStrings_set member simp del: set_map)
  then show ?thesis
    by (intro sorted_distinct_set_unique) (auto simp: normalizeStrings_sorted sorted_wrt_filter)
qed


section \<open>Soundness of the validators\<close>

lemma validateACLRule_ok:
  assumes "validateACLRule i wire = Inr r"
  shows "acl_rule_ok r"
proof -
  from assms obtain action src dst us ud where r: "r = \<lparr>acl_Action = action, acl_Src = src, acl_Dst = dst\<rparr>" "action = ''accept''"
    and src: "check_selectors (\<lambda>s. reject_if (unsupportedPolicySelector (trim_space s))
       (UnsupportedPolicy ''acls'' (SourceUnsupported i (trim_space s) SelectorClass))) src = Inr us"
    and dst: "check_selectors (\<lambda>d. reject_if (unsupportedPolicySelector (stripPort (trim_space d)))
       (UnsupportedPolicy ''acls'' (DestinationUnsupported i (stripPort (trim_space d)) SelectorClass))) dst = Inr ud"
    unfolding validateACLRule_def Let_def by (elim and_thenE) (rule that, simp_all)
  show ?thesis
    using check_selectors_set [OF src] check_selectors_set [OF dst] r by (fastforce simp: acl_rule_ok_def)
qed

lemma validateGrantRule_ok:
  assumes "validateGrantRule policy i wire = Inr g"
  shows "grant_rule_ok policy g"
proof -
  define fsrc where "fsrc = (\<lambda>s. wrap (\<lambda>e. UnsupportedPolicy ''grants'' (SourceUnsupported i s e)) (validateGrantSourceSelector s policy))"
  define fdst where "fdst = (\<lambda>s. wrap (\<lambda>e. UnsupportedPolicy ''grants'' (DestinationUnsupported i s e)) (validateGrantDestinationSelector s policy))"
  define fcap where "fcap = (\<lambda>v. wrap (\<lambda>e. UnsupportedPolicy ''grants'' (InvalidCapability i v e)) (parseGrantIPCapability v))"
  from assms obtain src dst ip kinds ud u caps where
    src': "wrap (DecodeRule ''grants'' i) (unmarshalRequiredStringSlice wire ''src'') = Inr src" "check_selectors fsrc src = Inr kinds"
    and dst': "wrap (DecodeRule ''grants'' i) (unmarshalRequiredStringSlice wire ''dst'') = Inr dst" "check_selectors fdst dst = Inr ud"
    and self: "reject_if (list_ex (\<lambda>s. trim_space s = ''autogroup:self'') dst \<and> \<not> grantSourcesSupportSelf kinds)
       (UnsupportedPolicy ''grants'' (SelfNonHuman i)) = Inr u"
    and ip': "wrap (DecodeRule ''grants'' i) (unmarshalRequiredStringSlice wire ''ip'') = Inr ip" "check_selectors fcap ip = Inr caps"
    and g: "g = \<lparr>grant_Src = normalizeStrings src,
            grant_BrowserSrc = normalizeStrings (map fst (List.filter (\<lambda>(s, k). browserEligible k) (zip src kinds))),
            grant_Dst = normalizeStrings dst, grant_IPCapabilities = caps\<rparr>"
    unfolding validateGrantRule_def Let_def fsrc_def [symmetric] fdst_def [symmetric] fcap_def [symmetric]
    by (elim and_thenE) (rule that, assumption+, simp_all)
  note src = src' [simplified] and dst = dst' [simplified] and ip = ip' [simplified]
  note src_can = normalizeStrings_canonical [OF conjunct1 conjunct2, OF required_slice [OF src(1)] required_slice [OF src(1)]]
  note dst_can = normalizeStrings_canonical [OF conjunct1 conjunct2, OF required_slice [OF dst(1)] required_slice [OF dst(1)]]
  have kinds: "list_all2 (\<lambda>s k. validateGrantSourceSelector s policy = Inr k) src kinds"
    using check_selectors_all2 [OF src(2)] by (simp add: fsrc_def)
  have known: "list_all (source_kind_is policy (\<lambda>_. True)) (grant_Src g)"
    using kinds src_can(2)
    by (auto simp: g list_all_iff source_kind_is_def list_all2_conv_all_nth in_set_conv_nth)
  have dsts: "\<forall>d \<in> set (grant_Dst g). validateGrantDestinationSelector d policy = Inr ()"
    using check_selectors_set [OF dst(2)] dst_can(2) by (fastforce simp: g fdst_def)
  have human: "list_all (source_kind_is policy supportsSelf) (grant_Src g)" if "''autogroup:self'' \<in> set (grant_Dst g)"
  proof -
    have "list_all supportsSelf kinds"
      using self that dst_can(2) by (auto simp: g list_ex_iff grantSourcesSupportSelf_def split: if_splits)
    with kinds have "list_all (source_kind_is policy supportsSelf) src"
      by (auto simp: list_all_length source_kind_is_def list_all2_conv_all_nth)
    then show ?thesis using src_can(2) by (auto simp: g list_all_iff source_kind_is_def)
  qed
  have browser: "grant_BrowserSrc g = List.filter (source_kind_is policy browserEligible) (grant_Src g)"
    unfolding g using browser_sources [OF src(2), where policy = policy and P = browserEligible] required_slice [OF src(1)]
    by (simp add: fsrc_def)
  have caps: "list_all2 (\<lambda>v c. parseGrantIPCapability v = Inr c) ip caps"
    using check_selectors_all2 [OF ip(2)] by (simp add: fcap_def)
  then have "caps \<noteq> [] \<and> list_all capability_ok caps"
    using required_slice [OF ip(1)] parseGrantIPCapability_ok
    by (auto simp: list_all_length list_all2_conv_all_nth)
  with known dsts human browser src_can(1) dst_can(1) show ?thesis
    by (simp add: grant_rule_ok_def) (simp add: g)
qed

lemma normalizeSSHPolicy_ok: "ssh_policy_ok groups (normalizeSSHPolicy raw groups b)"
proof (cases "as_raws raw")
  case (Some vs)
  then show ?thesis
  proof (cases "\<exists>ws. vs = Some ws \<and> ws \<noteq> [] \<and> b")
    case False
    with Some show ?thesis
      by (cases vs) (auto simp: normalizeSSHPolicy_def ssh_policy_ok_def unsupportedSSHPolicy_def absentSSHPolicy_def)
  next
    case True
    then obtain ws where ws: "vs = Some ws" "ws \<noteq> []" b by blast
    show ?thesis
    proof (cases "each (\<lambda>_. normalizeSSHRule groups) 0 ws")
      case (Inl reason)
      with each_Inl [OF Inl] normalizeSSHRule_reason Some ws show ?thesis
        by (auto simp: normalizeSSHPolicy_def ssh_policy_ok_def unsupportedSSHPolicy_def)
    next
      case (Inr rules)
      have "list_all (ssh_rule_ok groups) rules"
        by (rule each_list_all [OF Inr]) (rule normalizeSSHRule_ok)
      moreover have "rules \<noteq> []" using each_Inr_length [OF Inr] ws(2) by auto
      ultimately show ?thesis using Some ws Inr by (simp add: normalizeSSHPolicy_def ssh_policy_ok_def)
    qed
  qed
qed (simp add: normalizeSSHPolicy_def ssh_policy_ok_def unsupportedSSHPolicy_def)

lemma decode_map_section_wf: "decode_map_section f sections name = Inr m \<Longrightarrow> gomap_wf m"
  by (auto simp: decode_map_section_def dest: as_map_of_wf split: option.splits sum.splits)

lemma acls_section_ok: "acls_section sections = Inr acls \<Longrightarrow> list_all acl_rule_ok acls"
  by (auto simp: acls_section_def validateACLRules_def split: option.splits
      intro: each_list_all validateACLRule_ok)

lemma grants_section_ok: "grants_section allow policy sections = Inr grants \<Longrightarrow> list_all (grant_rule_ok policy) grants"
  by (auto simp: grants_section_def validateGrantRules_def split: option.splits if_splits
      intro: each_list_all validateGrantRule_ok)

lemma grant_rule_ok_cong:
  assumes "Groups p = Groups q" and "Hosts p = Hosts q"
  shows "grant_rule_ok p = grant_rule_ok q"
proof -
  have "validateGrantSourceSelector s p = validateGrantSourceSelector s q" for s
    unfolding validateGrantSourceSelector_def assms ..
  moreover have "validateGrantDestinationSelector s p = validateGrantDestinationSelector s q" for s
    unfolding validateGrantDestinationSelector_def assms ..
  moreover from calculation(1) have "source_kind_is p = source_kind_is q"
    by (simp add: fun_eq_iff source_kind_is_def)
  ultimately show ?thesis by (intro ext) (simp add: grant_rule_ok_def)
qed

lemma validatePolicySections_ok:
  assumes "validatePolicySections sections options = Inr v"
  shows "policy_ok (vp_Policy v)" and "PolicyMode v = NetworkAccess \<longleftrightarrow> Grants (vp_Policy v) \<noteq> []"
    and "unknownSections sections = []"
proof -
  from assms obtain groups tagOwners hosts acls grants present where
    maps: "decode_map_section as_strings sections ''groups'' = Inr groups"
      "decode_map_section as_strings sections ''tagOwners'' = Inr tagOwners"
      "decode_map_section as_string sections ''hosts'' = Inr hosts"
    and acls: "acls_section sections = Inr acls"
    and grants: "grants_section (AllowGrants options)
        (emptyPolicy\<lparr>Groups := groups, TagOwners := tagOwners, Hosts := hosts, ACLs := acls\<rparr>) sections = Inr grants"
    and result: "(case unknownSections sections of u # _ \<Rightarrow> Inl (UnsupportedPolicy u UnknownSection)
     | [] \<Rightarrow> Inr \<lparr>vp_Policy = emptyPolicy\<lparr>Groups := groups, TagOwners := tagOwners, Hosts := hosts, ACLs := acls, Grants := grants,
       SSH := ssh_section (NormalizeSSHRules options)
          (emptyPolicy\<lparr>Groups := groups, TagOwners := tagOwners, Hosts := hosts, ACLs := acls\<rparr>) sections\<rparr>,
       PolicyMode = (if grants \<noteq> [] then NetworkAccess else LegacyACL), NodeAttrsPresent = present\<rparr>) = Inr v"
    unfolding validatePolicySections_def Let_def
    by (elim and_thenE) (rule that, assumption+)
  from result have none: "unknownSections sections = []" and
    v: "v = \<lparr>vp_Policy = emptyPolicy\<lparr>Groups := groups, TagOwners := tagOwners, Hosts := hosts, ACLs := acls, Grants := grants,
       SSH := ssh_section (NormalizeSSHRules options)
          (emptyPolicy\<lparr>Groups := groups, TagOwners := tagOwners, Hosts := hosts, ACLs := acls\<rparr>) sections\<rparr>,
       PolicyMode = (if grants \<noteq> [] then NetworkAccess else LegacyACL), NodeAttrsPresent = present\<rparr>"
    by (auto split: list.splits)
  have ssh: "ssh_policy_ok (Groups p) (ssh_section b p sections)" for b p
    by (auto simp: ssh_section_def normalizeSSHPolicy_ok split: option.splits)
  let ?p = "emptyPolicy\<lparr>Groups := groups, TagOwners := tagOwners, Hosts := hosts, ACLs := acls\<rparr>"
  have "list_all (grant_rule_ok (vp_Policy v)) grants"
    using grants_section_ok [OF grants] grant_rule_ok_cong [of "vp_Policy v" ?p] by (simp add: v)
  then show "policy_ok (vp_Policy v)"
    using maps [THEN decode_map_section_wf] acls_section_ok [OF acls] ssh [of ?p] by (simp add: v policy_ok_def)
  show "PolicyMode v = NetworkAccess \<longleftrightarrow> Grants (vp_Policy v) \<noteq> []" by (simp add: v)
  show "unknownSections sections = []" by (rule none)
qed


section \<open>Properties\<close>

lemma legacy_sections:
  assumes "validatePolicySections sections options = Inr v"
  shows "\<not> AllowGrants options \<Longrightarrow> Grants (vp_Policy v) = []"
    and "\<not> NormalizeSSHRules options \<Longrightarrow> State (SSH (vp_Policy v)) \<noteq> SSHSupported"
proof -
  have grants: "grants_section False p sections = Inr g \<Longrightarrow> g = []" for p g
    by (auto simp: grants_section_def split: option.splits)
  show "\<not> AllowGrants options \<Longrightarrow> Grants (vp_Policy v) = []"
    using assms by (cases "unknownSections sections") (auto simp: validatePolicySections_def Let_def dest: grants)
  have "State (ssh_section False p sections) \<noteq> SSHSupported" for p
    by (auto simp: ssh_section_def normalizeSSHPolicy_def absentSSHPolicy_def unsupportedSSHPolicy_def split: option.splits)
  then show "\<not> NormalizeSSHRules options \<Longrightarrow> State (SSH (vp_Policy v)) \<noteq> SSHSupported"
    using assms by (cases "unknownSections sections") (auto simp: validatePolicySections_def Let_def)
qed

lemma set_unknownSections:
  "set (unknownSections m) = {s \<in> fst ` set m. s \<notin> set knownPolicySections \<and> s \<notin> set benignPolicySections}"
  by (auto simp: unknownSections_def)

lemma emptyPolicy_ok: "policy_ok emptyPolicy"
  by (simp add: policy_ok_def emptyPolicy_def)

lemma validatePolicyDocument_cases:
  assumes "validatePolicyDocumentWithOptions raw options = Inr v"
  obtains (blank) "v = \<lparr>vp_Policy = emptyPolicy, PolicyMode = LegacyACL, NodeAttrsPresent = False\<rparr>"
  | (sections) ms where "json_parse raw = Some (JObj ms)" and "validatePolicySections (obj_map ms) options = Inr v"
proof (cases "trim_space raw = []")
  case True
  with assms show ?thesis by (intro blank) (simp add: validatePolicyDocumentWithOptions_def)
next
  case False
  with assms obtain j where j: "json_parse raw = Some j"
    by (cases "json_parse raw") (simp_all add: validatePolicyDocumentWithOptions_def)
  with False assms show ?thesis
    by (cases j) (simp_all add: validatePolicyDocumentWithOptions_def sections)
qed

text \<open>
  C14: Every document the validator accepts yields a policy in the supported form: its maps have
  one entry per name, every ACL accepts and names no unsupported selector class, every Grant
  has known selectors, exactly its human sources as browser sources and capabilities within the
  port range, the SSH section is all supported or carries no rule; the mode is the network one
  exactly when there are Grants; and the options of a control plane without Grants or SSH
  rules keep both out.
\<close>
theorem validatePolicyDocument_sound:
  assumes "validatePolicyDocumentWithOptions raw options = Inr v"
  shows "policy_ok (vp_Policy v) \<and> (PolicyMode v = NetworkAccess \<longleftrightarrow> Grants (vp_Policy v) \<noteq> []) \<and>
    (\<not> AllowGrants options \<longrightarrow> Grants (vp_Policy v) = []) \<and>
    (\<not> NormalizeSSHRules options \<longrightarrow> State (SSH (vp_Policy v)) \<noteq> SSHSupported)"
  using assms
proof (cases rule: validatePolicyDocument_cases)
  case blank
  then show ?thesis by (simp add: emptyPolicy_ok) (simp add: emptyPolicy_def absentSSHPolicy_def)
next
  case (sections ms)
  then show ?thesis
    using validatePolicySections_ok [OF sections(2)] legacy_sections [OF sections(2)] by simp
qed

text \<open>
  A top-level section that is neither modelled nor known to be harmless makes the whole
  document invalid, whatever else it holds.
\<close>
theorem unknown_section_rejected:
  assumes "trim_space raw \<noteq> []" and "json_parse raw = Some (JObj ms)" and "s \<in> fst ` set ms"
    and "s \<notin> set knownPolicySections" and "s \<notin> set benignPolicySections"
  shows "\<exists>e. validatePolicyDocumentWithOptions raw options = Inl e"
proof -
  have "unknownSections (obj_map ms) \<noteq> []"
  proof
    assume "unknownSections (obj_map ms) = []"
    then have "set (unknownSections (obj_map ms)) = {}" by simp
    moreover have "s \<in> fst ` set (obj_map ms)" using assms(3) by simp
    ultimately show False using assms(4,5) by (auto simp: set_unknownSections)
  qed
  then have "validatePolicySections (obj_map ms) options \<noteq> Inr v" for v
    using validatePolicySections_ok(3) by blast
  then obtain e where "validatePolicySections (obj_map ms) options = Inl e"
    by (cases "validatePolicySections (obj_map ms) options") blast+
  with assms(1,2) show ?thesis by (simp add: validatePolicyDocumentWithOptions_def)
qed

text \<open>Evaluated documents.\<close>

definition quoted :: "string \<Rightarrow> string" where
  "quoted s = [char_of (34::nat)] @ s @ [char_of (34::nat)]"

definition sample_document :: string where
  "sample_document = ''{'' @ quoted ''grants'' @ '':[{'' @ quoted ''src'' @ '':['' @ quoted ''a@b'' @ ''],'' @
     quoted ''dst'' @ '':['' @ quoted ''*'' @ ''],'' @ quoted ''ip'' @ '':['' @ quoted ''tcp:443'' @ '']}]}''"

definition sample_policy :: Policy where
  "sample_policy = emptyPolicy\<lparr>Grants := [\<lparr>grant_Src = [''a@b''], grant_BrowserSrc = [''a@b''], grant_Dst = [''*''],
     grant_IPCapabilities = [\<lparr>AllProtocols = False, Protocol = 6, AllPorts = False, PortStart = 443, PortEnd = 443\<rparr>]\<rparr>]\<rparr>"

lemma sample_document_valid:
  "validatePolicyDocument sample_document =
     Inr \<lparr>vp_Policy = sample_policy, PolicyMode = NetworkAccess, NodeAttrsPresent = False\<rparr>"
  by code_simp

lemma validatePolicyDocument_sound_witness:
  "policy_ok sample_policy \<and> Grants sample_policy \<noteq> []"
  using validatePolicyDocument_sound [OF sample_document_valid [unfolded validatePolicyDocument_def]] by simp

lemma unknown_section_rejected_witness:
  "\<exists>e. validatePolicyDocument (''{'' @ quoted ''attrs'' @ '':1}'') = Inl e"
  unfolding validatePolicyDocument_def
  by (rule unknown_section_rejected [where ms = "[(''attrs'', JNum ''1'')]" and s = "''attrs''"]) code_simp+

text \<open>
  The browser sources of an accepted Grant identify people: the wildcard, a group the
  policy defines, one of the human roles, or an address-like login that is not a host alias.
  Machine sources (IP addresses, networks, tags, host aliases, other autogroups) never are.
\<close>
theorem browser_sources_human:
  assumes "validatePolicyDocumentWithOptions raw options = Inr v"
    and "g \<in> set (Grants (vp_Policy v))" and "s \<in> set (grant_BrowserSrc g)"
  shows "s = ''*'' \<or> (has_prefix s ''group:'' \<and> gomap_has (Groups (vp_Policy v)) s) \<or>
    (has_prefix s ''autogroup:'' \<and> trim_prefix s ''autogroup:'' \<in> set tailscaleHumanRoles) \<or>
    (email_like s \<and> \<not> gomap_has (Hosts (vp_Policy v)) s \<and> \<not> has_prefix s ''tag:'' \<and>
     net_parse_ip s = None \<and> net_parse_cidr s = None)"
proof -
  have "grant_rule_ok (vp_Policy v) g"
    using validatePolicySections_ok(1) emptyPolicy_ok assms(1,2)
    by (auto elim!: validatePolicyDocument_cases simp: policy_ok_def list_all_iff)
  then have "source_kind_is (vp_Policy v) browserEligible s" and "trim_space s = s"
    using assms(3) by (auto simp: grant_rule_ok_def canonical_values_def)
  then show ?thesis
    by (cases "net_parse_cidr s")
      (auto simp: source_kind_is_def validateGrantSourceSelector_def Let_def browserEligible_def
        split: sum.splits if_splits)
qed

lemma browser_sources_human_witness:
  "email_like ''a@b''"
  using browser_sources_human [OF sample_document_valid [unfolded validatePolicyDocument_def],
      where s = "''a@b''" and g = "hd (Grants sample_policy)"]
  by (simp add: sample_policy_def has_prefix_def)

lemma normalizeSSHPolicy_supported:
  "State (normalizeSSHPolicy raw groups normalizeRules) = SSHSupported \<longleftrightarrow>
      normalizeRules \<and> (\<exists>ws. raw = JArr ws \<and> ws \<noteq> [] \<and>
        map Inr (Rules (normalizeSSHPolicy raw groups normalizeRules)) = map (normalizeSSHRule groups) ws)"
proof (cases raw)
  case (JArr ws)
  have each: "each (\<lambda>_. f) i ws = Inr rs \<longleftrightarrow> map Inr rs = map f ws" for f :: "json \<Rightarrow> sshUnsupportedReason + SSHRule" and i rs
    by (induction ws arbitrary: i rs) (auto simp: Cons_eq_map_conv map_eq_Cons_conv)
  show ?thesis
  proof (cases "each (\<lambda>_. normalizeSSHRule groups) 0 ws")
    case (Inl e)
    have "map Inr rs \<noteq> map (normalizeSSHRule groups) ws" for rs
    proof
      assume "map Inr rs = map (normalizeSSHRule groups) ws"
      then have "each (\<lambda>_. normalizeSSHRule groups) 0 ws = Inr rs" by (simp add: each)
      with Inl show False by simp
    qed
    with Inl JArr show ?thesis
      by (auto simp: normalizeSSHPolicy_def unsupportedSSHPolicy_def absentSSHPolicy_def)
  next
    case (Inr rs)
    then have rs: "map Inr rs = map (normalizeSSHRule groups) ws" by (simp add: each)
    with rs Inr JArr show ?thesis
      by (auto simp: normalizeSSHPolicy_def unsupportedSSHPolicy_def absentSSHPolicy_def)
  qed
qed (auto simp: normalizeSSHPolicy_def unsupportedSSHPolicy_def)

text \<open>
  The SSH section is all or nothing: whatever it holds, the resulting state satisfies the
  section invariant, and it is supported only when every rule of the section is, in order and
  without a rule dropped.
\<close>
theorem ssh_section_all_or_nothing:
  "ssh_policy_ok groups (normalizeSSHPolicy raw groups normalizeRules) \<and>
   (State (normalizeSSHPolicy raw groups normalizeRules) = SSHSupported \<longleftrightarrow>
      normalizeRules \<and> (\<exists>ws. raw = JArr ws \<and> ws \<noteq> [] \<and>
        map Inr (Rules (normalizeSSHPolicy raw groups normalizeRules)) = map (normalizeSSHRule groups) ws))"
  by (intro conjI normalizeSSHPolicy_ok normalizeSSHPolicy_supported)

text \<open>Printing a capability the way a policy author writes it.\<close>

definition print_ports :: "grantIPCapability \<Rightarrow> string" where
  "print_ports c = (if AllPorts c then ''*''
     else if PortStart c = PortEnd c then show_int (PortStart c)
     else show_int (PortStart c) @ ''-'' @ show_int (PortEnd c))"

definition print_capability :: "grantIPCapability \<Rightarrow> string" where
  "print_capability c =
     (if AllProtocols c then print_ports c else show_nat (unat (Protocol c)) @ '':'' @ print_ports c)"

definition capability_normal :: "grantIPCapability \<Rightarrow> bool" where
  "capability_normal c \<longleftrightarrow> capability_ok c \<and> (AllProtocols c \<longrightarrow> Protocol c = 0) \<and>
     (AllPorts c \<longrightarrow> PortStart c = 0 \<and> PortEnd c = 0)"

lemma show_port_digits:
  assumes "1 \<le> p"
  shows "list_all is_digit (show_int p)" and "show_int p \<noteq> []"
  using assms show_nat_digits by (simp_all add: show_int_def)

lemma digits_plain:
  assumes "list_all is_digit s"
  shows "trim_space s = s" and "to_lower s = s"
    and "c \<in> {CHR ''-'', CHR '':'', CHR ''*''} \<Longrightarrow> c \<notin> set s"
proof -
  have "is_digit c \<Longrightarrow> is_ascii c \<and> \<not> ascii_space c \<and> ascii_lower c = c" for c
    by (auto simp: is_digit_def is_ascii_def ascii_space_def ascii_lower_def is_upper_def)
  with assms show "trim_space s = s" and "to_lower s = s"
    by (auto intro!: trim_space_id map_idI simp: list_all_iff to_lower_def)
  show "c \<in> {CHR ''-'', CHR '':'', CHR ''*''} \<Longrightarrow> c \<notin> set s"
    using assms by (auto simp: list_all_iff is_digit_def)
qed

lemma atoi_port: "1 \<le> p \<Longrightarrow> p \<le> 65535 \<Longrightarrow> atoi (trim_space (show_int p)) = Some p"
  using digits_plain(1) [OF show_port_digits(1)] atoi_show_int [of p]
  by (simp add: min_int64_def max_int64_def)

lemma parse_print_ports:
  assumes "capability_ok c" and "\<not> AllPorts c"
  shows "parseGrantPortRange (print_ports c) = Inr (PortStart c, PortEnd c)"
proof -
  have b: "1 \<le> PortStart c" "PortStart c \<le> PortEnd c" "PortEnd c \<le> 65535"
    using assms by (auto simp: capability_ok_def)
  note nodash = digits_plain(3) [OF show_port_digits(1), of _ "CHR ''-''"]
  have "split_byte (CHR ''-'') (show_int (PortStart c)) = [show_int (PortStart c)]"
    using nodash [of "PortStart c"] b by (intro split_byte_single) simp
  moreover have "split_byte (CHR ''-'') (show_int (PortStart c) @ ''-'' @ show_int (PortEnd c)) =
      [show_int (PortStart c), show_int (PortEnd c)]"
    using nodash [of "PortStart c"] nodash [of "PortEnd c"] b by (simp add: split_byte_append split_byte_single)
  ultimately show ?thesis
    using assms(2) b atoi_port [of "PortStart c"] atoi_port [of "PortEnd c"]
    by (cases "PortStart c = PortEnd c") (simp_all add: print_ports_def parseGrantPortRange_def)
qed

lemma digit_plain: "is_digit x \<Longrightarrow> is_ascii x \<and> \<not> ascii_space x \<and> x \<noteq> CHR '':''"
  by (simp add: is_digit_def is_ascii_def ascii_space_def)

lemma digit_no_alias: "is_digit d \<Longrightarrow> map_of protocol_aliases (d # ds) = None"
proof -
  assume d: "is_digit d"
  have "\<forall>k \<in> fst ` set protocol_aliases. \<not> is_digit (hd k)"
    by (simp add: protocol_aliases_def is_digit_def)
  with d have "d # ds \<notin> fst ` set protocol_aliases" by (metis list.sel(1))
  then show ?thesis by (simp add: map_of_eq_None_iff)
qed

lemma print_ports_bytes:
  assumes "capability_ok c"
  shows "\<forall>x \<in> set (print_ports c). is_ascii x \<and> \<not> ascii_space x \<and> x \<noteq> CHR '':''" and "print_ports c \<noteq> []"
proof -
  have digits: "\<forall>x \<in> set (show_int p). is_ascii x \<and> \<not> ascii_space x \<and> x \<noteq> CHR '':''" if "1 \<le> p" for p
    using show_port_digits [OF that] digit_plain by (simp add: list_all_iff)
  show "\<forall>x \<in> set (print_ports c). is_ascii x \<and> \<not> ascii_space x \<and> x \<noteq> CHR '':''"
    using digits [of "PortStart c"] digits [of "PortEnd c"] assms
    by (cases "AllPorts c"; cases "PortStart c = PortEnd c")
      (simp_all add: print_ports_def capability_ok_def is_ascii_def ascii_space_def ball_Un)
  show "print_ports c \<noteq> []"
    using assms show_port_digits(2) [of "PortStart c"]
    by (cases "AllPorts c"; cases "PortStart c = PortEnd c") (simp_all add: print_ports_def capability_ok_def)
qed

lemma print_ports_star: "capability_ok c \<Longrightarrow> print_ports c = ''*'' \<longleftrightarrow> AllPorts c"
proof
  assume ok: "capability_ok c" and star: "print_ports c = ''*''"
  show "AllPorts c"
  proof (rule ccontr)
    assume all: "\<not> AllPorts c"
    then have "hd (print_ports c) \<in> set (show_int (PortStart c))" and "1 \<le> PortStart c"
      using ok show_port_digits [of "PortStart c"] by (auto simp: print_ports_def capability_ok_def)
    then show False
      using star digits_plain(3) [OF show_port_digits(1), of "PortStart c" "CHR ''*''"] by simp
  qed
qed (simp add: print_ports_def)

lemma parse_print_protocol:
  assumes "p \<noteq> (0 :: 8 word)"
  shows "parseGrantProtocol (show_nat (unat p)) = Inr p"
proof -
  have range: "1 \<le> unat p" "unat p < 256"
    using assms unsigned_less [of p, where 'a = nat] by (auto simp: unat_gt_0 Suc_le_eq)
  let ?s = "show_nat (unat p)"
  have plain: "to_lower (trim_space ?s) = ?s"
    using digits_plain [OF show_nat_digits] by simp
  obtain d ds where s: "?s = d # ds" "is_digit d"
    using show_nat_digits [of "unat p"] show_nat_nonempty [of "unat p"] by (cases ?s) auto
  have "map_of protocol_aliases ?s = None"
    using s digit_no_alias by simp
  moreover have "atoi ?s = Some (int (unat p))"
  proof -
    have "n < 256 \<Longrightarrow> min_int64 \<le> int n \<and> int n \<le> max_int64" for n
      by (simp add: min_int64_def max_int64_def)
    from this [OF range(2)] have "atoi (show_int (int (unat p))) = Some (int (unat p))" by (intro atoi_show_int) blast+
    then show ?thesis by (simp add: show_int_def)
  qed
  moreover have "1 \<le> uint p" "uint p \<le> 255"
  proof -
    have "uint p = int (unat p)" by simp
    with range show "1 \<le> uint p" "uint p \<le> 255" by linarith+
  qed
  ultimately show ?thesis by (simp add: parseGrantProtocol_def plain)
qed

text \<open>
  Every capability has a spelling the parser reads back: printed as \<open>protocol:ports\<close> (or
  \<open>ports\<close> alone for all protocols), with a star, a port or an inclusive range, it is parsed to
  the same capability; the parser loses no port and swaps no bound.
\<close>
theorem parse_print_capability:
  assumes "capability_normal c"
  shows "parseGrantIPCapability (print_capability c) = Inr c"
proof -
  have ok: "capability_ok c" using assms by (simp add: capability_normal_def)
  note ports = print_ports_bytes [OF ok]
  show ?thesis
  proof (cases "AllProtocols c")
    case True
    have plain: "trim_space (print_ports c) = print_ports c" using ports(1) by (intro trim_space_id) blast
    have "CHR '':'' \<notin> set (print_ports c)" using ports(1) by blast
    then have nocolon: "count_byte (print_ports c) (CHR '':'') = 0" "cut_byte (print_ports c) (CHR '':'') = None"
      by (simp_all add: count_byte_def cut_byte_def index_byte_None_iff [THEN iffD2] count_list_0_iff)
    show ?thesis
    proof (cases "AllPorts c")
      case True
      with \<open>AllProtocols c\<close> assms show ?thesis
        by (cases c) (simp add: print_capability_def parseGrantIPCapability_def print_ports_def capability_normal_def
            trim_space_id is_ascii_def ascii_space_def)
    next
      case False
      with \<open>AllProtocols c\<close> assms ports(2) plain nocolon parse_print_ports [OF ok False] print_ports_star [OF ok]
      show ?thesis
        by (cases c) (simp add: print_capability_def parseGrantIPCapability_def capability_normal_def)
    qed
  next
    case False
    let ?p = "show_nat (unat (Protocol c))"
    let ?s = "?p @ CHR '':'' # print_ports c"
    have digit: "\<forall>x \<in> set ?p. is_digit x" using show_nat_digits by (simp add: list_all_iff)
    have "is_ascii (CHR '':'')" "\<not> ascii_space (CHR '':'')" by (simp_all add: is_ascii_def ascii_space_def)
    then have plain: "trim_space ?s = ?s"
      using ports(1) digit digit_plain by (intro trim_space_id) auto
    have "CHR '':'' \<notin> set ?p" using digits_plain(3) [OF show_nat_digits] by blast
    then have colon: "count_byte ?s (CHR '':'') = 1" "cut_byte ?s (CHR '':'') = Some (?p, print_ports c)"
      using ports(1) by (auto simp: count_byte_def cut_byte_def index_byte_append count_list_0_iff)
    have "?s \<noteq> ''*''" using ports(2) by (cases ?p) auto
    moreover have "parseGrantProtocol ?p = Inr (Protocol c)"
      using parse_print_protocol ok False by (simp add: capability_ok_def)
    ultimately show ?thesis
      using False assms plain colon parse_print_ports [OF ok] print_ports_star [OF ok]
      by (cases "AllPorts c"; cases c) (simp_all add: print_capability_def parseGrantIPCapability_def capability_normal_def)
  qed
qed

lemma parse_print_capability_witness:
  "parseGrantIPCapability (print_capability
     \<lparr>AllProtocols = False, Protocol = 17, AllPorts = False, PortStart = 53, PortEnd = 60\<rparr>) =
   Inr \<lparr>AllProtocols = False, Protocol = 17, AllPorts = False, PortStart = 53, PortEnd = 60\<rparr>"
  by (rule parse_print_capability) (simp add: capability_normal_def capability_ok_def)

text \<open>
  C38: \<open>firstUnknownField\<close> names a field outside the allowed ones exactly when the object has
  one and none of its unknown names is the empty string: a member named \<open>""\<close> sorts first and
  is read as no unknown field at all.
\<close>
theorem firstUnknownField_detects:
  "firstUnknownField wire allowed \<noteq> [] \<longleftrightarrow>
     (\<exists>f. f \<in> fst ` set wire \<and> f \<notin> set allowed) \<and> \<not> ([] \<in> fst ` set wire \<and> [] \<notin> set allowed)"
proof (cases "sort_linear (List.filter (\<lambda>f. f \<notin> set allowed) (map fst wire))")
  case Nil
  then have "set (List.filter (\<lambda>f. f \<notin> set allowed) (map fst wire)) = {}"
    by (metis set_sort_linear set_empty2)
  with Nil show ?thesis by (auto simp: firstUnknownField_def)
next
  case (Cons u us)
  have "set (u # us) = {f \<in> fst ` set wire. f \<notin> set allowed}"
    using arg_cong [OF Cons, of set] by auto
  moreover have "\<forall>v \<in> set us. u \<le> v"
    using sorted_sort_linear [of "List.filter (\<lambda>f. f \<notin> set allowed) (map fst wire)"] by (simp add: Cons)
  ultimately have u: "u \<in> fst ` set wire" "u \<notin> set allowed"
      and least: "\<forall>v. v \<in> fst ` set wire \<and> v \<notin> set allowed \<longrightarrow> u \<le> v"
    by (auto simp: set_eq_iff)
  from least have "[] \<in> fst ` set wire \<and> [] \<notin> set allowed \<longrightarrow> u = []" by fastforce
  with u show ?thesis unfolding firstUnknownField_def Cons list.case by blast
qed

text \<open>
  An ACL rule with a member named \<open>""\<close> is accepted with any further unknown member, here
  \<open>via\<close>, which the same validator refuses in a rule without the empty name.
\<close>
theorem empty_name_hides_unknown_field:
  "validateACLRules (JArr [JObj [(''action'', JStr ''accept''), (''src'', JArr [JStr ''*'']), (''dst'', JArr [JStr ''*'']),
       (''via'', JArr [JStr ''tag:relay'']), ([], JNull)]]) =
     Inr [\<lparr>acl_Action = ''accept'', acl_Src = [''*''], acl_Dst = [''*'']\<rparr>] \<and>
   validateACLRules (JArr [JObj [(''action'', JStr ''accept''), (''src'', JArr [JStr ''*'']), (''dst'', JArr [JStr ''*'']),
       (''via'', JArr [JStr ''tag:relay''])]]) =
     Inl (UnsupportedPolicy ''acls'' (UnknownField 0 ''via''))"
  by code_simp

end
