(* ===== verification/Go_Url.thy ===== *)
theory Go_Url
  imports Go_Netip
begin

text \<open>
  Go's \<open>net/url\<close>: percent encoding, \<open>Parse\<close>, \<open>ParseRequestURI\<close>, the accessors and
  \<open>String\<close>. Of the user information only its presence is kept: the program refuses every URL
  that has one.
\<close>

section \<open>Percent encoding\<close>

datatype encoding = EncodePath | EncodeHost | EncodeZone | EncodeUser | EncodeQuery | EncodeFragment

definition is_alnum :: "char \<Rightarrow> bool" where
  "is_alnum c \<longleftrightarrow> is_lower c \<or> is_upper c \<or> is_digit c"

definition dquote :: char where "dquote = char_of (34::nat)"
definition squote :: char where "squote = char_of (39::nat)"

definition should_escape :: "encoding \<Rightarrow> char \<Rightarrow> bool" where
  "should_escape mode c =
     (if is_alnum c then False
      else if (mode = EncodeHost \<or> mode = EncodeZone) \<and> (c \<in> set ''!$&()*+,;=:[]<>'' \<or> c = dquote \<or> c = squote) then False
      else if c \<in> set ''-_.~'' then False
      else if c \<in> set ''$&+,/:;=?@'' then
        (case mode of EncodePath \<Rightarrow> c = CHR ''?''
         | EncodeUser \<Rightarrow> c \<in> set ''@/?:''
         | EncodeQuery \<Rightarrow> True
         | EncodeFragment \<Rightarrow> False
         | _ \<Rightarrow> True)
      else if mode = EncodeFragment \<and> c \<in> set ''!()*'' then False
      else True)"

definition percent_ok :: "encoding \<Rightarrow> char \<Rightarrow> char \<Rightarrow> bool" where
  "percent_ok mode h l \<longleftrightarrow> is_hex h \<and> is_hex l \<and>
     \<not> (mode = EncodeHost \<and> hex_value h < 8 \<and> \<not> (h = CHR ''2'' \<and> l = CHR ''5'')) \<and>
     \<not> (mode = EncodeZone \<and> \<not> (h = CHR ''2'' \<and> l = CHR ''5'') \<and> 16 * hex_value h + hex_value l \<noteq> 32 \<and>
        should_escape EncodeHost (char_of (16 * hex_value h + hex_value l)))"

fun unescape :: "encoding \<Rightarrow> string \<Rightarrow> string option" where
  "unescape mode [] = Some []"
| "unescape mode (c # s) =
     (if c = CHR ''%'' then
        (case s of h # l # r \<Rightarrow>
           if percent_ok mode h l
           then (case unescape mode r of None \<Rightarrow> None | Some t \<Rightarrow> Some (char_of (16 * hex_value h + hex_value l) # t))
           else None
         | _ \<Rightarrow> None)
      else if (mode = EncodeHost \<or> mode = EncodeZone) \<and> byte c < 0x80 \<and> should_escape mode c then None
      else (case unescape mode s of None \<Rightarrow> None
        | Some t \<Rightarrow> Some ((if c = CHR ''+'' \<and> mode = EncodeQuery then CHR '' '' else c) # t)))"

definition upper_hex :: "nat \<Rightarrow> char" where
  "upper_hex d = char_of (if d < 10 then 48 + d else 55 + d)"

definition escape_char :: "encoding \<Rightarrow> char \<Rightarrow> string" where
  "escape_char mode c =
     (if \<not> should_escape mode c then [c]
      else if c = CHR '' '' \<and> mode = EncodeQuery then ''+''
      else [CHR ''%'', upper_hex (byte c div 16), upper_hex (byte c mod 16)])"

definition escape :: "encoding \<Rightarrow> string \<Rightarrow> string" where
  "escape mode s = concat (map (escape_char mode) s)"

definition valid_encoded :: "encoding \<Rightarrow> string \<Rightarrow> bool" where
  "valid_encoded mode s \<longleftrightarrow> list_all (\<lambda>c. c \<in> set ''!$&()*+,;=:@[]%'' \<or> c = squote \<or> \<not> should_escape mode c) s"

section \<open>The host\<close>

definition valid_optional_port :: "string \<Rightarrow> bool" where
  "valid_optional_port p \<longleftrightarrow> (case p of [] \<Rightarrow> True | c # ds \<Rightarrow> c = CHR '':'' \<and> list_all is_digit ds)"

text \<open>The position of the first \<open>%25\<close>.\<close>

fun index_zone :: "string \<Rightarrow> nat option" where
  "index_zone [] = None"
| "index_zone (c # s) = (if has_prefix (c # s) ''%25'' then Some 0 else map_option Suc (index_zone s))"

definition parse_host :: "string \<Rightarrow> string option" where
  "parse_host host =
     (if has_prefix host ''['' then
        (case last_index_byte host (CHR '']'') of None \<Rightarrow> None | Some i \<Rightarrow>
           if \<not> valid_optional_port (drop (i + 1) host) then None
           else (case index_zone (take i host) of
               Some z \<Rightarrow>
                 (case unescape EncodeHost (take z host) of None \<Rightarrow> None | Some h1 \<Rightarrow>
                 (case unescape EncodeZone (drop z (take i host)) of None \<Rightarrow> None | Some h2 \<Rightarrow>
                 (case unescape EncodeHost (drop i host) of None \<Rightarrow> None | Some h3 \<Rightarrow> Some (h1 @ h2 @ h3))))
             | None \<Rightarrow> unescape EncodeHost host))
      else
        (case last_index_byte host (CHR '':'') of
           Some i \<Rightarrow> if valid_optional_port (drop i host) then unescape EncodeHost host else None
         | None \<Rightarrow> unescape EncodeHost host))"

definition split_host_port :: "string \<Rightarrow> string \<times> string" where
  "split_host_port s =
     (let (host, port) = (case last_index_byte s (CHR '':'') of
            Some i \<Rightarrow> if valid_optional_port (drop i s) then (take i s, drop (i + 1) s) else (s, [])
          | None \<Rightarrow> (s, [])) in
      (if has_prefix host ''['' \<and> has_suffix host '']'' then take (length host - 2) (drop 1 host) else host, port))"

section \<open>URLs\<close>

record url =
  Scheme :: string
  Opaque :: string
  HasUser :: bool
  Host :: string
  Path :: string
  RawPath :: string
  OmitHost :: bool
  ForceQuery :: bool
  RawQuery :: string
  Fragment :: string
  RawFragment :: string

definition no_url :: url where
  "no_url = \<lparr>Scheme = [], Opaque = [], HasUser = False, Host = [], Path = [], RawPath = [], OmitHost = False,
     ForceQuery = False, RawQuery = [], Fragment = [], RawFragment = []\<rparr>"

text \<open>\<open>getScheme\<close>: \<open>None\<close> for a missing protocol scheme.\<close>

fun get_scheme_from :: "string \<Rightarrow> string \<Rightarrow> string \<Rightarrow> (string \<times> string) option" where
  "get_scheme_from raw seen [] = Some ([], raw)"
| "get_scheme_from raw seen (c # s) =
     (if is_lower c \<or> is_upper c then get_scheme_from raw (seen @ [c]) s
      else if is_digit c \<or> c \<in> set ''+-.'' then
        (if seen = [] then Some ([], raw) else get_scheme_from raw (seen @ [c]) s)
      else if c = CHR '':'' then (if seen = [] then None else Some (seen, s))
      else Some ([], raw))"

definition valid_userinfo :: "string \<Rightarrow> bool" where
  "valid_userinfo s \<longleftrightarrow> list_all (\<lambda>c. is_alnum c \<or> c \<in> set ''-._:~!$&()*+,;=%@'' \<or> c = squote) s"

text \<open>\<open>parseAuthority\<close>: whether there is user information, and the host.\<close>

definition parse_authority :: "string \<Rightarrow> (bool \<times> string) option" where
  "parse_authority a = (case last_index_byte a (CHR ''@'') of
     None \<Rightarrow> (case parse_host a of None \<Rightarrow> None | Some h \<Rightarrow> Some (False, h))
   | Some i \<Rightarrow> (case parse_host (drop (i + 1) a) of None \<Rightarrow> None | Some h \<Rightarrow>
       if valid_userinfo (take i a) \<and> unescape EncodeUser (take i a) \<noteq> None then Some (True, h) else None))"

definition set_path :: "string \<Rightarrow> url \<Rightarrow> url option" where
  "set_path p u = (case unescape EncodePath p of None \<Rightarrow> None | Some path \<Rightarrow>
     Some (u\<lparr>Path := path, RawPath := (if p = escape EncodePath path then [] else p)\<rparr>))"

definition contains_ctl :: "string \<Rightarrow> bool" where
  "contains_ctl s \<longleftrightarrow> list_ex (\<lambda>c. byte c < 32 \<or> byte c = 127) s"

definition cut_query :: "string \<Rightarrow> string \<times> bool \<times> string" where
  "cut_query rest =
     (if has_suffix rest ''?'' \<and> count_byte rest (CHR ''?'') = 1 then (butlast rest, True, [])
      else (case cut_byte rest (CHR ''?'') of Some (a, q) \<Rightarrow> (a, False, q) | None \<Rightarrow> (rest, False, [])))"

definition url_parse_rest :: "bool \<Rightarrow> url \<Rightarrow> string \<Rightarrow> url option" where
  "url_parse_rest via u rest =
     (if (Scheme u \<noteq> [] \<or> \<not> via \<and> \<not> has_prefix rest ''///'') \<and> has_prefix rest ''//'' then
        (let a = drop 2 rest; n = (case index_byte a (CHR ''/'') of Some i \<Rightarrow> i | None \<Rightarrow> length a) in
         case parse_authority (take n a) of None \<Rightarrow> None
         | Some (user, host) \<Rightarrow> set_path (drop n a) (u\<lparr>HasUser := user, Host := host\<rparr>))
      else set_path rest (u\<lparr>OmitHost := (Scheme u \<noteq> [] \<and> has_prefix rest ''/'')\<rparr>))"

definition url_parse_uri :: "bool \<Rightarrow> string \<Rightarrow> url option" where
  "url_parse_uri via raw =
     (if contains_ctl raw \<or> (raw = [] \<and> via) then None
      else if raw = ''*'' then Some (no_url\<lparr>Path := ''*''\<rparr>)
      else (case get_scheme_from raw [] raw of None \<Rightarrow> None | Some (scheme, rest0) \<Rightarrow>
        (let (rest, force, query) = cut_query rest0;
             u = no_url\<lparr>Scheme := to_lower scheme, ForceQuery := force, RawQuery := query\<rparr> in
         if \<not> has_prefix rest ''/'' then
           (if scheme \<noteq> [] then Some (u\<lparr>Opaque := rest\<rparr>)
            else if via then None
            else if contains_byte (takeWhile (\<lambda>c. c \<noteq> CHR ''/'') rest) (CHR '':'') then None
            else url_parse_rest via u rest)
         else url_parse_rest via u rest)))"

definition url_parse :: "string \<Rightarrow> url option" where
  "url_parse raw = (let (base, frag) = (case cut_byte raw (CHR ''#'') of Some p \<Rightarrow> p | None \<Rightarrow> (raw, [])) in
     case url_parse_uri False base of None \<Rightarrow> None | Some u \<Rightarrow>
       if frag = [] then Some u
       else (case unescape EncodeFragment frag of None \<Rightarrow> None | Some f \<Rightarrow>
         Some (u\<lparr>Fragment := f, RawFragment := (if frag = escape EncodeFragment f then [] else frag)\<rparr>)))"

definition parse_request_uri :: "string \<Rightarrow> url option" where
  "parse_request_uri raw = url_parse_uri True raw"

definition is_abs :: "url \<Rightarrow> bool" where "is_abs u \<longleftrightarrow> Scheme u \<noteq> []"
definition hostname :: "url \<Rightarrow> string" where "hostname u = fst (split_host_port (Host u))"
definition url_port :: "url \<Rightarrow> string" where "url_port u = snd (split_host_port (Host u))"

definition escaped_path :: "url \<Rightarrow> string" where
  "escaped_path u =
     (if RawPath u \<noteq> [] \<and> valid_encoded EncodePath (RawPath u) \<and> unescape EncodePath (RawPath u) = Some (Path u)
      then RawPath u else if Path u = ''*'' then ''*'' else escape EncodePath (Path u))"

definition escaped_fragment :: "url \<Rightarrow> string" where
  "escaped_fragment u =
     (if RawFragment u \<noteq> [] \<and> valid_encoded EncodeFragment (RawFragment u) \<and>
         unescape EncodeFragment (RawFragment u) = Some (Fragment u)
      then RawFragment u else escape EncodeFragment (Fragment u))"

definition request_uri :: "url \<Rightarrow> string" where
  "request_uri u =
     (if Opaque u \<noteq> [] then (if has_prefix (Opaque u) ''//'' then Scheme u @ '':'' @ Opaque u else Opaque u)
      else if escaped_path u = [] then ''/'' else escaped_path u) @
     (if ForceQuery u \<or> RawQuery u \<noteq> [] then CHR ''?'' # RawQuery u else [])"

text \<open>\<open>URL.String\<close> of a URL without user information.\<close>

definition url_string :: "url \<Rightarrow> string" where
  "url_string u =
     (let prefix = (if Scheme u \<noteq> [] then Scheme u @ '':'' else []);
          auth = (if (Scheme u \<noteq> [] \<or> Host u \<noteq> []) \<and> \<not> (OmitHost u \<and> Host u = [])
             then (if Host u \<noteq> [] \<or> Path u \<noteq> [] then ''//'' else []) @ escape EncodeHost (Host u) else []);
          path = escaped_path u;
          slash = (if path \<noteq> [] \<and> hd path \<noteq> CHR ''/'' \<and> Host u \<noteq> [] then ''/'' else []);
          dot = (if prefix @ auth @ slash = [] \<and> contains_byte (takeWhile (\<lambda>c. c \<noteq> CHR ''/'') path) (CHR '':'')
             then ''./'' else []) in
      prefix @ (if Opaque u \<noteq> [] then Opaque u else auth @ slash @ dot @ path) @
      (if ForceQuery u \<or> RawQuery u \<noteq> [] then CHR ''?'' # RawQuery u else []) @
      (if Fragment u \<noteq> [] then CHR ''#'' # escaped_fragment u else []))"

text \<open>\<open>(&url.URL{Scheme: scheme, Host: host}).String()\<close>\<close>

definition origin_url :: "string \<Rightarrow> string \<Rightarrow> string" where
  "origin_url scheme host = url_string (no_url\<lparr>Scheme := scheme, Host := host\<rparr>)"

section \<open>Facts\<close>

definition host_plain :: "char \<Rightarrow> bool" where
  "host_plain c \<longleftrightarrow> c \<noteq> CHR ''%'' \<and> (byte c \<ge> 0x80 \<or> \<not> should_escape EncodeHost c)"

lemma unescape_plain_host:
  "list_all host_plain s \<Longrightarrow> unescape EncodeHost s = Some s"
  by (induction s) (auto simp: host_plain_def)

text \<open>Without a percent sign the host is returned as it is, or refused.\<close>

lemma unescape_host_id:
  "CHR ''%'' \<notin> set s \<Longrightarrow> unescape EncodeHost s = (if list_all host_plain s then Some s else None)"
proof (induction s)
  case (Cons c s)
  then have c: "c \<noteq> CHR ''%''" and s: "unescape EncodeHost s = (if list_all host_plain s then Some s else None)" by auto
  have plain: "host_plain c \<longleftrightarrow> \<not> (byte c < 0x80 \<and> should_escape EncodeHost c)"
    using c by (auto simp: host_plain_def)
  have "unescape EncodeHost (c # s) =
      (if byte c < 0x80 \<and> should_escape EncodeHost c then None
       else case unescape EncodeHost s of None \<Rightarrow> None | Some t \<Rightarrow> Some (c # t))"
    using c by simp
  with plain s show ?case by simp
qed simp

lemma unescape_shorter:
  "unescape mode s = Some t \<Longrightarrow> length t \<le> length s \<and> (CHR ''%'' \<in> set s \<longrightarrow> length t < length s)"
proof (induction mode s arbitrary: t rule: unescape.induct)
  case (2 mode c s)
  show ?case
  proof (cases "c = CHR ''%''")
    case True
    with "2.prems" obtain h l r t' where s: "s = h # l # r" "percent_ok mode h l" "unescape mode r = Some t'"
      "length t = Suc (length t')"
      by (auto split: list.splits if_splits option.splits)
    with "2.IH"(1) [OF True s(1) _ s(2,3)] True show ?thesis by simp
  next
    case False
    with "2.prems" obtain t' where t: "unescape mode s = Some t'" "length t = Suc (length t')"
      "\<not> ((mode = EncodeHost \<or> mode = EncodeZone) \<and> byte c < 0x80 \<and> should_escape mode c)"
      by (auto split: if_splits option.splits)
    with "2.IH"(2) [OF False t(3,1)] False show ?thesis by auto
  qed
qed simp

lemma escape_host_plain: "list_all (\<lambda>c. \<not> should_escape mode c) s \<Longrightarrow> escape mode s = s"
  by (induction s) (auto simp: escape_def escape_char_def)

lemma index_zone_percent: "index_zone s = Some z \<Longrightarrow> CHR ''%'' \<in> set (drop z s) \<and> z < length s"
proof (induction s arbitrary: z)
  case (Cons c s)
  show ?case
  proof (cases "has_prefix (c # s) ''%25''")
    case True
    with Cons.prems show ?thesis by (auto simp: has_prefix_iff)
  next
    case False
    with Cons.prems obtain z' where "index_zone s = Some z'" "z = Suc z'" by (auto split: if_splits)
    with Cons.IH [of z'] show ?thesis by simp
  qed
qed simp

text \<open>A host that is parsed to itself has no percent escape and only bytes a host may show.\<close>

lemma parse_host_self:
  assumes "parse_host h = Some h"
  shows "list_all host_plain h"
proof -
  have "CHR ''%'' \<notin> set h"
  proof
    assume percent: "CHR ''%'' \<in> set h"
    have plain: "unescape EncodeHost h \<noteq> Some h"
      using unescape_shorter [of EncodeHost h h] percent by auto
    with assms obtain i z h1 h2 h3 where z: "index_zone (take i h) = Some z"
      and parts: "unescape EncodeHost (take z h) = Some h1" "unescape EncodeZone (drop z (take i h)) = Some h2"
        "unescape EncodeHost (drop i h) = Some h3" "h = h1 @ h2 @ h3"
      by (auto simp: parse_host_def split: if_splits option.splits)
    from index_zone_percent [OF z] have "CHR ''%'' \<in> set (drop z (take i h))" "z < length (take i h)" by auto
    then have "length h2 < length (drop z (take i h))" using unescape_shorter [OF parts(2)] by simp
    moreover have "length h1 \<le> length (take z h)" "length h3 \<le> length (drop i h)"
      using unescape_shorter [OF parts(1)] unescape_shorter [OF parts(3)] by simp_all
    moreover have "length h = length h1 + length h2 + length h3" using parts(4) by (metis add.assoc length_append)
    ultimately show False using \<open>z < length (take i h)\<close> by simp
  qed
  then have plain: "unescape EncodeHost h = (if list_all host_plain h then Some h else None)"
    by (rule unescape_host_id)
  have "index_zone (take i h) = None" for i
  proof (cases "index_zone (take i h)")
    case (Some z)
    from index_zone_percent [OF this] \<open>CHR ''%'' \<notin> set h\<close> show ?thesis
      by (meson in_set_dropD in_set_takeD)
  qed
  then have "unescape EncodeHost h = Some h"
    using assms by (auto simp: parse_host_def split: if_splits option.splits)
  with plain show ?thesis by (auto split: if_splits)
qed

lemma contains_control_ctl: "\<not> contains_control s \<Longrightarrow> \<not> contains_ctl s"
proof (induction s rule: contains_control.induct)
qed (auto simp: contains_ctl_def split: if_splits)

definition origin_bytes :: "string \<Rightarrow> bool" where
  "origin_bytes d \<longleftrightarrow> \<not> contains_ctl d \<and> CHR ''#'' \<notin> set d \<and> CHR ''?'' \<notin> set d \<and> CHR ''/'' \<notin> set d \<and> CHR ''@'' \<notin> set d"

lemma cut_byte_None: "c \<notin> set s \<Longrightarrow> cut_byte s c = None"
  by (simp add: cut_byte_def index_byte_None_iff [THEN iffD2])

lemma get_scheme_http:
  "get_scheme_from raw [] (''https://'' @ d) = Some (''https'', ''//'' @ d)"
  "get_scheme_from raw [] (''http://'' @ d) = Some (''http'', ''//'' @ d)"
  by (simp_all add: is_lower_def is_upper_def is_digit_def)

text \<open>Parsing an origin: scheme, slashes, and a host without user, path, query or fragment.\<close>

lemma url_parse_origin:
  assumes "scheme = ''http'' \<or> scheme = ''https''" and "origin_bytes d"
  shows "url_parse (scheme @ ''://'' @ d) =
    (case parse_host d of None \<Rightarrow> None | Some h \<Rightarrow> Some (no_url\<lparr>Scheme := scheme, Host := h\<rparr>))"
proof -
  let ?raw = "scheme @ ''://'' @ d"
  note d = assms(2) [unfolded origin_bytes_def]
  have hash: "CHR ''#'' \<notin> set ?raw" and ctl: "\<not> contains_ctl ?raw" and star: "?raw \<noteq> ''*''"
    using assms(1) d by (auto simp: contains_ctl_def)
  have scheme: "get_scheme_from ?raw [] ?raw = Some (scheme, ''//'' @ d)"
    using assms(1) by (elim disjE) (simp_all only: append.simps get_scheme_http [simplified append.simps])
  have lower: "to_lower scheme = scheme" "scheme \<noteq> []"
    using assms(1) by (elim disjE; simp add: to_lower_def ascii_lower_def is_upper_def)+
  have quest: "CHR ''?'' \<notin> set (''//'' @ d)" using d by simp
  then have "cut_query (''//'' @ d) = (''//'' @ d, False, [])"
    by (simp add: cut_query_def cut_byte_None count_byte_def count_list_0_iff [THEN iffD2])
  moreover have "index_byte d (CHR ''/'') = None" "last_index_byte d (CHR ''@'') = None"
    using d by (simp_all add: index_byte_None_iff last_index_byte_None_iff)
  moreover have "set_path [] u = Some (u\<lparr>Path := [], RawPath := []\<rparr>)" for u
    by (simp add: set_path_def escape_def)
  moreover have "cut_byte ?raw (CHR ''#'') = None" using hash by (rule cut_byte_None)
  moreover have slashes: "has_prefix (''//'' @ d) ''/''" "has_prefix (''//'' @ d) ''//''" by (simp_all add: has_prefix_def)
  ultimately show ?thesis
    using ctl star scheme lower
    by (simp add: url_parse_def url_parse_uri_def url_parse_rest_def parse_authority_def no_url_def split: option.split)
qed

lemma origin_url_plain:
  assumes "scheme \<noteq> []" and "d \<noteq> []" and "list_all (\<lambda>c. \<not> should_escape EncodeHost c) d"
  shows "origin_url scheme d = scheme @ ''://'' @ d"
  using assms by (simp add: origin_url_def url_string_def escaped_path_def no_url_def escape_host_plain)

lemma origin_url_nonempty: "scheme \<noteq> [] \<Longrightarrow> origin_url scheme d \<noteq> []"
  by (simp add: origin_url_def url_string_def no_url_def Let_def)

end
