(* ===== verification/Portal_Data.thy ===== *)
theory Portal_Data
  imports Policy_Doc Go_Url
begin

text \<open>
  The data a request is answered from: the identity of the caller (\<open>auth.go\<close>), the proxy
  hosts (\<open>npm.go\<close>), the service metadata (\<open>service_metadata.go\<close>) and the snapshot that holds
  them (\<open>CacheData\<close> of \<open>cache.go\<close>).
\<close>

record Identity =
  Login :: string
  id_Name :: string
  ProfilePic :: string

record ProxyHost =
  ph_ID :: int
  DomainNames :: "string list"
  ForwardScheme :: string
  ForwardHost :: string
  ForwardPort :: int
  AccessListID :: int
  Enabled :: bool
  NginxOnline :: bool

record ServiceOverride =
  override_Name :: string
  override_URL :: string
  override_Category :: string
  override_Order :: "int option"
  override_Icon :: string

text \<open>An entry of the document: \<open>None\<close> is a missing or null member, told apart by the null flags.\<close>

record serviceMetadataEntry =
  entry_ProxyHostID :: int
  entry_Name :: "string option"
  entry_URL :: "string option"
  entry_Category :: "string option"
  entry_Order :: "int option"
  entry_Icon :: "string option"
  entry_NameNull :: bool
  entry_URLNull :: bool

record serviceMetadataDocument =
  doc_Version :: int
  doc_Services :: "serviceMetadataEntry list"

record ServiceMetadata =
  Overrides :: "(int, ServiceOverride) gomap"
  document :: serviceMetadataDocument

definition emptyServiceMetadata :: ServiceMetadata where
  "emptyServiceMetadata = \<lparr>Overrides = [], document = \<lparr>doc_Version = 0, doc_Services = []\<rparr>\<rparr>"

record ControlPlaneMetadata =
  Provider :: controlPlaneProvider
  cpm_PolicyMode :: policyMode
  Supported :: bool

text \<open>
  \<open>CacheData\<close>: \<open>None\<close> is a nil pointer. \<open>UpdatedAt\<close> is a time stamp in nanoseconds.
\<close>

record CacheData =
  cd_Policy :: "Policy option"
  cd_Nodes :: "Node list"
  cd_ProxyHosts :: "ProxyHost list"
  cd_ServiceMetadata :: "ServiceMetadata option"
  GrantRoleSelectorsByLogin :: "(string, string list) gomap"
  MachineSSHCapableByID :: "(string, bool) gomap"
  cd_ControlPlane :: ControlPlaneMetadata
  UpdatedAt :: int

end
