(* ===== verification/Auth.thy ===== *)
theory Auth
  imports Netip_Print Portal_Data
begin

text \<open>
  Who is asking (\<open>auth.go\<close>): the identity headers count only when the connection comes from the
  trusted proxy network.
\<close>

record http_in =
  RemoteAddr :: string
  in_Header :: "(string, string list) gomap"

text \<open>\<open>Header.Get\<close> under a canonical name: the first value, or nothing.\<close>

definition in_header :: "http_in \<Rightarrow> string \<Rightarrow> string" where
  "in_header r k = (case map_of (in_Header r) k of Some (v # _) \<Rightarrow> v | _ \<Rightarrow> [])"

datatype auth_outcome = AuthForbidden | AuthUnauthorized | AuthServe Identity

definition peer_host :: "string \<Rightarrow> string" where
  "peer_host remote =
     (let host = (case SplitHostPort remote of Some (h, _) \<Rightarrow> h | None \<Rightarrow> remote) in
      case last_index_byte host (CHR ''%'') of Some i \<Rightarrow> take i host | None \<Rightarrow> host)"

definition IdentityMiddleware :: "ipnet option \<Rightarrow> http_in \<Rightarrow> auth_outcome" where
  "IdentityMiddleware trusted r =
     (case (net_parse_ip (peer_host (RemoteAddr r)), trusted) of
        (Some ip, Some cidr) \<Rightarrow>
          if \<not> ipnet_contains cidr ip then AuthForbidden
          else (let login = in_header r ''Tailscale-User-Login'' in
            if login = [] then AuthUnauthorized
            else AuthServe \<lparr>Login = login, id_Name = in_header r ''Tailscale-User-Name'',
              ProfilePic = in_header r ''Tailscale-User-Profile-Pic''\<rparr>)
      | _ \<Rightarrow> AuthForbidden)"

definition setIdentityResponseCacheHeaders :: "(string \<times> string) list" where
  "setIdentityResponseCacheHeaders =
     [(''Cache-Control'', ''no-store, max-age=0''), (''Pragma'', ''no-cache''),
      (''Vary'', ''Tailscale-User-Login, Tailscale-User-Name, Tailscale-User-Profile-Pic'')]"

lemma peer_host_address: "zone_name zone \<Longrightarrow> peer_host (peer_address ip zone port) = net_ip_string ip"
  by (simp add: peer_host_def split_peer_address cut_peer_zone)

lemma net_ip_string_v4 [simp]: "net_ip_string (addr_as16 (V4 w)) = v4_string w"
  by (simp only: net_ip_string_def ip_to4_as16_V4 option.case)

lemma peer_host_v4: "peer_host (JoinHostPort (v4_string w) (show_nat p)) = v4_string w"
  using peer_host_address [of "[]" "addr_as16 (V4 w)" p]
  by (simp add: peer_address_def peer_text_def zone_name_def del: addr_as16.simps)

text \<open>
  C11: The identity headers of a request are believed exactly when its peer is in the trusted network:
  for a peer with any IPv4 or IPv6 address, in any zone and on any port, the request is refused as
  untrusted exactly when no network is configured or the address is not in it, whatever the headers say;
  from inside it is refused for want of an identity exactly when the login is missing or blank, and served
  otherwise, as the identity of the first header values, taken as they are.
\<close>
theorem identity_from_trusted_peer:
  assumes "RemoteAddr r = peer_address ip zone port" and "zone_name zone"
  defines "trusts \<equiv> \<lambda>trusted. \<exists>cidr. trusted = Some cidr \<and> ipnet_contains cidr ip"
  shows "(IdentityMiddleware trusted r = AuthForbidden \<longleftrightarrow> \<not> trusts trusted)
    \<and> (IdentityMiddleware trusted r = AuthUnauthorized \<longleftrightarrow> trusts trusted \<and> in_header r ''Tailscale-User-Login'' = [])
    \<and> (IdentityMiddleware trusted r = AuthServe i \<longleftrightarrow> trusts trusted \<and> in_header r ''Tailscale-User-Login'' \<noteq> []
        \<and> i = \<lparr>Login = in_header r ''Tailscale-User-Login'', id_Name = in_header r ''Tailscale-User-Name'',
            ProfilePic = in_header r ''Tailscale-User-Profile-Pic''\<rparr>)"
proof -
  have "net_parse_ip (peer_host (RemoteAddr r)) = Some ip" by (simp add: assms(1) peer_host_address [OF assms(2)])
  then show ?thesis
    by (cases trusted) (auto simp: IdentityMiddleware_def trusts_def Let_def simp del: ipnet_contains.simps)
qed

definition link_local_peer :: http_in where
  "link_local_peer = \<lparr>RemoteAddr = ''[fe80::1234%eth0]:4321'', in_Header = [(''Tailscale-User-Login'', [''a@x'', ''b@x''])]\<rparr>"

lemma link_local_address: "peer_address 0xFE800000000000000000000000001234 ''eth0'' 4321 = ''[fe80::1234%eth0]:4321''"
proof -
  have groups: "groups_of_v6 0xFE800000000000000000000000001234 = [0xFE80, 0, 0, 0, 0, 0, 0, 0x1234]" by (simp add: groups_of_v6_def)
  have plain: "\<not> mapped_v4 0xFE800000000000000000000000001234" by (simp add: mapped_v4_def)
  have "show_hex 0xFE80 = ''fe80''" "show_hex 0x1234 = ''1234''" by (simp_all add: show_hex.simps hex_char_def char_of_def bit_Suc_0_iff)
  then have "v6_groups_string [0xFE80, 0, 0, 0, 0, 0, 0, 0x1234] = ''fe80::1234''"
    by (simp add: v6_groups_string_def longest_zero_run_def zero_run_at_def)
  moreover have "show_nat 4321 = ''4321''" by code_simp
  ultimately show ?thesis
    by (simp add: peer_address_def peer_text_def net_ip_string_def ip_to4_def groups plain JoinHostPort_def contains_byte_def)
qed

lemma identity_from_trusted_peer_witness:
  "IdentityMiddleware (Some (Net6 0xFE800000000000000000000000000000 64)) link_local_peer =
    AuthServe \<lparr>Login = ''a@x'', id_Name = [], ProfilePic = []\<rparr>"
proof -
  have remote: "RemoteAddr link_local_peer = peer_address 0xFE800000000000000000000000001234 ''eth0'' 4321"
    by (simp add: link_local_peer_def link_local_address)
  have zone: "zone_name ''eth0''" by (simp add: zone_name_def net_byte_def)
  have inside: "ipnet_contains (Net6 0xFE800000000000000000000000000000 64) 0xFE800000000000000000000000001234"
    by (simp add: ip_to4_def mapped_v4_def mask16_def mask_eq_exp_minus_1)
  show ?thesis
    using identity_from_trusted_peer [OF remote zone, where trusted = "Some (Net6 0xFE800000000000000000000000000000 64)"
        and i = "\<lparr>Login = ''a@x'', id_Name = [], ProfilePic = []\<rparr>"] inside
    by (simp add: in_header_def link_local_peer_def del: ipnet_contains.simps)
qed

end
