(* ===== verification/Go_Time.thy ===== *)
theory Go_Time
  imports Go_Strings
begin

text \<open>
  \<open>time.ParseDuration\<close>: a sequence of decimal numbers with units, in nanoseconds. A
  fraction is cut off below a nanosecond; Go computes it in floating point, which may be one
  nanosecond off for fractions finer than that.
\<close>

definition duration_unit :: "string \<Rightarrow> nat option" where
  "duration_unit u =
     (if u = ''ns'' then Some 1
      else if u = ''us'' \<or> u = [char_of (0xC2::nat), char_of (0xB5::nat), CHR ''s'']
        \<or> u = [char_of (0xCE::nat), char_of (0xBC::nat), CHR ''s''] then Some 1000
      else if u = ''ms'' then Some 1000000
      else if u = ''s'' then Some 1000000000
      else if u = ''m'' then Some 60000000000
      else if u = ''h'' then Some 3600000000000
      else None)"

definition digits_value :: "string \<Rightarrow> nat" where
  "digits_value s = foldl (\<lambda>n c. 10 * n + digit_value c) 0 s"

definition unit_char :: "char \<Rightarrow> bool" where
  "unit_char c \<longleftrightarrow> \<not> (c = CHR ''.'' \<or> is_digit c)"

text \<open>One number with its unit: its nanoseconds and the rest of the text.\<close>

definition duration_part :: "string \<Rightarrow> (nat \<times> string) option" where
  "duration_part s =
     (let whole = takeWhile is_digit s; s1 = dropWhile is_digit s;
          dot = (s1 \<noteq> [] \<and> hd s1 = CHR ''.'');
          frac = (if dot then takeWhile is_digit (tl s1) else []);
          s2 = (if dot then dropWhile is_digit (tl s1) else s1);
          unit = takeWhile unit_char s2 in
      if digits_value whole > 2 ^ 63 \<or> (whole = [] \<and> frac = []) \<or> unit = [] then None
      else (case duration_unit unit of None \<Rightarrow> None | Some k \<Rightarrow>
        (let v = digits_value whole * k + digits_value frac * k div 10 ^ length frac in
         if v > 2 ^ 63 then None else Some (v, dropWhile unit_char s2))))"

function duration_parts :: "nat \<Rightarrow> string \<Rightarrow> nat option" where
  "duration_parts d s =
     (if s = [] then Some d
      else (case duration_part s of None \<Rightarrow> None | Some (v, rest) \<Rightarrow>
        if length rest < length s then (if d + v > 2 ^ 63 then None else duration_parts (d + v) rest) else None))"
  by pat_completeness auto
termination
  by (relation "measure (\<lambda>(d, s). length s)") (auto split: prod.splits)

declare duration_parts.simps [simp del]

definition parse_duration :: "string \<Rightarrow> int option" where
  "parse_duration raw =
     (let neg = (raw \<noteq> [] \<and> hd raw = CHR ''-'');
          s = (if raw \<noteq> [] \<and> (hd raw = CHR ''-'' \<or> hd raw = CHR ''+'') then tl raw else raw) in
      if s = ''0'' then Some 0
      else if s = [] then None
      else (case duration_parts 0 s of None \<Rightarrow> None | Some d \<Rightarrow>
        if neg then Some (- int d) else if d > 2 ^ 63 - 1 then None else Some (int d)))"

text \<open>A part consumes at least its unit, so the length test of the loop never fails.\<close>

lemma duration_part_shorter:
  assumes "duration_part s = Some (v, rest)"
  shows "length rest < length s"
proof -
  let ?s1 = "dropWhile is_digit s"
  let ?dot = "?s1 \<noteq> [] \<and> hd ?s1 = CHR ''.''"
  let ?s2 = "if ?dot then dropWhile is_digit (tl ?s1) else ?s1"
  have rest: "rest = dropWhile unit_char ?s2" and unit: "takeWhile unit_char ?s2 \<noteq> []"
    using assms by (auto simp: duration_part_def Let_def split: if_splits option.splits)
  have "length (takeWhile unit_char ?s2) + length (dropWhile unit_char ?s2) = length ?s2"
    by (metis length_append takeWhile_dropWhile_id)
  moreover have "length (takeWhile unit_char ?s2) > 0" using unit by simp
  moreover have "length ?s2 \<le> length s"
    using length_dropWhile_le [of is_digit s] length_dropWhile_le [of is_digit "tl ?s1"] by (auto split: if_splits)
  ultimately show ?thesis unfolding rest by linarith
qed

lemma parse_duration_bounds:
  "parse_duration s = Some d \<Longrightarrow> d \<le> max_int64"
  by (auto simp: parse_duration_def Let_def max_int64_def split: if_splits option.splits)

end
