(* ===== verification/Go_Struct.thy ===== *)
theory Go_Struct
  imports Go_Json
begin

text \<open>
  \<open>json.Unmarshal\<close> into a struct: each member is stored in the field of its name, or else in
  the first field whose name agrees up to case; other members are ignored, and an error in any
  member makes the result an error.
\<close>

type_synonym 'r field = "string \<times> (json \<Rightarrow> 'r \<Rightarrow> 'r option)"

definition find_field :: "'r field list \<Rightarrow> string \<Rightarrow> 'r field option" where
  "find_field fs k = (case find (\<lambda>f. fst f = k) fs of Some f \<Rightarrow> Some f | None \<Rightarrow> find (\<lambda>f. equal_fold (fst f) k) fs)"

fun decode_members :: "'r field list \<Rightarrow> (string \<times> json) list \<Rightarrow> 'r \<Rightarrow> 'r option" where
  "decode_members fs [] r = Some r"
| "decode_members fs ((k, v) # ms) r = (case find_field fs k of
     None \<Rightarrow> decode_members fs ms r
   | Some f \<Rightarrow> (case snd f v r of None \<Rightarrow> None | Some r' \<Rightarrow> decode_members fs ms r'))"

definition decode_struct :: "'r field list \<Rightarrow> 'r \<Rightarrow> json \<Rightarrow> 'r option" where
  "decode_struct fs zero v = (case v of JNull \<Rightarrow> Some zero | JObj ms \<Rightarrow> decode_members fs ms zero | _ \<Rightarrow> None)"

text \<open>Fields by type: JSON null leaves a scalar as it is and makes a slice, map or pointer nil.\<close>

definition string_field :: "string \<Rightarrow> (string \<Rightarrow> 'r \<Rightarrow> 'r) \<Rightarrow> 'r field" where
  "string_field n upd = (n, \<lambda>v r. case v of JNull \<Rightarrow> Some r | JStr s \<Rightarrow> Some (upd s r) | _ \<Rightarrow> None)"

definition int_field :: "string \<Rightarrow> (int \<Rightarrow> 'r \<Rightarrow> 'r) \<Rightarrow> 'r field" where
  "int_field n upd = (n, \<lambda>v r. case v of JNull \<Rightarrow> Some r
     | JNum s \<Rightarrow> (case int_literal s of None \<Rightarrow> None | Some i \<Rightarrow> Some (upd i r)) | _ \<Rightarrow> None)"

definition bool_field :: "string \<Rightarrow> (bool \<Rightarrow> 'r \<Rightarrow> 'r) \<Rightarrow> 'r field" where
  "bool_field n upd = (n, \<lambda>v r. case v of JNull \<Rightarrow> Some r | JBool b \<Rightarrow> Some (upd b r) | _ \<Rightarrow> None)"

definition strings_field :: "string \<Rightarrow> (string list \<Rightarrow> 'r \<Rightarrow> 'r) \<Rightarrow> 'r field" where
  "strings_field n upd = (n, \<lambda>v r. case as_strings v of None \<Rightarrow> None | Some ss \<Rightarrow> Some (upd ss r))"

definition raw_field :: "string \<Rightarrow> (json option \<Rightarrow> 'r \<Rightarrow> 'r) \<Rightarrow> 'r field" where
  "raw_field n upd = (n, \<lambda>v r. Some (upd (Some v) r))"

text \<open>A slice of structs; \<open>Some None\<close> is the nil slice.\<close>

fun decode_each :: "(json \<Rightarrow> 'a option) \<Rightarrow> json list \<Rightarrow> 'a list option" where
  "decode_each f [] = Some []"
| "decode_each f (v # vs) = (case f v of None \<Rightarrow> None | Some a \<Rightarrow>
     (case decode_each f vs of None \<Rightarrow> None | Some as \<Rightarrow> Some (a # as)))"

definition decode_slice :: "(json \<Rightarrow> 'a option) \<Rightarrow> json \<Rightarrow> 'a list option option" where
  "decode_slice f v = (case v of JNull \<Rightarrow> Some None
     | JArr vs \<Rightarrow> (case decode_each f vs of None \<Rightarrow> None | Some as \<Rightarrow> Some (Some as)) | _ \<Rightarrow> None)"

lemma decode_each_length: "decode_each f vs = Some as \<Longrightarrow> length as = length vs"
  by (induction vs arbitrary: as) (auto split: option.splits)

end
