(* ===== verification/Go_Clock.thy ===== *)
theory Go_Clock
  imports Go_Strings
begin

text \<open>
  \<open>time.Parse(time.RFC3339, s)\<close>: nanoseconds since 1970-01-01T00:00:00Z. The strict form is
  the one of \<open>Time.UnmarshalJSON\<close>: two-digit hours, a point before the fraction, a zone
  below 24:00.
\<close>

definition leap :: "int \<Rightarrow> bool" where
  "leap y \<longleftrightarrow> y mod 4 = 0 \<and> (y mod 100 \<noteq> 0 \<or> y mod 400 = 0)"

definition days_in_month :: "int \<Rightarrow> nat \<Rightarrow> nat" where
  "days_in_month y m = (if m = 2 then (if leap y then 29 else 28) else if m \<in> {4, 6, 9, 11} then 30 else 31)"

text \<open>Days since 1970-01-01, with years that begin in March.\<close>

definition days_from_civil :: "int \<Rightarrow> nat \<Rightarrow> nat \<Rightarrow> int" where
  "days_from_civil y m d =
     (let y' = (if m \<le> 2 then y - 1 else y); m' = (if m \<le> 2 then m + 9 else m - 3) in
      365 * y' + y' div 4 - y' div 100 + y' div 400 + int ((153 * m' + 2) div 5) + int d - 1 - 719468)"

text \<open>A fixed number of digits, and the rest.\<close>

definition read_digits :: "nat \<Rightarrow> string \<Rightarrow> (nat \<times> string) option" where
  "read_digits n s = (if length s < n then None
     else (case parse_digits (take n s) of None \<Rightarrow> None | Some v \<Rightarrow> Some (v, drop n s)))"

definition read_byte :: "char set \<Rightarrow> string \<Rightarrow> string option" where
  "read_byte cs s = (case s of c # t \<Rightarrow> if c \<in> cs then Some t else None | [] \<Rightarrow> None)"

definition read_hour :: "bool \<Rightarrow> string \<Rightarrow> (nat \<times> string) option" where
  "read_hour strict s = (case read_digits 2 s of Some r \<Rightarrow> Some r | None \<Rightarrow> if strict then None else read_digits 1 s)"

text \<open>A fraction of a second, cut off after nine digits.\<close>

definition read_nanos :: "bool \<Rightarrow> string \<Rightarrow> int \<times> string" where
  "read_nanos strict s = (case s of
     c # d # t \<Rightarrow> if (c = CHR ''.'' \<or> (c = CHR '','' \<and> \<not> strict)) \<and> is_digit d
       then (let ds = takeWhile is_digit (d # t); v = take 9 ds in
             (foldl (\<lambda>n c. 10 * n + int (digit_value c)) 0 (v @ replicate (9 - length v) (CHR ''0'')), dropWhile is_digit (d # t)))
       else (0, s)
   | _ \<Rightarrow> (0, s))"

definition read_zone :: "bool \<Rightarrow> string \<Rightarrow> int option" where
  "read_zone strict s =
     (if s = ''Z'' then Some 0
      else (case s of [] \<Rightarrow> None | sign # t \<Rightarrow>
        if sign \<noteq> CHR ''+'' \<and> sign \<noteq> CHR ''-'' then None
        else (case read_digits 2 t of None \<Rightarrow> None | Some (h, t1) \<Rightarrow>
          (case read_byte {CHR '':''} t1 of None \<Rightarrow> None | Some t2 \<Rightarrow>
            (case read_digits 2 t2 of None \<Rightarrow> None | Some (m, t3) \<Rightarrow>
              if t3 \<noteq> [] \<or> h > (if strict then 23 else 24) \<or> m > (if strict then 59 else 60) then None
              else Some (int (h * 3600 + m * 60) * (if sign = CHR ''-'' then -1 else 1)))))))"

definition parse_rfc3339 :: "bool \<Rightarrow> string \<Rightarrow> int option" where
  "parse_rfc3339 strict s =
     (case read_digits 4 s of None \<Rightarrow> None | Some (y, s1) \<Rightarrow>
     (case read_byte {CHR ''-''} s1 of None \<Rightarrow> None | Some s2 \<Rightarrow>
     (case read_digits 2 s2 of None \<Rightarrow> None | Some (mo, s3) \<Rightarrow>
     (case read_byte {CHR ''-''} s3 of None \<Rightarrow> None | Some s4 \<Rightarrow>
     (case read_digits 2 s4 of None \<Rightarrow> None | Some (d, s5) \<Rightarrow>
     (case read_byte {CHR ''T''} s5 of None \<Rightarrow> None | Some s6 \<Rightarrow>
     (case read_hour strict s6 of None \<Rightarrow> None | Some (h, s7) \<Rightarrow>
     (case read_byte {CHR '':''} s7 of None \<Rightarrow> None | Some s8 \<Rightarrow>
     (case read_digits 2 s8 of None \<Rightarrow> None | Some (mi, s9) \<Rightarrow>
     (case read_byte {CHR '':''} s9 of None \<Rightarrow> None | Some s10 \<Rightarrow>
     (case read_digits 2 s10 of None \<Rightarrow> None | Some (sec, s11) \<Rightarrow>
     (case read_nanos strict s11 of (ns, s12) \<Rightarrow>
     (case read_zone strict s12 of None \<Rightarrow> None | Some zone \<Rightarrow>
        if mo < 1 \<or> mo > 12 \<or> d < 1 \<or> d > days_in_month (int y) mo \<or> h > 23 \<or> mi > 59 \<or> sec > 59 then None
        else Some (((days_from_civil (int y) mo d * 24 + int h) * 3600 + int mi * 60 + int sec - zone) * 1000000000 + ns))))))))))))))"

end
