(* ===== verification/Go_Json_Raw.thy ===== *)
theory Go_Json_Raw
  imports Go_Json
begin

text \<open>
  \<open>json.RawMessage\<close> where the bytes matter and not only the value: the texts of the elements
  of an array and of the members of an object.
\<close>

text \<open>The text of the value a string starts with, and what follows it.\<close>

definition raw_value :: "string \<Rightarrow> (string \<times> string) option" where
  "raw_value s = (let s' = skip_space s in
     case p_value (2 * length s' + 2) s' of None \<Rightarrow> None
     | Some (_, r) \<Rightarrow> Some (take (length s' - length r) s', r))"

text \<open>The fuel bounds the number of elements, each of which takes a byte.\<close>

fun raw_elems :: "nat \<Rightarrow> string \<Rightarrow> string list option" where
  "raw_elems 0 s = None"
| "raw_elems (Suc n) s = (case raw_value s of None \<Rightarrow> None | Some (v, r) \<Rightarrow>
     (case skip_space r of [] \<Rightarrow> None | c # t \<Rightarrow>
        if c = CHR '']'' then Some [v]
        else if c = CHR '','' then (case raw_elems n t of None \<Rightarrow> None | Some vs \<Rightarrow> Some (v # vs))
        else None))"

fun raw_members :: "nat \<Rightarrow> string \<Rightarrow> (string \<times> string) list option" where
  "raw_members 0 s = None"
| "raw_members (Suc n) s = (case skip_space s of [] \<Rightarrow> None | q # s1 \<Rightarrow>
     if byte q \<noteq> 34 then None
     else (case p_chars s1 of None \<Rightarrow> None | Some (k, s2) \<Rightarrow>
       (case skip_space s2 of [] \<Rightarrow> None | c # s3 \<Rightarrow>
          if c \<noteq> CHR '':'' then None
          else (case raw_value s3 of None \<Rightarrow> None | Some (v, r) \<Rightarrow>
            (case skip_space r of [] \<Rightarrow> None | d # t \<Rightarrow>
               if d = CHR ''}'' then Some [(k, v)]
               else if d = CHR '','' then (case raw_members n t of None \<Rightarrow> None | Some ms \<Rightarrow> Some ((k, v) # ms))
               else None)))))"

text \<open>\<open>[]json.RawMessage\<close>: \<open>Some None\<close> is the nil slice of JSON null.\<close>

definition raw_array :: "string \<Rightarrow> string list option option" where
  "raw_array s = (case json_parse s of
     Some JNull \<Rightarrow> Some None
   | Some (JArr vs) \<Rightarrow> if vs = [] then Some (Some []) else map_option Some (raw_elems (length s) (tl (skip_space s)))
   | _ \<Rightarrow> None)"

text \<open>\<open>map[string]json.RawMessage\<close>: a later member replaces an earlier one of the same name.\<close>

definition raw_object :: "string \<Rightarrow> (string, string) gomap option option" where
  "raw_object s = (case json_parse s of
     Some JNull \<Rightarrow> Some None
   | Some (JObj ms) \<Rightarrow> if ms = [] then Some (Some [])
       else map_option (\<lambda>rs. Some (obj_map rs)) (raw_members (length s) (tl (skip_space s)))
   | _ \<Rightarrow> None)"

end
