(* ===== verification/Json_Print.thy ===== *)
theory Json_Print
  imports Go_Json_Raw
begin

text \<open>
  \<open>json.Marshal\<close> and \<open>json.MarshalIndent\<close> with two spaces: strings with HTML escaping, object
  members in the order given.
\<close>

section \<open>Printing\<close>

definition u_escape :: "nat \<Rightarrow> string" where
  "u_escape b = [char_of (92::nat), CHR ''u'', CHR ''0'', CHR ''0'', hex_char (b div 16), hex_char (b mod 16)]"

text \<open>One rune of a string: its bytes and whether they are valid UTF-8.\<close>

definition quote_rune :: "string \<times> bool \<Rightarrow> string" where
  "quote_rune r = (case r of (bs, ok) \<Rightarrow>
     if \<not> ok then char_of (92::nat) # ''ufffd''
     else if bs = map char_of [0xE2, 0x80, 0xA8::nat] then char_of (92::nat) # ''u2028''
     else if bs = map char_of [0xE2, 0x80, 0xA9::nat] then char_of (92::nat) # ''u2029''
     else (case bs of [c] \<Rightarrow>
         (if byte c = 34 \<or> byte c = 92 then [char_of (92::nat), c]
          else if byte c = 8 then [char_of (92::nat), CHR ''b''] else if byte c = 12 then [char_of (92::nat), CHR ''f'']
          else if byte c = 10 then [char_of (92::nat), CHR ''n''] else if byte c = 13 then [char_of (92::nat), CHR ''r'']
          else if byte c = 9 then [char_of (92::nat), CHR ''t'']
          else if byte c < 32 \<or> c = CHR ''<'' \<or> c = CHR ''>'' \<or> c = CHR ''&'' then u_escape (byte c)
          else [c])
       | _ \<Rightarrow> bs))"

definition json_quote :: "string \<Rightarrow> string" where
  "json_quote s = char_of (34::nat) # concat (map quote_rune (runes s)) @ [char_of (34::nat)]"

text \<open>The compact form.\<close>

fun compact :: "json \<Rightarrow> string" where
  "compact JNull = ''null''"
| "compact (JBool b) = (if b then ''true'' else ''false'')"
| "compact (JNum s) = s"
| "compact (JStr s) = json_quote s"
| "compact (JArr vs) = CHR ''['' # join_with '','' (map compact vs) @ '']''"
| "compact (JObj ms) = CHR ''{'' # join_with '','' (map (\<lambda>(k, v). json_quote k @ '':'' @ compact v) ms) @ ''}''"

definition newline :: "nat \<Rightarrow> string" where
  "newline d = char_of (10::nat) # replicate (2 * d) (CHR '' '')"

fun pretty :: "nat \<Rightarrow> json \<Rightarrow> string" where
  "pretty d JNull = ''null''"
| "pretty d (JBool b) = (if b then ''true'' else ''false'')"
| "pretty d (JNum s) = s"
| "pretty d (JStr s) = json_quote s"
| "pretty d (JArr vs) = (if vs = [] then ''[]''
     else CHR ''['' # newline (Suc d) @ join_with (CHR '','' # newline (Suc d)) (map (pretty (Suc d)) vs) @ newline d @ '']'')"
| "pretty d (JObj ms) = (if ms = [] then ''{}''
     else CHR ''{'' # newline (Suc d) @ join_with (CHR '','' # newline (Suc d))
       (map (\<lambda>(k, v). json_quote k @ '': '' @ pretty (Suc d) v) ms) @ newline d @ ''}'')"

end
