(* ===== verification/Upstream.thy ===== *)
theory Upstream
  imports Portal_Data Go_Struct Go_Clock Json_Print
begin

text \<open>
  HTTP to the upstream services (\<open>upstream.go\<close>): a server answers the requests of a run one
  after the other, and every client threads the list of the requests made so far.
\<close>

section \<open>Requests and responses\<close>

text \<open>A GET with its bearer token, or a POST with its body.\<close>

datatype http_request = HttpGet string string | HttpPost string string

text \<open>Header values under canonical names; no body stands for one that cannot be read.\<close>

record http_response =
  resp_status :: nat
  resp_header :: "(string, string list) gomap"
  resp_body :: "string option"

text \<open>
  The outside world: the answer to the n-th request of a run, or none when it fails on the way
  or times out. Redirects are not followed, they are answers of their own.
\<close>

type_synonym server = "nat \<Rightarrow> http_request \<Rightarrow> http_response option"

type_synonym requests = "http_request list"

definition send_request :: "server \<Rightarrow> http_request \<Rightarrow> requests \<Rightarrow> http_response option \<times> requests" where
  "send_request srv r rs = (srv (length rs) r, rs @ [r])"

definition header_get :: "http_response \<Rightarrow> string \<Rightarrow> string" where
  "header_get resp k = (case map_of (resp_header resp) k of Some (v # _) \<Rightarrow> v | _ \<Rightarrow> [])"

datatype upstream_error =
    SendFailed | BodyUnreadable | BodyTooLarge | BadStatus nat | DecodeFailed
  | BadExpiry | MissingField | NullField | PartialResponse | PolicyRejected policy_error
  | TokenBlank | TokenExpiresIn | TokenType | TokenScope
  | UserInvalid nat | UsersDuplicate nat nat | OwnerAmbiguous | DeviceInvalid nat | DevicesDuplicate nat nat | DeviceOwner nat

section \<open>Bodies\<close>

definition readBoundedUpstreamBody :: "string option \<Rightarrow> upstream_error + string" where
  "readBoundedUpstreamBody body = (case body of None \<Rightarrow> Inl BodyUnreadable
     | Some s \<Rightarrow> if int (length s) > 8 * 1024 * 1024 then Inl BodyTooLarge else Inr s)"

definition decodeUpstreamJSON :: "(json \<Rightarrow> 'a option) \<Rightarrow> string option \<Rightarrow> upstream_error + 'a" where
  "decodeUpstreamJSON dec body =
     and_then (readBoundedUpstreamBody body) (\<lambda>s.
       case json_parse s of None \<Rightarrow> Inl DecodeFailed
       | Some v \<Rightarrow> (case dec v of None \<Rightarrow> Inl DecodeFailed | Some a \<Rightarrow> Inr a))"

text \<open>\<open>strings.TrimRight(s, c)\<close> for one byte.\<close>

definition trim_right_byte :: "char \<Rightarrow> string \<Rightarrow> string" where
  "trim_right_byte c s = rev (dropWhile (\<lambda>x. x = c) (rev s))"

text \<open>The clock: the time when a number of requests have been made, in nanoseconds.\<close>

type_synonym clock = "nat \<Rightarrow> int"

section \<open>Clients with a bearer token\<close>

text \<open>
  The interface of a client that holds a token: \<open>acquire\<close> makes sure there is one, \<open>renew\<close> replaces a
  rejected one, \<open>finish\<close> turns the last answer into the result. A call acquires a token, sends
  its request, and after a rejection renews the token and repeats the request once.
\<close>

locale bearer_client =
  fixes acquire renew :: "server \<Rightarrow> clock \<Rightarrow> 'c \<Rightarrow> requests \<Rightarrow> (upstream_error + unit) \<times> 'c \<times> requests"
    and token_req :: "'c \<Rightarrow> http_request" and url :: "'c \<Rightarrow> string \<Rightarrow> string" and token_of :: "'c \<Rightarrow> string"
    and same :: "'c \<Rightarrow> 'c \<Rightarrow> bool"
    and rejected :: "http_response option \<Rightarrow> bool" and finish :: "http_response option \<Rightarrow> upstream_error + http_response"
    and api_call :: "server \<Rightarrow> clock \<Rightarrow> string \<Rightarrow> 'c \<Rightarrow> requests \<Rightarrow> (upstream_error + http_response) \<times> 'c \<times> requests"
  assumes call_eq: "api_call srv clk path c0 rs0 =
     (case acquire srv clk c0 rs0 of
        (Inl e, c, rs) \<Rightarrow> (Inl e, c, rs)
      | (Inr _, c, rs) \<Rightarrow> (case send_request srv (HttpGet (url c path) (token_of c)) rs of (resp, rs1) \<Rightarrow>
          if rejected resp
          then (case renew srv clk c rs1 of
              (Inl e, c', rs2) \<Rightarrow> (Inl e, c', rs2)
            | (Inr _, c', rs2) \<Rightarrow> (case send_request srv (HttpGet (url c' path) (token_of c')) rs2 of (resp', rs3) \<Rightarrow> (finish resp', c', rs3)))
          else (finish resp, c, rs1)))"
    and acquire_step: "acquire srv clk c rs = (res, c', rs') \<Longrightarrow> same c c' \<and> (rs' = rs \<or> rs' = rs @ [token_req c])"
    and renew_step: "renew srv clk c rs = (res, c', rs') \<Longrightarrow> same c c' \<and> rs' = rs @ [token_req c]"
    and same_req: "same c c' \<Longrightarrow> token_req c' = token_req c \<and> url c' path = url c path"
    and same_trans: "same c c' \<Longrightarrow> same c' c'' \<Longrightarrow> same c c''"
    and finish_ok: "finish resp = Inr r \<Longrightarrow> resp = Some r \<and> resp_status r = 200"
begin

text \<open>
  The requests of one call: at most one for a token, the request itself, and after a rejection
  one more for a token and the request again.
\<close>

definition call_requests :: "'c \<Rightarrow> string \<Rightarrow> requests \<Rightarrow> bool" where
  "call_requests c path new \<longleftrightarrow> (\<exists>pre rest. new = pre @ rest \<and> (pre = [] \<or> pre = [token_req c]) \<and>
     (rest = [] \<or> (\<exists>t. rest = [HttpGet (url c path) t] \<or> rest = [HttpGet (url c path) t, token_req c] \<or>
        (\<exists>t'. rest = [HttpGet (url c path) t, token_req c, HttpGet (url c path) t']))))"

lemma call_requests_length: "call_requests c path new \<Longrightarrow> length new \<le> 4"
  by (auto simp: call_requests_def)

lemma call_requestsI:
  assumes "pre = [] \<or> pre = [token_req c]"
  shows "call_requests c path pre" "call_requests c path (pre @ [HttpGet (url c path) t])"
    "call_requests c path (pre @ [HttpGet (url c path) t, token_req c])"
    "call_requests c path (pre @ [HttpGet (url c path) t, token_req c, HttpGet (url c path) t'])"
  unfolding call_requests_def using assms by blast+

lemma api_call_cases:
  assumes "api_call srv clk path c rs = (res, c', rs')"
  shows "\<exists>new. rs' = rs @ new \<and> call_requests c path new" and "same c c'"
    and "res = Inr r \<Longrightarrow> resp_status r = 200"
proof -
  obtain r1 c1 rs1 where e1: "acquire srv clk c rs = (r1, c1, rs1)" by (metis prod_cases3)
  from acquire_step [OF this] obtain pre where pre: "rs1 = rs @ pre" "pre = [] \<or> pre = [token_req c]" and s1: "same c c1" by auto
  have u1: "token_req c1 = token_req c" "url c1 path = url c path" using same_req [OF s1] by blast+
  note reqs = call_requestsI [OF pre(2), of path]
  have "(\<exists>new. rs' = rs @ new \<and> call_requests c path new) \<and> same c c' \<and> (res = Inr r \<longrightarrow> resp_status r = 200)"
  proof (cases r1)
    case (Inl e)
    with assms show ?thesis using reqs(1) s1 by (auto simp: call_eq e1 pre(1))
  next
    case (Inr w)
    note ok = Inr
    let ?g = "HttpGet (url c path) (token_of c1)"
    show ?thesis
    proof (cases "rejected (srv (length rs1) ?g)")
      case False
      with ok have "api_call srv clk path c rs = (finish (srv (length rs1) ?g), c1, rs @ (pre @ [?g]))"
        by (simp add: call_eq e1 u1 send_request_def pre(1))
      then have "res = finish (srv (length rs1) ?g)" "c' = c1" "rs' = rs @ (pre @ [?g])" using assms by simp_all
      then show ?thesis using reqs(2) [of "token_of c1"] s1 by (auto dest: finish_ok)
    next
      case True
      obtain r2 c2 rs2 where e2: "renew srv clk c1 (rs1 @ [?g]) = (r2, c2, rs2)" by (metis prod_cases3)
      from renew_step [OF this] have rs2: "rs2 = rs @ (pre @ [?g, token_req c])" and s2: "same c c2"
        using same_trans [OF s1] by (simp_all add: u1 pre(1))
      have u2: "url c2 path = url c path" using same_req [OF s2] by blast
      show ?thesis
      proof (cases r2)
        case (Inl e)
        with ok True e2 have "api_call srv clk path c rs = (Inl e, c2, rs2)"
          by (simp add: call_eq e1 u1 send_request_def)
        then have "res = Inl e" "c' = c2" "rs' = rs2" using assms by simp_all
        then show ?thesis using reqs(3) [of "token_of c1"] s2 rs2 by auto
      next
        case (Inr w')
        let ?h = "HttpGet (url c path) (token_of c2)"
        from ok True e2 Inr have "api_call srv clk path c rs = (finish (srv (length rs2) ?h), c2, rs @ (pre @ [?g, token_req c, ?h]))"
          by (simp add: call_eq e1 u1 u2 send_request_def rs2)
        then have "res = finish (srv (length rs2) ?h)" "c' = c2" "rs' = rs @ (pre @ [?g, token_req c, ?h])" using assms by simp_all
        then show ?thesis using reqs(4) [of "token_of c1" "token_of c2"] s2 by (auto dest: finish_ok)
      qed
    qed
  qed
  then show "\<exists>new. rs' = rs @ new \<and> call_requests c path new" "same c c'" "res = Inr r \<Longrightarrow> resp_status r = 200"
    by blast+
qed

end

end
