(* ===== verification/Npm.thy ===== *)
theory Npm
  imports Upstream
begin

text \<open>
  The Nginx Proxy Manager client (\<open>npm.go\<close>): a token with an expiry, one renewal when it is
  rejected, and the proxy hosts. Error texts are left out; an error is its kind.
\<close>

section \<open>State and data\<close>

record NPMClient =
  npm_baseURL :: string
  email :: string
  password :: string
  npm_token :: string
  npm_tokenExpiry :: int

text \<open>The zero time is far in the past.\<close>

definition zero_time :: int where
  "zero_time = - 62135596800 * 1000000000"

definition hour :: int where "hour = 3600 * 1000000000"

definition NewNPMClient :: "string \<Rightarrow> string \<Rightarrow> string \<Rightarrow> NPMClient" where
  "NewNPMClient baseURL mail pass = \<lparr>npm_baseURL = trim_right_byte (CHR ''/'') baseURL, email = mail, password = pass,
     npm_token = [], npm_tokenExpiry = zero_time\<rparr>"

record TokenResponse =
  tr_Token :: string
  tr_Expires :: string

definition decode_token_response :: "json \<Rightarrow> TokenResponse option" where
  "decode_token_response = decode_struct
     [string_field ''token'' (\<lambda>s r. r\<lparr>tr_Token := s\<rparr>), string_field ''expires'' (\<lambda>s r. r\<lparr>tr_Expires := s\<rparr>)]
     \<lparr>tr_Token = [], tr_Expires = []\<rparr>"

definition zero_host :: ProxyHost where
  "zero_host = \<lparr>ph_ID = 0, DomainNames = [], ForwardScheme = [], ForwardHost = [], ForwardPort = 0, AccessListID = 0,
     Enabled = False, NginxOnline = False\<rparr>"

text \<open>The nested \<open>meta\<close> object is decoded into the host itself.\<close>

definition meta_field :: "ProxyHost field" where
  "meta_field = (''meta'', \<lambda>v r. decode_struct [bool_field ''nginx_online'' (\<lambda>b r. r\<lparr>NginxOnline := b\<rparr>)] r v)"

definition host_fields :: "ProxyHost field list" where
  "host_fields =
     [int_field ''id'' (\<lambda>i r. r\<lparr>ph_ID := i\<rparr>), strings_field ''domain_names'' (\<lambda>s r. r\<lparr>DomainNames := s\<rparr>),
      string_field ''forward_scheme'' (\<lambda>s r. r\<lparr>ForwardScheme := s\<rparr>), string_field ''forward_host'' (\<lambda>s r. r\<lparr>ForwardHost := s\<rparr>),
      int_field ''forward_port'' (\<lambda>i r. r\<lparr>ForwardPort := i\<rparr>), int_field ''access_list_id'' (\<lambda>i r. r\<lparr>AccessListID := i\<rparr>),
      bool_field ''enabled'' (\<lambda>b r. r\<lparr>Enabled := b\<rparr>), meta_field]"

definition decode_hosts :: "json \<Rightarrow> ProxyHost list option" where
  "decode_hosts v = (case decode_slice (decode_struct host_fields zero_host) v of None \<Rightarrow> None | Some hs \<Rightarrow> Some (or_empty hs))"

record AccessListItem =
  Username :: string
  Hint :: string

record AccessListClient =
  acl_Address :: string
  Directive :: string

record AccessList =
  al_ID :: int
  al_Name :: string
  Items :: "AccessListItem list"
  Clients :: "AccessListClient list"

definition slice_field :: "string \<Rightarrow> (json \<Rightarrow> 'a option) \<Rightarrow> ('a list \<Rightarrow> 'r \<Rightarrow> 'r) \<Rightarrow> 'r field" where
  "slice_field n dec upd = (n, \<lambda>v r. case decode_slice dec v of None \<Rightarrow> None | Some xs \<Rightarrow> Some (upd (or_empty xs) r))"

definition decode_access_lists :: "json \<Rightarrow> AccessList list option" where
  "decode_access_lists v =
     (case decode_slice (decode_struct
        [int_field ''id'' (\<lambda>i r. r\<lparr>al_ID := i\<rparr>), string_field ''name'' (\<lambda>s r. r\<lparr>al_Name := s\<rparr>),
         slice_field ''items'' (decode_struct
           [string_field ''username'' (\<lambda>s r. r\<lparr>Username := s\<rparr>), string_field ''hint'' (\<lambda>s r. r\<lparr>Hint := s\<rparr>)]
           \<lparr>Username = [], Hint = []\<rparr>) (\<lambda>xs r. r\<lparr>Items := xs\<rparr>),
         slice_field ''clients'' (decode_struct
           [string_field ''address'' (\<lambda>s r. r\<lparr>acl_Address := s\<rparr>), string_field ''directive'' (\<lambda>s r. r\<lparr>Directive := s\<rparr>)]
           \<lparr>acl_Address = [], Directive = []\<rparr>) (\<lambda>xs r. r\<lparr>Clients := xs\<rparr>)]
        \<lparr>al_ID = 0, al_Name = [], Items = [], Clients = []\<rparr>) v of
        None \<Rightarrow> None | Some ls \<Rightarrow> Some (or_empty ls))"

section \<open>Authentication\<close>

definition token_request :: "NPMClient \<Rightarrow> http_request" where
  "token_request c = HttpPost (npm_baseURL c @ ''/api/tokens'')
     (compact (JObj [(''identity'', JStr (email c)), (''secret'', JStr (password c))]))"

definition token_from :: "http_response option \<Rightarrow> upstream_error + (string \<times> int)" where
  "token_from resp = (case resp of None \<Rightarrow> Inl SendFailed | Some r \<Rightarrow>
     if resp_status r \<noteq> 200 then Inl (BadStatus (resp_status r))
     else and_then (decodeUpstreamJSON decode_token_response (resp_body r)) (\<lambda>tr.
       case parse_rfc3339 False (tr_Expires tr) of None \<Rightarrow> Inl BadExpiry | Some expiry \<Rightarrow> Inr (tr_Token tr, expiry)))"

definition authenticate :: "server \<Rightarrow> clock \<Rightarrow> NPMClient \<Rightarrow> requests \<Rightarrow> (upstream_error + unit) \<times> NPMClient \<times> requests" where
  "authenticate srv clk c rs = (let (resp, rs') = send_request srv (token_request c) rs in
     case token_from resp of Inl e \<Rightarrow> (Inl e, c, rs')
     | Inr (t, expiry) \<Rightarrow> (Inr (), c\<lparr>npm_token := t, npm_tokenExpiry := expiry\<rparr>, rs'))"

definition ensureToken :: "server \<Rightarrow> clock \<Rightarrow> NPMClient \<Rightarrow> requests \<Rightarrow> (upstream_error + unit) \<times> NPMClient \<times> requests" where
  "ensureToken srv clk c rs =
     (if npm_token c \<noteq> [] \<and> npm_tokenExpiry c - clk (length rs) > hour then (Inr (), c, rs) else authenticate srv clk c rs)"

section \<open>Requests\<close>

definition npm_get :: "NPMClient \<Rightarrow> string \<Rightarrow> http_request" where
  "npm_get c path = HttpGet (npm_baseURL c @ path) (npm_token c)"

definition finish :: "http_response option \<Rightarrow> upstream_error + http_response" where
  "finish resp = (case resp of None \<Rightarrow> Inl SendFailed | Some r \<Rightarrow>
     if resp_status r \<noteq> 200 then Inl (BadStatus (resp_status r)) else Inr r)"

text \<open>A rejected token is renewed once, and the request repeated once.\<close>

definition doRequest :: "server \<Rightarrow> clock \<Rightarrow> string \<Rightarrow> NPMClient \<Rightarrow> requests \<Rightarrow> (upstream_error + http_response) \<times> NPMClient \<times> requests" where
  "doRequest srv clk path c0 rs0 =
     (case ensureToken srv clk c0 rs0 of
        (Inl e, c, rs) \<Rightarrow> (Inl e, c, rs)
      | (Inr _, c, rs) \<Rightarrow>
          (case send_request srv (npm_get c path) rs of (resp, rs1) \<Rightarrow>
             if (case resp of Some r \<Rightarrow> resp_status r = 401 | None \<Rightarrow> False)
             then (case authenticate srv clk c rs1 of
                 (Inl e, c', rs2) \<Rightarrow> (Inl e, c', rs2)
               | (Inr _, c', rs2) \<Rightarrow> (case send_request srv (npm_get c' path) rs2 of (resp', rs3) \<Rightarrow> (finish resp', c', rs3)))
             else (finish resp, c, rs1)))"

definition FetchProxyHosts :: "server \<Rightarrow> clock \<Rightarrow> NPMClient \<Rightarrow> requests \<Rightarrow> (upstream_error + ProxyHost list) \<times> NPMClient \<times> requests" where
  "FetchProxyHosts srv clk c rs = (case doRequest srv clk ''/api/nginx/proxy-hosts'' c rs of (resp, c', rs') \<Rightarrow>
     (and_then resp (\<lambda>r. decodeUpstreamJSON decode_hosts (resp_body r)), c', rs'))"

definition FetchAccessLists :: "server \<Rightarrow> clock \<Rightarrow> NPMClient \<Rightarrow> requests \<Rightarrow> (upstream_error + AccessList list) \<times> NPMClient \<times> requests" where
  "FetchAccessLists srv clk c rs = (case doRequest srv clk ''/api/nginx/access-lists'' c rs of (resp, c', rs') \<Rightarrow>
     (and_then resp (\<lambda>r. decodeUpstreamJSON decode_access_lists (resp_body r)), c', rs'))"

section \<open>Facts\<close>

lemma authenticate_cases:
  "authenticate srv clk c rs = (case token_from (srv (length rs) (token_request c)) of
     Inl e \<Rightarrow> (Inl e, c, rs @ [token_request c])
   | Inr (t, expiry) \<Rightarrow> (Inr (), c\<lparr>npm_token := t, npm_tokenExpiry := expiry\<rparr>, rs @ [token_request c]))"
  by (simp add: authenticate_def send_request_def split: sum.split)

text \<open>What never changes about a client.\<close>

definition same_npm :: "NPMClient \<Rightarrow> NPMClient \<Rightarrow> bool" where
  "same_npm c c' \<longleftrightarrow> npm_baseURL c' = npm_baseURL c \<and> email c' = email c \<and> password c' = password c"

lemma authenticate_step:
  assumes "authenticate srv clk c rs = (res, c', rs')"
  shows "same_npm c c' \<and> rs' = rs @ [token_request c]"
  using assms by (auto simp: authenticate_cases same_npm_def split: sum.splits)

lemma authenticate_failed: "authenticate srv clk c rs = (Inl e, c', rs') \<Longrightarrow> c' = c"
  by (auto simp: authenticate_cases split: sum.splits)

lemma ensureToken_step:
  assumes "ensureToken srv clk c rs = (res, c', rs')"
  shows "same_npm c c' \<and> (rs' = rs \<or> rs' = rs @ [token_request c])"
proof (cases "npm_token c \<noteq> [] \<and> npm_tokenExpiry c - clk (length rs) > hour")
  case True
  with assms show ?thesis by (auto simp: ensureToken_def same_npm_def)
next
  case False
  then have "authenticate srv clk c rs = (res, c', rs')" using assms unfolding ensureToken_def by (simp only: if_False)
  from authenticate_step [OF this] show ?thesis by blast
qed

definition npm_rejected :: "http_response option \<Rightarrow> bool" where
  "npm_rejected resp \<longleftrightarrow> (case resp of Some r \<Rightarrow> resp_status r = 401 | None \<Rightarrow> False)"

interpretation npm: bearer_client ensureToken authenticate token_request "\<lambda>c path. npm_baseURL c @ path" npm_token same_npm
  npm_rejected finish doRequest
proof
  show "doRequest srv clk path c0 rs0 =
     (case ensureToken srv clk c0 rs0 of
        (Inl e, c, rs) \<Rightarrow> (Inl e, c, rs)
      | (Inr _, c, rs) \<Rightarrow> (case send_request srv (HttpGet (npm_baseURL c @ path) (npm_token c)) rs of (resp, rs1) \<Rightarrow>
          if npm_rejected resp
          then (case authenticate srv clk c rs1 of
              (Inl e, c', rs2) \<Rightarrow> (Inl e, c', rs2)
            | (Inr _, c', rs2) \<Rightarrow>
                (case send_request srv (HttpGet (npm_baseURL c' @ path) (npm_token c')) rs2 of (resp', rs3) \<Rightarrow> (finish resp', c', rs3)))
          else (finish resp, c, rs1)))" for srv clk path c0 rs0
    by (simp only: doRequest_def npm_get_def npm_rejected_def)
qed (auto simp: same_npm_def token_request_def finish_def dest: ensureToken_step authenticate_step split: option.splits if_splits)

text \<open>
  A call to the proxy manager makes at most four requests, whatever the server answers, each of
  them to the token endpoint or to the given path of its base URL; it returns a response only
  with status 200 and never changes its address or credentials.
\<close>
theorem npm_call_bounded:
  assumes "doRequest srv clk path c rs = (res, c', rs')"
  shows "\<exists>new. rs' = rs @ new \<and> length new \<le> 4 \<and>
      (\<forall>r \<in> set new. r = token_request c \<or> (\<exists>t. r = HttpGet (npm_baseURL c @ path) t)) \<and>
      npm_baseURL c' = npm_baseURL c \<and> email c' = email c \<and> password c' = password c \<and>
      (case res of Inr r \<Rightarrow> resp_status r = 200 | Inl e \<Rightarrow> True)"
proof -
  from npm.api_call_cases(1) [OF assms] obtain new where new: "rs' = rs @ new" "npm.call_requests c path new" by blast
  from new(2) have "\<forall>r \<in> set new. r = token_request c \<or> (\<exists>t. r = HttpGet (npm_baseURL c @ path) t)"
    by (auto simp: npm.call_requests_def)
  then show ?thesis
    using new npm.call_requests_length [OF new(2)] npm.api_call_cases(2) [OF assms] npm.api_call_cases(3) [OF assms]
    by (auto simp: same_npm_def split: sum.split)
qed

lemma npm_call_bounded_witness:
  "\<exists>res c' rs'. doRequest (\<lambda>n r. None) (\<lambda>n. 0) ''/x'' (NewNPMClient ''http://npm/'' ''a@x'' ''secret'') [] = (res, c', rs') \<and>
     length rs' \<le> 4"
proof -
  obtain res c' rs' where l: "doRequest (\<lambda>n r. None) (\<lambda>n. 0) ''/x'' (NewNPMClient ''http://npm/'' ''a@x'' ''secret'') [] = (res, c', rs')"
    by (metis prod_cases3)
  with npm_call_bounded [OF l] show ?thesis by auto
qed

end
