(* ===== verification/Control_Plane.thy ===== *)
theory Control_Plane
  imports Upstream
begin

text \<open>
  What both control planes share (\<open>controlplane.go\<close>): the result of a load, its stages and
  the error of a stage.
\<close>

datatype controlPlaneLoadStage = StageAuth | StagePolicy | StageUsers | StageDevices | StageNodes

record ControlPlaneResult =
  cpr_Policy :: "Policy option"
  cpr_Nodes :: "Node list"
  cpr_GrantRoleSelectorsByLogin :: "(string, string list) gomap"
  cpr_MachineSSHCapableByID :: "(string, bool) gomap"
  cpr_Metadata :: ControlPlaneMetadata

record controlPlaneLoadError =
  le_Provider :: controlPlaneProvider
  le_Stage :: controlPlaneLoadStage
  le_Err :: upstream_error

text \<open>The stages reported on the way, with their counts.\<close>

type_synonym 's progress = "('s \<times> nat) list"

definition valid_policy :: "policy_error + validatedPolicy \<Rightarrow> upstream_error + validatedPolicy" where
  "valid_policy r = (case r of Inl e \<Rightarrow> Inl (PolicyRejected e) | Inr p \<Rightarrow> Inr p)"

text \<open>
  The interface \<open>ControlPlane\<close>: a provider whose load ends in a result with a policy that names
  the provider, or in an error of one of its stages.
\<close>

locale control_plane =
  fixes provider :: controlPlaneProvider
    and load :: "server \<Rightarrow> clock \<Rightarrow> 'c \<Rightarrow> requests \<Rightarrow> (controlPlaneLoadError + ControlPlaneResult) \<times> 'c \<times> requests"
  assumes load_result: "load srv clk c rs = (Inr result, c', rs') \<Longrightarrow>
      cpr_Policy result \<noteq> None \<and> Provider (cpr_Metadata result) = provider"
    and load_error: "load srv clk c rs = (Inl e, c', rs') \<Longrightarrow> le_Provider e = provider"
    and load_requests: "load srv clk c rs = (out, c', rs') \<Longrightarrow> \<exists>new. rs' = rs @ new"

end
