(* ===== verification/Headscale_Client.thy ===== *)
theory Headscale_Client
  imports Control_Plane
begin

text \<open>
  The Headscale client (\<open>headscale.go\<close>): the policy, with its fallback for comments and trailing
  commas, and the nodes.
\<close>

section \<open>Lenient JSON\<close>

text \<open>The position of a double slash in a line.\<close>

fun before_comment :: "string \<Rightarrow> string" where
  "before_comment [] = []"
| "before_comment (c # s) = (if c = CHR ''/'' \<and> s \<noteq> [] \<and> hd s = CHR ''/'' then [] else c # before_comment s)"

text \<open>White space of a regular expression.\<close>

definition re_space :: "char \<Rightarrow> bool" where
  "re_space c \<longleftrightarrow> byte c \<in> {9, 10, 12, 13, 32}"

text \<open>A comma before white space and a closing bracket is dropped.\<close>

function strip_commas :: "string \<Rightarrow> string" where
  "strip_commas s = (case s of [] \<Rightarrow> [] | c # t \<Rightarrow>
     if c = CHR '','' then
       (case dropWhile re_space t of b # u \<Rightarrow>
          if b = CHR ''}'' \<or> b = CHR '']'' then takeWhile re_space t @ b # strip_commas u else c # strip_commas t
        | [] \<Rightarrow> c # strip_commas t)
     else c # strip_commas t)"
  by pat_completeness auto
termination
proof (relation "measure length")
  fix s :: string and c t b u
  assume "s = c # t" "dropWhile re_space t = b # u"
  then have "length (b # u) \<le> length t" by (metis length_dropWhile_le)
  with \<open>s = c # t\<close> show "(u, s) \<in> measure length" by simp
qed simp_all

declare strip_commas.simps [simp del]

definition standardizeHuJSON :: "string \<Rightarrow> string" where
  "standardizeHuJSON b = strip_commas (join_with [char_of (10::nat)] (map before_comment (split_byte (char_of (10::nat)) b)))"

section \<open>Data\<close>

record HeadscaleClient =
  hs_baseURL :: string
  apiKey :: string

definition NewHeadscaleClient :: "string \<Rightarrow> string \<Rightarrow> HeadscaleClient" where
  "NewHeadscaleClient baseURL key = \<lparr>hs_baseURL = trim_right_byte (CHR ''/'') baseURL, apiKey = key\<rparr>"

record headscaleUserDTO =
  hsu_ID :: string
  hsu_Name :: string

record headscaleNodeDTO =
  hsn_ID :: string
  hsn_Name :: string
  hsn_User :: headscaleUserDTO
  hsn_Tags :: "string list"
  ForcedTags :: "string list"
  ValidTags :: "string list"
  IPAddresses :: "string list"

text \<open>A creation time must be a strict RFC 3339 string or null, and is not used.\<close>

definition time_field :: "string \<Rightarrow> 'r field" where
  "time_field n = (n, \<lambda>v r. case v of JNull \<Rightarrow> Some r
     | JStr s \<Rightarrow> if parse_rfc3339 True s = None then None else Some r | _ \<Rightarrow> None)"

definition user_fields :: "headscaleUserDTO field list" where
  "user_fields = [string_field ''id'' (\<lambda>s r. r\<lparr>hsu_ID := s\<rparr>), string_field ''name'' (\<lambda>s r. r\<lparr>hsu_Name := s\<rparr>), time_field ''createdAt'']"

definition zero_user :: headscaleUserDTO where
  "zero_user = \<lparr>hsu_ID = [], hsu_Name = []\<rparr>"

definition node_fields :: "headscaleNodeDTO field list" where
  "node_fields =
     [string_field ''id'' (\<lambda>s r. r\<lparr>hsn_ID := s\<rparr>), string_field ''name'' (\<lambda>s r. r\<lparr>hsn_Name := s\<rparr>),
      (''user'', \<lambda>v r. case decode_struct user_fields (hsn_User r) v of None \<Rightarrow> None | Some u \<Rightarrow> Some (r\<lparr>hsn_User := u\<rparr>)),
      strings_field ''tags'' (\<lambda>s r. r\<lparr>hsn_Tags := s\<rparr>), strings_field ''forcedTags'' (\<lambda>s r. r\<lparr>ForcedTags := s\<rparr>),
      strings_field ''validTags'' (\<lambda>s r. r\<lparr>ValidTags := s\<rparr>), strings_field ''ipAddresses'' (\<lambda>s r. r\<lparr>IPAddresses := s\<rparr>)]"

definition zero_node :: headscaleNodeDTO where
  "zero_node = \<lparr>hsn_ID = [], hsn_Name = [], hsn_User = zero_user, hsn_Tags = [], ForcedTags = [], ValidTags = [], IPAddresses = []\<rparr>"

text \<open>A wrapper with one pointer member: missing and null are the same.\<close>

definition decode_wrapper :: "string \<Rightarrow> (json \<Rightarrow> 'a option option) \<Rightarrow> json \<Rightarrow> 'a option option" where
  "decode_wrapper n dec = decode_struct [(n, \<lambda>v r. dec v)] None"

definition decode_policy_wrapper :: "json \<Rightarrow> string option option" where
  "decode_policy_wrapper = decode_struct
     [(''policy'', \<lambda>v r. case v of JNull \<Rightarrow> Some None | JStr s \<Rightarrow> Some (Some s) | _ \<Rightarrow> None),
      (''updatedAt'', \<lambda>v r. case v of JNull \<Rightarrow> Some r | JStr s \<Rightarrow> Some r | _ \<Rightarrow> None)] None"

section \<open>Requests\<close>

definition hs_get :: "server \<Rightarrow> (json \<Rightarrow> 'a option) \<Rightarrow> string \<Rightarrow> HeadscaleClient \<Rightarrow> requests \<Rightarrow> (upstream_error + 'a) \<times> requests" where
  "hs_get srv dec path c rs = (case send_request srv (HttpGet (hs_baseURL c @ path) (apiKey c)) rs of (resp, rs') \<Rightarrow>
     (case resp of None \<Rightarrow> Inl SendFailed | Some r \<Rightarrow>
        if resp_status r \<noteq> 200 then Inl (BadStatus (resp_status r)) else decodeUpstreamJSON dec (resp_body r), rs'))"

text \<open>The policy document: strict first, then without comments and trailing commas.\<close>

definition headscale_policy :: "string \<Rightarrow> upstream_error + validatedPolicy" where
  "headscale_policy raw =
     (if trim_space raw = [] then Inr \<lparr>vp_Policy = emptyPolicy, PolicyMode = LegacyACL, NodeAttrsPresent = False\<rparr>
      else (case validateLegacyPolicyDocument raw of
          Inr p \<Rightarrow> Inr p
        | Inl e \<Rightarrow> if json_parse (standardizeHuJSON raw) \<noteq> None
            then valid_policy (validateLegacyPolicyDocument (standardizeHuJSON raw))
            else Inl (PolicyRejected e)))"

definition hs_fetchPolicy :: "server \<Rightarrow> HeadscaleClient \<Rightarrow> requests \<Rightarrow> (upstream_error + validatedPolicy) \<times> requests" where
  "hs_fetchPolicy srv c rs = (case hs_get srv decode_policy_wrapper ''/api/v1/policy'' c rs of (res, rs') \<Rightarrow>
     (and_then res (\<lambda>policy. case policy of None \<Rightarrow> Inl MissingField | Some raw \<Rightarrow> headscale_policy raw), rs'))"

definition FetchUsers :: "server \<Rightarrow> HeadscaleClient \<Rightarrow> requests \<Rightarrow> (upstream_error + headscaleUserDTO list) \<times> requests" where
  "FetchUsers srv c rs =
     (case hs_get srv (decode_wrapper ''users'' (decode_slice (decode_struct user_fields zero_user))) ''/api/v1/user'' c rs of
        (res, rs') \<Rightarrow> (and_then res (\<lambda>users. case users of None \<Rightarrow> Inl MissingField | Some us \<Rightarrow> Inr us), rs'))"

record headscaleNodeLoad =
  hnl_Nodes :: "Node list"
  hnl_CandidateNames :: "string list"

definition headscale_node :: "headscaleNodeDTO \<Rightarrow> Node" where
  "headscale_node dto = \<lparr>node_ID = trim_space (hsn_ID dto), node_Name = trim_space (hsn_Name dto),
     OwnerLogin = trim_space (hsu_Name (hsn_User dto)),
     Tags = normalizeStrings (hsn_Tags dto @ ForcedTags dto @ ValidTags dto), Addresses = normalizeStrings (IPAddresses dto)\<rparr>"

definition hs_fetchNodes :: "server \<Rightarrow> bool \<Rightarrow> HeadscaleClient \<Rightarrow> requests \<Rightarrow> (upstream_error + headscaleNodeLoad) \<times> requests" where
  "hs_fetchNodes srv includeCandidateNames c rs =
     (case hs_get srv (decode_wrapper ''nodes'' (decode_slice (decode_struct node_fields zero_node))) ''/api/v1/node'' c rs of
        (res, rs') \<Rightarrow> (and_then res (\<lambda>dtos. case dtos of None \<Rightarrow> Inl MissingField | Some ds \<Rightarrow>
          Inr \<lparr>hnl_Nodes = map headscale_node ds,
               hnl_CandidateNames = (if includeCandidateNames then map hsn_Name ds else [])\<rparr>), rs'))"

section \<open>Loading\<close>

definition hs_error :: "controlPlaneLoadStage \<Rightarrow> upstream_error \<Rightarrow> controlPlaneLoadError" where
  "hs_error stage e = \<lparr>le_Provider = Headscale, le_Stage = stage, le_Err = e\<rparr>"

definition hs_load_names ::
  "bool \<Rightarrow> server \<Rightarrow> HeadscaleClient \<Rightarrow> requests \<Rightarrow> (controlPlaneLoadError + ControlPlaneResult \<times> string list) \<times> requests" where
  "hs_load_names includeCandidateNames srv c rs =
     (case hs_fetchPolicy srv c rs of
        (Inl e, rs1) \<Rightarrow> (Inl (hs_error StagePolicy e), rs1)
      | (Inr p, rs1) \<Rightarrow> (case hs_fetchNodes srv includeCandidateNames c rs1 of
          (Inl e, rs2) \<Rightarrow> (Inl (hs_error StageNodes e), rs2)
        | (Inr loaded, rs2) \<Rightarrow>
            (Inr (\<lparr>cpr_Policy = Some (vp_Policy p), cpr_Nodes = hnl_Nodes loaded, cpr_GrantRoleSelectorsByLogin = [],
                   cpr_MachineSSHCapableByID = [],
                   cpr_Metadata = \<lparr>Provider = Headscale, cpm_PolicyMode = PolicyMode p, Supported = True\<rparr>\<rparr>,
                  hnl_CandidateNames loaded), rs2)))"

definition hs_Load :: "server \<Rightarrow> clock \<Rightarrow> HeadscaleClient \<Rightarrow> requests \<Rightarrow> (controlPlaneLoadError + ControlPlaneResult) \<times> HeadscaleClient \<times> requests" where
  "hs_Load srv clk c rs = (case hs_load_names False srv c rs of (out, rs') \<Rightarrow>
     (case out of Inl e \<Rightarrow> Inl e | Inr (result, names) \<Rightarrow> Inr result, c, rs'))"

definition hs_LoadHostnameSuggestions ::
  "server \<Rightarrow> HeadscaleClient \<Rightarrow> requests \<Rightarrow> (controlPlaneLoadError + ControlPlaneResult \<times> string list) \<times> requests" where
  "hs_LoadHostnameSuggestions = hs_load_names True"

section \<open>Facts\<close>

lemma hs_get_requests: "hs_get srv dec path c rs = (res, rs') \<Longrightarrow> rs' = rs @ [HttpGet (hs_baseURL c @ path) (apiKey c)]"
  by (auto simp: hs_get_def send_request_def)

lemma hs_fetchPolicy_requests:
  "hs_fetchPolicy srv c rs = (res, rs') \<Longrightarrow> rs' = rs @ [HttpGet (hs_baseURL c @ ''/api/v1/policy'') (apiKey c)]"
  by (auto simp: hs_fetchPolicy_def dest: hs_get_requests split: prod.splits)

lemma hs_fetchNodes_requests:
  "hs_fetchNodes srv b c rs = (res, rs') \<Longrightarrow> rs' = rs @ [HttpGet (hs_baseURL c @ ''/api/v1/node'') (apiKey c)]"
  by (auto simp: hs_fetchNodes_def dest: hs_get_requests split: prod.splits)

lemma hs_load_names_cases:
  assumes "hs_load_names b srv c rs = (out, rs')"
  shows "(\<exists>new. rs' = rs @ new) \<and> (case out of Inl e \<Rightarrow> le_Provider e = Headscale
    | Inr (result, names) \<Rightarrow> cpr_Policy result \<noteq> None \<and> Provider (cpr_Metadata result) = Headscale)"
  using assms
  by (auto simp: hs_load_names_def hs_error_def dest!: hs_fetchPolicy_requests hs_fetchNodes_requests
      split: prod.splits sum.splits)

interpretation headscale: control_plane Headscale hs_Load
proof
  fix srv clk c rs out c' rs' result e
  show "hs_Load srv clk c rs = (Inr result, c', rs') \<Longrightarrow> cpr_Policy result \<noteq> None \<and> Provider (cpr_Metadata result) = Headscale"
    using hs_load_names_cases [of False srv c rs] by (auto simp: hs_Load_def split: prod.splits sum.splits)
  show "hs_Load srv clk c rs = (Inl e, c', rs') \<Longrightarrow> le_Provider e = Headscale"
    using hs_load_names_cases [of False srv c rs] by (auto simp: hs_Load_def split: prod.splits sum.splits)
  show "hs_Load srv clk c rs = (out, c', rs') \<Longrightarrow> \<exists>new. rs' = rs @ new"
    using hs_load_names_cases [of False srv c rs] by (auto simp: hs_Load_def split: prod.splits)
qed

end
