(* ===== verification/Tailscale_Client.thy ===== *)
theory Tailscale_Client
  imports Control_Plane Ssh_Policy
begin

text \<open>
  The Tailscale client (\<open>tailscale.go\<close>): the OAuth token, the policy, the users with their roles
  and the devices with their owners. The redaction of error texts is the theory \<open>Redact\<close>; an error is its
  kind.
\<close>

section \<open>Data\<close>

record TailscaleClient =
  ts_baseURL :: string
  clientID :: string
  clientSecret :: string
  accessToken :: string
  ts_tokenExpiry :: int

record tailscaleTokenDTO =
  AccessToken :: string
  dto_TokenType :: string
  ExpiresIn :: int
  Scope :: string

record tailscaleUserDTO =
  tsu_ID :: "json option"
  LoginName :: string
  tsu_Type :: "json option"
  tsu_Role :: "json option"

record tailscaleDeviceDTO =
  tsd_ID :: "json option"
  NodeID :: string
  tsd_Name :: string
  Hostname :: string
  tsd_User :: "json option"
  tsd_Addresses :: "string list"
  tsd_Tags :: "string list"
  SSHEnabled :: "json option"
  BlocksIncomingConnections :: "json option"

definition tailscaleAPIOrigin :: string where
  "tailscaleAPIOrigin = ''https://api.tailscale.com/api/v2''"

definition tailscaleTokenSkew :: int where
  "tailscaleTokenSkew = 300 * 1000000000"

definition tailscaleReadScopes :: "string list" where
  "tailscaleReadScopes = [''policy_file:read'', ''devices:posture_attributes:read'', ''devices:core:read'', ''users:read'']"

definition newTailscaleClient :: "string \<Rightarrow> string \<Rightarrow> string \<Rightarrow> TailscaleClient" where
  "newTailscaleClient baseURL i secret = \<lparr>ts_baseURL = trim_right_byte (CHR ''/'') baseURL, clientID = i, clientSecret = secret,
     accessToken = [], ts_tokenExpiry = - 62135596800 * 1000000000\<rparr>"

definition NewTailscaleClient :: "string \<Rightarrow> string \<Rightarrow> TailscaleClient" where
  "NewTailscaleClient i secret = newTailscaleClient tailscaleAPIOrigin i secret"

definition token_dto_fields :: "tailscaleTokenDTO field list" where
  "token_dto_fields =
     [string_field ''access_token'' (\<lambda>s r. r\<lparr>AccessToken := s\<rparr>), string_field ''token_type'' (\<lambda>s r. r\<lparr>dto_TokenType := s\<rparr>),
      int_field ''expires_in'' (\<lambda>i r. r\<lparr>ExpiresIn := i\<rparr>), string_field ''scope'' (\<lambda>s r. r\<lparr>Scope := s\<rparr>)]"

definition user_dto_fields :: "tailscaleUserDTO field list" where
  "user_dto_fields =
     [raw_field ''id'' (\<lambda>v r. r\<lparr>tsu_ID := v\<rparr>), string_field ''loginName'' (\<lambda>s r. r\<lparr>LoginName := s\<rparr>),
      raw_field ''type'' (\<lambda>v r. r\<lparr>tsu_Type := v\<rparr>), raw_field ''role'' (\<lambda>v r. r\<lparr>tsu_Role := v\<rparr>)]"

definition zero_user_dto :: tailscaleUserDTO where
  "zero_user_dto = \<lparr>tsu_ID = None, LoginName = [], tsu_Type = None, tsu_Role = None\<rparr>"

definition device_dto_fields :: "tailscaleDeviceDTO field list" where
  "device_dto_fields =
     [raw_field ''id'' (\<lambda>v r. r\<lparr>tsd_ID := v\<rparr>), string_field ''nodeId'' (\<lambda>s r. r\<lparr>NodeID := s\<rparr>),
      string_field ''name'' (\<lambda>s r. r\<lparr>tsd_Name := s\<rparr>), string_field ''hostname'' (\<lambda>s r. r\<lparr>Hostname := s\<rparr>),
      raw_field ''user'' (\<lambda>v r. r\<lparr>tsd_User := v\<rparr>), strings_field ''addresses'' (\<lambda>s r. r\<lparr>tsd_Addresses := s\<rparr>),
      strings_field ''tags'' (\<lambda>s r. r\<lparr>tsd_Tags := s\<rparr>), raw_field ''sshEnabled'' (\<lambda>v r. r\<lparr>SSHEnabled := v\<rparr>),
      raw_field ''blocksIncomingConnections'' (\<lambda>v r. r\<lparr>BlocksIncomingConnections := v\<rparr>)]"

definition zero_device_dto :: tailscaleDeviceDTO where
  "zero_device_dto = \<lparr>tsd_ID = None, NodeID = [], tsd_Name = [], Hostname = [], tsd_User = None, tsd_Addresses = [],
     tsd_Tags = [], SSHEnabled = None, BlocksIncomingConnections = None\<rparr>"

section \<open>The token\<close>

text \<open>\<open>strings.Fields\<close>.\<close>

fun group_runes :: "(string \<times> bool) list \<Rightarrow> string \<Rightarrow> string list" where
  "group_runes [] w = (if w = [] then [] else [w])"
| "group_runes (r # rs) w =
     (if space_prefix (fst r) > 0 then (if w = [] then group_runes rs [] else w # group_runes rs [])
      else group_runes rs (w @ fst r))"

definition string_fields :: "string \<Rightarrow> string list" where
  "string_fields s = group_runes (runes s) []"

text \<open>The loop over the right side takes one count off per value.\<close>

fun take_counts :: "string list \<Rightarrow> string list \<Rightarrow> bool" where
  "take_counts left [] = True"
| "take_counts left (v # right) = (if v \<notin> set left then False else take_counts (remove1 v left) right)"

definition sameStringSet :: "string list \<Rightarrow> string list \<Rightarrow> bool" where
  "sameStringSet left right \<longleftrightarrow> (if length left \<noteq> length right then False else take_counts left right)"

text \<open>A product of 64-bit integers wraps around.\<close>

definition wrap_int64 :: "int \<Rightarrow> int" where
  "wrap_int64 i = (i + 2 ^ 63) mod 2 ^ 64 - 2 ^ 63"

definition ts_token_request :: "TailscaleClient \<Rightarrow> http_request" where
  "ts_token_request c = HttpPost (ts_baseURL c @ ''/oauth/token'')
     (''client_id='' @ escape EncodeQuery (clientID c) @ ''&client_secret='' @ escape EncodeQuery (clientSecret c) @
      ''&grant_type=client_credentials&scope='' @ escape EncodeQuery (join_with '' '' tailscaleReadScopes))"

definition accept_token :: "tailscaleTokenDTO \<Rightarrow> upstream_error + unit" where
  "accept_token t =
     and_then (reject_if (trim_space (AccessToken t) = []) TokenBlank) (\<lambda>_.
     and_then (reject_if (ExpiresIn t \<le> 0) TokenExpiresIn) (\<lambda>_.
     and_then (reject_if (dto_TokenType t \<noteq> [] \<and> \<not> equal_fold (dto_TokenType t) ''bearer'') TokenType) (\<lambda>_.
     reject_if (trim_space (Scope t) \<noteq> [] \<and> \<not> sameStringSet (string_fields (Scope t)) tailscaleReadScopes) TokenScope)))"

definition ts_token_from :: "http_response option \<Rightarrow> upstream_error + tailscaleTokenDTO" where
  "ts_token_from resp = (case resp of None \<Rightarrow> Inl SendFailed | Some r \<Rightarrow>
     and_then (readBoundedUpstreamBody (resp_body r)) (\<lambda>body.
       if resp_status r \<noteq> 200 then Inl (BadStatus (resp_status r))
       else (case json_parse body of None \<Rightarrow> Inl DecodeFailed | Some v \<Rightarrow>
         (case decode_struct token_dto_fields \<lparr>AccessToken = [], dto_TokenType = [], ExpiresIn = 0, Scope = []\<rparr> v of
            None \<Rightarrow> Inl DecodeFailed | Some t \<Rightarrow> and_then (accept_token t) (\<lambda>_. Inr t)))))"

definition authenticateLocked :: "server \<Rightarrow> clock \<Rightarrow> TailscaleClient \<Rightarrow> requests \<Rightarrow> (upstream_error + unit) \<times> TailscaleClient \<times> requests" where
  "authenticateLocked srv clk c rs = (case send_request srv (ts_token_request c) rs of (resp, rs') \<Rightarrow>
     (case ts_token_from resp of Inl e \<Rightarrow> (Inl e, c, rs')
      | Inr t \<Rightarrow> (Inr (), c\<lparr>accessToken := AccessToken t,
          ts_tokenExpiry := clk (length rs') + wrap_int64 (ExpiresIn t * 1000000000)\<rparr>, rs')))"

text \<open>The current token, unless it is the rejected one or expires within the skew.\<close>

definition ts_token :: "string \<Rightarrow> server \<Rightarrow> clock \<Rightarrow> TailscaleClient \<Rightarrow> requests \<Rightarrow> (upstream_error + unit) \<times> TailscaleClient \<times> requests" where
  "ts_token rejected srv clk c rs =
     (if accessToken c \<noteq> [] \<and> accessToken c \<noteq> rejected \<and> clk (length rs) + tailscaleTokenSkew < ts_tokenExpiry c
      then (Inr (), c, rs) else authenticateLocked srv clk c rs)"

section \<open>Requests\<close>

text \<open>\<open>send\<close> reads the whole body before it looks at the status.\<close>

definition ts_send :: "server \<Rightarrow> string \<Rightarrow> TailscaleClient \<Rightarrow> requests \<Rightarrow> (upstream_error + http_response) \<times> requests" where
  "ts_send srv path c rs = (case send_request srv (HttpGet (ts_baseURL c @ path) (accessToken c)) rs of (resp, rs') \<Rightarrow>
     (case resp of None \<Rightarrow> Inl SendFailed | Some r \<Rightarrow> and_then (readBoundedUpstreamBody (resp_body r)) (\<lambda>_. Inr r), rs'))"

definition ts_status :: "http_response \<Rightarrow> upstream_error + http_response" where
  "ts_status r = (if resp_status r \<noteq> 200 then Inl (BadStatus (resp_status r)) else Inr r)"

definition doAPI :: "server \<Rightarrow> clock \<Rightarrow> string \<Rightarrow> TailscaleClient \<Rightarrow> requests \<Rightarrow> (upstream_error + http_response) \<times> TailscaleClient \<times> requests" where
  "doAPI srv clk path c0 rs0 =
     (case ts_token [] srv clk c0 rs0 of
        (Inl e, c, rs) \<Rightarrow> (Inl e, c, rs)
      | (Inr _, c, rs) \<Rightarrow> (case ts_send srv path c rs of
          (Inl e, rs1) \<Rightarrow> (Inl e, c, rs1)
        | (Inr r, rs1) \<Rightarrow>
            if resp_status r = 401
            then (case ts_token (accessToken c) srv clk c rs1 of
                (Inl e, c', rs2) \<Rightarrow> (Inl e, c', rs2)
              | (Inr _, c', rs2) \<Rightarrow> (case ts_send srv path c' rs2 of
                  (Inl e, rs3) \<Rightarrow> (Inl e, c', rs3)
                | (Inr r', rs3) \<Rightarrow> (ts_status r', c', rs3)))
            else (ts_status r, c, rs1)))"

section \<open>References and partial responses\<close>

definition tailscaleReference :: "json option \<Rightarrow> string option" where
  "tailscaleReference raw = (case raw of None \<Rightarrow> Some [] | Some JNull \<Rightarrow> Some [] | Some (JStr s) \<Rightarrow> Some (trim_space s)
     | Some (JNum n) \<Rightarrow> Some n | _ \<Rightarrow> None)"

definition tailscaleOptionalBool :: "json option \<Rightarrow> bool option" where
  "tailscaleOptionalBool raw = (case raw of Some (JBool b) \<Rightarrow> Some b | _ \<Rightarrow> None)"

definition tailscaleUserString :: "json option \<Rightarrow> string option" where
  "tailscaleUserString raw = (case raw of Some (JStr s) \<Rightarrow> if s = [] \<or> trim_space s \<noteq> s then None else Some s | _ \<Rightarrow> None)"

definition partial_names :: "string list" where
  "partial_names = [''next'', ''nextpage'', ''cursor'', ''continuation'', ''hasmore'', ''partial'', ''truncated'']"

definition partial_headers :: "string list" where
  "partial_headers = [''Content-Range'', ''Link'', ''X-Next-Page'', ''X-Next-Cursor'', ''X-Continuation-Token'']"

definition rejectPartialTailscaleResponse :: "(string, json) gomap \<Rightarrow> http_response \<Rightarrow> bool" where
  "rejectPartialTailscaleResponse envelope resp \<longleftrightarrow>
     list_ex (\<lambda>k. to_lower (List.filter (\<lambda>c. c \<noteq> CHR ''_'' \<and> c \<noteq> CHR ''-'') k) \<in> set partial_names) (map fst envelope) \<or>
     list_ex (\<lambda>h. trim_space (header_get resp h) \<noteq> []) partial_headers"

section \<open>Users\<close>

record user_index =
  ui_ids :: "(string, nat) gomap"
  ui_logins :: "(string, nat) gomap"
  ui_roles :: "(string, string list) gomap"

definition user_selectors :: "string \<Rightarrow> string list" where
  "user_selectors role = normalizeStrings ([''autogroup:member'', ''autogroup:'' @ role] @
     (if role = ''owner'' then [''autogroup:admin''] else []))"

definition add_user :: "nat \<Rightarrow> user_index \<Rightarrow> tailscaleUserDTO \<Rightarrow> upstream_error + user_index" where
  "add_user index acc user =
     (case tailscaleReference (tsu_ID user) of None \<Rightarrow> Inl (UserInvalid index) | Some i \<Rightarrow>
      if i = [] then Inl (UserInvalid index)
      else (let login = trim_space (LoginName user) in
        if login = [] \<or> login \<noteq> LoginName user then Inl (UserInvalid index)
        else (case tailscaleUserString (tsu_Type user) of None \<Rightarrow> Inl (UserInvalid index) | Some userType \<Rightarrow>
          if userType \<notin> {''member'', ''shared''} then Inl (UserInvalid index)
          else (case tailscaleUserString (tsu_Role user) of None \<Rightarrow> Inl (UserInvalid index) | Some role \<Rightarrow>
            if role \<notin> set tailscaleHumanRoles then Inl (UserInvalid index)
            else (case map_of (ui_ids acc) i of Some previous \<Rightarrow> Inl (UsersDuplicate previous index) | None \<Rightarrow>
              (case map_of (ui_logins acc) login of Some previous \<Rightarrow> Inl (UsersDuplicate previous index) | None \<Rightarrow>
                Inr \<lparr>ui_ids = gomap_put (ui_ids acc) i index, ui_logins = gomap_put (ui_logins acc) login index,
                     ui_roles = (if userType = ''member'' then gomap_put (ui_roles acc) login (user_selectors role)
                       else ui_roles acc)\<rparr>))))))"

fun index_users :: "nat \<Rightarrow> user_index \<Rightarrow> tailscaleUserDTO list \<Rightarrow> upstream_error + user_index" where
  "index_users i acc [] = Inr acc"
| "index_users i acc (u # us) = (case add_user i acc u of Inl e \<Rightarrow> Inl e | Inr acc' \<Rightarrow> index_users (Suc i) acc' us)"

text \<open>No ID of one user is the login of another.\<close>

definition validateTailscaleUsers :: "tailscaleUserDTO list \<Rightarrow> upstream_error + (string, string list) gomap" where
  "validateTailscaleUsers users =
     (case index_users 0 \<lparr>ui_ids = [], ui_logins = [], ui_roles = []\<rparr> users of Inl e \<Rightarrow> Inl e
      | Inr acc \<Rightarrow>
          if list_ex (\<lambda>(i, index). case map_of (ui_logins acc) i of None \<Rightarrow> False | Some l \<Rightarrow> l \<noteq> index) (ui_ids acc)
          then Inl OwnerAmbiguous else Inr (ui_roles acc))"

definition decode_envelope :: "string \<Rightarrow> (json \<Rightarrow> 'a list option option) \<Rightarrow> http_response \<Rightarrow> upstream_error + 'a list" where
  "decode_envelope name dec resp =
     (case json_parse (case resp_body resp of None \<Rightarrow> [] | Some b \<Rightarrow> b) of None \<Rightarrow> Inl DecodeFailed | Some v \<Rightarrow>
      (case as_raw_map v of None \<Rightarrow> Inl DecodeFailed | Some m \<Rightarrow>
        if rejectPartialTailscaleResponse (or_empty m) resp then Inl PartialResponse
        else (case map_of (or_empty m) name of None \<Rightarrow> Inl MissingField | Some raw \<Rightarrow>
          if raw = JNull then Inl NullField
          else (case dec raw of None \<Rightarrow> Inl DecodeFailed | Some xs \<Rightarrow> Inr (or_empty xs)))))"

definition ts_fetchUsers ::
  "server \<Rightarrow> clock \<Rightarrow> TailscaleClient \<Rightarrow> requests \<Rightarrow>
     (upstream_error + tailscaleUserDTO list \<times> (string, string list) gomap) \<times> TailscaleClient \<times> requests" where
  "ts_fetchUsers srv clk c rs = (case doAPI srv clk ''/tailnet/-/users'' c rs of (res, c', rs') \<Rightarrow>
     (and_then res (\<lambda>resp. and_then (decode_envelope ''users'' (decode_slice (decode_struct user_dto_fields zero_user_dto)) resp)
        (\<lambda>users. and_then (validateTailscaleUsers users) (\<lambda>roles. Inr (users, roles)))), c', rs'))"

definition ts_fetchPolicy :: "server \<Rightarrow> clock \<Rightarrow> TailscaleClient \<Rightarrow> requests \<Rightarrow> (upstream_error + validatedPolicy) \<times> TailscaleClient \<times> requests" where
  "ts_fetchPolicy srv clk c rs = (case doAPI srv clk ''/tailnet/-/acl'' c rs of (res, c', rs') \<Rightarrow>
     (and_then res (\<lambda>resp. valid_policy (validatePolicyDocument (case resp_body resp of None \<Rightarrow> [] | Some b \<Rightarrow> b))), c', rs'))"

section \<open>Devices\<close>

definition resolveTailscaleOwner :: "string \<Rightarrow> tailscaleUserDTO list \<Rightarrow> string option" where
  "resolveTailscaleOwner reference users =
     (let matches = remdups (map (\<lambda>u. trim_space (LoginName u)) (List.filter (\<lambda>u.
        reference = (case tailscaleReference (tsu_ID u) of None \<Rightarrow> [] | Some i \<Rightarrow> i) \<or> reference = trim_space (LoginName u)) users)) in
      case matches of [login] \<Rightarrow> Some login | _ \<Rightarrow> None)"

record tailscaleDeviceLoad =
  tdl_Nodes :: "Node list"
  tdl_CandidateNames :: "string list"
  SSHCapableByID :: "(string, bool) gomap"

definition device_id :: "tailscaleDeviceDTO \<Rightarrow> string option" where
  "device_id d = (case tailscaleReference (tsd_ID d) of None \<Rightarrow> None | Some i \<Rightarrow>
     (let j = (if i = [] then trim_space (NodeID d) else i) in if j = [] then None else Some j))"

definition device_ssh :: "tailscaleDeviceDTO \<Rightarrow> bool" where
  "device_ssh d \<longleftrightarrow> tailscaleOptionalBool (SSHEnabled d) = Some True \<and> tailscaleOptionalBool (BlocksIncomingConnections d) = Some False"

text \<open>The owner of a device: none when it is tagged, otherwise the one user its reference names.\<close>

definition device_owner :: "nat \<Rightarrow> tailscaleUserDTO list \<Rightarrow> string list \<Rightarrow> tailscaleDeviceDTO \<Rightarrow> upstream_error + string" where
  "device_owner index users tags d = (case tailscaleReference (tsd_User d) of None \<Rightarrow> Inl (DeviceOwner index) | Some ref \<Rightarrow>
     if tags \<noteq> [] then Inr []
     else if ref = [] then Inl (DeviceOwner index)
     else (case resolveTailscaleOwner ref users of None \<Rightarrow> Inl (DeviceOwner index) | Some owner \<Rightarrow> Inr owner))"

definition device_name :: "tailscaleDeviceDTO \<Rightarrow> string" where
  "device_name d = (if trim_space (tsd_Name d) = [] then trim_space (Hostname d) else trim_space (tsd_Name d))"

fun load_devices ::
  "tailscaleUserDTO list \<Rightarrow> bool \<Rightarrow> nat \<Rightarrow> (string, nat) gomap \<Rightarrow> tailscaleDeviceLoad \<Rightarrow> tailscaleDeviceDTO list \<Rightarrow> upstream_error + tailscaleDeviceLoad"
where
  "load_devices users names i seen acc [] = Inr acc"
| "load_devices users names i seen acc (d # ds) = (case device_id d of None \<Rightarrow> Inl (DeviceInvalid i) | Some k \<Rightarrow>
     (case map_of seen k of Some previous \<Rightarrow> Inl (DevicesDuplicate previous i) | None \<Rightarrow>
       (let tags = normalizeStrings (tsd_Tags d) in
        case device_owner i users tags d of Inl e \<Rightarrow> Inl e | Inr owner \<Rightarrow>
          load_devices users names (Suc i) (gomap_put seen k i)
            \<lparr>tdl_Nodes = tdl_Nodes acc @ [\<lparr>node_ID = k, node_Name = device_name d, OwnerLogin = owner, Tags = tags,
                Addresses = normalizeStrings (tsd_Addresses d)\<rparr>],
             tdl_CandidateNames = (if names then tdl_CandidateNames acc @ [tsd_Name d, Hostname d] else tdl_CandidateNames acc),
             SSHCapableByID = (if device_ssh d then gomap_put (SSHCapableByID acc) k True else SSHCapableByID acc)\<rparr> ds)))"

definition ts_fetchDevices ::
  "server \<Rightarrow> clock \<Rightarrow> tailscaleUserDTO list \<Rightarrow> bool \<Rightarrow> TailscaleClient \<Rightarrow> requests \<Rightarrow>
     (upstream_error + tailscaleDeviceLoad) \<times> TailscaleClient \<times> requests" where
  "ts_fetchDevices srv clk users names c rs = (case doAPI srv clk ''/tailnet/-/devices?fields=all'' c rs of (res, c', rs') \<Rightarrow>
     (and_then res (\<lambda>resp. and_then (decode_envelope ''devices'' (decode_slice (decode_struct device_dto_fields zero_device_dto)) resp)
        (load_devices users names 0 [] \<lparr>tdl_Nodes = [], tdl_CandidateNames = [], SSHCapableByID = []\<rparr>)), c', rs'))"

section \<open>Loading\<close>

definition ts_error :: "controlPlaneLoadStage \<Rightarrow> upstream_error \<Rightarrow> controlPlaneLoadError" where
  "ts_error stage e = \<lparr>le_Provider = Tailscale, le_Stage = stage, le_Err = e\<rparr>"

definition ts_load_names ::
  "bool \<Rightarrow> server \<Rightarrow> clock \<Rightarrow> TailscaleClient \<Rightarrow> requests \<Rightarrow>
     (controlPlaneLoadError + ControlPlaneResult \<times> string list) \<times> TailscaleClient \<times> requests" where
  "ts_load_names names srv clk c rs =
     (case ts_token [] srv clk c rs of
        (Inl e, c1, rs1) \<Rightarrow> (Inl (ts_error StageAuth e), c1, rs1)
      | (Inr _, c1, rs1) \<Rightarrow> (case ts_fetchPolicy srv clk c1 rs1 of
          (Inl e, c2, rs2) \<Rightarrow> (Inl (ts_error StagePolicy e), c2, rs2)
        | (Inr p, c2, rs2) \<Rightarrow> (case ts_fetchUsers srv clk c2 rs2 of
            (Inl e, c3, rs3) \<Rightarrow> (Inl (ts_error StageUsers e), c3, rs3)
          | (Inr (users, roles), c3, rs3) \<Rightarrow> (case ts_fetchDevices srv clk users names c3 rs3 of
              (Inl e, c4, rs4) \<Rightarrow> (Inl (ts_error StageDevices e), c4, rs4)
            | (Inr loaded, c4, rs4) \<Rightarrow>
                (Inr (\<lparr>cpr_Policy = Some (vp_Policy p), cpr_Nodes = tdl_Nodes loaded, cpr_GrantRoleSelectorsByLogin = roles,
                       cpr_MachineSSHCapableByID = SSHCapableByID loaded,
                       cpr_Metadata = \<lparr>Provider = Tailscale, cpm_PolicyMode = PolicyMode p, Supported = False\<rparr>\<rparr>,
                      tdl_CandidateNames loaded), c4, rs4)))))"

definition ts_Load :: "server \<Rightarrow> clock \<Rightarrow> TailscaleClient \<Rightarrow> requests \<Rightarrow> (controlPlaneLoadError + ControlPlaneResult) \<times> TailscaleClient \<times> requests" where
  "ts_Load srv clk c rs = (case ts_load_names False srv clk c rs of (out, c', rs') \<Rightarrow>
     (case out of Inl e \<Rightarrow> Inl e | Inr (result, names) \<Rightarrow> Inr result, c', rs'))"

definition ts_LoadHostnameSuggestions ::
  "server \<Rightarrow> clock \<Rightarrow> TailscaleClient \<Rightarrow> requests \<Rightarrow>
     (controlPlaneLoadError + ControlPlaneResult \<times> string list) \<times> TailscaleClient \<times> requests" where
  "ts_LoadHostnameSuggestions = ts_load_names True"

section \<open>The token and the requests\<close>

definition same_ts :: "TailscaleClient \<Rightarrow> TailscaleClient \<Rightarrow> bool" where
  "same_ts c c' \<longleftrightarrow> ts_baseURL c' = ts_baseURL c \<and> clientID c' = clientID c \<and> clientSecret c' = clientSecret c"

definition ts_answer :: "http_response option \<Rightarrow> upstream_error + http_response" where
  "ts_answer resp = (case resp of None \<Rightarrow> Inl SendFailed | Some r \<Rightarrow> and_then (readBoundedUpstreamBody (resp_body r)) (\<lambda>_. Inr r))"

definition ts_rejected :: "http_response option \<Rightarrow> bool" where
  "ts_rejected resp \<longleftrightarrow> (case ts_answer resp of Inl e \<Rightarrow> False | Inr r \<Rightarrow> resp_status r = 401)"

definition ts_finish :: "http_response option \<Rightarrow> upstream_error + http_response" where
  "ts_finish resp = and_then (ts_answer resp) ts_status"

lemma authenticateLocked_step:
  "authenticateLocked srv clk c rs = (res, c', rs') \<Longrightarrow> same_ts c c' \<and> rs' = rs @ [ts_token_request c]"
  by (auto simp: authenticateLocked_def send_request_def same_ts_def split: sum.splits)

lemma ts_token_step:
  assumes "ts_token rejected srv clk c rs = (res, c', rs')"
  shows "same_ts c c' \<and> (rs' = rs \<or> rs' = rs @ [ts_token_request c])"
proof (cases "accessToken c \<noteq> [] \<and> accessToken c \<noteq> rejected \<and> clk (length rs) + tailscaleTokenSkew < ts_tokenExpiry c")
  case True
  with assms show ?thesis by (auto simp: ts_token_def same_ts_def)
next
  case False
  with assms have "authenticateLocked srv clk c rs = (res, c', rs')" by (simp only: ts_token_def if_False)
  from authenticateLocked_step [OF this] show ?thesis by blast
qed

lemma ts_token_current: "ts_token (accessToken c) srv clk c rs = authenticateLocked srv clk c rs"
  by (simp add: ts_token_def)

lemma ts_send_answer:
  "ts_send srv path c rs = (case send_request srv (HttpGet (ts_baseURL c @ path) (accessToken c)) rs of (resp, rs') \<Rightarrow> (ts_answer resp, rs'))"
  by (simp add: ts_send_def ts_answer_def)

interpretation ts: bearer_client "ts_token []" "\<lambda>srv clk c. ts_token (accessToken c) srv clk c" ts_token_request
  "\<lambda>c path. ts_baseURL c @ path" accessToken same_ts ts_rejected ts_finish doAPI
proof
  show "doAPI srv clk path c0 rs0 =
     (case ts_token [] srv clk c0 rs0 of
        (Inl e, c, rs) \<Rightarrow> (Inl e, c, rs)
      | (Inr _, c, rs) \<Rightarrow> (case send_request srv (HttpGet (ts_baseURL c @ path) (accessToken c)) rs of (resp, rs1) \<Rightarrow>
          if ts_rejected resp
          then (case ts_token (accessToken c) srv clk c rs1 of
              (Inl e, c', rs2) \<Rightarrow> (Inl e, c', rs2)
            | (Inr _, c', rs2) \<Rightarrow>
                (case send_request srv (HttpGet (ts_baseURL c' @ path) (accessToken c')) rs2 of (resp', rs3) \<Rightarrow> (ts_finish resp', c', rs3)))
          else (ts_finish resp, c, rs1)))" for srv clk path c0 rs0
    unfolding doAPI_def ts_send_answer send_request_def ts_rejected_def ts_finish_def
    by (auto split: sum.split prod.split)
  show "ts_finish resp = Inr r \<Longrightarrow> resp = Some r \<and> resp_status r = 200" for resp r
    by (auto simp: ts_finish_def ts_answer_def ts_status_def split: option.splits if_splits)
  show "ts_token (accessToken c) srv clk c rs = (res, c', rs') \<Longrightarrow> same_ts c c' \<and> rs' = rs @ [ts_token_request c]" for srv clk c rs res c' rs'
    unfolding ts_token_current by (rule authenticateLocked_step)
qed (auto simp: same_ts_def ts_token_request_def dest: ts_token_step)

lemma accepted_expiry: "ts_token_from resp = Inr t \<Longrightarrow> 0 < ExpiresIn t"
  by (auto simp: ts_token_from_def accept_token_def split: option.splits if_splits)

text \<open>
  C40: A new token lives for the announced number of seconds after its arrival as long as that number
  fits in a 64-bit duration, at most 9223372036; the next number already wraps around to an
  expiry in the past, so that the token is never reused.
\<close>
theorem token_expiry:
  assumes "ts_token_from (srv (length rs) (ts_token_request c)) = Inr t"
  shows "\<exists>c'. authenticateLocked srv clk c rs = (Inr (), c', rs @ [ts_token_request c]) \<and> accessToken c' = AccessToken t \<and>
    (ExpiresIn t \<le> 9223372036 \<longrightarrow> ts_tokenExpiry c' = clk (Suc (length rs)) + ExpiresIn t * 1000000000) \<and>
    (ExpiresIn t = 9223372037 \<longrightarrow> ts_tokenExpiry c' < clk (Suc (length rs)))"
  using accepted_expiry [OF assms] assms by (simp add: authenticateLocked_def send_request_def wrap_int64_def)

definition sample_token :: "nat \<Rightarrow> http_request \<Rightarrow> http_response option" where
  "sample_token n r = Some \<lparr>resp_status = 200, resp_header = [], resp_body = Some (''{'' @
     [dquote] @ ''access_token'' @ [dquote] @ '':'' @ [dquote] @ ''t'' @ [dquote] @ '','' @
     [dquote] @ ''expires_in'' @ [dquote] @ '':9223372037}'')\<rparr>"

lemma token_expiry_witness:
  "\<exists>c'. authenticateLocked sample_token (\<lambda>n. 0) (NewTailscaleClient ''id'' ''secret'') [] =
     (Inr (), c', [ts_token_request (NewTailscaleClient ''id'' ''secret'')]) \<and> ts_tokenExpiry c' < 0"
proof -
  have "ts_token_from (sample_token (length []) (ts_token_request (NewTailscaleClient ''id'' ''secret''))) =
      Inr \<lparr>AccessToken = ''t'', dto_TokenType = [], ExpiresIn = 9223372037, Scope = []\<rparr>"
  proof -
    let ?body = "''{'' @ [dquote] @ ''access_token'' @ [dquote] @ '':'' @ [dquote] @ ''t'' @ [dquote] @ '','' @
       [dquote] @ ''expires_in'' @ [dquote] @ '':9223372037}''"
    have "json_parse ?body = Some (JObj [(''access_token'', JStr ''t''), (''expires_in'', JNum ''9223372037'')])" by code_simp
    moreover have "int_literal ''9223372037'' = Some 9223372037"
      by (simp add: int_literal_def parse_digits_def is_digit_def digit_value_def in_int64_def min_int64_def max_int64_def)
    moreover have "find_field token_dto_fields ''access_token'' = Some (string_field ''access_token'' (\<lambda>s r. r\<lparr>AccessToken := s\<rparr>))"
      "find_field token_dto_fields ''expires_in'' = Some (int_field ''expires_in'' (\<lambda>i r. r\<lparr>ExpiresIn := i\<rparr>))"
      by (simp_all add: find_field_def token_dto_fields_def string_field_def int_field_def)
    moreover have "trim_space ''t'' \<noteq> []" "readBoundedUpstreamBody (Some ?body) = Inr ?body" by code_simp+
    ultimately show ?thesis
      by (simp add: ts_token_from_def sample_token_def decode_struct_def string_field_def int_field_def accept_token_def reject_if_def)
  qed
  from token_expiry [where srv = sample_token and rs = "[]" and c = "NewTailscaleClient ''id'' ''secret''" and clk = "\<lambda>n. 0", OF this]
  show ?thesis by auto
qed

section \<open>Users\<close>

text \<open>The users a response may hold, and what their index says.\<close>

definition user_ok :: "tailscaleUserDTO \<Rightarrow> bool" where
  "user_ok u \<longleftrightarrow> (\<exists>i. tailscaleReference (tsu_ID u) = Some i \<and> i \<noteq> []) \<and> LoginName u \<noteq> [] \<and> trim_space (LoginName u) = LoginName u \<and>
     tailscaleUserString (tsu_Type u) \<in> {Some ''member'', Some ''shared''} \<and> (\<exists>r \<in> set tailscaleHumanRoles. tailscaleUserString (tsu_Role u) = Some r)"

definition user_id :: "tailscaleUserDTO \<Rightarrow> string" where
  "user_id u = the (tailscaleReference (tsu_ID u))"

definition member_roles :: "tailscaleUserDTO list \<Rightarrow> string \<Rightarrow> string list option" where
  "member_roles us login = (case find (\<lambda>u. LoginName u = login \<and> tailscaleUserString (tsu_Type u) = Some ''member'') us of
     None \<Rightarrow> None | Some u \<Rightarrow> Some (user_selectors (the (tailscaleUserString (tsu_Role u)))))"

definition index_ok :: "tailscaleUserDTO list \<Rightarrow> user_index \<Rightarrow> bool" where
  "index_ok us acc \<longleftrightarrow> (\<forall>u \<in> set us. user_ok u) \<and> ui_ids acc = zip (map user_id us) [0..<length us] \<and>
     ui_logins acc = zip (map LoginName us) [0..<length us] \<and>
     distinct (map user_id us) \<and> distinct (map LoginName us) \<and>
     map_of (ui_roles acc) = member_roles us \<and> gomap_wf (ui_roles acc)"

lemma map_of_zip_None: "length ks = length vs \<Longrightarrow> map_of (zip ks vs) k = None \<longleftrightarrow> k \<notin> set ks"
  by (metis map_fst_zip map_of_eq_None_iff set_map)

lemma gomap_put_new: "map_of m k = None \<Longrightarrow> gomap_put m k v = m @ [(k, v)]"
  by (simp add: gomap_put_def map_of_eq_None_iff)

lemma find_append: "find P (xs @ ys) = (case find P xs of None \<Rightarrow> find P ys | Some x \<Rightarrow> Some x)"
  by (induction xs) auto

lemma add_user_ok:
  assumes "index_ok us acc" and "add_user (length us) acc u = Inr acc'"
  shows "index_ok (us @ [u]) acc'"
proof -
  from assms(2) obtain i t r where
    u: "tailscaleReference (tsu_ID u) = Some i" "i \<noteq> []" "LoginName u \<noteq> []" "trim_space (LoginName u) = LoginName u"
      "tailscaleUserString (tsu_Type u) = Some t" "t \<in> {''member'', ''shared''}"
      "tailscaleUserString (tsu_Role u) = Some r" "r \<in> set tailscaleHumanRoles"
    and new: "map_of (ui_ids acc) i = None" "map_of (ui_logins acc) (LoginName u) = None"
    and acc': "acc' = \<lparr>ui_ids = gomap_put (ui_ids acc) i (length us), ui_logins = gomap_put (ui_logins acc) (LoginName u) (length us),
      ui_roles = (if t = ''member'' then gomap_put (ui_roles acc) (LoginName u) (user_selectors r) else ui_roles acc)\<rparr>"
    unfolding add_user_def Let_def by (auto split: option.splits if_splits)
  have ok: "user_ok u" using u by (auto simp: user_ok_def)
  have fresh: "i \<notin> set (map user_id us)" "LoginName u \<notin> set (map LoginName us)"
    using assms(1) new by (simp_all add: index_ok_def map_of_zip_None)
  have none: "find (\<lambda>v. LoginName v = LoginName u \<and> P v) us = None" for P
    using fresh(2) by (force simp: find_None_iff image_iff)
  have "map_of (ui_roles acc') l = member_roles (us @ [u]) l" for l
  proof (cases "l = LoginName u")
    case True
    then show ?thesis using assms(1) u none
      by (auto simp: acc' index_ok_def member_roles_def find_append)
  next
    case False
    then show ?thesis using assms(1)
      by (auto simp: acc' index_ok_def member_roles_def find_append split: option.split)
  qed
  then have "map_of (ui_roles acc') = member_roles (us @ [u])" by blast
  moreover have "user_id u = i" using u(1) by (simp add: user_id_def)
  ultimately show ?thesis
    using assms(1) ok fresh gomap_put_new [OF new(1), of "length us"] gomap_put_new [OF new(2), of "length us"]
    by (simp add: index_ok_def acc')
qed

lemma index_users_ok:
  assumes "index_ok us acc" and "index_users (length us) acc vs = Inr acc'"
  shows "index_ok (us @ vs) acc'"
  using assms
proof (induction vs arbitrary: us acc)
  case (Cons v vs)
  then obtain acc1 where "add_user (length us) acc v = Inr acc1" "index_users (length (us @ [v])) acc1 vs = Inr acc'"
    by (auto split: sum.splits)
  with Cons.IH [of "us @ [v]" acc1] add_user_ok [OF Cons.prems(1)] show ?case by simp
qed simp

text \<open>
  C17: A list of users is accepted only as a whole: canonical logins and IDs, all distinct, known types
  and roles, and no login that is the ID of another user. Roles are recorded for exactly the
  members, never for shared users: member, the user's role, and admin for the owner.
\<close>
theorem validateTailscaleUsers_roles:
  assumes "validateTailscaleUsers users = Inr roles"
  shows "(\<forall>u \<in> set users. user_ok u) \<and> distinct (map user_id users) \<and> distinct (map LoginName users) \<and>
    (\<forall>u \<in> set users. \<forall>v \<in> set users. LoginName v = user_id u \<longrightarrow> u = v) \<and> map_of roles = member_roles users"
proof -
  from assms obtain acc where acc: "index_users 0 \<lparr>ui_ids = [], ui_logins = [], ui_roles = []\<rparr> users = Inr acc"
    and amb: "\<not> list_ex (\<lambda>(i, index). case map_of (ui_logins acc) i of None \<Rightarrow> False | Some l \<Rightarrow> l \<noteq> index) (ui_ids acc)"
    and roles: "roles = ui_roles acc"
    by (auto simp: validateTailscaleUsers_def split: sum.splits if_splits)
  have "index_ok [] \<lparr>ui_ids = [], ui_logins = [], ui_roles = []\<rparr>"
    by (simp add: index_ok_def member_roles_def fun_eq_iff)
  from index_users_ok [OF this, of users acc] acc have ok: "index_ok users acc" by simp
  have "u = v" if uv: "u \<in> set users" "v \<in> set users" "LoginName v = user_id u" for u v
  proof -
    from uv obtain a b where ab: "a < length users" "users ! a = u" "b < length users" "users ! b = v" by (auto simp: in_set_conv_nth)
    have "map_of (ui_logins acc) (LoginName v) = Some b"
      using ok ab map_of_zip_nth [of "map LoginName users" "[0..<length users]" b] by (simp add: index_ok_def)
    moreover have "(user_id u, a) \<in> set (ui_ids acc)"
      using ok ab by (auto simp: index_ok_def set_zip intro!: exI [of _ a])
    ultimately have "a = b" using amb uv(3) by (fastforce simp: list_ex_iff)
    with ab show ?thesis by simp
  qed
  with ok show ?thesis by (auto simp: index_ok_def roles)
qed

definition sample_user :: "string \<Rightarrow> string \<Rightarrow> string \<Rightarrow> tailscaleUserDTO" where
  "sample_user i login t = \<lparr>tsu_ID = Some (JStr i), LoginName = login, tsu_Type = Some (JStr t), tsu_Role = Some (JStr ''owner'')\<rparr>"

lemma sample_users:
  "validateTailscaleUsers [sample_user ''1'' ''a@x'' ''member'', sample_user ''2'' ''b@x'' ''shared''] =
     Inr [(''a@x'', [''autogroup:admin'', ''autogroup:member'', ''autogroup:owner''])]"
  by code_simp

lemma validateTailscaleUsers_roles_witness:
  "member_roles [sample_user ''1'' ''a@x'' ''member'', sample_user ''2'' ''b@x'' ''shared''] ''b@x'' = None"
proof -
  have "map_of [(''a@x'', [''autogroup:admin'', ''autogroup:member'', ''autogroup:owner''])] ''b@x'' = None" by simp
  with validateTailscaleUsers_roles [OF sample_users] show ?thesis by metis
qed

section \<open>Devices\<close>

text \<open>
  What a loaded device is: its reference, its name, and an owner exactly when it has no tag, which is
  then the only login its owner reference names.
\<close>

definition owner_named :: "tailscaleUserDTO list \<Rightarrow> string \<Rightarrow> string \<Rightarrow> bool" where
  "owner_named users ref login \<longleftrightarrow> ref \<noteq> [] \<and> {trim_space (LoginName u) | u. u \<in> set users \<and>
     (tailscaleReference (tsu_ID u) = Some ref \<or> ref = trim_space (LoginName u))} = {login}"

definition device_node :: "tailscaleUserDTO list \<Rightarrow> tailscaleDeviceDTO \<Rightarrow> Node \<Rightarrow> bool" where
  "device_node users d n \<longleftrightarrow> device_id d = Some (node_ID n) \<and> node_Name n = device_name d \<and>
     Tags n = normalizeStrings (tsd_Tags d) \<and> Addresses n = normalizeStrings (tsd_Addresses d) \<and>
     (if Tags n = [] then \<exists>ref. tailscaleReference (tsd_User d) = Some ref \<and> owner_named users ref (OwnerLogin n)
      else OwnerLogin n = [])"

lemma remdups_single: "remdups xs = [x] \<longleftrightarrow> set xs = {x}"
proof
  assume "remdups xs = [x]"
  then show "set xs = {x}" by (metis set_remdups list.set(1) list.set(2))
next
  assume a: "set xs = {x}"
  then have "set (remdups xs) = {x}" "distinct (remdups xs)" by simp_all
  then show "remdups xs = [x]"
    by (cases "remdups xs") (auto simp: subset_singleton_iff dest: insert_eq_iff)
qed

lemma resolveTailscaleOwner_named:
  assumes "resolveTailscaleOwner ref users = Some login" and "ref \<noteq> []"
  shows "owner_named users ref login"
proof -
  let ?ms = "map (\<lambda>u. trim_space (LoginName u)) (List.filter (\<lambda>u.
        ref = (case tailscaleReference (tsu_ID u) of None \<Rightarrow> [] | Some i \<Rightarrow> i) \<or> ref = trim_space (LoginName u)) users)"
  from assms(1) have "remdups ?ms = [login]"
    unfolding resolveTailscaleOwner_def Let_def by (auto split: list.splits)
  then have "set ?ms = {login}" by (simp only: remdups_single)
  moreover have "set ?ms = {trim_space (LoginName u) | u. u \<in> set users \<and>
     (tailscaleReference (tsu_ID u) = Some ref \<or> ref = trim_space (LoginName u))}"
    using assms(2) by (auto split: option.splits)
  ultimately show ?thesis using assms(2) by (simp add: owner_named_def)
qed

lemma device_owner_named:
  assumes "device_owner i users tags d = Inr owner"
  shows "if tags = [] then \<exists>ref. tailscaleReference (tsd_User d) = Some ref \<and> owner_named users ref owner else owner = []"
  using assms by (auto simp: device_owner_def dest: resolveTailscaleOwner_named split: option.splits if_splits)

lemma load_devices_spec:
  assumes "load_devices users names (length ns) seen acc ds = Inr l"
    and "tdl_Nodes acc = ns" and "fst ` set seen = node_ID ` set ns" and "distinct (map node_ID ns)"
  shows "\<exists>ms. tdl_Nodes l = ns @ ms \<and> list_all2 (device_node users) ds ms \<and> distinct (map node_ID (ns @ ms)) \<and>
     (\<forall>k. map_of (SSHCapableByID l) k = (if \<exists>(d, m) \<in> set (zip ds ms). node_ID m = k \<and> device_ssh d then Some True
        else map_of (SSHCapableByID acc) k))"
  using assms
proof (induction ds arbitrary: ns seen acc)
  case (Cons d ds)
  from Cons.prems(1) obtain k owner where k: "device_id d = Some k" "map_of seen k = None"
    and owner: "device_owner (length ns) users (normalizeStrings (tsd_Tags d)) d = Inr owner"
    and rest: "load_devices users names (Suc (length ns)) (gomap_put seen k (length ns))
            \<lparr>tdl_Nodes = ns @ [\<lparr>node_ID = k, node_Name = device_name d, OwnerLogin = owner, Tags = normalizeStrings (tsd_Tags d),
                Addresses = normalizeStrings (tsd_Addresses d)\<rparr>],
             tdl_CandidateNames = (if names then tdl_CandidateNames acc @ [tsd_Name d, Hostname d] else tdl_CandidateNames acc),
             SSHCapableByID = (if device_ssh d then gomap_put (SSHCapableByID acc) k True else SSHCapableByID acc)\<rparr> ds = Inr l"
    using Cons.prems(2) by (auto simp: Let_def split: option.splits sum.splits)
  let ?n = "\<lparr>node_ID = k, node_Name = device_name d, OwnerLogin = owner, Tags = normalizeStrings (tsd_Tags d),
                Addresses = normalizeStrings (tsd_Addresses d)\<rparr>"
  let ?acc = "\<lparr>tdl_Nodes = ns @ [?n],
             tdl_CandidateNames = (if names then tdl_CandidateNames acc @ [tsd_Name d, Hostname d] else tdl_CandidateNames acc),
             SSHCapableByID = (if device_ssh d then gomap_put (SSHCapableByID acc) k True else SSHCapableByID acc)\<rparr>"
  have fresh: "k \<notin> node_ID ` set ns" using k(2) Cons.prems(3) by (metis map_of_eq_None_iff)
  have dn: "device_node users d ?n" using k(1) device_owner_named [OF owner] by (simp add: device_node_def)
  have keys: "fst ` set (gomap_put seen k (length ns)) = insert k (fst ` set seen)"
    using gomap_put_new [OF k(2)] by simp
  from rest have "load_devices users names (length (ns @ [?n])) (gomap_put seen k (length ns)) ?acc ds = Inr l" by simp
  from Cons.IH [OF this] obtain ms where ms: "tdl_Nodes l = (ns @ [?n]) @ ms" "list_all2 (device_node users) ds ms"
      "distinct (map node_ID ((ns @ [?n]) @ ms))"
      "\<forall>j. map_of (SSHCapableByID l) j = (if \<exists>(d, m) \<in> set (zip ds ms). node_ID m = j \<and> device_ssh d then Some True
        else map_of (SSHCapableByID ?acc) j)"
    using fresh Cons.prems(3,4) by (auto simp: keys)
  show ?case
  proof (intro exI conjI allI)
    show "tdl_Nodes l = ns @ (?n # ms)" "list_all2 (device_node users) (d # ds) (?n # ms)" "distinct (map node_ID (ns @ ?n # ms))"
      using ms dn by simp_all
    show "map_of (SSHCapableByID l) j = (if \<exists>(d, m) \<in> set (zip (d # ds) (?n # ms)). node_ID m = j \<and> device_ssh d then Some True
        else map_of (SSHCapableByID acc) j)" for j
      using ms(4) by (cases "device_ssh d"; cases "k = j") auto
  qed
qed auto

text \<open>
  C18: The devices of a snapshot: one node each, with distinct IDs; a node without tags has as owner the
  one login its owner reference names, a tagged one has none; and a machine is SSH-capable
  exactly when its device said so with explicit booleans.
\<close>
theorem load_devices_owners:
  assumes "load_devices users names 0 [] \<lparr>tdl_Nodes = [], tdl_CandidateNames = [], SSHCapableByID = []\<rparr> ds = Inr l"
  shows "list_all2 (device_node users) ds (tdl_Nodes l) \<and> distinct (map node_ID (tdl_Nodes l)) \<and>
    (\<forall>k. gomap_get (SSHCapableByID l) k False \<longleftrightarrow> (\<exists>(d, n) \<in> set (zip ds (tdl_Nodes l)). node_ID n = k \<and> device_ssh d))"
  using load_devices_spec [of users names "[]" "[]" "\<lparr>tdl_Nodes = [], tdl_CandidateNames = [], SSHCapableByID = []\<rparr>" ds l] assms
  by (auto simp: gomap_get_def split: if_splits)

definition sample_device :: tailscaleDeviceDTO where
  "sample_device = zero_device_dto\<lparr>tsd_ID := Some (JStr ''d1''), tsd_Name := ''db.tail1.ts.net'', tsd_Tags := [''tag:db''],
     SSHEnabled := Some (JBool True), BlocksIncomingConnections := Some (JBool False)\<rparr>"

definition sample_load :: tailscaleDeviceLoad where
  "sample_load = \<lparr>tdl_Nodes = [\<lparr>node_ID = ''d1'', node_Name = ''db.tail1.ts.net'', OwnerLogin = [], Tags = [''tag:db''], Addresses = []\<rparr>],
     tdl_CandidateNames = [], SSHCapableByID = [(''d1'', True)]\<rparr>"

lemma load_sample:
  "load_devices [] False 0 [] \<lparr>tdl_Nodes = [], tdl_CandidateNames = [], SSHCapableByID = []\<rparr> [sample_device] = Inr sample_load"
  by code_simp

lemma load_devices_owners_witness: "\<not> gomap_get (SSHCapableByID sample_load) ''d2'' False"
  using load_devices_owners [OF load_sample] by (simp add: sample_load_def)

section \<open>The load as a whole\<close>

lemma doAPI_requests:
  assumes "doAPI srv clk path c rs = (res, c', rs')"
  shows "\<exists>new. rs' = rs @ new \<and> length new \<le> 4" and "same_ts c c'"
proof -
  show "\<exists>new. rs' = rs @ new \<and> length new \<le> 4"
    using ts.api_call_cases(1) [OF assms] ts.call_requests_length by blast
  show "same_ts c c'" by (rule ts.api_call_cases(2) [OF assms])
qed

lemma ts_fetch_requests:
  "ts_fetchPolicy srv clk c rs = (r1, c', rs') \<Longrightarrow> (\<exists>new. rs' = rs @ new \<and> length new \<le> 4) \<and> same_ts c c'"
  "ts_fetchUsers srv clk c rs = (r2, c', rs') \<Longrightarrow> (\<exists>new. rs' = rs @ new \<and> length new \<le> 4) \<and> same_ts c c'"
  "ts_fetchDevices srv clk users names c rs = (r3, c', rs') \<Longrightarrow> (\<exists>new. rs' = rs @ new \<and> length new \<le> 4) \<and> same_ts c c'"
  by (auto simp: ts_fetchPolicy_def ts_fetchUsers_def ts_fetchDevices_def dest: doAPI_requests split: prod.splits)

definition adds_at_most :: "nat \<Rightarrow> requests \<Rightarrow> requests \<Rightarrow> bool" where
  "adds_at_most n rs rs' \<longleftrightarrow> (\<exists>new. rs' = rs @ new \<and> length new \<le> n)"

lemma adds_at_most_trans: "adds_at_most m rs rs' \<Longrightarrow> adds_at_most n rs' rs'' \<Longrightarrow> m + n \<le> k \<Longrightarrow> adds_at_most k rs rs''"
  by (fastforce simp: adds_at_most_def)

lemma ts_load_names_cases:
  assumes "ts_load_names names srv clk c rs = (out, c', rs')"
  shows "adds_at_most 13 rs rs'" and "same_ts c c'"
    and "case out of Inl e \<Rightarrow> le_Provider e = Tailscale \<and> le_Stage e \<in> {StageAuth, StagePolicy, StageUsers, StageDevices}
      | Inr (result, ns) \<Rightarrow> cpr_Policy result \<noteq> None \<and> Provider (cpr_Metadata result) = Tailscale"
proof -
  obtain r1 c1 rs1 where e1: "ts_token [] srv clk c rs = (r1, c1, rs1)" by (metis prod_cases3)
  have s1: "adds_at_most 1 rs rs1" "same_ts c c1" using ts_token_step [OF e1] by (auto simp: adds_at_most_def)
  obtain r2 c2 rs2 where e2: "ts_fetchPolicy srv clk c1 rs1 = (r2, c2, rs2)" by (metis prod_cases3)
  have s2: "adds_at_most 4 rs1 rs2" "same_ts c1 c2" using ts_fetch_requests(1) [OF e2] by (auto simp: adds_at_most_def)
  obtain r3 c3 rs3 where e3: "ts_fetchUsers srv clk c2 rs2 = (r3, c3, rs3)" by (metis prod_cases3)
  have s3: "adds_at_most 4 rs2 rs3" "same_ts c2 c3" using ts_fetch_requests(2) [OF e3] by (auto simp: adds_at_most_def)
  have a2: "adds_at_most 5 rs rs2" by (rule adds_at_most_trans [OF s1(1) s2(1)]) simp
  have a3: "adds_at_most 9 rs rs3" by (rule adds_at_most_trans [OF a2 s3(1)]) simp
  have c: "same_ts c c2" "same_ts c c3" using s1 s2 s3 by (auto simp: same_ts_def)
  have mono: "adds_at_most m rs x \<Longrightarrow> m \<le> 13 \<Longrightarrow> adds_at_most 13 rs x" for m x by (auto simp: adds_at_most_def)
  have "adds_at_most 13 rs rs' \<and> same_ts c c' \<and>
    (case out of Inl e \<Rightarrow> le_Provider e = Tailscale \<and> le_Stage e \<in> {StageAuth, StagePolicy, StageUsers, StageDevices}
      | Inr (result, ns) \<Rightarrow> cpr_Policy result \<noteq> None \<and> Provider (cpr_Metadata result) = Tailscale)"
  proof (cases "\<exists>u p users roles. r1 = Inr u \<and> r2 = Inr p \<and> r3 = Inr (users, roles)")
    case False
    with assms show ?thesis
      using mono [OF s1(1)] mono [OF a2] mono [OF a3] s1(2) c
      by (auto simp: ts_load_names_def e1 e2 e3 ts_error_def split: sum.splits prod.splits)
  next
    case True
    then obtain u p users roles where ok: "r1 = Inr u" "r2 = Inr p" "r3 = Inr (users, roles)" by blast
    obtain r4 c4 rs4 where e4: "ts_fetchDevices srv clk users names c3 rs3 = (r4, c4, rs4)" by (metis prod_cases3)
    have s4: "adds_at_most 4 rs3 rs4" "same_ts c3 c4" using ts_fetch_requests(3) [OF e4] by (auto simp: adds_at_most_def)
    have "adds_at_most 13 rs rs4" by (rule adds_at_most_trans [OF a3 s4(1)]) simp
    moreover have "same_ts c c4" using c s4 by (simp add: same_ts_def)
    ultimately show ?thesis using assms
      by (auto simp: ts_load_names_def e1 e2 e3 e4 ok ts_error_def split: sum.splits)
  qed
  then show "adds_at_most 13 rs rs'" "same_ts c c'"
    "case out of Inl e \<Rightarrow> le_Provider e = Tailscale \<and> le_Stage e \<in> {StageAuth, StagePolicy, StageUsers, StageDevices}
      | Inr (result, ns) \<Rightarrow> cpr_Policy result \<noteq> None \<and> Provider (cpr_Metadata result) = Tailscale" by blast+
qed

interpretation tailscale: control_plane Tailscale ts_Load
proof
  fix srv clk c rs out c' rs' result e
  show "ts_Load srv clk c rs = (Inr result, c', rs') \<Longrightarrow> cpr_Policy result \<noteq> None \<and> Provider (cpr_Metadata result) = Tailscale"
    using ts_load_names_cases(3) [of False srv clk c rs] by (auto simp: ts_Load_def split: prod.splits sum.splits)
  show "ts_Load srv clk c rs = (Inl e, c', rs') \<Longrightarrow> le_Provider e = Tailscale"
    using ts_load_names_cases(3) [of False srv clk c rs] by (auto simp: ts_Load_def split: prod.splits sum.splits)
  show "ts_Load srv clk c rs = (out, c', rs') \<Longrightarrow> \<exists>new. rs' = rs @ new"
    using ts_load_names_cases(1) [of False srv clk c rs] by (auto simp: ts_Load_def adds_at_most_def split: prod.splits)
qed

text \<open>
  C37: Loading a Tailscale snapshot ends after at most thirteen requests, whatever the server answers: one
  for the token and at most four for each of the policy, the users and the devices; it keeps the
  client's address and credentials, and an error names one of the four stages.
\<close>
theorem tailscale_load_bounded:
  assumes "ts_Load srv clk c rs = (out, c', rs')"
  shows "length rs' \<le> length rs + 13 \<and> take (length rs) rs' = rs \<and>
    ts_baseURL c' = ts_baseURL c \<and> clientID c' = clientID c \<and> clientSecret c' = clientSecret c \<and>
    (case out of Inl e \<Rightarrow> le_Stage e \<in> {StageAuth, StagePolicy, StageUsers, StageDevices} | Inr result \<Rightarrow> cpr_Policy result \<noteq> None)"
proof -
  obtain out1 where l: "ts_load_names False srv clk c rs = (out1, c', rs')"
    and out: "out = (case out1 of Inl e \<Rightarrow> Inl e | Inr (result, names) \<Rightarrow> Inr result)"
    using assms by (auto simp: ts_Load_def split: prod.splits)
  show ?thesis
    using ts_load_names_cases [OF l] by (auto simp: out adds_at_most_def same_ts_def split: sum.splits prod.splits)
qed

lemma tailscale_load_bounded_witness:
  "\<exists>out c' rs'. ts_Load (\<lambda>n r. None) (\<lambda>n. 0) (NewTailscaleClient ''id'' ''secret'') [] = (out, c', rs') \<and> length rs' \<le> 13"
proof -
  obtain out c' rs' where l: "ts_Load (\<lambda>n r. None) (\<lambda>n. 0) (NewTailscaleClient ''id'' ''secret'') [] = (out, c', rs')"
    by (metis prod_cases3)
  with tailscale_load_bounded [OF l] show ?thesis by auto
qed

end
