(* ===== verification/Health_Config.thy ===== *)
theory Health_Config
  imports Go_Json Go_Url Go_Time
begin

text \<open>
  The service health configuration (\<open>service_health_config.go\<close>): host names, DNS suffixes,
  networks and request paths a probe may use, and the strict parser of the document.
\<close>

section \<open>Strict JSON documents\<close>

text \<open>
  \<open>walkServiceHealthJSONValue\<close>: no object, at any depth, has two members whose names agree up
  to case.
\<close>

fun walkServiceHealthJSONValue :: "json \<Rightarrow> bool" where
  "walkServiceHealthJSONValue (JArr vs) = list_all walkServiceHealthJSONValue vs"
| "walkServiceHealthJSONValue (JObj ms) \<longleftrightarrow>
     distinct (map (\<lambda>(k, v). to_lower k) ms) \<and> list_all (\<lambda>(k, v). walkServiceHealthJSONValue v) ms"
| "walkServiceHealthJSONValue _ = True"

definition containsOnlyJSONFields :: "(string, json) gomap \<Rightarrow> string list \<Rightarrow> bool" where
  "containsOnlyJSONFields wire allowed \<longleftrightarrow> list_all (\<lambda>f. f \<in> set allowed) (map fst wire)"

definition decodeServiceHealthInt :: "(string, json) gomap \<Rightarrow> string \<Rightarrow> int option" where
  "decodeServiceHealthInt wire name = (case map_of wire name of None \<Rightarrow> None | Some raw \<Rightarrow> as_int raw)"

definition decodeServiceHealthString :: "(string, json) gomap \<Rightarrow> string \<Rightarrow> string option" where
  "decodeServiceHealthString wire name = (case map_of wire name of None \<Rightarrow> None | Some raw \<Rightarrow>
     (case as_string raw of None \<Rightarrow> None | Some s \<Rightarrow> if utf8_valid s then Some s else None))"

definition decodeServiceHealthStringArray :: "(string, json) gomap \<Rightarrow> string \<Rightarrow> string list option" where
  "decodeServiceHealthStringArray wire name = (case map_of wire name of None \<Rightarrow> None | Some raw \<Rightarrow>
     (case as_strings_nil raw of Some (Some vs) \<Rightarrow> Some vs | _ \<Rightarrow> None))"

definition decodeServiceHealthRawArray :: "(string, json) gomap \<Rightarrow> string \<Rightarrow> json list option" where
  "decodeServiceHealthRawArray wire name = (case map_of wire name of None \<Rightarrow> None | Some raw \<Rightarrow>
     (case as_raws raw of Some (Some vs) \<Rightarrow> Some vs | _ \<Rightarrow> None))"

section \<open>Host names and suffixes\<close>

definition host_char :: "char \<Rightarrow> bool" where
  "host_char c \<longleftrightarrow> is_lower c \<or> is_digit c \<or> c = CHR ''-''"

definition valid_host_label :: "string \<Rightarrow> bool" where
  "valid_host_label l \<longleftrightarrow>
     \<not> (l = [] \<or> length l > 63 \<or> hd l = CHR ''-'' \<or> last l = CHR ''-'') \<and> list_all host_char l"

definition validateServiceHealthHost :: "string \<Rightarrow> bool" where
  "validateServiceHealthHost value \<longleftrightarrow>
     (if value = [] \<or> length value > 253 \<or> to_lower value \<noteq> value \<or> trim_space value \<noteq> value
         \<or> has_suffix value ''.'' \<or> contains_control value then False
      else if parse_addr value \<noteq> None then False
      else list_all valid_host_label (split_byte (CHR ''.'') value))"

definition validateServiceHealthDNSSuffix :: "string \<Rightarrow> bool" where
  "validateServiceHealthDNSSuffix value \<longleftrightarrow>
     (if \<not> has_prefix value ''.'' \<or> length value < 2 then False else validateServiceHealthHost (tl value))"

section \<open>Networks\<close>

text \<open>The \<open>netip.Addr\<close> predicates; an IPv4-mapped address counts as the IPv4 one.\<close>

definition v4_octet :: "32 word \<Rightarrow> nat \<Rightarrow> nat" where
  "v4_octet w i = octets_of_v4 w ! i"

definition v6_group :: "128 word \<Rightarrow> nat \<Rightarrow> nat" where
  "v6_group w i = groups_of_v6 w ! i"

definition addr_unspecified :: "addr \<Rightarrow> bool" where
  "addr_unspecified a = (case a of V4 w \<Rightarrow> w = 0 | V6 w z \<Rightarrow> w = 0 \<and> z = [])"

definition addr_loopback :: "addr \<Rightarrow> bool" where
  "addr_loopback a = (case addr_unmap a of V4 w \<Rightarrow> v4_octet w 0 = 127 | V6 w z \<Rightarrow> w = 1)"

definition addr_multicast :: "addr \<Rightarrow> bool" where
  "addr_multicast a = (case addr_unmap a of
     V4 w \<Rightarrow> 224 \<le> v4_octet w 0 \<and> v4_octet w 0 \<le> 239 | V6 w z \<Rightarrow> v6_group w 0 div 256 = 255)"

definition addr_link_local_unicast :: "addr \<Rightarrow> bool" where
  "addr_link_local_unicast a = (case addr_unmap a of
     V4 w \<Rightarrow> v4_octet w 0 = 169 \<and> v4_octet w 1 = 254 | V6 w z \<Rightarrow> v6_group w 0 div 64 = 0xFE80 div 64)"

definition addr_link_local_multicast :: "addr \<Rightarrow> bool" where
  "addr_link_local_multicast a = (case addr_unmap a of
     V4 w \<Rightarrow> v4_octet w 0 = 224 \<and> v4_octet w 1 = 0 \<and> v4_octet w 2 = 0
   | V6 w z \<Rightarrow> v6_group w 0 div 256 = 255 \<and> v6_group w 0 mod 16 = 2)"

definition serviceHealthDangerousAddress :: "addr \<Rightarrow> bool" where
  "serviceHealthDangerousAddress a \<longleftrightarrow> addr_unspecified a \<or> addr_loopback a \<or> addr_multicast a
     \<or> addr_link_local_unicast a \<or> addr_link_local_multicast a"

text \<open>The loops set the host bits one after the other, counted from the most significant one.\<close>

definition serviceHealthPrefixLastAddr :: "prefix \<Rightarrow> addr" where
  "serviceHealthPrefixLastAddr p =
     (case prefix_addr (prefix_masked p) of
        V4 w \<Rightarrow> V4 (foldl (\<lambda>w b. w OR push_bit (31 - b) 1) w [prefix_bits p..<32])
      | V6 w z \<Rightarrow> V6 (foldl (\<lambda>w b. w OR push_bit (127 - b) 1) w [prefix_bits p..<128]) [])"

definition validateServiceHealthCIDR :: "string \<Rightarrow> prefix option" where
  "validateServiceHealthCIDR value =
     (if value = [] \<or> trim_space value \<noteq> value \<or> contains_control value then None
      else (case parse_prefix value of None \<Rightarrow> None | Some p \<Rightarrow>
        if p \<noteq> prefix_masked p \<or> prefix_string p \<noteq> value \<or> addr_is4in6 (prefix_addr p) then None
        else if serviceHealthDangerousAddress (prefix_addr p)
          \<and> serviceHealthDangerousAddress (serviceHealthPrefixLastAddr p) then None
        else Some p))"

section \<open>Request paths\<close>

definition validateServiceHealthPath :: "string \<Rightarrow> bool" where
  "validateServiceHealthPath value \<longleftrightarrow>
     (if value = [] \<or> length value > 2048 \<or> trim_space value \<noteq> value \<or> contains_control value then False
      else if \<not> has_prefix value ''/'' \<or> contains_any value ''?#'' then False
      else (case parse_request_uri value of None \<Rightarrow> False | Some u \<Rightarrow>
        if is_abs u \<or> Host u \<noteq> [] \<or> RawQuery u \<noteq> [] \<or> Fragment u \<noteq> [] \<or> ForceQuery u \<or> request_uri u \<noteq> value then False
        else list_all (\<lambda>s. s \<noteq> ''.'' \<and> s \<noteq> ''..'') (split_byte (CHR ''/'') (Path u))))"

section \<open>The document\<close>

datatype ServiceHealthProbeType = ProbeHTTP | ProbeTCP

record ServiceHealthStatusRange =
  status_Min :: int
  status_Max :: int

record ServiceHealthService =
  hs_ProxyHostID :: int
  hs_Type :: ServiceHealthProbeType
  hs_Path :: string
  AcceptedStatuses :: "ServiceHealthStatusRange list"

record ServiceHealthConfig =
  hc_Enabled :: bool
  Interval :: int
  Timeout :: int
  Workers :: int
  AllowedCIDRs :: "prefix list"
  AllowedHosts :: "string list"
  AllowedDNSSuffixes :: "string list"
  hc_Services :: "ServiceHealthService list"

datatype health_config_error =
    DocTooLarge | DocEmpty | DocInvalid | DocDuplicateField | BadVersion | BadInterval | BadTimeout | BadWorkers
  | CIDRsMissing | CIDRsTooMany | CIDRInvalid nat | CIDRDuplicate nat
  | ListNotArray string | ListTooMany string | ListInvalid string nat | ListDuplicate string nat
  | ServicesNotArray | ServicesTooMany
  | ServiceInvalid nat | ServiceBadID nat | ServiceBadType nat | ServiceTCPPath nat | ServiceTCPStatuses nat
  | ServiceBadPath nat | ServiceNoStatuses nat | ServiceManyStatuses nat | ServiceBadRange nat nat
  | ServiceUnsortedRanges nat | ServiceDuplicateID nat

definition emptyServiceHealthConfig :: ServiceHealthConfig where
  "emptyServiceHealthConfig = \<lparr>hc_Enabled = False, Interval = 0, Timeout = 0, Workers = 0, AllowedCIDRs = [],
     AllowedHosts = [], AllowedDNSSuffixes = [], hc_Services = []\<rparr>"

definition second :: int where "second = 1000000000"
definition default_interval :: int where "default_interval = 60 * second"
definition min_interval :: int where "min_interval = 15 * second"
definition max_interval :: int where "max_interval = 24 * 3600 * second"
definition default_timeout :: int where "default_timeout = 3 * second"
definition min_timeout :: int where "min_timeout = 250000000"
definition max_timeout :: int where "max_timeout = 10 * second"

definition parseServiceHealthStatusRange :: "json \<Rightarrow> ServiceHealthStatusRange option" where
  "parseServiceHealthStatusRange raw = (case as_raw_map raw of
     Some (Some wire) \<Rightarrow>
       if \<not> containsOnlyJSONFields wire [''min'', ''max''] then None
       else (case (decodeServiceHealthInt wire ''min'', decodeServiceHealthInt wire ''max'') of
           (Some minimum, Some maximum) \<Rightarrow>
             if minimum < 100 \<or> minimum > 599 \<or> maximum < 100 \<or> maximum > 599 \<or> minimum > maximum then None
             else Some \<lparr>status_Min = minimum, status_Max = maximum\<rparr>
         | _ \<Rightarrow> None)
   | _ \<Rightarrow> None)"

definition parseServiceHealthDuration :: "(string, json) gomap \<Rightarrow> string \<Rightarrow> int \<Rightarrow> int \<Rightarrow> int \<Rightarrow> int option" where
  "parseServiceHealthDuration doc name fallback minimum maximum =
     (if map_of doc name = None then Some fallback
      else (case decodeServiceHealthString doc name of None \<Rightarrow> None | Some v \<Rightarrow>
        if v = [] \<or> trim_space v \<noteq> v \<or> contains_control v then None
        else (case parse_duration v of None \<Rightarrow> None | Some d \<Rightarrow>
          if d < minimum \<or> d > maximum then None else Some d)))"

definition some_or :: "'e \<Rightarrow> 'a option \<Rightarrow> 'e + 'a" where
  "some_or e x = (case x of None \<Rightarrow> Inl e | Some a \<Rightarrow> Inr a)"

text \<open>The loops over the entries of a list, with the values seen so far.\<close>

fun allowlist_entries :: "(string \<Rightarrow> bool) \<Rightarrow> string \<Rightarrow> nat \<Rightarrow> string list \<Rightarrow> string list \<Rightarrow> health_config_error + unit" where
  "allowlist_entries valid name i seen [] = Inr ()"
| "allowlist_entries valid name i seen (v # vs) =
     (if \<not> valid v then Inl (ListInvalid name i)
      else if v \<in> set seen then Inl (ListDuplicate name i)
      else allowlist_entries valid name (Suc i) (v # seen) vs)"

definition parseServiceHealthNameAllowlist ::
  "(string, json) gomap \<Rightarrow> string \<Rightarrow> nat \<Rightarrow> bool \<Rightarrow> health_config_error + string list" where
  "parseServiceHealthNameAllowlist doc name limit suffix =
     (if map_of doc name = None then Inr []
      else (case decodeServiceHealthStringArray doc name of None \<Rightarrow> Inl (ListNotArray name) | Some vs \<Rightarrow>
        if length vs > limit then Inl (ListTooMany name)
        else and_then (allowlist_entries (if suffix then validateServiceHealthDNSSuffix else validateServiceHealthHost)
          name 0 [] vs) (\<lambda>_. Inr vs)))"

fun cidr_entries :: "nat \<Rightarrow> prefix list \<Rightarrow> string list \<Rightarrow> health_config_error + prefix list" where
  "cidr_entries i acc [] = Inr acc"
| "cidr_entries i acc (v # vs) = (case validateServiceHealthCIDR v of
     None \<Rightarrow> Inl (CIDRInvalid i)
   | Some p \<Rightarrow> if p \<in> set acc then Inl (CIDRDuplicate i) else cidr_entries (Suc i) (acc @ [p]) vs)"

fun status_ranges :: "nat \<Rightarrow> nat \<Rightarrow> ServiceHealthStatusRange list \<Rightarrow> json list \<Rightarrow> health_config_error + ServiceHealthStatusRange list" where
  "status_ranges index i acc [] = Inr acc"
| "status_ranges index i acc (raw # raws) = (case parseServiceHealthStatusRange raw of
     None \<Rightarrow> Inl (ServiceBadRange index i)
   | Some r \<Rightarrow> if i > 0 \<and> status_Min r \<le> status_Max (last acc) then Inl (ServiceUnsortedRanges index)
       else status_ranges index (Suc i) (acc @ [r]) raws)"

definition service_path :: "nat \<Rightarrow> (string, json) gomap \<Rightarrow> health_config_error + string" where
  "service_path index wire =
     (if map_of wire ''path'' = None then Inr ''/''
      else (case decodeServiceHealthString wire ''path'' of None \<Rightarrow> Inl (ServiceBadPath index) | Some p \<Rightarrow>
        if validateServiceHealthPath p then Inr p else Inl (ServiceBadPath index)))"

definition http_service :: "nat \<Rightarrow> int \<Rightarrow> (string, json) gomap \<Rightarrow> health_config_error + ServiceHealthService" where
  "http_service index host_id wire =
     and_then (service_path index wire) (\<lambda>path.
     and_then (some_or (ServiceNoStatuses index) (decodeServiceHealthRawArray wire ''accepted_statuses'')) (\<lambda>raws.
     and_then (reject_if (raws = []) (ServiceNoStatuses index)) (\<lambda>_.
     and_then (reject_if (length raws > 8) (ServiceManyStatuses index)) (\<lambda>_.
     and_then (status_ranges index 0 [] raws) (\<lambda>ranges.
       Inr \<lparr>hs_ProxyHostID = host_id, hs_Type = ProbeHTTP, hs_Path = path, AcceptedStatuses = ranges\<rparr>)))))"

definition tcp_service :: "nat \<Rightarrow> int \<Rightarrow> (string, json) gomap \<Rightarrow> health_config_error + ServiceHealthService" where
  "tcp_service index host_id wire =
     and_then (reject_if (map_of wire ''path'' \<noteq> None) (ServiceTCPPath index)) (\<lambda>_.
     and_then (reject_if (map_of wire ''accepted_statuses'' \<noteq> None) (ServiceTCPStatuses index)) (\<lambda>_.
       Inr \<lparr>hs_ProxyHostID = host_id, hs_Type = ProbeTCP, hs_Path = [], AcceptedStatuses = []\<rparr>))"

definition parseServiceHealthService :: "nat \<Rightarrow> json \<Rightarrow> health_config_error + ServiceHealthService" where
  "parseServiceHealthService index raw = (case as_raw_map raw of
     Some (Some wire) \<Rightarrow>
       and_then (reject_if (\<not> containsOnlyJSONFields wire [''proxy_host_id'', ''type'', ''path'', ''accepted_statuses''])
         (ServiceInvalid index)) (\<lambda>_.
       and_then (some_or (ServiceBadID index) (decodeServiceHealthInt wire ''proxy_host_id'')) (\<lambda>host_id.
       and_then (reject_if (host_id \<le> 0) (ServiceBadID index)) (\<lambda>_.
       and_then (some_or (ServiceBadType index) (decodeServiceHealthString wire ''type'')) (\<lambda>t.
       and_then (reject_if (t \<noteq> ''http'' \<and> t \<noteq> ''tcp'') (ServiceBadType index)) (\<lambda>_.
       if t = ''tcp'' then tcp_service index host_id wire else http_service index host_id wire)))))
   | _ \<Rightarrow> Inl (ServiceInvalid index))"

fun service_entries :: "nat \<Rightarrow> ServiceHealthService list \<Rightarrow> json list \<Rightarrow> health_config_error + ServiceHealthService list" where
  "service_entries i acc [] = Inr acc"
| "service_entries i acc (raw # raws) = (case parseServiceHealthService i raw of
     Inl e \<Rightarrow> Inl e
   | Inr s \<Rightarrow> if hs_ProxyHostID s \<in> set (map hs_ProxyHostID acc) then Inl (ServiceDuplicateID i)
       else service_entries (Suc i) (acc @ [s]) raws)"

definition health_workers :: "(string, json) gomap \<Rightarrow> int option" where
  "health_workers doc =
     (if map_of doc ''workers'' = None then Some 4
      else (case decodeServiceHealthInt doc ''workers'' of None \<Rightarrow> None | Some w \<Rightarrow>
        if w < 1 \<or> w > 8 then None else Some w))"

definition health_fields :: "string list" where
  "health_fields = [''version'', ''interval'', ''timeout'', ''workers'', ''allowed_cidrs'', ''allowed_hosts'',
     ''allowed_dns_suffixes'', ''services'']"

definition health_document :: "(string, json) gomap \<Rightarrow> health_config_error + ServiceHealthConfig" where
  "health_document doc =
     and_then (reject_if (\<not> containsOnlyJSONFields doc health_fields) DocInvalid) (\<lambda>_.
     and_then (reject_if (decodeServiceHealthInt doc ''version'' \<noteq> Some 1) BadVersion) (\<lambda>_.
     and_then (some_or BadInterval (parseServiceHealthDuration doc ''interval'' default_interval min_interval max_interval)) (\<lambda>interval.
     and_then (some_or BadTimeout (parseServiceHealthDuration doc ''timeout'' default_timeout min_timeout max_timeout)) (\<lambda>timeout.
     and_then (some_or BadWorkers (health_workers doc)) (\<lambda>workers.
     and_then (some_or CIDRsMissing (decodeServiceHealthStringArray doc ''allowed_cidrs'')) (\<lambda>cidr_values.
     and_then (reject_if (cidr_values = []) CIDRsMissing) (\<lambda>_.
     and_then (reject_if (length cidr_values > 128) CIDRsTooMany) (\<lambda>_.
     and_then (cidr_entries 0 [] cidr_values) (\<lambda>cidrs.
     and_then (parseServiceHealthNameAllowlist doc ''allowed_hosts'' 128 False) (\<lambda>hosts.
     and_then (parseServiceHealthNameAllowlist doc ''allowed_dns_suffixes'' 128 True) (\<lambda>suffixes.
     and_then (some_or ServicesNotArray (decodeServiceHealthRawArray doc ''services'')) (\<lambda>raws.
     and_then (reject_if (length raws > 128) ServicesTooMany) (\<lambda>_.
     and_then (service_entries 0 [] raws) (\<lambda>services.
       Inr \<lparr>hc_Enabled = True, Interval = interval, Timeout = timeout, Workers = workers, AllowedCIDRs = cidrs,
            AllowedHosts = hosts, AllowedDNSSuffixes = suffixes, hc_Services = services\<rparr>))))))))))))))"

definition parseServiceHealthConfig :: "string \<Rightarrow> health_config_error + ServiceHealthConfig" where
  "parseServiceHealthConfig data =
     (if length data > 256 * 1024 then Inl DocTooLarge
      else if trim_space data = [] then Inl DocEmpty
      else (case json_parse data of None \<Rightarrow> Inl DocInvalid | Some v \<Rightarrow>
        if \<not> walkServiceHealthJSONValue v then Inl DocDuplicateField
        else (case as_raw_map v of Some (Some doc) \<Rightarrow> health_document doc | _ \<Rightarrow> Inl DocInvalid)))"

section \<open>Facts about hosts and networks\<close>

lemma valid_host_bytes:
  assumes "validateServiceHealthHost h"
  shows "h \<noteq> []" and "length h \<le> 253" and "\<forall>c \<in> set h. host_char c \<or> c = CHR ''.''" and "parse_addr h = None"
proof -
  have labels: "list_all valid_host_label (split_byte (CHR ''.'') h)"
    using assms by (auto simp: validateServiceHealthHost_def split: if_splits)
  show "h \<noteq> []" "length h \<le> 253" "parse_addr h = None"
    using assms by (auto simp: validateServiceHealthHost_def split: if_splits)
  have bytes: "set (join_with sep ps) \<subseteq> set sep \<union> (\<Union>p \<in> set ps. set p)" for sep ps
    by (induction sep ps rule: join_with.induct) auto
  have "set h \<subseteq> set ''.'' \<union> (\<Union>p \<in> set (split_byte (CHR ''.'') h). set p)"
    using bytes [of "''.''" "split_byte (CHR ''.'') h"] by (simp add: join_split_byte)
  then show "\<forall>c \<in> set h. host_char c \<or> c = CHR ''.''"
    using labels by (fastforce simp: list_all_iff valid_host_label_def)
qed

lemma host_char_plain:
  assumes "host_char c \<or> c = CHR ''.''"
  shows "is_ascii c" and "\<not> should_escape EncodeHost c" and "c \<noteq> CHR ''/'' \<and> c \<noteq> CHR '':'' \<and> c \<noteq> CHR ''@'' \<and> c \<noteq> CHR ''%''"
  using assms
  by (auto simp: host_char_def is_ascii_def is_lower_def is_digit_def should_escape_def is_alnum_def)

text \<open>Setting the host bits one by one is a disjunction with the host mask.\<close>

lemma or_mask_word:
  "n \<le> k \<Longrightarrow> foldl (\<lambda>w b. w OR push_bit (k - 1 - b) 1) w [n..<k] = (w :: 'a::len word) OR mask (k - n)"
proof (induction "k - n" arbitrary: n w)
  case (Suc d)
  then have n: "n < k" and d: "d = k - Suc n" by simp_all
  have "foldl (\<lambda>w b. w OR push_bit (k - 1 - b) 1) w [n..<k] =
      foldl (\<lambda>w b. w OR push_bit (k - 1 - b) 1) (w OR push_bit (k - 1 - n) 1) [Suc n..<k]"
    using n by (simp add: upt_conv_Cons)
  also have "\<dots> = (w OR push_bit (k - 1 - n) 1) OR mask (k - Suc n)"
    using Suc.hyps(1) [of "Suc n"] d n by simp
  also have "\<dots> = w OR mask (k - n)"
  proof -
    have "k - n = Suc (k - Suc n)" "k - 1 - n = k - Suc n" using n by simp_all
    then show ?thesis by (simp add: mask_Suc_exp push_bit_eq_mult or.assoc)
  qed
  finally show ?case .
qed simp

lemma last_addr_mask:
  "prefix_addr (prefix_masked p) = V4 w \<Longrightarrow> prefix_bits p \<le> 32 \<Longrightarrow>
     serviceHealthPrefixLastAddr p = V4 (w OR mask (32 - prefix_bits p))"
  "prefix_addr (prefix_masked p) = V6 v z \<Longrightarrow> prefix_bits p \<le> 128 \<Longrightarrow>
     serviceHealthPrefixLastAddr p = V6 (v OR mask (128 - prefix_bits p)) []"
  using or_mask_word [of "prefix_bits p" 32 w] or_mask_word [of "prefix_bits p" 128 v]
  by (simp_all add: serviceHealthPrefixLastAddr_def)

section \<open>What an accepted configuration satisfies\<close>

definition cidr_ok :: "prefix \<Rightarrow> bool" where
  "cidr_ok p \<longleftrightarrow> p = prefix_masked p \<and> \<not> addr_is4in6 (prefix_addr p) \<and>
     \<not> (serviceHealthDangerousAddress (prefix_addr p) \<and> serviceHealthDangerousAddress (serviceHealthPrefixLastAddr p))"

definition ranges_ok :: "ServiceHealthStatusRange list \<Rightarrow> bool" where
  "ranges_ok rs \<longleftrightarrow> list_all (\<lambda>r. 100 \<le> status_Min r \<and> status_Min r \<le> status_Max r \<and> status_Max r \<le> 599) rs \<and>
     sorted_wrt (\<lambda>a b. status_Max a < status_Min b) rs"

definition service_ok :: "ServiceHealthService \<Rightarrow> bool" where
  "service_ok s \<longleftrightarrow> hs_ProxyHostID s > 0 \<and>
     (case hs_Type s of
        ProbeTCP \<Rightarrow> hs_Path s = [] \<and> AcceptedStatuses s = []
      | ProbeHTTP \<Rightarrow> has_prefix (hs_Path s) ''/'' \<and> (hs_Path s = ''/'' \<or> validateServiceHealthPath (hs_Path s)) \<and>
          AcceptedStatuses s \<noteq> [] \<and> length (AcceptedStatuses s) \<le> 8 \<and> ranges_ok (AcceptedStatuses s))"

definition health_config_ok :: "ServiceHealthConfig \<Rightarrow> bool" where
  "health_config_ok c \<longleftrightarrow> hc_Enabled c \<and>
     min_interval \<le> Interval c \<and> Interval c \<le> max_interval \<and> min_timeout \<le> Timeout c \<and> Timeout c \<le> max_timeout \<and>
     1 \<le> Workers c \<and> Workers c \<le> 8 \<and>
     AllowedCIDRs c \<noteq> [] \<and> length (AllowedCIDRs c) \<le> 128 \<and> distinct (AllowedCIDRs c) \<and> list_all cidr_ok (AllowedCIDRs c) \<and>
     length (AllowedHosts c) \<le> 128 \<and> distinct (AllowedHosts c) \<and> list_all validateServiceHealthHost (AllowedHosts c) \<and>
     length (AllowedDNSSuffixes c) \<le> 128 \<and> distinct (AllowedDNSSuffixes c) \<and>
     list_all validateServiceHealthDNSSuffix (AllowedDNSSuffixes c) \<and>
     length (hc_Services c) \<le> 128 \<and> distinct (map hs_ProxyHostID (hc_Services c)) \<and> list_all service_ok (hc_Services c)"

lemma some_or_eq_Inr [simp]: "some_or e x = Inr a \<longleftrightarrow> x = Some a"
  by (simp add: some_or_def split: option.splits)

lemma cidr_entries_ok:
  "cidr_entries i acc vs = Inr ps \<Longrightarrow> distinct acc \<Longrightarrow> list_all cidr_ok acc \<Longrightarrow>
     distinct ps \<and> list_all cidr_ok ps \<and> length ps = length acc + length vs"
proof (induction i acc vs rule: cidr_entries.induct)
  case (2 i acc v vs)
  then obtain p where p: "validateServiceHealthCIDR v = Some p" "p \<notin> set acc"
    and rec: "cidr_entries (Suc i) (acc @ [p]) vs = Inr ps"
    by (auto split: option.splits if_splits)
  have "cidr_ok p"
    using p(1) by (auto simp: validateServiceHealthCIDR_def cidr_ok_def split: if_splits option.splits)
  with 2 p rec show ?case by simp
qed simp

lemma allowlist_entries_ok:
  "allowlist_entries valid name i seen vs = Inr () \<Longrightarrow>
     list_all valid vs \<and> distinct vs \<and> set vs \<inter> set seen = {}"
  by (induction valid name i seen vs rule: allowlist_entries.induct) (auto split: if_splits)

lemma name_allowlist_ok:
  assumes "parseServiceHealthNameAllowlist doc name limit suffix = Inr vs"
  shows "length vs \<le> limit \<and> distinct vs \<and>
    list_all (if suffix then validateServiceHealthDNSSuffix else validateServiceHealthHost) vs"
  using assms by (auto simp: parseServiceHealthNameAllowlist_def split: if_splits option.splits dest!: allowlist_entries_ok)

lemma status_range_bounds:
  "parseServiceHealthStatusRange raw = Some r \<Longrightarrow> 100 \<le> status_Min r \<and> status_Min r \<le> status_Max r \<and> status_Max r \<le> 599"
  by (auto simp: parseServiceHealthStatusRange_def split: option.splits if_splits)

lemma ranges_ok_snoc:
  assumes "ranges_ok rs" and "100 \<le> status_Min r \<and> status_Min r \<le> status_Max r \<and> status_Max r \<le> 599"
    and "rs \<noteq> [] \<Longrightarrow> status_Max (last rs) < status_Min r"
  shows "ranges_ok (rs @ [r])"
proof -
  have "status_Max a < status_Min r" if "a \<in> set rs" for a
  proof (cases "a = last rs")
    case True
    moreover have "rs \<noteq> []" using that by auto
    ultimately show ?thesis using assms(3) by simp
  next
    case False
    have "rs = butlast rs @ [last rs]" using that by (intro append_butlast_last_id [symmetric]) auto
    then have "a \<in> set (butlast rs)" "sorted_wrt (\<lambda>a b. status_Max a < status_Min b) (butlast rs @ [last rs])"
      using False that assms(1) by (metis Un_iff empty_iff insert_iff list.set(1,2) set_append, metis ranges_ok_def)
    then have "status_Max a < status_Min (last rs)" by (simp add: sorted_wrt_append)
    moreover have "last rs \<in> set rs" using that by (intro last_in_set) auto
    then have "status_Min (last rs) \<le> status_Max (last rs)" using assms(1) by (simp add: ranges_ok_def list_all_iff)
    ultimately show ?thesis using assms(3) that by fastforce
  qed
  with assms(1,2) show ?thesis by (simp add: ranges_ok_def sorted_wrt_append)
qed

lemma status_ranges_ok:
  "status_ranges index i acc raws = Inr rs \<Longrightarrow> ranges_ok acc \<Longrightarrow> i = length acc \<Longrightarrow>
     ranges_ok rs \<and> length rs = length acc + length raws"
proof (induction index i acc raws rule: status_ranges.induct)
  case (2 index i acc raw raws)
  then obtain r where r: "parseServiceHealthStatusRange raw = Some r" "\<not> (i > 0 \<and> status_Min r \<le> status_Max (last acc))"
    and rec: "status_ranges index (Suc i) (acc @ [r]) raws = Inr rs"
    by (auto split: option.splits if_splits)
  have "ranges_ok (acc @ [r])"
    using r "2.prems" status_range_bounds [OF r(1)] by (intro ranges_ok_snoc) auto
  with 2 r rec show ?case by simp
qed simp

lemma service_path_ok:
  "service_path index wire = Inr p \<Longrightarrow> has_prefix p ''/'' \<and> (p = ''/'' \<or> validateServiceHealthPath p)"
  by (auto simp: service_path_def validateServiceHealthPath_def has_prefix_def split: if_splits option.splits)

lemma parseServiceHealthService_ok:
  assumes "parseServiceHealthService index raw = Inr s"
  shows "service_ok s"
proof -
  from assms obtain wire host_id where id: "\<not> host_id \<le> 0"
    and s: "tcp_service index host_id wire = Inr s \<or> http_service index host_id wire = Inr s"
    unfolding parseServiceHealthService_def by (auto split: option.splits if_splits)
  from s show ?thesis
  proof
    assume "tcp_service index host_id wire = Inr s"
    with id show ?thesis by (auto simp: tcp_service_def service_ok_def)
  next
    assume "http_service index host_id wire = Inr s"
    then obtain p raws rs where p: "service_path index wire = Inr p" and raws: "raws \<noteq> []" "length raws \<le> 8"
      and rs: "status_ranges index 0 [] raws = Inr rs"
      and s: "s = \<lparr>hs_ProxyHostID = host_id, hs_Type = ProbeHTTP, hs_Path = p, AcceptedStatuses = rs\<rparr>"
      unfolding http_service_def by (auto simp: not_less)
    have "ranges_ok rs \<and> length rs = length raws" using status_ranges_ok [OF rs] by (simp add: ranges_ok_def)
    then have "ranges_ok rs" "length rs \<le> 8" "rs \<noteq> []" using raws by auto
    with id service_path_ok [OF p] show ?thesis by (simp add: s service_ok_def)
  qed
qed

lemma service_entries_ok:
  "service_entries i acc raws = Inr ss \<Longrightarrow> distinct (map hs_ProxyHostID acc) \<Longrightarrow> list_all service_ok acc \<Longrightarrow>
     distinct (map hs_ProxyHostID ss) \<and> list_all service_ok ss \<and> length ss = length acc + length raws"
proof (induction i acc raws rule: service_entries.induct)
  case (2 i acc raw raws)
  then obtain s where s: "parseServiceHealthService i raw = Inr s" "hs_ProxyHostID s \<notin> set (map hs_ProxyHostID acc)"
    and rec: "service_entries (Suc i) (acc @ [s]) raws = Inr ss"
    by (auto split: sum.splits if_splits)
  with 2 parseServiceHealthService_ok [OF s(1)] show ?case by simp
qed simp

lemma parseServiceHealthDuration_bounds:
  "parseServiceHealthDuration doc name fallback lo hi = Some d \<Longrightarrow> lo \<le> fallback \<Longrightarrow> fallback \<le> hi \<Longrightarrow> lo \<le> d \<and> d \<le> hi"
  by (auto simp: parseServiceHealthDuration_def split: if_splits option.splits)

lemma health_workers_bounds: "health_workers doc = Some w \<Longrightarrow> 1 \<le> w \<and> w \<le> 8"
  by (auto simp: health_workers_def split: if_splits option.splits)

lemmas duration_limits = second_def default_interval_def min_interval_def max_interval_def
  default_timeout_def min_timeout_def max_timeout_def

lemma health_document_ok:
  assumes "health_document doc = Inr c"
  shows "health_config_ok c"
proof -
  from assms obtain i t w cv cidrs hosts suffixes raws services u where
    i: "parseServiceHealthDuration doc ''interval'' default_interval min_interval max_interval = Some i"
    and t: "parseServiceHealthDuration doc ''timeout'' default_timeout min_timeout max_timeout = Some t"
    and w: "health_workers doc = Some w"
    and cv: "cv \<noteq> []" "length cv \<le> 128" "cidr_entries 0 [] cv = Inr cidrs"
    and hosts: "parseServiceHealthNameAllowlist doc ''allowed_hosts'' 128 False = Inr hosts"
    and suffixes: "parseServiceHealthNameAllowlist doc ''allowed_dns_suffixes'' 128 True = Inr suffixes"
    and services: "length raws \<le> 128" "service_entries 0 [] raws = Inr services"
    and c: "c = \<lparr>hc_Enabled = True, Interval = i, Timeout = t, Workers = w, AllowedCIDRs = cidrs,
            AllowedHosts = hosts, AllowedDNSSuffixes = suffixes, hc_Services = services\<rparr>"
    unfolding health_document_def by (auto simp: not_less)
  have "min_interval \<le> i \<and> i \<le> max_interval"
    by (rule parseServiceHealthDuration_bounds [OF i]) (simp_all add: duration_limits)
  moreover have "min_timeout \<le> t \<and> t \<le> max_timeout"
    by (rule parseServiceHealthDuration_bounds [OF t]) (simp_all add: duration_limits)
  moreover have "cidrs \<noteq> []" using cidr_entries_ok [OF cv(3)] cv(1) by auto
  ultimately show ?thesis
    using health_workers_bounds [OF w] cidr_entries_ok [OF cv(3)] cv(2) name_allowlist_ok [OF hosts]
      name_allowlist_ok [OF suffixes] service_entries_ok [OF services(2)] services(1)
    by (simp add: c health_config_ok_def)
qed

text \<open>
  A health configuration the parser accepts stays within every limit of the file format:
  interval, timeout and workers in range, a nonempty list of distinct canonical networks of
  which none is wholly loopback, link-local, multicast or unspecified, distinct lower-case host
  names and suffixes that are no addresses, and distinct services with a positive ID whose
  status ranges are sorted, disjoint and within 100 to 599; a TCP service has no path.
\<close>
theorem parseServiceHealthConfig_sound:
  assumes "parseServiceHealthConfig data = Inr c"
  shows "health_config_ok c"
  using assms by (auto simp: parseServiceHealthConfig_def intro: health_document_ok split: if_splits option.splits)

text \<open>An evaluated document.\<close>

definition quote_json :: "string \<Rightarrow> string" where
  "quote_json s = [dquote] @ s @ [dquote]"

definition sample_net :: prefix where
  "sample_net = \<lparr>prefix_addr = V4 0x0A000000, prefix_bits = 8\<rparr>"

definition sample_health_text :: string where
  "sample_health_text = ''{'' @ quote_json ''version'' @ '':1,'' @ quote_json ''allowed_cidrs'' @ '':['' @
     quote_json ''10.0.0.0/8'' @ ''],'' @ quote_json ''services'' @ '':[]}''"

definition sample_health_config :: ServiceHealthConfig where
  "sample_health_config = \<lparr>hc_Enabled = True, Interval = default_interval, Timeout = default_timeout, Workers = 4,
     AllowedCIDRs = [sample_net], AllowedHosts = [], AllowedDNSSuffixes = [], hc_Services = []\<rparr>"

lemma octets_sample_net: "octets_of_v4 0x0A000000 = [10, 0, 0, 0]"
  by (simp add: octets_of_v4_def)

lemma parse_sample_net: "parse_prefix ''10.0.0.0/8'' = Some sample_net"
  by (simp add: parse_prefix_def sample_net_def parse_addr_def parse_v4_fields_def parse_octet_def is_digit_def
     parse_digits_def digit_value_def v4_of_octets_def atoi_def in_int64_def max_int64_def min_int64_def)

lemma validate_sample_net: "validateServiceHealthCIDR ''10.0.0.0/8'' = Some sample_net"
proof -
  have "prefix_masked sample_net = sample_net" by (simp add: prefix_masked_def sample_net_def)
  moreover have "prefix_string sample_net = ''10.0.0.0/8''"
    by (simp add: prefix_string_def sample_net_def v4_string_def octets_sample_net show_nat.simps digit_char_def)
      (simp add: char_of_def bit_Suc_0_iff)
  moreover have "\<not> serviceHealthDangerousAddress (prefix_addr sample_net)"
    by (simp add: sample_net_def serviceHealthDangerousAddress_def addr_unspecified_def addr_loopback_def addr_multicast_def
      addr_link_local_unicast_def addr_link_local_multicast_def v4_octet_def octets_sample_net)
  moreover have "trim_space ''10.0.0.0/8'' = ''10.0.0.0/8''" "\<not> contains_control ''10.0.0.0/8''"
    "\<not> addr_is4in6 (prefix_addr sample_net)"
    by (simp_all add: trim_space_id is_ascii_def ascii_space_def sample_net_def)
  ultimately show ?thesis by (simp add: validateServiceHealthCIDR_def parse_sample_net)
qed

lemma parse_sample_health: "parseServiceHealthConfig sample_health_text = Inr sample_health_config"
proof -
  let ?doc = "[(''version'', JNum ''1''), (''allowed_cidrs'', JArr [JStr ''10.0.0.0/8'']), (''services'', JArr [])]"
  have json: "json_parse sample_health_text = Some (JObj ?doc)" by code_simp
  have len: "\<not> length sample_health_text > 256 * 1024" "trim_space sample_health_text \<noteq> []"
    "walkServiceHealthJSONValue (JObj ?doc)" by (simp add: sample_health_text_def quote_json_def, code_simp, code_simp)
  have doc: "as_raw_map (JObj ?doc) = Some (Some ?doc)" by code_simp
  have "health_document ?doc = Inr sample_health_config"
    by (simp add: health_document_def containsOnlyJSONFields_def health_fields_def decodeServiceHealthInt_def int_literal_def
      parse_digits_def is_digit_def digit_value_def in_int64_def min_int64_def max_int64_def parseServiceHealthDuration_def
      health_workers_def decodeServiceHealthStringArray_def validate_sample_net parseServiceHealthNameAllowlist_def
      decodeServiceHealthRawArray_def sample_health_config_def some_or_def reject_if_def)
  with json len doc show ?thesis by (simp only: parseServiceHealthConfig_def option.case if_False if_True simp_thms)
qed

lemma parseServiceHealthConfig_sound_witness: "health_config_ok sample_health_config"
  by (rule parseServiceHealthConfig_sound [OF parse_sample_health])

end
