(* ===== verification/Matcher.thy ===== *)
theory Matcher
  imports Portal_Data
begin

text \<open>
  Which services an identity may open (\<open>matcher.go\<close>): the identity's source tokens, the
  destinations of a rule against a proxy host's forward address, the card of a host, and the
  evaluation that joins them.
\<close>

section \<open>Identities\<close>

definition normalizeLogin :: "string \<Rightarrow> string" where
  "normalizeLogin login = (let l = trim_space login in
     if l = [] then [] else if contains_byte l (CHR ''@'') then l else l @ ''@'')"

definition identityTokens :: "string \<Rightarrow> string set" where
  "identityTokens login = (let l = normalizeLogin login in
     if l = [] then {}
     else if has_suffix l ''@'' \<and> trim_suffix l ''@'' \<noteq> [] then {l, trim_suffix l ''@''}
     else {l})"

definition loginMatches :: "string \<Rightarrow> string \<Rightarrow> bool" where
  "loginMatches login candidate \<longleftrightarrow>
     (let c = trim_space candidate in if c = [] then False else c \<in> identityTokens login)"

text \<open>
  The loop over the groups: a group is added when a member is already in the set, so that a
  group visited later sees the groups added before it.
\<close>

definition add_group :: "string set \<Rightarrow> string \<times> string list \<Rightarrow> string set" where
  "add_group ids g = (case g of (grp, members) \<Rightarrow>
     if list_ex (\<lambda>m. trim_space m \<in> ids) members then insert grp ids else ids)"

definition buildIdentitySet :: "Identity option \<Rightarrow> Policy option \<Rightarrow> string set" where
  "buildIdentitySet identity policy = (case identity of None \<Rightarrow> {} | Some i \<Rightarrow>
     (let ids = identityTokens (Login i) in
      case policy of None \<Rightarrow> ids | Some p \<Rightarrow> if ids = {} then ids else foldl add_group ids (Groups p)))"

section \<open>Sources\<close>

definition sourceGrant :: "string list \<Rightarrow> string set \<Rightarrow> string option" where
  "sourceGrant src ids = find (\<lambda>s. s = ''*'' \<or> s \<in> ids) src"

definition srcGranted :: "string list \<Rightarrow> string set \<Rightarrow> bool" where
  "srcGranted src ids \<longleftrightarrow> sourceGrant src ids \<noteq> None"

definition sourceGrantForRule :: "accessRule \<Rightarrow> string set \<Rightarrow> string set \<Rightarrow> string option" where
  "sourceGrantForRule rule ids roles =
     find (\<lambda>s. s = ''*'' \<or> s \<in> ids \<or> (rule_Kind rule = RuleGrant \<and> s \<in> roles)) (rule_Src rule)"

definition grantRoleSelectorSet :: "string \<Rightarrow> CacheData option \<Rightarrow> string set" where
  "grantRoleSelectorSet login data = (case data of None \<Rightarrow> {} | Some d \<Rightarrow>
     if login = [] then {} else set (gomap_get (GrantRoleSelectorsByLogin d) login []))"

section \<open>Destinations\<close>

datatype destinationMatchKind = MatchExact | MatchWildcard | MatchCIDR | MatchHostAlias | MatchTag | MatchSelf

record destinationMatchEvidence =
  ev_Kind :: destinationMatchKind
  ev_Selector :: string
  ev_Normalized :: string
  ev_Resolved :: string

record matchContext =
  mc_hosts :: "(string, string) gomap"
  mc_tagIPs :: "(string, string list) gomap"
  mc_selfIPs :: "string list"

definition matchResolvedDestination :: "string \<Rightarrow> string \<Rightarrow> matchContext \<Rightarrow> destinationMatchKind option" where
  "matchResolvedDestination selector host mc =
     (if selector = ''*'' then Some MatchWildcard
      else if selector = host then Some MatchExact
      else if has_prefix selector ''tag:'' then
        (if host \<in> set (gomap_get (mc_tagIPs mc) selector []) then Some MatchTag else None)
      else if selector = ''autogroup:self'' then
        (if host \<in> set (mc_selfIPs mc) then Some MatchSelf else None)
      else if has_prefix selector ''autogroup:'' then None
      else if contains_byte selector (CHR ''/'') then
        (case net_parse_cidr selector of None \<Rightarrow> None | Some (_, cidr) \<Rightarrow>
          (case net_parse_ip host of None \<Rightarrow> None | Some ip \<Rightarrow>
            if ipnet_contains cidr ip then Some MatchCIDR else None))
      else None)"

definition resolvedMatchValue :: "destinationMatchKind \<Rightarrow> string \<Rightarrow> string \<Rightarrow> string" where
  "resolvedMatchValue kind selector host = (case kind of
     MatchWildcard \<Rightarrow> host | MatchTag \<Rightarrow> host | MatchSelf \<Rightarrow> host | _ \<Rightarrow> selector)"

definition matchDestination :: "string \<Rightarrow> string \<Rightarrow> matchContext \<Rightarrow> destinationMatchEvidence option" where
  "matchDestination selector host mc =
     (let normalized = stripPort selector;
          direct = (case matchResolvedDestination normalized host mc of None \<Rightarrow> None | Some kind \<Rightarrow>
            Some \<lparr>ev_Kind = kind, ev_Selector = selector, ev_Normalized = normalized,
                  ev_Resolved = resolvedMatchValue kind normalized host\<rparr>) in
      if \<not> reservedPolicySelector normalized then
        (case map_of (mc_hosts mc) normalized of
           Some value \<Rightarrow> (let resolved = stripPort value in
             case matchResolvedDestination resolved host mc of None \<Rightarrow> None | Some _ \<Rightarrow>
               Some \<lparr>ev_Kind = MatchHostAlias, ev_Selector = selector, ev_Normalized = normalized,
                     ev_Resolved = resolved\<rparr>)
         | None \<Rightarrow> direct)
      else direct)"

fun destinationGrant :: "string list \<Rightarrow> string \<Rightarrow> matchContext \<Rightarrow> destinationMatchEvidence option" where
  "destinationGrant [] host mc = None"
| "destinationGrant (selector # dst) host mc = (case matchDestination selector host mc of
     Some evidence \<Rightarrow> Some evidence | None \<Rightarrow> destinationGrant dst host mc)"

definition matchDst :: "string \<Rightarrow> string \<Rightarrow> matchContext \<Rightarrow> bool" where
  "matchDst d host mc \<longleftrightarrow> matchDestination d host mc \<noteq> None"

definition dstMatches :: "string list \<Rightarrow> string \<Rightarrow> matchContext \<Rightarrow> bool" where
  "dstMatches dst host mc \<longleftrightarrow> destinationGrant dst host mc \<noteq> None"

section \<open>The match context\<close>

definition nodeTags :: "Node \<Rightarrow> string list" where
  "nodeTags n = Tags n"

definition add_tag_ips :: "Node \<Rightarrow> (string, string list) gomap \<Rightarrow> string \<Rightarrow> (string, string list) gomap" where
  "add_tag_ips node m tag = gomap_put m tag (gomap_get m tag [] @ Addresses node)"

definition buildMatchContext :: "string \<Rightarrow> Policy \<Rightarrow> Node list \<Rightarrow> matchContext" where
  "buildMatchContext login policy nodes =
     \<lparr>mc_hosts = Hosts policy,
      mc_tagIPs = foldl (\<lambda>m node. foldl (add_tag_ips node) m (nodeTags node)) [] nodes,
      mc_selfIPs = foldl (\<lambda>ips node. if loginMatches login (OwnerLogin node) then ips @ Addresses node else ips) [] nodes\<rparr>"

text \<open>Structural matches: destinations only, and whether one depends on the identity.\<close>

definition structuralDestinationMatches :: "ProxyHost \<Rightarrow> CacheData option \<Rightarrow> destinationMatchEvidence list \<times> bool" where
  "structuralDestinationMatches ph snapshot =
     (case snapshot of None \<Rightarrow> ([], False) | Some d \<Rightarrow>
     (case cd_Policy d of None \<Rightarrow> ([], False) | Some p \<Rightarrow>
       (let mc = buildMatchContext [] p (cd_Nodes d) in
        foldl (\<lambda>acc rule. if \<not> rule_permitsTCP rule (ForwardPort ph) then acc
          else foldl (\<lambda>(matches, dependent) selector.
            if stripPort selector = ''autogroup:self'' then (matches, True)
            else (case matchDestination selector (ForwardHost ph) mc of
                Some e \<Rightarrow> (matches @ [e], dependent) | None \<Rightarrow> (matches, dependent))) acc (rule_Dst rule))
          ([], False) (accessRules (Some p)))))"

definition enabledProxyHostHasSupportedDestinationMatch :: "ProxyHost \<Rightarrow> CacheData option \<Rightarrow> bool" where
  "enabledProxyHostHasSupportedDestinationMatch ph snapshot \<longleftrightarrow>
     (if \<not> Enabled ph then False
      else (case snapshot of None \<Rightarrow> False | Some d \<Rightarrow>
        if cd_Policy d = None then False else fst (structuralDestinationMatches ph snapshot) \<noteq> []))"

section \<open>Cards\<close>

datatype serviceLinkState = LinkReady | LinkNeedsMetadata | LinkInvalid

record ServiceCard =
  card_ID :: int
  card_Name :: string
  card_URL :: string
  card_Domain :: string
  card_Category :: string
  card_Order :: "int option"
  card_Icon :: string
  LinkState :: serviceLinkState

definition validConcreteCardDomain :: "string \<Rightarrow> bool" where
  "validConcreteCardDomain domain \<longleftrightarrow>
     (if domain = [] \<or> contains_control domain \<or> contains_any domain ([CHR ''*'', char_of (92::nat)] @ ''/?#@'')
         \<or> contains_any domain [CHR '' '', char_of (9::nat)] then False
      else (case url_parse (''https://'' @ domain) of None \<Rightarrow> False | Some u \<Rightarrow>
        \<not> (Host u \<noteq> domain \<or> hostname u = [] \<or> HasUser u \<or> Path u \<noteq> [] \<or> RawQuery u \<noteq> [] \<or> Fragment u \<noteq> [])))"

definition card_domains :: "ProxyHost \<Rightarrow> string list" where
  "card_domains ph = List.filter (\<lambda>d. d \<noteq> []) (map trim_space (DomainNames ph))"

definition concrete_domain :: "ProxyHost \<Rightarrow> string" where
  "concrete_domain ph = (case find validConcreteCardDomain (card_domains ph) of Some d \<Rightarrow> d | None \<Rightarrow> [])"

definition base_card :: "ProxyHost \<Rightarrow> ServiceCard" where
  "base_card ph = (let name = (if concrete_domain ph \<noteq> [] then concrete_domain ph else hd (card_domains ph)) in
     \<lparr>card_ID = ph_ID ph, card_Name = name, card_URL = [], card_Domain = name, card_Category = [],
      card_Order = None, card_Icon = [], LinkState = LinkNeedsMetadata\<rparr>)"

definition apply_override :: "ServiceOverride \<Rightarrow> ServiceCard \<Rightarrow> ServiceCard" where
  "apply_override o' c0 =
     (let c = (if override_Name o' \<noteq> [] then c0\<lparr>card_Name := override_Name o'\<rparr> else c0);
          c = c\<lparr>card_Category := override_Category o', card_Icon := override_Icon o'\<rparr>;
          c = (if override_Order o' \<noteq> None then c\<lparr>card_Order := override_Order o'\<rparr> else c) in
      if override_URL o' \<noteq> [] then c\<lparr>card_URL := override_URL o', LinkState := LinkReady\<rparr> else c)"

definition default_link :: "ProxyHost \<Rightarrow> ServiceCard \<Rightarrow> ServiceCard" where
  "default_link ph c =
     (if concrete_domain ph = [] then c
      else (let s0 = to_lower (trim_space (ForwardScheme ph)); scheme = (if s0 = [] then ''https'' else s0) in
        if scheme \<noteq> ''http'' \<and> scheme \<noteq> ''https'' then c\<lparr>LinkState := LinkInvalid\<rparr>
        else c\<lparr>card_URL := origin_url scheme (concrete_domain ph), LinkState := LinkReady\<rparr>))"

definition override_for :: "ServiceMetadata option \<Rightarrow> int \<Rightarrow> ServiceOverride option" where
  "override_for metadata i = (case metadata of None \<Rightarrow> None | Some m \<Rightarrow> map_of (Overrides m) i)"

definition resolveServiceCard :: "ProxyHost \<Rightarrow> ServiceMetadata option \<Rightarrow> ServiceCard option" where
  "resolveServiceCard ph metadata =
     (if card_domains ph = [] then None
      else (case override_for metadata (ph_ID ph) of
          None \<Rightarrow> Some (default_link ph (base_card ph))
        | Some o' \<Rightarrow> (let c = apply_override o' (base_card ph) in
            if override_URL o' \<noteq> [] then Some c else Some (default_link ph c))))"

section \<open>The order of the cards\<close>

definition serviceMetadataHasOrganization :: "ServiceMetadata option \<Rightarrow> bool" where
  "serviceMetadataHasOrganization metadata \<longleftrightarrow> (case metadata of None \<Rightarrow> False | Some m \<Rightarrow>
     list_ex (\<lambda>(i, o'). override_Category o' \<noteq> [] \<or> override_Order o' \<noteq> None) (Overrides m))"

definition name_less :: "ServiceCard \<Rightarrow> ServiceCard \<Rightarrow> bool" where
  "name_less l r =
     (if to_lower (card_Name l) \<noteq> to_lower (card_Name r) then to_lower (card_Name l) < to_lower (card_Name r)
      else card_ID l < card_ID r)"

definition order_less :: "ServiceCard \<Rightarrow> ServiceCard \<Rightarrow> bool" where
  "order_less l r = (case (card_Order l, card_Order r) of
     (Some _, None) \<Rightarrow> True
   | (None, Some _) \<Rightarrow> False
   | (Some a, Some b) \<Rightarrow> if a \<noteq> b then a < b else name_less l r
   | (None, None) \<Rightarrow> name_less l r)"

definition serviceCardLess :: "bool \<Rightarrow> ServiceCard \<Rightarrow> ServiceCard \<Rightarrow> bool" where
  "serviceCardLess organized l r =
     (if organized then
        (let lc = card_Category l; rc = card_Category r in
         if lc = [] \<and> rc \<noteq> [] then False
         else if lc \<noteq> [] \<and> rc = [] then True
         else if lc \<noteq> rc then
           (if to_lower lc \<noteq> to_lower rc then to_lower lc < to_lower rc else lc < rc)
         else order_less l r)
      else name_less l r)"

section \<open>Evaluation\<close>

record serviceMatchEvidence =
  sm_Card :: ServiceCard
  sm_ProxyHost :: ProxyHost
  sm_RuleKind :: accessRuleKind
  sm_RuleIndex :: nat
  SourceToken :: string
  Destination :: destinationMatchEvidence

text \<open>
  The inner loop: the first rule whose port, source and destination match decides; a host
  without a card ends the loop without a match.
\<close>

fun service_rules ::
  "ProxyHost \<Rightarrow> ServiceMetadata option \<Rightarrow> string set \<Rightarrow> string set \<Rightarrow> matchContext \<Rightarrow> accessRule list \<Rightarrow> serviceMatchEvidence option"
where
  "service_rules ph metadata ids roles mc [] = None"
| "service_rules ph metadata ids roles mc (rule # rules) =
     (if \<not> rule_permitsTCP rule (ForwardPort ph) then service_rules ph metadata ids roles mc rules
      else (case sourceGrantForRule rule ids roles of
          None \<Rightarrow> service_rules ph metadata ids roles mc rules
        | Some source \<Rightarrow>
            (case destinationGrant (rule_Dst rule) (ForwardHost ph) mc of
               None \<Rightarrow> service_rules ph metadata ids roles mc rules
             | Some destination \<Rightarrow>
                 (case resolveServiceCard ph metadata of None \<Rightarrow> None | Some c \<Rightarrow>
                   Some \<lparr>sm_Card = c, sm_ProxyHost = ph, sm_RuleKind = rule_Kind rule, sm_RuleIndex = rule_Index rule,
                         SourceToken = source, Destination = destination\<rparr>))))"

definition service_matches :: "Identity \<Rightarrow> CacheData \<Rightarrow> Policy \<Rightarrow> serviceMatchEvidence list" where
  "service_matches identity data policy =
     (let exactLogin = trim_space (Login identity);
          ids = buildIdentitySet (Some identity) (Some policy);
          roles = grantRoleSelectorSet exactLogin (Some data);
          mc = buildMatchContext (normalizeLogin exactLogin) policy (cd_Nodes data) in
      List.map_filter (\<lambda>ph. if \<not> Enabled ph \<or> DomainNames ph = [] then None
          else service_rules ph (cd_ServiceMetadata data) ids roles mc (accessRules (Some policy)))
        (cd_ProxyHosts data))"

definition evaluateServices :: "Identity option \<Rightarrow> CacheData option \<Rightarrow> serviceMatchEvidence list" where
  "evaluateServices identity data =
     (case (data, identity) of
        (Some d, Some i) \<Rightarrow>
          (case cd_Policy d of None \<Rightarrow> [] | Some policy \<Rightarrow>
             if normalizeLogin (trim_space (Login i)) = [] then []
             else sort_slice (\<lambda>l r. serviceCardLess (serviceMetadataHasOrganization (cd_ServiceMetadata d)) (sm_Card l) (sm_Card r))
               (service_matches i d policy))
      | _ \<Rightarrow> [])"

definition MatchServices :: "Identity option \<Rightarrow> CacheData option \<Rightarrow> ServiceCard list" where
  "MatchServices identity data = map sm_Card (evaluateServices identity data)"


section \<open>Cards are sorted by a strict weak order\<close>

lemma name_less_lex: "name_less = lex_less (\<lambda>c. to_lower (card_Name c)) (\<lambda>l r. card_ID l < card_ID r)"
  by (simp add: fun_eq_iff name_less_def lex_less_def)

lemma order_less_lex:
  "order_less = lex_less (\<lambda>c. card_Order c = None) (lex_less (\<lambda>c. case card_Order c of Some a \<Rightarrow> a | None \<Rightarrow> 0) name_less)"
  by (simp add: fun_eq_iff order_less_def lex_less_def split: option.splits)

lemma card_less_lex:
  "serviceCardLess True = lex_less (\<lambda>c. card_Category c = []) (lex_less (\<lambda>c. to_lower (card_Category c))
     (lex_less card_Category order_less))"
  by (auto simp: fun_eq_iff serviceCardLess_def lex_less_def Let_def)

lemma sort_order_name_less: "sort_order name_less"
  unfolding name_less_lex by (intro sort_order_lex sort_order_key)

lemma sort_order_card: "sort_order (serviceCardLess organized)"
proof (cases organized)
  case True
  have "sort_order order_less" unfolding order_less_lex by (intro sort_order_lex sort_order_name_less)
  then have "sort_order (serviceCardLess True)" unfolding card_less_lex by (intro sort_order_lex)
  with True show ?thesis by simp
next
  case False
  then have "serviceCardLess organized = name_less" by (simp add: fun_eq_iff serviceCardLess_def)
  then show ?thesis by (simp add: sort_order_name_less)
qed

interpretation card_order: sort_order "serviceCardLess organized" for organized
  by (rule sort_order_card)

interpretation evidence_order: sort_order "\<lambda>l r. serviceCardLess organized (sm_Card l) (sm_Card r)" for organized
  by (rule sort_order_map) (rule sort_order_card)

lemma card_less_separates:
  "card_ID l \<noteq> card_ID r \<Longrightarrow> serviceCardLess organized l r \<or> serviceCardLess organized r l"
  by (cases organized) (auto simp: card_less_lex serviceCardLess_def lex_less_def order_less_def name_less_def split: option.splits)

section \<open>Facts about the parts of a decision\<close>

lemma sourceGrantForRule_iff:
  "sourceGrantForRule rule ids roles \<noteq> None \<longleftrightarrow>
     (\<exists>s \<in> set (rule_Src rule). s = ''*'' \<or> s \<in> ids \<or> (rule_Kind rule = RuleGrant \<and> s \<in> roles))"
  by (auto simp: sourceGrantForRule_def find_None_iff)

lemma destinationGrant_iff: "destinationGrant dst host mc \<noteq> None \<longleftrightarrow> (\<exists>d \<in> set dst. matchDst d host mc)"
  by (induction dst) (auto simp: matchDst_def split: option.splits)

lemma destinationGrant_SomeD:
  "destinationGrant dst host mc = Some e \<Longrightarrow> \<exists>d \<in> set dst. matchDestination d host mc = Some e"
  by (induction dst) (auto split: option.splits)

definition rule_grants :: "ProxyHost \<Rightarrow> string set \<Rightarrow> string set \<Rightarrow> matchContext \<Rightarrow> accessRule \<Rightarrow> bool" where
  "rule_grants ph ids roles mc r \<longleftrightarrow> rule_permitsTCP r (ForwardPort ph) \<and> sourceGrantForRule r ids roles \<noteq> None \<and>
     destinationGrant (rule_Dst r) (ForwardHost ph) mc \<noteq> None"

text \<open>The loop is a search for the first granting rule.\<close>

lemma service_rules_find:
  "service_rules ph metadata ids roles mc rules =
     (case find (rule_grants ph ids roles mc) rules of None \<Rightarrow> None | Some r \<Rightarrow>
        (case resolveServiceCard ph metadata of None \<Rightarrow> None | Some c \<Rightarrow>
          Some \<lparr>sm_Card = c, sm_ProxyHost = ph, sm_RuleKind = rule_Kind r, sm_RuleIndex = rule_Index r,
             SourceToken = the (sourceGrantForRule r ids roles),
             Destination = the (destinationGrant (rule_Dst r) (ForwardHost ph) mc)\<rparr>))"
  by (induction rules) (auto simp: rule_grants_def split: option.splits)

lemma service_rules_Some:
  "(\<exists>e. service_rules ph metadata ids roles mc rules = Some e \<and> sm_Card e = c) \<longleftrightarrow>
     (\<exists>r \<in> set rules. rule_grants ph ids roles mc r) \<and> resolveServiceCard ph metadata = Some c"
proof (cases "find (rule_grants ph ids roles mc) rules")
  case None
  then have "\<forall>r \<in> set rules. \<not> rule_grants ph ids roles mc r" by (auto simp: find_None_iff)
  with None show ?thesis by (auto simp: service_rules_find)
next
  case (Some r)
  then have "\<exists>r \<in> set rules. rule_grants ph ids roles mc r" by (auto simp: find_Some_iff)
  with Some show ?thesis by (auto simp: service_rules_find split: option.splits)
qed

lemma service_rules_card:
  "service_rules ph metadata ids roles mc rules = Some e \<Longrightarrow> resolveServiceCard ph metadata = Some (sm_Card e) \<and> sm_ProxyHost e = ph"
  by (auto simp: service_rules_find split: option.splits)

lemma resolveServiceCard_ID: "resolveServiceCard ph metadata = Some c \<Longrightarrow> card_ID c = ph_ID ph"
  by (auto simp: resolveServiceCard_def default_link_def apply_override_def base_card_def Let_def
      split: if_splits option.splits)

section \<open>The decision\<close>

text \<open>
  The specification of access: some rule of the policy permits the forwarded TCP port, names the
  identity as a source and the forward address as a destination. Neither the order of the
  rules nor that of the selectors matters.
\<close>

definition may_open :: "Identity \<Rightarrow> CacheData \<Rightarrow> Policy \<Rightarrow> ProxyHost \<Rightarrow> bool" where
  "may_open i d p ph \<longleftrightarrow>
     (\<exists>r \<in> set (accessRules (Some p)). rule_permitsTCP r (ForwardPort ph) \<and>
        (\<exists>s \<in> set (rule_Src r). s = ''*'' \<or> s \<in> buildIdentitySet (Some i) (Some p) \<or>
           (rule_Kind r = RuleGrant \<and> s \<in> grantRoleSelectorSet (trim_space (Login i)) (Some d))) \<and>
        (\<exists>t \<in> set (rule_Dst r). matchDst t (ForwardHost ph) (buildMatchContext (normalizeLogin (Login i)) p (cd_Nodes d))))"

lemma normalizeLogin_trim [simp]: "normalizeLogin (trim_space l) = normalizeLogin l"
  by (simp add: normalizeLogin_def)

lemma may_open_rule_grants:
  "may_open i d p ph \<longleftrightarrow> (\<exists>r \<in> set (accessRules (Some p)). rule_grants ph (buildIdentitySet (Some i) (Some p))
     (grantRoleSelectorSet (trim_space (Login i)) (Some d)) (buildMatchContext (normalizeLogin (Login i)) p (cd_Nodes d)) r)"
  by (simp only: may_open_def rule_grants_def sourceGrantForRule_iff destinationGrant_iff)

lemma grantRoleSelectorSet_hosts:
  "grantRoleSelectorSet l (Some (d\<lparr>cd_ProxyHosts := hosts\<rparr>)) = grantRoleSelectorSet l (Some d)"
  by (simp add: grantRoleSelectorSet_def)

lemma set_service_matches:
  "sm_Card ` set (service_matches i d p) =
     {c. \<exists>ph \<in> set (cd_ProxyHosts d). Enabled ph \<and> DomainNames ph \<noteq> [] \<and> may_open i d p ph \<and>
        resolveServiceCard ph (cd_ServiceMetadata d) = Some c}"
proof -
  have "c \<in> sm_Card ` set (service_matches i d p) \<longleftrightarrow> (\<exists>ph \<in> set (cd_ProxyHosts d). Enabled ph \<and> DomainNames ph \<noteq> [] \<and>
      (\<exists>e. service_rules ph (cd_ServiceMetadata d) (buildIdentitySet (Some i) (Some p))
        (grantRoleSelectorSet (trim_space (Login i)) (Some d)) (buildMatchContext (normalizeLogin (Login i)) p (cd_Nodes d))
        (accessRules (Some p)) = Some e \<and> sm_Card e = c))" for c
    by (auto simp: service_matches_def Let_def map_filter_def image_iff split: if_splits)
  then show ?thesis
    unfolding service_rules_Some may_open_rule_grants set_eq_iff mem_Collect_eq by simp
qed

text \<open>
  C1: The portal shows exactly the services the policy opens: a card is in the answer if and only
  if it is the card of an enabled proxy host with a domain that the specification grants to the
  identity. A missing identity, policy or snapshot, or a blank login, yields no card.
\<close>
theorem MatchServices_exact:
  "set (MatchServices identity data) =
     {c. \<exists>i d p ph. identity = Some i \<and> data = Some d \<and> cd_Policy d = Some p \<and> normalizeLogin (Login i) \<noteq> [] \<and>
        ph \<in> set (cd_ProxyHosts d) \<and> Enabled ph \<and> DomainNames ph \<noteq> [] \<and> may_open i d p ph \<and>
        resolveServiceCard ph (cd_ServiceMetadata d) = Some c}"
proof (cases "identity = None \<or> data = None")
  case True
  then show ?thesis by (auto simp: MatchServices_def evaluateServices_def split: option.splits)
next
  case False
  then obtain i d where id: "identity = Some i" "data = Some d" by (cases identity; cases data) auto
  show ?thesis
  proof (cases "cd_Policy d")
    case None
    with id show ?thesis by (auto simp: MatchServices_def evaluateServices_def)
  next
    case (Some p)
    with id set_service_matches [of i d p] show ?thesis
      by (auto simp: MatchServices_def evaluateServices_def)
  qed
qed

text \<open>
  The answer is ordered by category, order, name and ID, and does not depend on the order in
  which the proxy manager lists the hosts: with one host per ID, any permutation of the hosts
  gives the same list of cards.
\<close>
theorem MatchServices_order:
  assumes "distinct (map ph_ID (cd_ProxyHosts d))" and "mset hosts = mset (cd_ProxyHosts d)"
  shows "MatchServices identity (Some (d\<lparr>cd_ProxyHosts := hosts\<rparr>)) = MatchServices identity (Some d) \<and>
    sorted_wrt (\<lambda>l r. \<not> serviceCardLess (serviceMetadataHasOrganization (cd_ServiceMetadata d)) r l)
      (MatchServices identity (Some d))"
proof (cases "\<exists>i p. identity = Some i \<and> cd_Policy d = Some p \<and> normalizeLogin (Login i) \<noteq> []")
  case False
  then show ?thesis by (auto simp: MatchServices_def evaluateServices_def split: option.splits)
next
  case True
  then obtain i p where ip: "identity = Some i" "cd_Policy d = Some p" "normalizeLogin (Login i) \<noteq> []" by blast
  define f where "f = (\<lambda>ph. if \<not> Enabled ph \<or> DomainNames ph = [] then None
      else service_rules ph (cd_ServiceMetadata d) (buildIdentitySet (Some i) (Some p))
        (grantRoleSelectorSet (trim_space (Login i)) (Some d)) (buildMatchContext (normalizeLogin (Login i)) p (cd_Nodes d))
        (accessRules (Some p)))"
  let ?o = "serviceMetadataHasOrganization (cd_ServiceMetadata d)"
  let ?lt = "\<lambda>l r. serviceCardLess ?o (sm_Card l) (sm_Card r)"
  have matches: "service_matches i d p = List.map_filter f (cd_ProxyHosts d)"
      "service_matches i (d\<lparr>cd_ProxyHosts := hosts\<rparr>) p = List.map_filter f hosts"
    unfolding service_matches_def f_def Let_def normalizeLogin_trim grantRoleSelectorSet_hosts
    by (simp_all cong: if_cong)
  have host: "f ph = Some e \<Longrightarrow> sm_ProxyHost e = ph \<and> card_ID (sm_Card e) = ph_ID ph" for ph e
    by (auto simp: f_def split: if_splits dest: service_rules_card resolveServiceCard_ID)
  have sep: "\<forall>x \<in> set (List.map_filter f (cd_ProxyHosts d)). \<forall>y \<in> set (List.map_filter f (cd_ProxyHosts d)).
      x \<noteq> y \<longrightarrow> ?lt x y \<or> ?lt y x"
  proof (intro ballI impI)
    fix x y
    assume x: "x \<in> set (List.map_filter f (cd_ProxyHosts d))" and y: "y \<in> set (List.map_filter f (cd_ProxyHosts d))" and "x \<noteq> y"
    from x y obtain a b where "a \<in> set (cd_ProxyHosts d)" "f a = Some x" "b \<in> set (cd_ProxyHosts d)" "f b = Some y"
      by (auto simp: map_filter_def)
    with \<open>x \<noteq> y\<close> have "card_ID (sm_Card x) \<noteq> card_ID (sm_Card y)"
      using assms(1) host [of a x] host [of b y] by (auto simp: distinct_map inj_on_def)
    then show "?lt x y \<or> ?lt y x" by (rule card_less_separates)
  qed
  have "mset (List.map_filter f (cd_ProxyHosts d)) = mset (List.map_filter f hosts)"
    using assms(2) by (simp add: map_filter_def mset_filter)
  from evidence_order.sort_slice_permute_on [OF this sep]
  have "MatchServices identity (Some (d\<lparr>cd_ProxyHosts := hosts\<rparr>)) = MatchServices identity (Some d)"
    using ip by (simp add: MatchServices_def evaluateServices_def matches)
  moreover have "sorted_wrt (\<lambda>l r. \<not> serviceCardLess ?o r l) (MatchServices identity (Some d))"
    using ip evidence_order.sorted_sort_slice [of ?o "service_matches i d p"]
    by (simp add: MatchServices_def evaluateServices_def sorted_wrt_map)
  ultimately show ?thesis ..
qed

definition sample_identity :: Identity where
  "sample_identity = \<lparr>Login = ''alice@example.com'', id_Name = ''Alice'', ProfilePic = []\<rparr>"

definition sample_hosts :: "ProxyHost list" where
  "sample_hosts = map (\<lambda>(i, domain). \<lparr>ph_ID = i, DomainNames = [domain], ForwardScheme = ''http'', ForwardHost = ''backend'',
     ForwardPort = 8080, AccessListID = 0, Enabled = True, NginxOnline = True\<rparr>)
     [(2, ''wiki.example.com''), (1, ''app.example.com'')]"

definition sample_data :: "ProxyHost list \<Rightarrow> CacheData" where
  "sample_data hosts = \<lparr>cd_Policy = Some (emptyPolicy\<lparr>ACLs := [\<lparr>acl_Action = ''accept'', acl_Src = [''*''], acl_Dst = [''*:*'']\<rparr>]\<rparr>),
     cd_Nodes = [], cd_ProxyHosts = hosts, cd_ServiceMetadata = None, GrantRoleSelectorsByLogin = [], MachineSSHCapableByID = [],
     cd_ControlPlane = \<lparr>Provider = Headscale, cpm_PolicyMode = LegacyACL, Supported = True\<rparr>, UpdatedAt = 0\<rparr>"

lemma MatchServices_order_witness:
  "MatchServices (Some sample_identity) (Some (sample_data (rev sample_hosts))) =
   MatchServices (Some sample_identity) (Some (sample_data sample_hosts))"
proof -
  have "distinct (map ph_ID (cd_ProxyHosts (sample_data sample_hosts)))"
    "mset (rev sample_hosts) = mset (cd_ProxyHosts (sample_data sample_hosts))"
    by (simp_all add: sample_data_def sample_hosts_def)
  from MatchServices_order [OF this, of "Some sample_identity"] show ?thesis
    by (simp add: sample_data_def)
qed

section \<open>Identities: exact logins and groups\<close>

lemma identityTokens_exact:
  assumes "contains_byte (trim_space login) (CHR ''@'')" and "\<not> has_suffix (trim_space login) ''@''"
  shows "identityTokens login = {trim_space login}"
proof -
  have "trim_space login \<noteq> []" using assms(1) by (auto simp: contains_byte_def)
  moreover from this have "normalizeLogin login = trim_space login"
    using assms(1) by (simp add: normalizeLogin_def Let_def)
  ultimately show ?thesis using assms(2) by (simp add: identityTokens_def Let_def)
qed

text \<open>
  A fully qualified login is matched exactly: it has one source token, itself, so no other
  login and no short form of another domain identifies it.
\<close>
theorem qualified_login_exact:
  assumes "contains_byte (trim_space login) (CHR ''@'')" and "\<not> has_suffix (trim_space login) ''@''"
  shows "identityTokens login = {trim_space login} \<and>
    (loginMatches login candidate \<longleftrightarrow> trim_space candidate = trim_space login)"
proof
  show tokens: "identityTokens login = {trim_space login}" using assms by (rule identityTokens_exact)
  have "trim_space login \<noteq> []" using assms(1) by (auto simp: contains_byte_def)
  then show "loginMatches login candidate \<longleftrightarrow> trim_space candidate = trim_space login"
    unfolding loginMatches_def tokens Let_def by (cases "trim_space candidate = []") simp_all
qed

lemma qualified_login_exact_witness:
  "\<not> loginMatches ''alice@a.example'' ''alice@b.example'' \<and> \<not> loginMatches ''alice@a.example'' ''alice''"
proof -
  have trims: "trim_space ''alice@a.example'' = ''alice@a.example''" "trim_space ''alice@b.example'' = ''alice@b.example''"
    "trim_space ''alice'' = ''alice''" by code_simp+
  have "contains_byte (trim_space ''alice@a.example'') (CHR ''@'')" "\<not> has_suffix (trim_space ''alice@a.example'') ''@''"
    unfolding trims by (simp_all add: contains_byte_def has_suffix_def)
  from qualified_login_exact [OF this] show ?thesis by (simp add: trims)
qed

text \<open>Groups whose members are people, not groups: one pass over the map adds every group.\<close>

definition flat_groups :: "(string, string list) gomap \<Rightarrow> bool" where
  "flat_groups gs \<longleftrightarrow> (\<forall>(g, ms) \<in> set gs. \<forall>m \<in> set ms. trim_space m \<notin> fst ` set gs)"

definition member_groups :: "string set \<Rightarrow> (string, string list) gomap \<Rightarrow> string set" where
  "member_groups ids gs = set (map fst (List.filter (\<lambda>(g, ms). list_ex (\<lambda>m. trim_space m \<in> ids) ms) gs))"

lemma foldl_add_group_flat:
  assumes "\<forall>(g, ms) \<in> set gs. \<forall>m \<in> set ms. trim_space m \<notin> names" and "fst ` set gs \<subseteq> names" and "extra \<subseteq> names"
  shows "foldl add_group (ids \<union> extra) gs = ids \<union> extra \<union> member_groups ids gs"
  using assms
proof (induction gs arbitrary: extra)
  case (Cons e gs)
  obtain g ms where e: "e = (g, ms)" by (cases e)
  have member: "list_ex (\<lambda>m. trim_space m \<in> ids \<union> extra) ms \<longleftrightarrow> (\<exists>m \<in> set ms. trim_space m \<in> ids)"
    using Cons.prems by (auto simp: e list_ex_iff)
  have step: "add_group (ids \<union> extra) e = ids \<union> (if \<exists>m \<in> set ms. trim_space m \<in> ids then insert g extra else extra)"
    unfolding e add_group_def prod.case member by auto
  have "foldl add_group (add_group (ids \<union> extra) e) gs =
      ids \<union> (if \<exists>m \<in> set ms. trim_space m \<in> ids then insert g extra else extra) \<union> member_groups ids gs"
    unfolding step using Cons.prems by (intro Cons.IH) (auto simp: e)
  then show ?case by (auto simp: member_groups_def e list_ex_iff)
qed (simp add: member_groups_def)

text \<open>
  When no group is a member of a group, the source tokens of an identity are its login forms
  and exactly the groups that list one of them: the order in which the group map is visited does
  not show.
\<close>
theorem buildIdentitySet_flat:
  assumes "flat_groups (Groups p)"
  shows "buildIdentitySet (Some i) (Some p) =
    identityTokens (Login i) \<union> member_groups (identityTokens (Login i)) (Groups p)"
proof (cases "identityTokens (Login i) = {}")
  case True
  then show ?thesis by (simp add: buildIdentitySet_def member_groups_def list_ex_iff)
next
  case False
  then show ?thesis
    using foldl_add_group_flat [of "Groups p" "fst ` set (Groups p)" "{}" "identityTokens (Login i)"] assms
    by (simp add: buildIdentitySet_def flat_groups_def Let_def)
qed

lemma buildIdentitySet_flat_witness:
  "''group:ops'' \<in> buildIdentitySet (Some sample_identity)
     (Some (emptyPolicy\<lparr>Groups := [(''group:ops'', [''alice@example.com''])]\<rparr>))"
  by (subst buildIdentitySet_flat) code_simp+

text \<open>
  Nested groups: a chain starts with a group that lists one of the identities and goes on with groups
  that each list the one before.
\<close>

fun group_chain :: "string set \<Rightarrow> (string \<times> string list) list \<Rightarrow> bool" where
  "group_chain ids [] = True"
| "group_chain ids ((g, ms) # c) = ((\<exists>m \<in> set ms. trim_space m \<in> ids) \<and> group_chain {g} c)"

lemma group_chain_insert: "c \<noteq> [] \<Longrightarrow> group_chain (insert g ids) c \<longleftrightarrow> group_chain ids c \<or> group_chain {g} c"
  by (cases "(ids, c)" rule: group_chain.cases) auto

lemma group_chain_append:
  "c \<noteq> [] \<Longrightarrow> group_chain ids (c @ d) \<longleftrightarrow> group_chain ids c \<and> group_chain {fst (last c)} d"
  by (induction ids c rule: group_chain.induct) auto

lemma in_subseqs_Cons: "c \<in> set (subseqs (e # gs)) \<longleftrightarrow> c \<in> set (subseqs gs) \<or> (\<exists>d. c = e # d \<and> d \<in> set (subseqs gs))"
  by (auto simp: Let_def)

lemma in_subseqs_set: "c \<in> set (subseqs gs) \<Longrightarrow> set c \<subseteq> set gs"
  using subseqs_powset [of gs] by blast

lemma in_subseqs_tail: "c @ d \<in> set (subseqs gs) \<Longrightarrow> d \<in> set (subseqs gs)"
proof (induction gs arbitrary: c)
  case (Cons e gs)
  then consider "c @ d \<in> set (subseqs gs)" | f where "c @ d = e # f" "f \<in> set (subseqs gs)" unfolding in_subseqs_Cons by blast
  then show ?case
  proof cases
    case 1
    then show ?thesis unfolding in_subseqs_Cons using Cons.IH by blast
  next
    case 2
    then show ?thesis unfolding in_subseqs_Cons using Cons.IH by (cases c) auto
  qed
qed simp

definition chained :: "string set \<Rightarrow> (string, string list) gomap \<Rightarrow> string set" where
  "chained ids gs = {g. \<exists>c. c \<in> set (subseqs gs) \<and> c \<noteq> [] \<and> group_chain ids c \<and> g = fst (last c)}"

lemma chained_Cons:
  "chained ids ((g, ms) # gs) =
    chained ids gs \<union> (if \<exists>m \<in> set ms. trim_space m \<in> ids then insert g (chained {g} gs) else {})"
proof (intro set_eqI iffI)
  fix t
  assume "t \<in> chained ids ((g, ms) # gs)"
  then obtain c where c: "c \<in> set (subseqs ((g, ms) # gs))" "c \<noteq> []" "group_chain ids c" "t = fst (last c)" by (auto simp: chained_def)
  then consider "c \<in> set (subseqs gs)" | d where "c = (g, ms) # d" "d \<in> set (subseqs gs)" unfolding in_subseqs_Cons by blast
  then show "t \<in> chained ids gs \<union> (if \<exists>m \<in> set ms. trim_space m \<in> ids then insert g (chained {g} gs) else {})"
    using c by cases (auto simp: chained_def)
next
  fix t
  assume t: "t \<in> chained ids gs \<union> (if \<exists>m \<in> set ms. trim_space m \<in> ids then insert g (chained {g} gs) else {})"
  show "t \<in> chained ids ((g, ms) # gs)"
  proof (cases "t \<in> chained ids gs")
    case True
    then show ?thesis unfolding chained_def in_subseqs_Cons by blast
  next
    case False
    with t have direct: "\<exists>m \<in> set ms. trim_space m \<in> ids" and "t = g \<or> t \<in> chained {g} gs" by (auto split: if_splits)
    obtain d where "d \<in> set (subseqs gs)" "group_chain {g} d" "t = fst (last ((g, ms) # d))"
    proof (cases "t = g")
      case True
      have "[] \<in> set (subseqs gs)" by (induction gs) (auto simp: Let_def)
      with True that [of "[]"] show thesis by simp
    next
      case False
      with \<open>t = g \<or> t \<in> chained {g} gs\<close> that show thesis by (auto simp: chained_def)
    qed
    with direct show ?thesis unfolding chained_def in_subseqs_Cons by (intro CollectI exI [of _ "(g, ms) # d"]) simp
  qed
qed

lemma chained_insert: "chained (insert g ids) gs = chained ids gs \<union> chained {g} gs"
  unfolding chained_def using group_chain_insert by blast

lemma foldl_add_group_chained: "foldl add_group ids gs = ids \<union> chained ids gs"
proof (induction gs arbitrary: ids)
  case (Cons e gs)
  obtain g ms where e: "e = (g, ms)" by (cases e)
  have step: "add_group ids e = (if \<exists>m \<in> set ms. trim_space m \<in> ids then insert g ids else ids)"
    by (simp add: e add_group_def list_ex_iff)
  have "insert g ids \<union> chained (insert g ids) gs = ids \<union> (chained ids gs \<union> insert g (chained {g} gs))"
    unfolding chained_insert [of g ids] by blast
  with Cons [of ids] Cons [of "insert g ids"] show ?case
    unfolding foldl_Cons step unfolding e chained_Cons by (simp split: if_split)
next
  case Nil
  have "chained ids [] = {}" for ids by (auto simp: chained_def)
  then show ?case by simp
qed

lemma chained_none: "chained {} gs = {}"
proof -
  have "c \<noteq> [] \<Longrightarrow> \<not> group_chain {} c" for c by (cases c) auto
  then show ?thesis by (auto simp: chained_def)
qed

lemma buildIdentitySet_chained:
  "buildIdentitySet (Some i) (Some p) = identityTokens (Login i) \<union> chained (identityTokens (Login i)) (Groups p)"
  using foldl_add_group_chained chained_none by (simp add: buildIdentitySet_def Let_def)

text \<open>
  C39: Nested groups are followed only along the order in which the map happens to be visited. For every policy and every
  visiting order, the source tokens of an identity are its login forms and exactly the groups at the end of a
  chain that is visited from inner to outer: its first group lists a login form, each further one lists the group
  before it, and all stand in that order in the visit, with any others between them. So the outer of two nested groups, with the login only in the
  inner one, is reached in one order of the same map and missed in the other.
\<close>
theorem nested_groups_follow_the_visit:
  "t \<in> buildIdentitySet (Some i) (Some p) \<longleftrightarrow> t \<in> identityTokens (Login i) \<or>
    (\<exists>c. c \<in> set (subseqs (Groups p)) \<and> c \<noteq> [] \<and> group_chain (identityTokens (Login i)) c \<and> t = fst (last c))"
  by (simp add: buildIdentitySet_chained chained_def)

text \<open>The two nested groups: the outer one counts exactly when the inner one is visited before it.\<close>

theorem nested_groups_depend_on_order:
  assumes dist: "distinct (map fst (Groups p))" and entries: "(inner, ms) \<in> set (Groups p)" "(outer, ns) \<in> set (Groups p)"
    and login: "m \<in> set ms" "trim_space m \<in> identityTokens (Login i)"
    and nested: "n \<in> set ns" "trim_space n = inner"
    and only: "\<forall>n' \<in> set ns. trim_space n' \<notin> identityTokens (Login i) \<and> (trim_space n' \<in> fst ` set (Groups p) \<longrightarrow> trim_space n' = inner)"
    and new: "outer \<notin> identityTokens (Login i)"
  shows "outer \<in> buildIdentitySet (Some i) (Some p) \<longleftrightarrow> [(inner, ms), (outer, ns)] \<in> set (subseqs (Groups p))"
proof
  let ?ids = "identityTokens (Login i)"
  assume "outer \<in> buildIdentitySet (Some i) (Some p)"
  with new obtain c where c: "c \<in> set (subseqs (Groups p))" "c \<noteq> []" "group_chain ?ids c" "outer = fst (last c)"
    by (auto simp: buildIdentitySet_chained chained_def)
  have entry: "e \<in> set c \<Longrightarrow> e \<in> set (Groups p)" for e using in_subseqs_set [OF c(1)] by blast
  have unique: "(g, xs) \<in> set (Groups p) \<Longrightarrow> (g, ys) \<in> set (Groups p) \<Longrightarrow> xs = ys" for g xs ys
    using dist by (metis eq_key_imp_eq_value)
  obtain d where d: "c = d @ [(outer, ns)]"
    using c(2,4) entry [of "last c"] entries(2) unique by (metis append_butlast_last_id last_in_set prod.collapse)
  have "d \<noteq> []"
  proof
    assume "d = []"
    with c(3) d have "\<exists>n' \<in> set ns. trim_space n' \<in> ?ids" by simp
    with only show False by blast
  qed
  then obtain b h hs where b: "d = b @ [(h, hs)]" by (metis rev_exhaust surj_pair)
  from c(3) have "group_chain {fst (last d)} [(outer, ns)]" unfolding d group_chain_append [OF \<open>d \<noteq> []\<close>] by (rule conjunct2)
  then have "\<exists>n' \<in> set ns. trim_space n' = h" by (simp add: b)
  moreover have mem: "(h, hs) \<in> set (Groups p)" by (rule entry) (simp add: d b)
  then have "h \<in> fst ` set (Groups p)" by force
  ultimately have "h = inner" using only by auto
  with mem entries(1) unique have "hs = ms" by blast
  with \<open>h = inner\<close> c(1) show "[(inner, ms), (outer, ns)] \<in> set (subseqs (Groups p))"
    using in_subseqs_tail [of b "[(h, hs), (outer, ns)]"] by (simp add: d b)
next
  assume "[(inner, ms), (outer, ns)] \<in> set (subseqs (Groups p))"
  moreover have "group_chain (identityTokens (Login i)) [(inner, ms), (outer, ns)]" using login nested by auto
  ultimately have "outer \<in> chained (identityTokens (Login i)) (Groups p)"
    unfolding chained_def by (intro CollectI exI [of _ "[(inner, ms), (outer, ns)]"]) simp
  then show "outer \<in> buildIdentitySet (Some i) (Some p)" by (simp add: buildIdentitySet_chained)
qed

lemma nested_groups_example:
  defines "gs \<equiv> [(''group:ops'', [''alice@example.com'']), (''group:all'', [''group:ops''])]"
  shows "''group:all'' \<in> buildIdentitySet (Some sample_identity) (Some (emptyPolicy\<lparr>Groups := gs\<rparr>))"
    and "''group:all'' \<notin> buildIdentitySet (Some sample_identity) (Some (emptyPolicy\<lparr>Groups := rev gs\<rparr>))"
  unfolding gs_def by code_simp+

section \<open>Tags and own nodes\<close>








end
