(* ===== verification/Metadata.thy ===== *)
theory Metadata
  imports Health_Config Matcher Go_Json_Raw Go_Struct
begin

text \<open>
  The service metadata document (\<open>service_metadata.go\<close>, \<open>service_icons.go\<close>): its validators
  and its strict parser.
\<close>

section \<open>Icons\<close>

record serviceIcon =
  icon_ID :: string
  icon_Label :: string
  icon_Path :: string

definition serviceIcons :: "serviceIcon list" where
  "serviceIcons = map (\<lambda>(i, l, p). \<lparr>icon_ID = i, icon_Label = l, icon_Path = ''/static/service-icons/'' @ p\<rparr>)
    [(''generic'', ''Generic service'', ''generic.svg''),
     (''adguard-home'', ''AdGuard Home'', ''adguard-home.png''),
     (''gitea'', ''Gitea'', ''gitea.png''),
     (''grafana'', ''Grafana'', ''grafana.png''),
     (''home-assistant'', ''Home Assistant'', ''home-assistant.png''),
     (''immich'', ''Immich'', ''immich.png''),
     (''jellyfin'', ''Jellyfin'', ''jellyfin.png''),
     (''nextcloud'', ''Nextcloud'', ''nextcloud.png''),
     (''nginx-proxy-manager'', ''Nginx Proxy Manager'', ''nginx-proxy-manager.png''),
     (''paperless-ngx'', ''Paperless-ngx'', ''paperless-ngx.png''),
     (''portainer'', ''Portainer'', ''portainer.png''),
     (''qbittorrent'', ''qBittorrent'', ''qbittorrent.png''),
     (''uptime-kuma'', ''Uptime Kuma'', ''uptime-kuma.png'')]"

definition serviceIconIDs :: "string list" where
  "serviceIconIDs = map icon_ID serviceIcons"

definition serviceIconForID :: "string \<Rightarrow> serviceIcon" where
  "serviceIconForID i = (case find (\<lambda>icon. icon_ID icon = i) serviceIcons of Some icon \<Rightarrow> icon | None \<Rightarrow> hd serviceIcons)"

definition validServiceIcon :: "string \<Rightarrow> bool" where
  "validServiceIcon value \<longleftrightarrow> value \<in> set serviceIconIDs"

section \<open>Fields\<close>

definition validateServiceMetadataName :: "string \<Rightarrow> string option" where
  "validateServiceMetadataName value =
     (if value = [] \<or> trim_space value \<noteq> value then None
      else if \<not> utf8_valid value \<or> rune_count value > 120 \<or> contains_control value then None
      else Some value)"

definition validateServiceMetadataCategory :: "string \<Rightarrow> string option" where
  "validateServiceMetadataCategory value =
     (if value = [] \<or> trim_space value \<noteq> value then None
      else if \<not> utf8_valid value \<or> rune_count value > 64 \<or> contains_control value then None
      else Some value)"

definition validateServiceMetadataURL :: "string \<Rightarrow> string option" where
  "validateServiceMetadataURL value =
     (if value = [] \<or> trim_space value \<noteq> value \<or> length value > 2048 \<or> contains_control value then None
      else (case url_parse value of None \<Rightarrow> None | Some u \<Rightarrow>
        if \<not> is_abs u \<or> Opaque u \<noteq> [] then None
        else if Scheme u \<noteq> ''http'' \<and> Scheme u \<noteq> ''https'' then None
        else if HasUser u \<or> Host u = [] \<or> hostname u = [] \<or> contains_byte (hostname u) (CHR ''*'') then None
        else Some (url_string u)))"

section \<open>Strict documents\<close>

datatype metadata_error =
    MetaTooLarge | MetaEmpty | MetaInvalid | MetaDuplicateField | MetaBadVersion | MetaServicesNotArray | MetaTooManyServices
  | EntryBadID nat | EntryDuplicateID nat | EntryNothingSet nat
  | EntryBadName nat | EntryBadURL nat | EntryBadCategory nat | EntryBadOrder nat | EntryBadIcon nat

text \<open>\<open>walkJSONValue\<close> is the walk of the health configuration.\<close>

definition walkJSONValue :: "json \<Rightarrow> bool" where
  "walkJSONValue v = walkServiceHealthJSONValue v"

definition rejectDuplicateJSONFields :: "string \<Rightarrow> metadata_error + json" where
  "rejectDuplicateJSONFields data = (case json_parse data of None \<Rightarrow> Inl MetaInvalid | Some v \<Rightarrow>
     if walkJSONValue v then Inr v else Inl MetaDuplicateField)"

text \<open>One service of the document: the fields its version allows, none of the newer ones null.\<close>

definition canonical_service :: "int \<Rightarrow> string \<Rightarrow> bool" where
  "canonical_service version raw = (case raw_object raw of
     Some (Some service) \<Rightarrow>
       (let modern = (version = 2 \<or> version = 3); null = (\<lambda>t. trim_space t = ''null'');
            field = map_of service in
        \<not> (version = 3 \<and> (case field ''icon'' of Some t \<Rightarrow> null t | None \<Rightarrow> False)) \<and>
        list_all (\<lambda>f. f \<in> set ([''proxy_host_id'', ''name'', ''url''] @ (if modern then [''category'', ''order''] else []) @
          (if version = 3 then [''icon''] else []))) (map fst service) \<and>
        (modern \<longrightarrow>
          (case field ''category'' of Some t \<Rightarrow> \<not> null t \<and> utf8_valid t \<and>
             (case json_parse t of Some v \<Rightarrow> as_string v \<noteq> None | None \<Rightarrow> False) | None \<Rightarrow> True) \<and>
          (case field ''order'' of Some t \<Rightarrow> \<not> null t | None \<Rightarrow> True)))
   | _ \<Rightarrow> True)"

definition rejectNonCanonicalServiceMetadataFields :: "string \<Rightarrow> bool" where
  "rejectNonCanonicalServiceMetadataFields data = (case raw_object data of
     None \<Rightarrow> False
   | Some None \<Rightarrow> True
   | Some (Some doc) \<Rightarrow>
       if \<not> list_all (\<lambda>f. f \<in> {''version'', ''services''}) (map fst doc) then False
       else (let version = (case map_of doc ''version'' of None \<Rightarrow> 0 | Some t \<Rightarrow>
               (case json_parse t of None \<Rightarrow> 0 | Some v \<Rightarrow> (case as_int v of None \<Rightarrow> 0 | Some n \<Rightarrow> n))) in
         (case map_of doc ''services'' of None \<Rightarrow> True | Some t \<Rightarrow>
            (case raw_array t of Some (Some services) \<Rightarrow> list_all (canonical_service version) services | _ \<Rightarrow> True))))"

section \<open>Decoding\<close>

text \<open>A pointer field: JSON null and a missing member leave it nil.\<close>

definition ptr_field :: "(json \<Rightarrow> 'a option) \<Rightarrow> json option \<Rightarrow> 'a option option" where
  "ptr_field f v = (case v of None \<Rightarrow> Some None | Some w \<Rightarrow> if w = JNull then Some None
     else (case f w of None \<Rightarrow> None | Some a \<Rightarrow> Some (Some a)))"

definition entry_fields :: "string list" where
  "entry_fields = [''proxy_host_id'', ''name'', ''url'', ''category'', ''order'', ''icon'']"

definition zero_entry :: serviceMetadataEntry where
  "zero_entry = \<lparr>entry_ProxyHostID = 0, entry_Name = None, entry_URL = None, entry_Category = None, entry_Order = None,
     entry_Icon = None, entry_NameNull = False, entry_URLNull = False\<rparr>"

definition decode_entry :: "json \<Rightarrow> serviceMetadataEntry option" where
  "decode_entry v = (case as_raw_map v of None \<Rightarrow> None | Some None \<Rightarrow> Some zero_entry
     | Some (Some m) \<Rightarrow>
         if \<not> list_all (\<lambda>f. f \<in> set entry_fields) (map fst m) then None
         else (case (case map_of m ''proxy_host_id'' of None \<Rightarrow> Some 0 | Some w \<Rightarrow> as_int w) of None \<Rightarrow> None | Some i \<Rightarrow>
           (case ptr_field as_string (map_of m ''name'') of None \<Rightarrow> None | Some name \<Rightarrow>
           (case ptr_field as_string (map_of m ''url'') of None \<Rightarrow> None | Some link \<Rightarrow>
           (case ptr_field as_string (map_of m ''category'') of None \<Rightarrow> None | Some category \<Rightarrow>
           (case ptr_field as_int (map_of m ''order'') of None \<Rightarrow> None | Some order \<Rightarrow>
           (case ptr_field as_string (map_of m ''icon'') of None \<Rightarrow> None | Some icon \<Rightarrow>
             Some \<lparr>entry_ProxyHostID = i, entry_Name = name, entry_URL = link, entry_Category = category, entry_Order = order,
               entry_Icon = icon, entry_NameNull = (map_of m ''name'' = Some JNull),
               entry_URLNull = (map_of m ''url'' = Some JNull)\<rparr>)))))))"

text \<open>The document; \<open>None\<close> for the services is a nil slice.\<close>

definition decode_document :: "json \<Rightarrow> (int \<times> serviceMetadataEntry list option) option" where
  "decode_document v = (case as_raw_map v of None \<Rightarrow> None | Some None \<Rightarrow> Some (0, None)
     | Some (Some m) \<Rightarrow>
         if \<not> list_all (\<lambda>f. f \<in> {''version'', ''services''}) (map fst m) then None
         else (case (case map_of m ''version'' of None \<Rightarrow> Some 0 | Some w \<Rightarrow> as_int w) of None \<Rightarrow> None | Some version \<Rightarrow>
           (case map_of m ''services'' of None \<Rightarrow> Some (version, None) | Some w \<Rightarrow>
             (case as_raws w of None \<Rightarrow> None | Some None \<Rightarrow> Some (version, None)
              | Some (Some vs) \<Rightarrow> (case decode_each decode_entry vs of None \<Rightarrow> None | Some es \<Rightarrow> Some (version, Some es))))))"

section \<open>Entries\<close>

definition opt_check :: "'e \<Rightarrow> ('a \<Rightarrow> 'b option) \<Rightarrow> 'b \<Rightarrow> 'a option \<Rightarrow> 'e + 'b" where
  "opt_check e f zero x = (case x of None \<Rightarrow> Inr zero | Some a \<Rightarrow> some_or e (f a))"

definition entry_sets_nothing :: "serviceMetadataEntry \<Rightarrow> bool" where
  "entry_sets_nothing e \<longleftrightarrow> entry_Name e = None \<and> entry_URL e = None \<and> entry_Category e = None \<and> entry_Order e = None \<and> entry_Icon e = None"

definition valid_order :: "int \<Rightarrow> int option option" where
  "valid_order n = (if n < 0 \<or> n > 1000000 then None else Some (Some n))"

definition valid_icon :: "string \<Rightarrow> string option" where
  "valid_icon s = (if validServiceIcon s then Some s else None)"

definition entry_override :: "nat \<Rightarrow> serviceMetadataEntry \<Rightarrow> metadata_error + ServiceOverride" where
  "entry_override i e =
     and_then (opt_check (EntryBadName i) validateServiceMetadataName [] (entry_Name e)) (\<lambda>name.
     and_then (opt_check (EntryBadURL i) validateServiceMetadataURL [] (entry_URL e)) (\<lambda>link.
     and_then (opt_check (EntryBadCategory i) validateServiceMetadataCategory [] (entry_Category e)) (\<lambda>category.
     and_then (opt_check (EntryBadOrder i) valid_order None (entry_Order e)) (\<lambda>order.
     and_then (opt_check (EntryBadIcon i) valid_icon [] (entry_Icon e)) (\<lambda>icon.
       Inr \<lparr>override_Name = name, override_URL = link, override_Category = category, override_Order = order, override_Icon = icon\<rparr>)))))"

fun metadata_entries :: "nat \<Rightarrow> (int, ServiceOverride) gomap \<Rightarrow> serviceMetadataEntry list \<Rightarrow> metadata_error + (int, ServiceOverride) gomap"
where
  "metadata_entries i acc [] = Inr acc"
| "metadata_entries i acc (e # es) =
     (if entry_ProxyHostID e \<le> 0 then Inl (EntryBadID i)
      else if gomap_has acc (entry_ProxyHostID e) then Inl (EntryDuplicateID i)
      else if entry_sets_nothing e then Inl (EntryNothingSet i)
      else (case entry_override i e of Inl err \<Rightarrow> Inl err
        | Inr ov \<Rightarrow> metadata_entries (Suc i) (gomap_put acc (entry_ProxyHostID e) ov) es))"

definition validate_document :: "serviceMetadataDocument \<Rightarrow> metadata_error + ServiceMetadata" where
  "validate_document doc =
     and_then (reject_if (doc_Version doc \<notin> {1, 2, 3}) MetaBadVersion) (\<lambda>_.
     and_then (reject_if (length (doc_Services doc) > 1024) MetaTooManyServices) (\<lambda>_.
     and_then (metadata_entries 0 [] (doc_Services doc)) (\<lambda>overrides.
       Inr \<lparr>Overrides = overrides, document = doc\<rparr>)))"

definition metadata_document :: "json \<Rightarrow> metadata_error + ServiceMetadata" where
  "metadata_document v = (case decode_document v of None \<Rightarrow> Inl MetaInvalid
     | Some (version, None) \<Rightarrow> Inl (if version \<notin> {1, 2, 3} then MetaBadVersion else MetaServicesNotArray)
     | Some (version, Some es) \<Rightarrow> validate_document \<lparr>doc_Version = version, doc_Services = es\<rparr>)"

definition parseServiceMetadata :: "string \<Rightarrow> metadata_error + ServiceMetadata" where
  "parseServiceMetadata data =
     and_then (reject_if (length data > 256 * 1024) MetaTooLarge) (\<lambda>_.
     and_then (reject_if (trim_space data = []) MetaEmpty) (\<lambda>_.
     and_then (rejectDuplicateJSONFields data) (\<lambda>v.
     and_then (reject_if (\<not> rejectNonCanonicalServiceMetadataFields data) MetaInvalid) (\<lambda>_. metadata_document v))))"

section \<open>Counts\<close>

definition concreteDomainServiceMetadataURLOverrideCount :: "ServiceMetadata option \<Rightarrow> ProxyHost list \<Rightarrow> nat" where
  "concreteDomainServiceMetadataURLOverrideCount metadata hosts = (case metadata of None \<Rightarrow> 0 | Some m \<Rightarrow>
     length (remdups (map ph_ID (List.filter (\<lambda>ph. \<not> (ph_ID ph \<le> 0 \<or>
         (case map_of (Overrides m) (ph_ID ph) of None \<Rightarrow> True | Some ov \<Rightarrow> override_URL ov = [])) \<and>
       list_ex (\<lambda>d. validConcreteCardDomain (trim_space d)) (DomainNames ph)) hosts))))"

definition unmatchedServiceMetadataCount :: "ServiceMetadata option \<Rightarrow> ProxyHost list \<Rightarrow> nat" where
  "unmatchedServiceMetadataCount metadata hosts = (case metadata of None \<Rightarrow> 0 | Some m \<Rightarrow>
     length (List.filter (\<lambda>(i, ov). i \<notin> set (map ph_ID hosts)) (Overrides m)))"

section \<open>What the parser accepts\<close>

definition text_ok :: "nat \<Rightarrow> string \<Rightarrow> bool" where
  "text_ok n s \<longleftrightarrow> s \<noteq> [] \<and> trim_space s = s \<and> utf8_valid s \<and> rune_count s \<le> n \<and> \<not> contains_control s"

text \<open>A link that may stand in the file: within its bounds, with the parts of a web address.\<close>

definition link_text_ok :: "string \<Rightarrow> url \<Rightarrow> bool" where
  "link_text_ok raw u \<longleftrightarrow> raw \<noteq> [] \<and> trim_space raw = raw \<and> length raw \<le> 2048 \<and> \<not> contains_control raw \<and> url_parse raw = Some u \<and>
     (Scheme u = ''http'' \<or> Scheme u = ''https'') \<and> Opaque u = [] \<and> \<not> HasUser u \<and> hostname u \<noteq> [] \<and> CHR ''*'' \<notin> set (hostname u)"

text \<open>The override of an entry: every part is empty where the entry has none, or its canonical text within its bounds.\<close>

definition override_ok :: "serviceMetadataEntry \<Rightarrow> ServiceOverride \<Rightarrow> bool" where
  "override_ok e ov \<longleftrightarrow>
     (case entry_Name e of None \<Rightarrow> override_Name ov = [] | Some s \<Rightarrow> text_ok 120 s \<and> override_Name ov = s) \<and>
     (case entry_Category e of None \<Rightarrow> override_Category ov = [] | Some s \<Rightarrow> text_ok 64 s \<and> override_Category ov = s) \<and>
     (case entry_URL e of None \<Rightarrow> override_URL ov = [] | Some raw \<Rightarrow> (\<exists>u. link_text_ok raw u \<and> override_URL ov = url_string u)) \<and>
     (case entry_Order e of None \<Rightarrow> override_Order ov = None | Some n \<Rightarrow> 0 \<le> n \<and> n \<le> 1000000 \<and> override_Order ov = Some n) \<and>
     (case entry_Icon e of None \<Rightarrow> override_Icon ov = [] | Some i \<Rightarrow> i \<in> set serviceIconIDs \<and> override_Icon ov = i) \<and>
     ov \<noteq> \<lparr>override_Name = [], override_URL = [], override_Category = [], override_Order = None, override_Icon = []\<rparr>"

definition metadata_ok :: "ServiceMetadata \<Rightarrow> bool" where
  "metadata_ok m \<longleftrightarrow> doc_Version (document m) \<in> {1, 2, 3} \<and> length (doc_Services (document m)) \<le> 1024 \<and>
     distinct (map entry_ProxyHostID (doc_Services (document m))) \<and>
     list_all2 (\<lambda>e (i, ov). i = entry_ProxyHostID e \<and> 0 < i \<and> override_ok e ov) (doc_Services (document m)) (Overrides m)"

lemma opt_check_Inr:
  "opt_check e f zero x = Inr b \<longleftrightarrow> (x = None \<and> b = zero) \<or> (\<exists>a. x = Some a \<and> f a = Some b)"
  by (auto simp: opt_check_def split: option.splits)

lemma url_string_scheme: "Scheme u \<noteq> [] \<Longrightarrow> url_string u \<noteq> []"
  by (simp add: url_string_def Let_def)

lemma name_ok: "validateServiceMetadataName s = Some t \<Longrightarrow> t = s \<and> text_ok 120 s"
  by (auto simp: validateServiceMetadataName_def text_ok_def split: if_splits)

lemma category_ok: "validateServiceMetadataCategory s = Some t \<Longrightarrow> t = s \<and> text_ok 64 s"
  by (auto simp: validateServiceMetadataCategory_def text_ok_def split: if_splits)

lemma link_accepted:
  assumes "validateServiceMetadataURL raw = Some t"
  shows "\<exists>u. link_text_ok raw u \<and> t = url_string u"
  using assms by (auto simp: validateServiceMetadataURL_def link_text_ok_def contains_byte_def split: if_splits option.splits)

lemma link_text_shown: "link_text_ok raw u \<Longrightarrow> url_string u \<noteq> []"
  by (auto simp: link_text_ok_def url_string_scheme)

lemma entry_override_ok:
  assumes "entry_override i e = Inr ov" and "\<not> entry_sets_nothing e"
  shows "override_ok e ov"
proof -
  from assms(1) obtain name link category order icon where
    parts: "opt_check (EntryBadName i) validateServiceMetadataName [] (entry_Name e) = Inr name"
    "opt_check (EntryBadURL i) validateServiceMetadataURL [] (entry_URL e) = Inr link"
    "opt_check (EntryBadCategory i) validateServiceMetadataCategory [] (entry_Category e) = Inr category"
    "opt_check (EntryBadOrder i) valid_order None (entry_Order e) = Inr order"
    "opt_check (EntryBadIcon i) valid_icon [] (entry_Icon e) = Inr icon"
    and ov: "ov = \<lparr>override_Name = name, override_URL = link, override_Category = category, override_Order = order, override_Icon = icon\<rparr>"
    unfolding entry_override_def by auto
  have texts: "case entry_Name e of None \<Rightarrow> name = [] | Some s \<Rightarrow> text_ok 120 s \<and> name = s"
      "case entry_Category e of None \<Rightarrow> category = [] | Some s \<Rightarrow> text_ok 64 s \<and> category = s"
    using parts(1,3) by (auto simp: opt_check_Inr dest: name_ok category_ok)
  have link: "case entry_URL e of None \<Rightarrow> link = [] | Some raw \<Rightarrow> (\<exists>u. link_text_ok raw u \<and> link = url_string u)"
    using parts(2) link_accepted by (auto simp: opt_check_Inr)
  have rest: "case entry_Order e of None \<Rightarrow> order = None | Some n \<Rightarrow> 0 \<le> n \<and> n \<le> 1000000 \<and> order = Some n"
      "case entry_Icon e of None \<Rightarrow> icon = [] | Some i \<Rightarrow> i \<in> set serviceIconIDs \<and> icon = i"
    using parts(4,5) by (auto simp: opt_check_Inr valid_order_def valid_icon_def validServiceIcon_def split: if_splits)
  have "[] \<notin> set serviceIconIDs" by code_simp
  with assms(2) texts link rest have "name \<noteq> [] \<or> link \<noteq> [] \<or> category \<noteq> [] \<or> order \<noteq> None \<or> icon \<noteq> []"
    by (auto simp: entry_sets_nothing_def text_ok_def dest: link_text_shown split: option.splits)
  with texts link rest show ?thesis by (simp add: ov override_ok_def split: option.splits)
qed

lemma metadata_entries_ok:
  assumes "metadata_entries i acc es = Inr m" and "gomap_wf acc"
  shows "gomap_wf m \<and> (\<exists>new. m = acc @ new \<and> list_all2 (\<lambda>e (k, ov). k = entry_ProxyHostID e \<and> 0 < k \<and> override_ok e ov) es new)"
  using assms
proof (induction es arbitrary: i acc)
  case (Cons e es)
  then obtain ov where e: "0 < entry_ProxyHostID e" "\<not> gomap_has acc (entry_ProxyHostID e)" "\<not> entry_sets_nothing e"
      "entry_override i e = Inr ov" "metadata_entries (Suc i) (gomap_put acc (entry_ProxyHostID e) ov) es = Inr m"
    by (auto split: if_splits sum.splits)
  have put: "gomap_put acc (entry_ProxyHostID e) ov = acc @ [(entry_ProxyHostID e, ov)]"
    using e(2) by (simp add: gomap_put_def gomap_has_def)
  have wf: "gomap_wf (acc @ [(entry_ProxyHostID e, ov)])" using Cons.prems(2) e(2) by (auto simp: gomap_has_def)
  from Cons.IH [OF e(5) [unfolded put] wf] obtain new where "gomap_wf m" "m = acc @ (entry_ProxyHostID e, ov) # new"
      "list_all2 (\<lambda>e (k, ov). k = entry_ProxyHostID e \<and> 0 < k \<and> override_ok e ov) es new" by auto
  with e(1) entry_override_ok [OF e(4,3)] show ?case by auto
qed simp

lemma override_ids:
  "list_all2 (\<lambda>e (k, ov). k = entry_ProxyHostID e \<and> 0 < k \<and> override_ok e ov) es new \<Longrightarrow> map fst new = map entry_ProxyHostID es"
  by (induction es new rule: list_all2_induct) auto

lemma validate_document_ok:
  assumes "validate_document doc = Inr m"
  shows "metadata_ok m \<and> document m = doc"
proof -
  from assms obtain ovs where v: "doc_Version doc \<in> {1, 2, 3}" "length (doc_Services doc) \<le> 1024"
      "metadata_entries 0 [] (doc_Services doc) = Inr ovs" "m = \<lparr>Overrides = ovs, document = doc\<rparr>"
    unfolding validate_document_def by auto
  with metadata_entries_ok [OF v(3)] override_ids show ?thesis by (fastforce simp: metadata_ok_def)
qed

text \<open>
  C33: A metadata document the parser accepts is within every limit: a text of at most 256 KiB that is not blank, a known
  version, and at most 1024 services with distinct positive IDs. Each service has its own override, in order, which sets
  something: the name and category of the entry, canonical UTF-8 texts without control characters within 120 and 64 runes;
  the normal form of its link, which is written in at most 2048 bytes without control characters or spaces around it,
  and is an absolute HTTP or HTTPS address with a host, no credentials and no wildcard; its order between 0 and 1000000; and
  its icon, which is in the registry.
\<close>
theorem parseServiceMetadata_sound:
  assumes "parseServiceMetadata data = Inr m"
  shows "length data \<le> 256 * 1024 \<and> trim_space data \<noteq> [] \<and> metadata_ok m"
  using assms unfolding parseServiceMetadata_def metadata_document_def
  by (auto split: option.splits dest: validate_document_ok)

definition sample_metadata_text :: string where
  "sample_metadata_text = ''{'' @ quote_json ''version'' @ '':3,'' @ quote_json ''services'' @ '':[{'' @
     quote_json ''proxy_host_id'' @ '':7,'' @ quote_json ''name'' @ '':'' @ quote_json ''Wiki'' @ '',''
     @ quote_json ''order'' @ '':2}]}''"

definition sample_metadata :: ServiceMetadata where
  "sample_metadata =
     \<lparr>Overrides = [(7, \<lparr>override_Name = ''Wiki'', override_URL = [], override_Category = [], override_Order = Some 2, override_Icon = []\<rparr>)],
      document = \<lparr>doc_Version = 3, doc_Services = [zero_entry\<lparr>entry_ProxyHostID := 7, entry_Name := Some ''Wiki'', entry_Order := Some 2\<rparr>]\<rparr>\<rparr>"

lemma parse_sample_metadata: "parseServiceMetadata sample_metadata_text = Inr sample_metadata"
proof -
  let ?v = "JObj [(''version'', JNum ''3''), (''services'', JArr [JObj [(''proxy_host_id'', JNum ''7''), (''name'', JStr ''Wiki''),
     (''order'', JNum ''2'')]])]"
  have "\<not> length sample_metadata_text > 256 * 1024" by (simp add: sample_metadata_text_def quote_json_def)
  moreover have "trim_space sample_metadata_text \<noteq> []" by code_simp
  moreover have "rejectDuplicateJSONFields sample_metadata_text = Inr ?v" by code_simp
  moreover have "rejectNonCanonicalServiceMetadataFields sample_metadata_text" by code_simp
  moreover have "metadata_document ?v = Inr sample_metadata" by code_simp
  ultimately show ?thesis by (simp add: parseServiceMetadata_def)
qed

lemma parseServiceMetadata_sound_witness: "length sample_metadata_text \<le> 256 * 1024 \<and> metadata_ok sample_metadata"
  using parseServiceMetadata_sound [OF parse_sample_metadata] by blast

end
