(* ===== verification/Cache.thy ===== *)
theory Cache
  imports Npm Headscale_Client Tailscale_Client Metadata
begin

text \<open>
  The snapshot (\<open>cache.go\<close>): a refresh loads the metadata, the control plane and the proxy
  hosts, and publishes them together or not at all. The progress callbacks and the logging are
  left out.
\<close>

section \<open>Loading a snapshot\<close>

datatype snapshotLoadStage =
    SnapshotHeadscalePolicy | SnapshotHeadscaleNodes | SnapshotTailscaleOAuth | SnapshotTailscalePolicy | SnapshotTailscaleUsers
  | SnapshotTailscaleDevices | SnapshotControlPlane | SnapshotServiceMetadata | SnapshotNPMAuth | SnapshotNPMProxyHosts

text \<open>What went wrong: an upstream failure, a missing client, an incomplete result or the metadata.\<close>

datatype snapshot_cause = CauseUpstream upstream_error | CauseUnavailable | CauseIncomplete | CauseMetadata metadata_error

record snapshotLoadError =
  sle_Stage :: snapshotLoadStage
  sle_Err :: snapshot_cause

fun snapshotStageForControlPlane :: "controlPlaneProvider \<Rightarrow> controlPlaneLoadStage \<Rightarrow> snapshotLoadStage" where
  "snapshotStageForControlPlane Headscale stage = (case stage of
     StagePolicy \<Rightarrow> SnapshotHeadscalePolicy
   | StageNodes \<Rightarrow> SnapshotHeadscaleNodes
   | StageDevices \<Rightarrow> SnapshotHeadscaleNodes
   | _ \<Rightarrow> SnapshotControlPlane)"
| "snapshotStageForControlPlane Tailscale stage = (case stage of
     StageAuth \<Rightarrow> SnapshotTailscaleOAuth
   | StagePolicy \<Rightarrow> SnapshotTailscalePolicy
   | StageUsers \<Rightarrow> SnapshotTailscaleUsers
   | StageDevices \<Rightarrow> SnapshotTailscaleDevices
   | StageNodes \<Rightarrow> SnapshotTailscaleDevices)"

text \<open>The two clients behind the interface \<open>ControlPlane\<close>.\<close>

datatype control_client = UseHeadscale HeadscaleClient | UseTailscale TailscaleClient


fun client_load ::
  "server \<Rightarrow> clock \<Rightarrow> control_client \<Rightarrow> requests \<Rightarrow> (controlPlaneLoadError + ControlPlaneResult) \<times> control_client \<times> requests"
where
  "client_load srv clk (UseHeadscale c) rs = (case hs_Load srv clk c rs of (out, c', rs') \<Rightarrow> (out, UseHeadscale c', rs'))"
| "client_load srv clk (UseTailscale c) rs = (case ts_Load srv clk c rs of (out, c', rs') \<Rightarrow> (out, UseTailscale c', rs'))"

record clients =
  control :: "control_client option"
  npm_client :: "NPMClient option"

definition control_error :: "controlPlaneLoadError \<Rightarrow> snapshotLoadError" where
  "control_error e = \<lparr>sle_Stage = snapshotStageForControlPlane (le_Provider e) (le_Stage e), sle_Err = CauseUpstream (le_Err e)\<rparr>"

definition load_hosts :: "server \<Rightarrow> clock \<Rightarrow> NPMClient \<Rightarrow> requests \<Rightarrow> (snapshotLoadError + ProxyHost list) \<times> NPMClient \<times> requests" where
  "load_hosts srv clk n0 rs0 =
     (case ensureToken srv clk n0 rs0 of
        (Inl e, n1, rs1) \<Rightarrow> (Inl \<lparr>sle_Stage = SnapshotNPMAuth, sle_Err = CauseUpstream e\<rparr>, n1, rs1)
      | (Inr _, n1, rs1) \<Rightarrow> (case FetchProxyHosts srv clk n1 rs1 of
          (Inl e, n2, rs2) \<Rightarrow> (Inl \<lparr>sle_Stage = SnapshotNPMProxyHosts, sle_Err = CauseUpstream e\<rparr>, n2, rs2)
        | (Inr hosts, n2, rs2) \<Rightarrow> (Inr hosts, n2, rs2)))"

definition loadSnapshot :: "server \<Rightarrow> clock \<Rightarrow> clients \<Rightarrow> requests \<Rightarrow> (snapshotLoadError + CacheData) \<times> clients \<times> requests" where
  "loadSnapshot srv clk cs rs0 =
     (case control cs of None \<Rightarrow> (Inl \<lparr>sle_Stage = SnapshotControlPlane, sle_Err = CauseUnavailable\<rparr>, cs, rs0)
      | Some cp \<Rightarrow> (case client_load srv clk cp rs0 of
          (Inl e, cp', rs1) \<Rightarrow> (Inl (control_error e), cs\<lparr>control := Some cp'\<rparr>, rs1)
        | (Inr result, cp', rs1) \<Rightarrow>
            (let cs1 = cs\<lparr>control := Some cp'\<rparr> in
             if cpr_Policy result = None then (Inl \<lparr>sle_Stage = SnapshotControlPlane, sle_Err = CauseIncomplete\<rparr>, cs1, rs1)
             else (case npm_client cs of None \<Rightarrow> (Inl \<lparr>sle_Stage = SnapshotNPMAuth, sle_Err = CauseUnavailable\<rparr>, cs1, rs1)
               | Some n \<Rightarrow> (case load_hosts srv clk n rs1 of
                   (Inl e, n', rs2) \<Rightarrow> (Inl e, cs1\<lparr>npm_client := Some n'\<rparr>, rs2)
                 | (Inr hosts, n', rs2) \<Rightarrow>
                     (Inr \<lparr>cd_Policy = cpr_Policy result, cd_Nodes = cpr_Nodes result, cd_ProxyHosts = hosts,
                        cd_ServiceMetadata = Some emptyServiceMetadata,
                        GrantRoleSelectorsByLogin = cpr_GrantRoleSelectorsByLogin result,
                        MachineSSHCapableByID = cpr_MachineSSHCapableByID result,
                        cd_ControlPlane = cpr_Metadata result, UpdatedAt = clk (length rs2)\<rparr>,
                      cs1\<lparr>npm_client := Some n'\<rparr>, rs2))))))"

text \<open>The loader of the metadata: an error, nothing, or a document.\<close>

type_synonym metadata_load = "metadata_error + ServiceMetadata option"

definition loadServiceMetadataSnapshot :: "metadata_load \<Rightarrow> snapshotLoadError + ServiceMetadata" where
  "loadServiceMetadataSnapshot loaded = (case loaded of
     Inl e \<Rightarrow> Inl \<lparr>sle_Stage = SnapshotServiceMetadata, sle_Err = CauseMetadata e\<rparr>
   | Inr None \<Rightarrow> Inl \<lparr>sle_Stage = SnapshotServiceMetadata, sle_Err = CauseIncomplete\<rparr>
   | Inr (Some m) \<Rightarrow> Inr m)"

section \<open>The cache\<close>

record Cache =
  cache_data :: "CacheData option"
  cache_clients :: clients
  cache_requests :: requests

definition NewCache :: "clients \<Rightarrow> Cache" where
  "NewCache cs = \<lparr>cache_data = None, cache_clients = cs, cache_requests = []\<rparr>"

definition refresh :: "metadata_load \<Rightarrow> server \<Rightarrow> clock \<Rightarrow> Cache \<Rightarrow> (snapshotLoadError + unit) \<times> Cache" where
  "refresh loaded srv clk c = (case loadServiceMetadataSnapshot loaded of
     Inl e \<Rightarrow> (Inl e, c)
   | Inr metadata \<Rightarrow> (case loadSnapshot srv clk (cache_clients c) (cache_requests c) of
       (Inl e, cs, rs) \<Rightarrow> (Inl e, c\<lparr>cache_clients := cs, cache_requests := rs\<rparr>)
     | (Inr snapshot, cs, rs) \<Rightarrow>
         (Inr (), \<lparr>cache_data = Some (snapshot\<lparr>cd_ServiceMetadata := Some metadata\<rparr>), cache_clients = cs, cache_requests = rs\<rparr>)))"

definition LastUpdated :: "Cache \<Rightarrow> int" where
  "LastUpdated c = (case cache_data c of Some d \<Rightarrow> UpdatedAt d | None \<Rightarrow> zero_time)"

text \<open>
  The life of the cache: one refresh when it starts and one per tick, each against whatever the
  metadata file and the servers are at that time.
\<close>

inductive cache_step :: "clock \<Rightarrow> Cache \<Rightarrow> Cache \<Rightarrow> bool" for clk :: clock where
  published: "refresh loaded srv clk c = (Inr u, c') \<Longrightarrow> cache_step clk c c'"
| kept: "refresh loaded srv clk c = (Inl e, c') \<Longrightarrow> cache_step clk c c'"

inductive cache_reachable :: "clock \<Rightarrow> clients \<Rightarrow> Cache \<Rightarrow> bool" for clk :: clock and cs :: clients where
  start: "cache_reachable clk cs (NewCache cs)"
| tick: "cache_reachable clk cs c \<Longrightarrow> cache_step clk c c' \<Longrightarrow> cache_reachable clk cs c'"

inductive_simps cache_reachable_simp: "cache_reachable clk cs c"

section \<open>Facts\<close>

















end
