(* ===== verification/Config.thy ===== *)
theory Config
  imports Envfile Auth Go_Url Go_Time Cache
begin

text \<open>
  The configuration (\<open>main.go\<close>, \<open>service_metadata_editor_config.go\<close>): the lookups in the environment,
  the checks of URLs, addresses and durations, and what an accepted configuration guarantees.
\<close>

section \<open>Lookups\<close>

text \<open>A lookup returns the value, whether the key is set, and whether it failed.\<close>

type_synonym configLookup = "string \<Rightarrow> string \<times> bool \<times> bool"

datatype config_error =
    ConfigLookup string | ConfigProvider | ConfigMissing "string list"
  | ConfigURL string | ConfigScheme string | ConfigNoHost string | ConfigUser string | ConfigQuery string | ConfigEmptyPort string
  | ConfigPort string | ConfigPath string | ConfigInsecure string
  | ConfigListen string | ConfigPoll | ConfigLogo | ConfigEditors string | ConfigOrigin | ConfigProxyCIDR | ConfigProxyEveryone

definition look_up :: "configLookup \<Rightarrow> string \<Rightarrow> config_error + string \<times> bool" where
  "look_up lookup key = (case lookup key of (v, ok, failed) \<Rightarrow> if failed then Inl (ConfigLookup key) else Inr (v, ok))"

text \<open>The process environment; a value may be quoted.\<close>

definition processConfigLookup :: "(string \<Rightarrow> string option) \<Rightarrow> configLookup" where
  "processConfigLookup env key = (case env key of None \<Rightarrow> ([], False, False)
     | Some value \<Rightarrow>
        if env ''VELOCIPORTAL_ENV_FILE_ENCODING'' \<noteq> Some ''go-quoted-v1'' then (value, True, False)
        else (case parseEnvValue value of None \<Rightarrow> ([], True, True)
          | Some decoded \<Rightarrow> if validateEnvValue decoded then (decoded, True, False) else ([], True, True)))"

definition lookupOr :: "configLookup \<Rightarrow> string \<Rightarrow> string \<Rightarrow> config_error + string" where
  "lookupOr lookup key fallback =
     and_then (look_up lookup key) (\<lambda>(value, ok). Inr (if ok \<and> trim_space value \<noteq> [] then value else fallback))"

section \<open>Keys\<close>

definition commonRequiredConfigKeys :: "string list" where
  "commonRequiredConfigKeys = [''NPM_URL'', ''NPM_EMAIL'', ''NPM_PASSWORD'', ''TRUSTED_PROXY_CIDR'']"

definition headscaleRequiredConfigKeys :: "string list" where
  "headscaleRequiredConfigKeys = [''HEADSCALE_URL'', ''HEADSCALE_API_KEY'']"

definition tailscaleRequiredConfigKeys :: "string list" where
  "tailscaleRequiredConfigKeys = [''TAILSCALE_OAUTH_CLIENT_ID'', ''TAILSCALE_OAUTH_CLIENT_SECRET'']"

fun controlPlaneConfigKeys :: "controlPlaneProvider \<Rightarrow> string list" where
  "controlPlaneConfigKeys Tailscale = tailscaleRequiredConfigKeys"
| "controlPlaneConfigKeys Headscale = headscaleRequiredConfigKeys"

fun inactiveControlPlaneConfigKeys :: "controlPlaneProvider \<Rightarrow> string list" where
  "inactiveControlPlaneConfigKeys Tailscale = headscaleRequiredConfigKeys"
| "inactiveControlPlaneConfigKeys Headscale = tailscaleRequiredConfigKeys"

fun inspect_keys :: "configLookup \<Rightarrow> string list \<Rightarrow> string list \<times> string list" where
  "inspect_keys lookup [] = ([], [])"
| "inspect_keys lookup (key # ks) = (case (lookup key, inspect_keys lookup ks) of
     ((value, ok, failed), (keys, redactions)) \<Rightarrow>
       if failed then (if ok then (key # keys, redactions) else (keys, redactions))
       else if \<not> ok \<or> trim_space value = [] then (keys, redactions)
       else (key # keys, value # redactions))"

definition inspectInactiveControlPlaneConfig :: "configLookup \<Rightarrow> controlPlaneProvider \<Rightarrow> string list \<times> string list" where
  "inspectInactiveControlPlaneConfig lookup provider = inspect_keys lookup (inactiveControlPlaneConfigKeys provider)"

text \<open>The required values and the missing keys; a failed lookup ends the loop.\<close>

fun required_values :: "configLookup \<Rightarrow> string list \<Rightarrow> config_error + (string, string) gomap \<times> string list" where
  "required_values lookup [] = Inr ([], [])"
| "required_values lookup (key # ks) =
     and_then (look_up lookup key) (\<lambda>(value, _).
     and_then (required_values lookup ks) (\<lambda>(vals, missing).
       Inr ((key, value) # vals, if trim_space value = [] then key # missing else missing)))"

section \<open>URLs\<close>

datatype headscaleTransportClass = TransportUnknown | TransportVerifiedHTTPS | TransportRestrictedHTTP

definition classifyHeadscaleTransport :: "string \<Rightarrow> headscaleTransportClass" where
  "classifyHeadscaleTransport raw = (case url_parse raw of None \<Rightarrow> TransportUnknown
     | Some u \<Rightarrow> if to_lower (Scheme u) = ''https'' then TransportVerifiedHTTPS
         else if to_lower (Scheme u) = ''http'' then TransportRestrictedHTTP else TransportUnknown)"

definition allowedRestrictedHTTPHost :: "string \<Rightarrow> string \<Rightarrow> bool" where
  "allowedRestrictedHTTPHost host canonical \<longleftrightarrow>
     equal_fold host canonical \<or> equal_fold host ''host.docker.internal'' \<or> equal_fold host ''localhost'' \<or>
     (case net_parse_ip host of None \<Rightarrow> False | Some ip \<Rightarrow>
        if contains_byte host (CHR '':'') then ip = 1
        else (case ip_to4 ip of None \<Rightarrow> False | Some w \<Rightarrow> drop_bit 24 w = 127))"

definition allowedHeadscaleHTTPHost :: "string \<Rightarrow> bool" where
  "allowedHeadscaleHTTPHost host = allowedRestrictedHTTPHost host ''headscale.velociportal.internal''"

text \<open>A percent-encoded path segment decodes like a path.\<close>

definition base_path :: "string \<Rightarrow> url \<Rightarrow> config_error + url" where
  "base_path name u =
     (if RawPath u \<noteq> [] then
        (case unescape EncodePath (trim_right_byte (CHR ''/'') (RawPath u)) of None \<Rightarrow> Inl (ConfigPath name)
         | Some p \<Rightarrow> Inr (u\<lparr>RawPath := trim_right_byte (CHR ''/'') (RawPath u), Path := p\<rparr>))
      else Inr (u\<lparr>Path := trim_right_byte (CHR ''/'') (Path u)\<rparr>))"

definition valid_port :: "string \<Rightarrow> bool" where
  "valid_port s \<longleftrightarrow> (case atoi s of None \<Rightarrow> False | Some p \<Rightarrow> 1 \<le> p \<and> p \<le> 65535)"

definition normalizeBaseURL :: "string \<Rightarrow> string \<Rightarrow> config_error + string" where
  "normalizeBaseURL name raw0 = (let raw = trim_space raw0 in
     case url_parse raw of None \<Rightarrow> Inl (ConfigURL name) | Some u0 \<Rightarrow>
       (let u = u0\<lparr>Scheme := to_lower (Scheme u0)\<rparr> in
        and_then (reject_if (Scheme u \<noteq> ''http'' \<and> Scheme u \<noteq> ''https'') (ConfigScheme name)) (\<lambda>_.
        and_then (reject_if (Opaque u \<noteq> [] \<or> Host u = [] \<or> hostname u = []) (ConfigNoHost name)) (\<lambda>_.
        and_then (reject_if (HasUser u) (ConfigUser name)) (\<lambda>_.
        and_then (reject_if (ForceQuery u \<or> RawQuery u \<noteq> [] \<or> Fragment u \<noteq> [] \<or> contains_byte raw (CHR ''#'')) (ConfigQuery name)) (\<lambda>_.
        and_then (reject_if (has_suffix (Host u) '':'') (ConfigEmptyPort name)) (\<lambda>_.
        and_then (reject_if (url_port u \<noteq> [] \<and> \<not> valid_port (url_port u)) (ConfigPort name)) (\<lambda>_.
        and_then (base_path name u) (\<lambda>v. Inr (url_string v))))))))))"

definition normalizeHeadscaleBaseURL :: "string \<Rightarrow> config_error + string" where
  "normalizeHeadscaleBaseURL raw =
     and_then (normalizeBaseURL ''HEADSCALE_URL'' raw) (\<lambda>normalized.
       case url_parse normalized of None \<Rightarrow> Inl (ConfigURL ''HEADSCALE_URL'')
       | Some u \<Rightarrow> (case classifyHeadscaleTransport normalized of
           TransportVerifiedHTTPS \<Rightarrow> Inr normalized
         | TransportRestrictedHTTP \<Rightarrow>
             if allowedHeadscaleHTTPHost (hostname u) then Inr normalized else Inl (ConfigInsecure ''HEADSCALE_URL'')
         | TransportUnknown \<Rightarrow> Inl (ConfigScheme ''HEADSCALE_URL'')))"

definition normalizeNPMBaseURL :: "string \<Rightarrow> config_error + string" where
  "normalizeNPMBaseURL raw =
     and_then (normalizeBaseURL ''NPM_URL'' raw) (\<lambda>normalized.
       case url_parse normalized of None \<Rightarrow> Inl (ConfigURL ''NPM_URL'')
       | Some u \<Rightarrow>
           if Scheme u = ''https'' then Inr normalized
           else if Scheme u = ''http'' \<and> allowedRestrictedHTTPHost (hostname u) ''npm.velociportal.internal'' then Inr normalized
           else Inl (ConfigInsecure ''NPM_URL''))"

section \<open>Addresses, durations and switches\<close>

text \<open>\<open>IP.IsMulticast\<close> on the 16-byte form.\<close>

definition ip_multicast :: "128 word \<Rightarrow> bool" where
  "ip_multicast ip = (case ip_to4 ip of Some w \<Rightarrow> drop_bit 28 w = 0xE | None \<Rightarrow> drop_bit 120 ip = 0xFF)"

text \<open>The host without its zone, and the zone with its percent sign.\<close>

definition split_zone :: "string \<Rightarrow> (string \<times> string) option" where
  "split_zone host = (case last_index_byte host (CHR ''%'') of None \<Rightarrow> Some (host, [])
     | Some i \<Rightarrow> if i = 0 \<or> Suc i = length host \<or> contains_byte (take i host) (CHR ''%'') then None
         else Some (take i host, drop i host))"

definition normalizeListenAddr :: "string \<Rightarrow> config_error + string" where
  "normalizeListenAddr raw = (case SplitHostPort (trim_space raw) of
     None \<Rightarrow> Inl (ConfigListen ''host:port'') | Some (host, port) \<Rightarrow>
       if host = [] then Inl (ConfigListen ''empty host'')
       else (case atoi port of None \<Rightarrow> Inl (ConfigListen ''port'') | Some p \<Rightarrow>
         if p < 1 \<or> p > 65535 then Inl (ConfigListen ''port'')
         else if equal_fold host ''localhost'' then Inr (JoinHostPort ''localhost'' (show_int p))
         else (case split_zone host of None \<Rightarrow> Inl (ConfigListen ''zone'') | Some (h, zone) \<Rightarrow>
           (case net_parse_ip h of None \<Rightarrow> Inl (ConfigListen ''host'') | Some ip \<Rightarrow>
              if zone \<noteq> [] \<and> ip_to4 ip \<noteq> None then Inl (ConfigListen ''zone'')
              else if ip_multicast ip \<or> ip_to4 ip = Some (- 1) then Inl (ConfigListen ''multicast'')
              else Inr (JoinHostPort (net_ip_string ip @ zone) (show_int p))))))"

definition seconds :: "int \<Rightarrow> int" where
  "seconds n = n * 1000000000"

definition normalizePollInterval :: "string \<Rightarrow> config_error + int" where
  "normalizePollInterval raw = (case parse_duration (trim_space raw) of None \<Rightarrow> Inl ConfigPoll
     | Some d \<Rightarrow> if d < seconds 5 \<or> d > seconds (24 * 3600) then Inl ConfigPoll else Inr d)"

definition normalizePortalLogoDefault :: "string \<Rightarrow> config_error + bool" where
  "normalizePortalLogoDefault raw = (let v = to_lower (trim_space raw) in
     if v = [] \<or> v = ''visible'' then Inr True else if v = ''hidden'' then Inr False else Inl ConfigLogo)"

definition trustedProxyCoversAddressSpace :: "ipnet option \<Rightarrow> bool" where
  "trustedProxyCoversAddressSpace network = (case network of None \<Rightarrow> True | Some n \<Rightarrow>
     (ipnet_contains n (addr_as16 (V4 0)) \<and> ipnet_contains n (addr_as16 (V4 (- 1)))) \<or>
     (ipnet_contains n 0 \<and> ipnet_contains n (- 1)))"

section \<open>The editor of the service metadata\<close>

record ServiceMetadataEditorConfig =
  Logins :: "string list"
  Origin :: string
  ed_Host :: string

definition canonical_label :: "string \<Rightarrow> bool" where
  "canonical_label l \<longleftrightarrow> l \<noteq> [] \<and> length l \<le> 63 \<and> hd l \<noteq> CHR ''-'' \<and> last l \<noteq> CHR ''-''
     \<and> list_all (\<lambda>c. is_lower c \<or> is_digit c \<or> c = CHR ''-'') l"

definition canonical_port :: "string \<Rightarrow> string \<Rightarrow> bool" where
  "canonical_port scheme port \<longleftrightarrow> (case atoi port of None \<Rightarrow> False | Some n \<Rightarrow>
     1 \<le> n \<and> n \<le> 65535 \<and> show_int n = port \<and> \<not> (scheme = ''http'' \<and> n = 80) \<and> \<not> (scheme = ''https'' \<and> n = 443))"

definition canonical_hostname :: "string \<Rightarrow> bool" where
  "canonical_hostname host \<longleftrightarrow> host \<noteq> [] \<and> host = to_lower host \<and> \<not> contains_any host [CHR ''*'', CHR ''%'', char_of (92::nat)]
     \<and> \<not> has_suffix host ''.''
     \<and> (case net_parse_ip host of Some ip \<Rightarrow> host = net_ip_string ip
        | None \<Rightarrow> length host \<le> 253 \<and> list_all canonical_label (split_byte (CHR ''.'') host))"

definition canonical_authority :: "string \<Rightarrow> string \<Rightarrow> string" where
  "canonical_authority host port =
     (if port \<noteq> [] then JoinHostPort host port
      else if contains_byte host (CHR '':'') then CHR ''['' # host @ '']'' else host)"

definition validatePortalPublicOrigin :: "string \<Rightarrow> config_error + string" where
  "validatePortalPublicOrigin raw = (case url_parse raw of None \<Rightarrow> Inl ConfigOrigin | Some u \<Rightarrow>
     if (Scheme u \<noteq> ''http'' \<and> Scheme u \<noteq> ''https'') \<or> HasUser u \<or> Host u = [] \<or> Opaque u \<noteq> [] \<or> Path u \<noteq> [] \<or> RawPath u \<noteq> []
        \<or> RawQuery u \<noteq> [] \<or> ForceQuery u \<or> Fragment u \<noteq> [] \<or> raw \<noteq> Scheme u @ ''://'' @ Host u \<or> contains_control raw
     then Inl ConfigOrigin
     else if \<not> canonical_hostname (hostname u) then Inl ConfigOrigin
     else if has_suffix (Host u) '':'' then Inl ConfigOrigin
     else if url_port u \<noteq> [] \<and> \<not> canonical_port (Scheme u) (url_port u) then Inl ConfigOrigin
     else if Host u \<noteq> canonical_authority (hostname u) (url_port u) then Inl ConfigOrigin
     else Inr (Host u))"

definition full_login :: "string \<Rightarrow> bool" where
  "full_login login \<longleftrightarrow> length login \<le> 254
     \<and> (case index_byte login (CHR ''@'') of None \<Rightarrow> False | Some i \<Rightarrow> 0 < i \<and> Suc i \<noteq> length login)
     \<and> count_byte login (CHR ''@'') = 1 \<and> trim_space login = login
     \<and> \<not> contains_any login [CHR '' '', char_of (9::nat), char_of (13::nat), char_of (10::nat)] \<and> \<not> contains_control login"

fun configured_logins :: "string list \<Rightarrow> string list \<Rightarrow> config_error + string list" where
  "configured_logins configured [] = Inr configured"
| "configured_logins configured (login # ls) =
     (if \<not> full_login login \<or> login \<in> set configured then Inl (ConfigEditors ''login'')
      else configured_logins (configured @ [login]) ls)"

text \<open>The JSON array of logins; JSON null is not one.\<close>

definition editor_logins :: "string \<Rightarrow> config_error + string list" where
  "editor_logins editors =
     and_then (reject_if (length editors > 16 * 1024 \<or> \<not> utf8_valid editors) (ConfigEditors ''text'')) (\<lambda>_.
       case (case json_parse editors of None \<Rightarrow> None | Some v \<Rightarrow> as_strings_nil v) of
         Some (Some logins) \<Rightarrow> if length logins > 32 then Inl (ConfigEditors ''array'') else configured_logins [] logins
       | _ \<Rightarrow> Inl (ConfigEditors ''array''))"

definition loadServiceMetadataEditorConfig :: "configLookup \<Rightarrow> string \<Rightarrow> config_error + ServiceMetadataEditorConfig option" where
  "loadServiceMetadataEditorConfig lookup path =
     and_then (look_up lookup ''PORTAL_EDITORS'') (\<lambda>(editors, editorsSet).
     and_then (look_up lookup ''PORTAL_PUBLIC_ORIGIN'') (\<lambda>(origin, originSet).
       if \<not> editorsSet \<and> \<not> originSet then Inr None
       else if \<not> editorsSet \<or> \<not> originSet \<or> path = [] then Inl (ConfigEditors ''require'')
       else and_then (editor_logins editors) (\<lambda>logins.
         and_then (validatePortalPublicOrigin origin) (\<lambda>host.
           Inr (Some \<lparr>Logins = logins, Origin = origin, ed_Host = host\<rparr>)))))"

section \<open>The configuration\<close>

record Config =
  ControlPlane :: controlPlaneProvider
  ControlPlaneExplicit :: bool
  InactiveControlPlaneKeys :: "string list"
  ControlPlaneRedactionValues :: "string list"
  HeadscaleURL :: string
  HeadscaleAPIKey :: string
  TailscaleOAuthClientID :: string
  TailscaleOAuthClientSecret :: string
  NPMURL :: string
  NPMEmail :: string
  NPMPassword :: string
  ServiceMetadataFile :: string
  ServiceMetadataEditor :: "ServiceMetadataEditorConfig option"
  ServiceHealthFile :: string
  ListenAddr :: string
  PollInterval :: int
  TrustedProxyCIDR :: ipnet
  PortalLogoDefaultVisible :: bool

text \<open>The provider and whether it was chosen explicitly.\<close>

definition select_provider :: "configLookup \<Rightarrow> config_error + controlPlaneProvider \<times> bool" where
  "select_provider lookup =
     and_then (look_up lookup ''CONTROL_PLANE'') (\<lambda>(selector, isSet).
       let p = to_lower (trim_space selector) in
       if \<not> isSet \<or> p = [] then Inr (Headscale, False)
       else if p = ''headscale'' then Inr (Headscale, True)
       else if p = ''tailscale'' then Inr (Tailscale, True) else Inl ConfigProvider)"

definition trusted_proxy :: "string \<Rightarrow> config_error + ipnet" where
  "trusted_proxy raw = (case net_parse_cidr (trim_space raw) of None \<Rightarrow> Inl ConfigProxyCIDR
     | Some (_, network) \<Rightarrow> if trustedProxyCoversAddressSpace (Some network) then Inl ConfigProxyEveryone else Inr network)"

definition loadConfigFrom :: "configLookup \<Rightarrow> config_error + Config" where
  "loadConfigFrom lookup =
     and_then (select_provider lookup) (\<lambda>(provider, explicit).
     and_then (required_values lookup (controlPlaneConfigKeys provider @ commonRequiredConfigKeys)) (\<lambda>(vals, missing).
     and_then (reject_if (missing \<noteq> []) (ConfigMissing missing)) (\<lambda>_.
       let get = (\<lambda>key. gomap_get vals key []);
           (inactive, inactiveRedactions) = inspectInactiveControlPlaneConfig lookup provider in
     and_then (if provider = Headscale then normalizeHeadscaleBaseURL (get ''HEADSCALE_URL'') else Inr []) (\<lambda>headscaleURL.
     and_then (normalizeNPMBaseURL (get ''NPM_URL'')) (\<lambda>npmURL.
     and_then (lookupOr lookup ''LISTEN_ADDR'' ''127.0.0.1:8080'') (\<lambda>listenValue.
     and_then (normalizeListenAddr listenValue) (\<lambda>listenAddr.
     and_then (lookupOr lookup ''POLL_INTERVAL'' ''30s'') (\<lambda>pollValue.
     and_then (normalizePollInterval pollValue) (\<lambda>interval.
     and_then (lookupOr lookup ''SERVICE_METADATA_FILE'' []) (\<lambda>metadataFile.
     and_then (loadServiceMetadataEditorConfig lookup (trim_space metadataFile)) (\<lambda>editor.
     and_then (lookupOr lookup ''SERVICE_HEALTH_FILE'' []) (\<lambda>healthFile.
     and_then (lookupOr lookup ''PORTAL_LOGO_DEFAULT'' ''visible'') (\<lambda>logoValue.
     and_then (normalizePortalLogoDefault logoValue) (\<lambda>logo.
     and_then (trusted_proxy (get ''TRUSTED_PROXY_CIDR'')) (\<lambda>cidr.
       Inr \<lparr>ControlPlane = provider, ControlPlaneExplicit = explicit, InactiveControlPlaneKeys = inactive,
         ControlPlaneRedactionValues = filter (\<lambda>v. v \<noteq> []) (map get (controlPlaneConfigKeys provider)) @ inactiveRedactions,
         HeadscaleURL = headscaleURL, HeadscaleAPIKey = get ''HEADSCALE_API_KEY'',
         TailscaleOAuthClientID = trim_space (get ''TAILSCALE_OAUTH_CLIENT_ID''),
         TailscaleOAuthClientSecret = get ''TAILSCALE_OAUTH_CLIENT_SECRET'',
         NPMURL = npmURL, NPMEmail = trim_space (get ''NPM_EMAIL''), NPMPassword = get ''NPM_PASSWORD'',
         ServiceMetadataFile = trim_space metadataFile, ServiceMetadataEditor = editor,
         ServiceHealthFile = trim_space healthFile, ListenAddr = listenAddr, PollInterval = interval,
         TrustedProxyCIDR = cidr, PortalLogoDefaultVisible = logo\<rparr>)))))))))))))))"

definition newUpstreamClients :: "Config \<Rightarrow> clients" where
  "newUpstreamClients cfg =
     \<lparr>control = Some (case ControlPlane cfg of
        Tailscale \<Rightarrow> UseTailscale (NewTailscaleClient (TailscaleOAuthClientID cfg) (TailscaleOAuthClientSecret cfg))
      | Headscale \<Rightarrow> UseHeadscale (NewHeadscaleClient (HeadscaleURL cfg) (HeadscaleAPIKey cfg))),
      npm_client = Some (NewNPMClient (NPMURL cfg) (NPMEmail cfg) (NPMPassword cfg))\<rparr>"

section \<open>The trusted network\<close>

lemma ip_to4_ends: "ip_to4 0 = None" "ip_to4 (- 1) = None"
proof -
  have "drop_bit 32 (- 1 :: 128 word) \<noteq> 0xFFFF"
  proof
    assume "drop_bit 32 (- 1 :: 128 word) = 0xFFFF"
    then have "bit (drop_bit 32 (- 1 :: 128 word)) 64 = bit (0xFFFF :: 128 word) 64" by simp
    then show False by (simp add: bit_drop_bit_eq bit_mask_iff)
  qed
  then show "ip_to4 0 = None" "ip_to4 (- 1) = None" by (simp_all add: ip_to4_def mapped_v4_def)
qed

lemma ip_to4_mapped: "mapped_v4 ip \<longleftrightarrow> ip_to4 ip \<noteq> None"
  by (simp add: ip_to4_def)

lemma mask_of_ends:
  fixes b m :: "'a::len word"
  shows "b AND m = 0 \<and> b AND m = m \<Longrightarrow> m = 0"
  by (elim conjE) (erule trans [OF sym])

lemma trusted_proxy_check:
  "trustedProxyCoversAddressSpace (Some network) \<longleftrightarrow>
     (\<forall>w. ipnet_contains network (addr_as16 (V4 w))) \<or> (\<forall>ip. ip_to4 ip = None \<longrightarrow> ipnet_contains network ip)"
proof
  assume "(\<forall>w. ipnet_contains network (addr_as16 (V4 w))) \<or> (\<forall>ip. ip_to4 ip = None \<longrightarrow> ipnet_contains network ip)"
  then show "trustedProxyCoversAddressSpace (Some network)"
    using ip_to4_ends by (auto simp: trustedProxyCoversAddressSpace_def simp del: addr_as16.simps)
next
  assume covers: "trustedProxyCoversAddressSpace (Some network)"
  show "(\<forall>w. ipnet_contains network (addr_as16 (V4 w))) \<or> (\<forall>ip. ip_to4 ip = None \<longrightarrow> ipnet_contains network ip)"
  proof (cases network)
    case (Net4 b n)
    with covers ip_to4_ends have "mask4 n = 0"
      by (auto simp: trustedProxyCoversAddressSpace_def simp del: addr_as16.simps dest: mask_of_ends)
    with Net4 show ?thesis by (simp del: addr_as16.simps)
  next
    case (Net6 b n)
    show ?thesis
    proof (cases "ip_to4 b")
      case None
      with covers Net6 ip_to4_ends have "mask16 n = 0"
        by (auto simp: trustedProxyCoversAddressSpace_def simp del: addr_as16.simps dest: mask_of_ends)
      with Net6 None show ?thesis by (simp del: addr_as16.simps)
    next
      case (Some w)
      with covers Net6 ip_to4_ends have "ucast (mask16 n) = (0 :: 32 word)"
        by (auto simp: trustedProxyCoversAddressSpace_def simp del: addr_as16.simps dest: mask_of_ends)
      with Net6 Some show ?thesis by (simp del: addr_as16.simps)
    qed
  qed
qed

text \<open>
  C15: A network trusts an entire address space exactly when it holds the first and the last address of that
  space: the check of the trusted proxy is exact. So a network that passes it leaves out an IPv4 peer and an
  IPv6 peer, and the identity middleware refuses those.
\<close>
theorem trusted_proxy_check_exact:
  "trustedProxyCoversAddressSpace (Some network) \<longleftrightarrow>
     range (\<lambda>w. addr_as16 (V4 w)) \<subseteq> Collect (ipnet_contains network) \<or> {ip. ip_to4 ip = None} \<subseteq> Collect (ipnet_contains network)"
  unfolding trusted_proxy_check by (auto simp del: addr_as16.simps)

section \<open>The listen address\<close>

lemma join_with_subset: "set (join_with sep ps) \<subseteq> set sep \<union> (\<Union>p \<in> set ps. set p)"
  by (induction sep ps rule: join_with.induct) auto

lemma net_byte_digit: "is_digit c \<Longrightarrow> net_byte c"
  by (auto simp: net_byte_def is_digit_def)

lemma net_byte_hex: "c \<in> set (show_hex n) \<Longrightarrow> net_byte c"
proof (induction n rule: show_hex.induct)
  case (1 n)
  have "net_byte (hex_char d)" if "d < 16" for d
    using that by (auto simp: net_byte_def hex_char_def dest: arg_cong [where f = byte])
  with 1 show ?case by (auto simp: show_hex.simps [of n] split: if_splits)
qed

lemma net_ip_string_bytes: "c \<in> set (net_ip_string ip) \<Longrightarrow> net_byte c"
proof -
  have v4: "c \<in> set (v4_string w) \<Longrightarrow> net_byte c" for w
    using v4_string_bytes [of c w] net_byte_digit [of c] by (auto simp: net_byte_def)
  have v6: "c \<in> set (v6_groups_string gs) \<Longrightarrow> net_byte c" for gs
    using net_byte_hex [of c] join_with_subset [of "'':''"]
    by (fastforce simp: v6_groups_string_def net_byte_def split: prod.splits if_splits)
  show "c \<in> set (net_ip_string ip) \<Longrightarrow> net_byte c"
    using v4 v6 by (auto simp: net_ip_string_def net_byte_def split: option.splits if_splits)
qed

lemma SplitHostPort_bytes:
  "SplitHostPort s = Some (host, port) \<Longrightarrow> c \<in> set host \<Longrightarrow> net_byte c"
proof -
  assume h: "SplitHostPort s = Some (host, port)" "c \<in> set host"
  then obtain i where i: "last_index_byte s (CHR '':'') = Some i" by (auto simp: SplitHostPort_def split: option.splits)
  show "net_byte c"
  proof (cases "hd s = CHR ''[''")
    case True
    with h i obtain e where e: "index_byte s (CHR '']'') = Some e" "host = drop 1 (take e s)" "CHR ''['' \<notin> set (drop 1 s)"
      by (auto simp: SplitHostPort_def contains_byte_def split: option.splits if_splits)
    have "CHR '']'' \<notin> set (take e s)" using index_byte_SomeD [OF e(1)] by simp
    moreover have "set host \<subseteq> set (take e s)" "set host \<subseteq> set (drop 1 s)"
      unfolding e(2) by (rule set_drop_subset) (metis drop_take set_take_subset)
    ultimately show ?thesis using h(2) e(3) by (auto simp: net_byte_def)
  next
    case False
    with h i have "host = take i s" "\<not> contains_byte s (CHR ''['')" "\<not> contains_byte s (CHR '']'')"
      by (auto simp: SplitHostPort_def split: if_splits)
    with h(2) show ?thesis by (auto simp: net_byte_def contains_byte_def dest: in_set_takeD)
  qed
qed

lemma split_zone_bytes: "split_zone host = Some (h, zone) \<Longrightarrow> set zone \<subseteq> set host"
  by (auto simp: split_zone_def dest: in_set_dropD split: option.splits if_splits)

text \<open>What an address to listen on must be.\<close>

definition listen_ok :: "string \<Rightarrow> bool" where
  "listen_ok addr \<longleftrightarrow> (\<exists>host p. SplitHostPort addr = Some (host, show_int p) \<and> 1 \<le> p \<and> p \<le> 65535 \<and>
     (host = ''localhost'' \<or> (\<exists>ip zone. host = net_ip_string ip @ zone \<and> \<not> ip_multicast ip \<and> ip_to4 ip \<noteq> Some (- 1)
        \<and> (zone \<noteq> [] \<longrightarrow> ip_to4 ip = None))))"

lemma show_int_port: "1 \<le> p \<Longrightarrow> CHR '':'' \<notin> set (show_int p) \<and> (\<forall>c \<in> set (show_int p). net_byte c)"
  using show_nat_bytes [of _ "nat p"] net_byte_digit is_digit_not [of "CHR '':''"] by (auto simp: show_int_def)

lemma normalizeListenAddr_ok:
  assumes "normalizeListenAddr raw = Inr addr"
  shows "listen_ok addr"
proof -
  from assms obtain host port p where h: "SplitHostPort (trim_space raw) = Some (host, port)" and "atoi port = Some p"
    by (auto simp: normalizeListenAddr_def split: option.splits if_splits)
  with assms have p: "1 \<le> p" "p \<le> 65535" by (auto simp: normalizeListenAddr_def split: option.splits if_splits)
  have a: "addr = JoinHostPort ''localhost'' (show_int p) \<or>
      (\<exists>h zone ip. split_zone host = Some (h, zone) \<and> addr = JoinHostPort (net_ip_string ip @ zone) (show_int p)
        \<and> \<not> ip_multicast ip \<and> ip_to4 ip \<noteq> Some (- 1) \<and> (zone \<noteq> [] \<longrightarrow> ip_to4 ip = None))"
  proof (cases "equal_fold host ''localhost''")
    case True
    with assms h \<open>atoi port = Some p\<close> show ?thesis by (auto simp: normalizeListenAddr_def split: if_splits)
  next
    case False
    with assms h \<open>atoi port = Some p\<close> obtain t zone ip where "split_zone host = Some (t, zone)" "net_parse_ip t = Some ip"
        "\<not> (zone \<noteq> [] \<and> ip_to4 ip \<noteq> None)" "\<not> (ip_multicast ip \<or> ip_to4 ip = Some (- 1))"
        "addr = JoinHostPort (net_ip_string ip @ zone) (show_int p)"
      by (simp add: normalizeListenAddr_def split: option.splits if_split_asm prod.splits)
    then show ?thesis by metis
  qed
  note port = show_int_port [OF p(1)]
  from a show ?thesis
  proof (elim disjE exE conjE)
    assume "addr = JoinHostPort ''localhost'' (show_int p)"
    moreover have "SplitHostPort (JoinHostPort ''localhost'' (show_int p)) = Some (''localhost'', show_int p)"
      using port by (intro split_join_host_port) (auto simp: net_byte_def)
    ultimately show ?thesis using p unfolding listen_ok_def by blast
  next
    fix h zone ip
    assume z: "split_zone host = Some (h, zone)" and addr: "addr = JoinHostPort (net_ip_string ip @ zone) (show_int p)"
      and ip: "\<not> ip_multicast ip" "ip_to4 ip \<noteq> Some (- 1)" "zone \<noteq> [] \<longrightarrow> ip_to4 ip = None"
    have "SplitHostPort addr = Some (net_ip_string ip @ zone, show_int p)"
      unfolding addr using port split_zone_bytes [OF z] SplitHostPort_bytes [OF h] net_ip_string_bytes [of _ ip]
      by (intro split_join_host_port) auto
    with p ip show ?thesis unfolding listen_ok_def by blast
  qed
qed

section \<open>What an accepted configuration guarantees\<close>

definition upstream_ok :: "string \<Rightarrow> string \<Rightarrow> bool" where
  "upstream_ok canonical url \<longleftrightarrow> (\<exists>u. url_parse url = Some u \<and>
     (to_lower (Scheme u) = ''https'' \<or> to_lower (Scheme u) = ''http'' \<and> allowedRestrictedHTTPHost (hostname u) canonical))"

definition editor_ok :: "ServiceMetadataEditorConfig \<Rightarrow> bool" where
  "editor_ok e \<longleftrightarrow> distinct (Logins e) \<and> length (Logins e) \<le> 32 \<and> list_all full_login (Logins e) \<and>
     (\<exists>scheme \<in> {''http'', ''https''}. Origin e = scheme @ ''://'' @ ed_Host e) \<and> ed_Host e \<noteq> []"

lemma normalizeHeadscaleBaseURL_ok: "normalizeHeadscaleBaseURL raw = Inr u \<Longrightarrow> upstream_ok ''headscale.velociportal.internal'' u"
  by (auto simp: normalizeHeadscaleBaseURL_def upstream_ok_def classifyHeadscaleTransport_def allowedHeadscaleHTTPHost_def
      split: option.splits if_splits)

lemma normalizeNPMBaseURL_ok: "normalizeNPMBaseURL raw = Inr u \<Longrightarrow> upstream_ok ''npm.velociportal.internal'' u"
  by (auto simp: normalizeNPMBaseURL_def upstream_ok_def to_lower_def ascii_lower_def is_upper_def split: option.splits if_splits)

lemma configured_logins_ok:
  "configured_logins done ls = Inr out \<Longrightarrow> distinct done \<Longrightarrow> list_all full_login done \<Longrightarrow>
     distinct out \<and> list_all full_login out \<and> length out = length done + length ls"
  by (induction "done" ls rule: configured_logins.induct) (auto split: if_splits)

lemma editor_logins_ok: "editor_logins t = Inr ls \<Longrightarrow> distinct ls \<and> list_all full_login ls \<and> length ls \<le> 32"
  by (auto simp: editor_logins_def split: option.splits if_splits dest: configured_logins_ok)

lemma loadServiceMetadataEditorConfig_ok:
  "loadServiceMetadataEditorConfig lookup path = Inr (Some e) \<Longrightarrow> editor_ok e \<and> path \<noteq> []"
  by (auto simp: loadServiceMetadataEditorConfig_def editor_ok_def validatePortalPublicOrigin_def
      dest!: editor_logins_ok split: prod.splits if_splits option.splits)

definition config_ok :: "Config \<Rightarrow> bool" where
  "config_ok c \<longleftrightarrow>
     seconds 5 \<le> PollInterval c \<and> PollInterval c \<le> seconds 86400 \<and> listen_ok (ListenAddr c) \<and>
     upstream_ok ''npm.velociportal.internal'' (NPMURL c) \<and>
     (ControlPlane c = Headscale \<longrightarrow> upstream_ok ''headscale.velociportal.internal'' (HeadscaleURL c)) \<and>
     \<not> trustedProxyCoversAddressSpace (Some (TrustedProxyCIDR c)) \<and>
     (case ServiceMetadataEditor c of None \<Rightarrow> True | Some e \<Rightarrow> editor_ok e \<and> ServiceMetadataFile c \<noteq> [])"

lemma trusted_proxy_ok: "trusted_proxy raw = Inr n \<Longrightarrow> \<not> trustedProxyCoversAddressSpace (Some n)"
  by (auto simp: trusted_proxy_def split: option.splits if_splits)

lemma normalizePollInterval_ok: "normalizePollInterval raw = Inr d \<Longrightarrow> seconds 5 \<le> d \<and> d \<le> seconds 86400"
  by (auto simp: normalizePollInterval_def split: option.splits if_splits)

text \<open>
  C12: An accepted configuration is safe to run. It polls at least every day and at most every five seconds,
  listens on an address that splits back into localhost or a unicast IP address and a port, reaches both
  upstream services over HTTPS or over plain HTTP on this machine or the internal network only, does not trust
  a whole address space, and lets only distinct full logins edit a configured file under a canonical origin.
\<close>
theorem loadConfigFrom_sound:
  assumes "loadConfigFrom lookup = Inr c"
  shows "config_ok c"
proof -
  have "(\<exists>raw. normalizePollInterval raw = Inr (PollInterval c)) \<and> (\<exists>raw. normalizeListenAddr raw = Inr (ListenAddr c))
      \<and> (\<exists>raw. normalizeNPMBaseURL raw = Inr (NPMURL c)) \<and> (\<exists>raw. trusted_proxy raw = Inr (TrustedProxyCIDR c))
      \<and> (ControlPlane c = Headscale \<longrightarrow> (\<exists>raw. normalizeHeadscaleBaseURL raw = Inr (HeadscaleURL c)))
      \<and> loadServiceMetadataEditorConfig lookup (ServiceMetadataFile c) = Inr (ServiceMetadataEditor c)"
    using assms unfolding loadConfigFrom_def Let_def case_prod_beta
    by (elim and_thenE) (drule sum.inject(2) [THEN iffD1], hypsubst, simp only: Config.select_convs, intro conjI impI; (rule exI, assumption)?; (simp; blast)?)
  then show ?thesis
    using loadServiceMetadataEditorConfig_ok [of lookup] normalizeHeadscaleBaseURL_ok
    by (auto simp: config_ok_def normalizeListenAddr_ok normalizeNPMBaseURL_ok
        dest: normalizePollInterval_ok trusted_proxy_ok split: option.split)
qed

section \<open>An example\<close>

definition sample_env :: "(string, string) gomap" where
  "sample_env = [(''HEADSCALE_URL'', ''https://hs''), (''HEADSCALE_API_KEY'', ''key''), (''NPM_URL'', ''https://npm/''),
     (''NPM_EMAIL'', ''a@x''), (''NPM_PASSWORD'', ''p''), (''TRUSTED_PROXY_CIDR'', ''10.0.0.0/8''), (''LISTEN_ADDR'', ''localhost:80'')]"

lemma sample_poll: "normalizePollInterval ''30s'' = Inr (seconds 30)"
  by (simp add: normalizePollInterval_def parse_duration_def duration_parts.simps duration_part_def digits_value_def
      is_digit_def unit_char_def duration_unit_def digit_value_def seconds_def trim_space_id is_ascii_def ascii_space_def)

lemma octets_ten: "octets_of_v4 0x0A000000 = [10, 0, 0, 0]"
  by (simp add: octets_of_v4_def)

lemma mask4_8: "mask4 8 = 0xFF000000"
  by (simp add: mask4_def mask_eq_exp_minus_1)

lemma sample_proxy: "trusted_proxy ''10.0.0.0/8'' = Inr (Net4 0x0A000000 8)"
proof -
  have "v4_string 0x0A000000 = ''10.0.0.0''" 
    by (simp add: v4_string_def octets_ten show_nat.simps digit_char_def) (simp add: char_of_def bit_Suc_0_iff)
  then have "parse_addr ''10.0.0.0'' = Some (V4 0x0A000000)" using parse_addr_v4_string [of "0x0A000000"] by simp
  moreover have "cut_byte ''10.0.0.0/8'' (CHR ''/'') = Some (''10.0.0.0'', ''8'')" by code_simp
  moreover have "parse_digits ''8'' = Some 8" by code_simp
  moreover have "trim_space ''10.0.0.0/8'' = ''10.0.0.0/8''" by code_simp
  moreover have "(0x0A000000 :: 32 word) AND mask4 8 = 0x0A000000" by (simp add: mask4_8)
  moreover have "\<not> trustedProxyCoversAddressSpace (Some (Net4 0x0A000000 8))"
    using ip_to4_ends by (simp add: trustedProxyCoversAddressSpace_def mask4_8 del: addr_as16.simps)
  ultimately show ?thesis by (simp add: trusted_proxy_def net_parse_cidr_def)
qed

lemma sample_urls: "normalizeHeadscaleBaseURL ''https://hs'' = Inr ''https://hs''" "normalizeNPMBaseURL ''https://npm/'' = Inr ''https://npm''"
  by code_simp+

lemma sample_listen: "normalizeListenAddr ''localhost:80'' = Inr ''localhost:80''"
  by code_simp

lemma loadConfigFrom_sound_witness: "\<exists>c. loadConfigFrom (processConfigLookup (map_of sample_env)) = Inr c \<and> config_ok c"
proof -
  define l where "l = processConfigLookup (map_of sample_env)"
  have select: "select_provider l = Inr (Headscale, False)" unfolding l_def by code_simp
  have req: "required_values l (controlPlaneConfigKeys Headscale @ commonRequiredConfigKeys) = Inr (take 6 sample_env, [])" unfolding l_def by code_simp
  have opt: "lookupOr l ''LISTEN_ADDR'' d = Inr ''localhost:80''" "lookupOr l ''POLL_INTERVAL'' ''30s'' = Inr ''30s''"
    "lookupOr l ''SERVICE_METADATA_FILE'' [] = Inr []" "lookupOr l ''SERVICE_HEALTH_FILE'' [] = Inr []"
    "lookupOr l ''PORTAL_LOGO_DEFAULT'' ''visible'' = Inr ''visible''" for d
    unfolding l_def by code_simp+
  have logo: "normalizePortalLogoDefault ''visible'' = Inr True" by code_simp
  have editor: "loadServiceMetadataEditorConfig l (trim_space []) = Inr None" unfolding l_def by code_simp
  have "\<exists>c. loadConfigFrom l = Inr c"
    using sample_urls sample_listen sample_poll sample_proxy opt logo editor
    by (simp add: loadConfigFrom_def select req Let_def case_prod_beta reject_if_def gomap_get_def sample_env_def del: controlPlaneConfigKeys.simps)
  then obtain c where "loadConfigFrom l = Inr c" ..
  with loadConfigFrom_sound [OF this] show ?thesis unfolding l_def by blast
qed

end
