(* ===== verification/Stack_Env.thy ===== *)
theory Stack_Env
  imports Config
begin

text \<open>
  Reports of the diagnostics, and the checks of the file with the variables of the Compose stack
  (\<open>doctor_stack_env.go\<close>). A line of a report is its level and what it is about; the rest of the text is left out.
\<close>

section \<open>Reports\<close>

datatype level = Pass | Warn | Fail

fun severity :: "level \<Rightarrow> nat" where
  "severity Pass = 0"
| "severity Warn = 1"
| "severity Fail = 2"

lemma severity_inject [simp]: "severity a = severity b \<longleftrightarrow> a = b"
  by (cases a; cases b) simp_all

text \<open>Levels are ordered by their severity.\<close>

instantiation level :: linorder
begin

definition less_eq_level :: "level \<Rightarrow> level \<Rightarrow> bool" where
  "less_eq_level a b \<longleftrightarrow> severity a \<le> severity b"

definition less_level :: "level \<Rightarrow> level \<Rightarrow> bool" where
  "less_level a b \<longleftrightarrow> severity a < severity b"

instance
  by standard (auto simp: less_eq_level_def less_level_def)

end

type_synonym report = "(level \<times> string) list"

definition worst :: "report \<Rightarrow> level" where
  "worst ls = foldr max (map fst ls) Pass"

lemma level_max: "max a Pass = a" "max Pass a = a" "max a Fail = Fail" "max Fail a = Fail"
  by (cases a; simp add: max_def less_eq_level_def)+

lemma worst_Nil [simp]: "worst [] = Pass"
  by (simp add: worst_def)

lemma worst_Cons [simp]: "worst (l # ls) = max (fst l) (worst ls)"
  by (simp add: worst_def)

lemma worst_append [simp]: "worst (xs @ ys) = max (worst xs) (worst ys)"
  by (induction xs) (simp_all add: level_max max.assoc)

lemma max_Fail_iff [simp]: "max a b = Fail \<longleftrightarrow> a = Fail \<or> b = Fail"
  by (cases a; cases b; simp add: max_def less_eq_level_def)

lemma worst_Fail_iff: "worst ls = Fail \<longleftrightarrow> (\<exists>l \<in> set ls. fst l = Fail)"
  by (induction ls) auto

text \<open>A step of the diagnostics: what it reports, and whether it failed. Failing and reporting a failure are the same.\<close>

definition honest :: "report \<times> bool \<Rightarrow> bool" where
  "honest r \<longleftrightarrow> (worst (fst r) = Fail \<longleftrightarrow> snd r)"

section \<open>Image names\<close>

definition lower_alnum :: "char \<Rightarrow> bool" where
  "lower_alnum c \<longleftrightarrow> is_lower c \<or> is_digit c"

definition tag_char :: "char \<Rightarrow> bool" where
  "tag_char c \<longleftrightarrow> is_lower c \<or> is_upper c \<or> is_digit c \<or> c = CHR ''_'' \<or> c = CHR ''.'' \<or> c = CHR ''-''"

text \<open>\<open>stackEnvDigestRE\<close>, \<open>stackEnvImageTagRE\<close> and \<open>stackEnvPortRE\<close>.\<close>

definition digest_match :: "string \<Rightarrow> bool" where
  "digest_match s \<longleftrightarrow> length s = 64 \<and> list_all (\<lambda>c. is_digit c \<or> c \<in> set ''abcdef'') s"

definition tag_match :: "string \<Rightarrow> bool" where
  "tag_match s \<longleftrightarrow> s \<noteq> [] \<and> length s \<le> 128 \<and> list_all tag_char s \<and> hd s \<noteq> CHR ''.'' \<and> hd s \<noteq> CHR ''-''"

definition port_match :: "string \<Rightarrow> bool" where
  "port_match s \<longleftrightarrow> s \<noteq> [] \<and> list_all is_digit s"

text \<open>\<open>stackEnvImageNamePartRE\<close>: words of lower case letters and digits, with a separator between them.\<close>

definition name_separator :: "string \<Rightarrow> bool" where
  "name_separator s \<longleftrightarrow> s = ''.'' \<or> s = ''_'' \<or> s = ''__'' \<or> (s \<noteq> [] \<and> list_all (\<lambda>c. c = CHR ''-'') s)"

definition name_word :: "string \<Rightarrow> bool" where
  "name_word s \<longleftrightarrow> s \<noteq> [] \<and> list_all lower_alnum s"

text \<open>The expression as a language.\<close>

inductive name_tail :: "string \<Rightarrow> bool" where
  name_tail_end: "name_tail []"
| name_tail_word: "name_separator sep \<Longrightarrow> name_word w \<Longrightarrow> name_tail s \<Longrightarrow> name_tail (sep @ w @ s)"

definition name_part :: "string \<Rightarrow> bool" where
  "name_part s \<longleftrightarrow> (\<exists>w t. s = w @ t \<and> name_word w \<and> name_tail t)"

text \<open>The match: a word and a separator each reach as far as they can.\<close>

function tail_match :: "string \<Rightarrow> bool" where
  "tail_match s = (if s = [] then True
     else name_separator (takeWhile (\<lambda>c. \<not> lower_alnum c) s) \<and> dropWhile (\<lambda>c. \<not> lower_alnum c) s \<noteq> [] \<and>
       tail_match (dropWhile lower_alnum (dropWhile (\<lambda>c. \<not> lower_alnum c) s)))"
  by pat_completeness auto
termination
proof (relation "measure length", simp)
  fix s :: string
  assume "s \<noteq> []"
  then have "length (dropWhile lower_alnum (dropWhile (\<lambda>c. \<not> lower_alnum c) s)) < length s"
    using length_dropWhile_le [of "\<lambda>c. \<not> lower_alnum c" "tl s"] length_dropWhile_le [of lower_alnum]
    by (cases s) (auto simp: le_imp_less_Suc intro: le_less_trans [OF length_dropWhile_le])
  then show "(dropWhile lower_alnum (dropWhile (\<lambda>c. \<not> lower_alnum c) s), s) \<in> measure length" by simp
qed

declare tail_match.simps [simp del]

definition part_match :: "string \<Rightarrow> bool" where
  "part_match s \<longleftrightarrow> s \<noteq> [] \<and> lower_alnum (hd s) \<and> tail_match (dropWhile lower_alnum s)"

text \<open>The match decides the expression.\<close>

lemma separator_chars: "name_separator sep \<Longrightarrow> sep \<noteq> [] \<and> (\<forall>c \<in> set sep. \<not> lower_alnum c)"
proof -
  have plain: "\<not> lower_alnum (CHR ''.'')" "\<not> lower_alnum (CHR ''_'')" "\<not> lower_alnum (CHR ''-'')" by code_simp+
  assume "name_separator sep"
  then consider "sep = ''.''" | "sep = ''_''" | "sep = ''__''" | "sep \<noteq> []" "list_all (\<lambda>c. c = CHR ''-'') sep"
    unfolding name_separator_def by metis
  then show ?thesis
  proof cases
    case 4
    have "\<not> lower_alnum c" if "c \<in> set sep" for c
    proof -
      have "c = CHR ''-''" using 4(2) that by (simp add: list_all_iff)
      then show ?thesis using plain(3) by simp
    qed
    with 4(1) show ?thesis by simp
  qed (simp_all add: plain)
qed

lemma name_tail_start: "name_tail s \<Longrightarrow> s = [] \<or> \<not> lower_alnum (hd s)"
  by (erule name_tail.cases) (simp, metis separator_chars hd_append2 hd_in_set)

lemma dropWhile_stop: "s = [] \<or> \<not> P (hd s) \<Longrightarrow> dropWhile P s = s"
  by (cases s) auto

lemma takeWhile_stop: "s = [] \<or> \<not> P (hd s) \<Longrightarrow> takeWhile P s = []"
  by (cases s) auto

lemma name_word_hd: "name_word w \<Longrightarrow> w \<noteq> [] \<and> lower_alnum (hd w) \<and> (\<forall>c \<in> set w. lower_alnum c)"
  by (cases w) (auto simp: name_word_def list_all_iff)

lemma name_word_drop: "name_word w \<Longrightarrow> name_tail s \<Longrightarrow> dropWhile lower_alnum (w @ s) = s"
  using dropWhile_stop [of s lower_alnum] name_tail_start [of s] name_word_hd [of w]
  by (subst dropWhile_append2) auto

lemma tail_match_iff: "tail_match s \<longleftrightarrow> name_tail s"
proof
  show "name_tail s \<Longrightarrow> tail_match s"
  proof (induction s rule: name_tail.induct)
    case name_tail_end
    show ?case by (simp add: tail_match.simps)
  next
    case (name_tail_word sep w s)
    have sep: "takeWhile (\<lambda>c. \<not> lower_alnum c) (sep @ w @ s) = sep" "dropWhile (\<lambda>c. \<not> lower_alnum c) (sep @ w @ s) = w @ s"
      using separator_chars [OF name_tail_word.hyps(1)] name_word_hd [OF name_tail_word.hyps(2)]
      by (simp_all add: takeWhile_stop dropWhile_stop)
    have "w @ s \<noteq> []" using name_word_hd [OF name_tail_word.hyps(2)] by simp
    then show ?case
      using name_tail_word sep name_word_drop [OF name_tail_word.hyps(2,3)]
      by (subst tail_match.simps) simp
  qed
next
  show "tail_match s \<Longrightarrow> name_tail s"
  proof (induction s rule: tail_match.induct)
    case (1 s)
    show ?case
    proof (cases "s = []")
      case False
      let ?sep = "takeWhile (\<lambda>c. \<not> lower_alnum c) s" and ?r = "dropWhile (\<lambda>c. \<not> lower_alnum c) s"
      have m: "name_separator ?sep" "?r \<noteq> []" "tail_match (dropWhile lower_alnum ?r)"
        using "1.prems" False by (subst (asm) tail_match.simps, simp)+
      then have "lower_alnum (hd ?r)" using hd_dropWhile [of "\<lambda>c. \<not> lower_alnum c" s] by simp
      then have "name_word (takeWhile lower_alnum ?r)"
        using m(2) by (cases ?r) (auto simp: name_word_def list_all_iff dest: set_takeWhileD)
      then have "name_tail (?sep @ takeWhile lower_alnum ?r @ dropWhile lower_alnum ?r)"
        using m "1.IH" False by (intro name_tail.intros) auto
      then show ?thesis by simp
    qed (simp add: name_tail_end)
  qed
qed

lemma part_match_iff: "part_match s \<longleftrightarrow> name_part s"
proof
  assume m: "part_match s"
  then have "name_word (takeWhile lower_alnum s)"
    by (cases s) (auto simp: part_match_def name_word_def list_all_iff dest: set_takeWhileD)
  with m show "name_part s"
    unfolding name_part_def part_match_def tail_match_iff by (metis takeWhile_dropWhile_id)
next
  assume "name_part s"
  then obtain w t where "s = w @ t" "name_word w" "name_tail t" by (auto simp: name_part_def)
  then show "part_match s" using name_word_hd [of w] name_word_drop [of w t] by (simp add: part_match_def tail_match_iff)
qed

definition validDockerImageName :: "string \<Rightarrow> bool" where
  "validDockerImageName name =
     (if name = [] \<or> length name > 255 \<or> name \<noteq> to_lower name then False
      else (let parts = split_byte (CHR ''/'') name in
        if contains_byte (hd parts) (CHR '':'') then
          length parts \<ge> 2 \<and>
          (case cut_byte (hd parts) (CHR '':'') of None \<Rightarrow> False
           | Some (host, port) \<Rightarrow> part_match host \<and> port_match port) \<and>
          list_all part_match (tl parts)
        else list_all part_match parts))"

text \<open>The tag, when there is one, or nothing for a reference that is not valid.\<close>

definition parseDockerImageNameAndTag :: "string \<Rightarrow> string option option" where
  "parseDockerImageNameAndTag reference =
     (let slash = (case last_index_byte reference (CHR ''/'') of None \<Rightarrow> - 1 | Some i \<Rightarrow> int i) in
      case last_index_byte reference (CHR '':'') of
        Some i \<Rightarrow>
          if int i > slash then
            (if \<not> tag_match (drop (Suc i) reference) \<or> \<not> validDockerImageName (take i reference) then None
             else Some (Some (drop (Suc i) reference)))
          else (if validDockerImageName reference then Some None else None)
      | None \<Rightarrow> if validDockerImageName reference then Some None else None)"

section \<open>The checks\<close>

text \<open>Each check: what it reports, and whether it failed.\<close>

definition doctorStackEnvImage :: "(string, string) gomap \<Rightarrow> report \<times> bool" where
  "doctorStackEnvImage vals =
     (let ref = gomap_get vals ''VELOCIPORTAL_IMAGE'' []; failed = ([(Fail, ''stack env image'')], True) in
      if ref = [] then failed
      else if ref \<noteq> trim_space ref then failed
      else (case cut_byte ref (CHR ''@'') of
        Some (base, digest) \<Rightarrow>
          (case cut_byte digest (CHR '':'') of None \<Rightarrow> failed
           | Some (algorithm, encoded) \<Rightarrow>
               if algorithm \<noteq> ''sha256'' \<or> \<not> digest_match encoded \<or> parseDockerImageNameAndTag base = None then failed
               else ([(Pass, ''stack env image'')], False))
      | None \<Rightarrow>
          (case parseDockerImageNameAndTag ref of None \<Rightarrow> failed
           | Some None \<Rightarrow> failed
           | Some (Some tag) \<Rightarrow> if equal_fold tag ''latest'' then failed else ([(Warn, ''stack env image'')], False))))"

definition stackEnvValueOrDefault :: "(string, string) gomap \<Rightarrow> string \<Rightarrow> string \<Rightarrow> string" where
  "stackEnvValueOrDefault vals key fallback = (let v = gomap_get vals key [] in if v \<noteq> [] then v else fallback)"

definition stackEnvDefaultSubnet :: string where "stackEnvDefaultSubnet = ''172.31.255.0/24''"
definition stackEnvDefaultGateway :: string where "stackEnvDefaultGateway = ''172.31.255.1''"

definition doctorStackEnvNetwork :: "(string, string) gomap \<Rightarrow> report \<times> bool" where
  "doctorStackEnvNetwork vals =
     (let failed = ([(Fail, ''stack env network'')], True) in
      case net_parse_cidr (stackEnvValueOrDefault vals ''VELOCIPORTAL_SUBNET'' stackEnvDefaultSubnet) of None \<Rightarrow> failed
      | Some (_, subnet) \<Rightarrow>
          (case net_parse_ip (stackEnvValueOrDefault vals ''VELOCIPORTAL_GATEWAY'' stackEnvDefaultGateway) of None \<Rightarrow> failed
           | Some gateway \<Rightarrow> if \<not> ipnet_contains subnet gateway then failed else ([(Pass, ''stack env network'')], False)))"

fun single_address :: "ipnet \<Rightarrow> bool" where
  "single_address (Net4 _ n) = (n = 32)"
| "single_address (Net6 _ n) = (n = 128)"

definition reportDoctorSingleAddressCIDR :: "string \<Rightarrow> ipnet \<Rightarrow> report" where
  "reportDoctorSingleAddressCIDR label network = [(if single_address network then Pass else Warn, label)]"

definition doctorStackEnvTrustedProxy :: "(string, string) gomap \<Rightarrow> configLookup option \<Rightarrow> report \<times> bool" where
  "doctorStackEnvTrustedProxy vals lookup =
     (let raw = gomap_get vals ''VELOCIPORTAL_TRUSTED_PROXY_CIDR'' []; label = ''stack env trusted proxy'' in
      if raw = [] then ([(Fail, label)], True)
      else (case net_parse_cidr raw of None \<Rightarrow> ([(Fail, label)], True)
      | Some (address, network) \<Rightarrow>
          (reportDoctorSingleAddressCIDR label network @
           (case net_parse_ip (stackEnvValueOrDefault vals ''VELOCIPORTAL_GATEWAY'' stackEnvDefaultGateway) of None \<Rightarrow> []
            | Some gateway \<Rightarrow> [(if address = gateway then Pass else Warn, label)]) @
           (case lookup of None \<Rightarrow> []
            | Some look \<Rightarrow> (case look ''TRUSTED_PROXY_CIDR'' of (value, present, err) \<Rightarrow>
                if \<not> err \<and> present \<and> trim_space value \<noteq> [] then [(Warn, label)] else [])),
           False)))"

definition stack_override_keys :: "string list" where
  "stack_override_keys = [''VELOCIPORTAL_IMAGE'', ''VELOCIPORTAL_SUBNET'', ''VELOCIPORTAL_GATEWAY'', ''VELOCIPORTAL_TRUSTED_PROXY_CIDR'']"

text \<open>The process environment replaces the values, as Compose does; an unreadable one stops the checks.\<close>

fun override_values :: "configLookup \<Rightarrow> string list \<Rightarrow> (string, string) gomap \<Rightarrow> report \<times> bool \<times> (string, string) gomap" where
  "override_values lookup [] vals = ([], False, vals)"
| "override_values lookup (key # ks) vals = (case lookup key of (value, present, err) \<Rightarrow>
     if err then ([(Fail, ''stack env source'')], True, vals)
     else if \<not> present then override_values lookup ks vals
     else (case override_values lookup ks (gomap_put vals key value) of (ls, failed, vals') \<Rightarrow>
       ((Warn, ''stack env source'') # ls, failed, vals')))"

definition applyDoctorStackEnvInterpolationOverrides ::
    "(string, string) gomap \<Rightarrow> configLookup option \<Rightarrow> report \<times> bool \<times> (string, string) gomap" where
  "applyDoctorStackEnvInterpolationOverrides vals lookup = (case lookup of None \<Rightarrow> ([], False, vals)
     | Some look \<Rightarrow> override_values look stack_override_keys vals)"

text \<open>All checks of the file: the report, the trusted proxy, and whether one failed. \<open>None\<close> is a file that cannot be read.\<close>

definition runDoctorStackEnvChecks ::
    "string option \<Rightarrow> configLookup option \<Rightarrow> configLookup option \<Rightarrow> report \<times> string \<times> bool" where
  "runDoctorStackEnvChecks contents providerLookup interpolationLookup =
     (case (case contents of None \<Rightarrow> None | Some s \<Rightarrow> (case parseEnvFile s of Inl _ \<Rightarrow> None | Inr vals \<Rightarrow> Some vals)) of
        None \<Rightarrow> ([(Fail, ''stack env'')], [], True)
      | Some vals0 \<Rightarrow>
          (case applyDoctorStackEnvInterpolationOverrides vals0 interpolationLookup of (overrides, stopped, vals) \<Rightarrow>
             if stopped then ((Pass, ''stack env source'') # overrides, [], True)
             else (case (doctorStackEnvImage vals, doctorStackEnvNetwork vals, doctorStackEnvTrustedProxy vals providerLookup) of
               ((image_lines, failed_image), (network_lines, failed_network), (proxy_lines, failed_proxy)) \<Rightarrow>
                 ((Pass, ''stack env source'') # overrides @ image_lines @ network_lines @ proxy_lines,
                  gomap_get vals ''VELOCIPORTAL_TRUSTED_PROXY_CIDR'' [],
                  failed_image \<or> failed_network \<or> failed_proxy))))"

definition doctorStackEnvConfigLookup :: "configLookup \<Rightarrow> string \<Rightarrow> configLookup" where
  "doctorStackEnvConfigLookup base trustedProxyCIDR key =
     (if key = ''TRUSTED_PROXY_CIDR'' then (trustedProxyCIDR, True, False) else base key)"

section \<open>Failing and reporting a failure\<close>

lemma image_honest: "honest (doctorStackEnvImage vals)"
  by (auto simp: honest_def doctorStackEnvImage_def Let_def level_max split: option.split)

lemma network_honest: "honest (doctorStackEnvNetwork vals)"
  by (auto simp: honest_def doctorStackEnvNetwork_def Let_def level_max split: option.split)

lemma single_address_report [simp]: "worst (reportDoctorSingleAddressCIDR label network) \<noteq> Fail"
  by (simp add: reportDoctorSingleAddressCIDR_def level_max)

lemma proxy_honest: "honest (doctorStackEnvTrustedProxy vals lookup)"
  by (auto simp: honest_def doctorStackEnvTrustedProxy_def Let_def level_max split: option.split prod.split)

lemma override_honest: "worst (fst (override_values lookup ks vals)) = Fail \<longleftrightarrow> fst (snd (override_values lookup ks vals))"
  by (induction lookup ks vals rule: override_values.induct) (auto simp: level_max split: prod.split prod.split_asm)

lemma runDoctorStackEnvChecks_honest:
  "worst (fst (runDoctorStackEnvChecks contents provider interpolation)) = Fail \<longleftrightarrow> snd (snd (runDoctorStackEnvChecks contents provider interpolation))"
proof -
  have parts: "worst (fst (doctorStackEnvImage vals)) = Fail \<longleftrightarrow> snd (doctorStackEnvImage vals)"
      "worst (fst (doctorStackEnvNetwork vals)) = Fail \<longleftrightarrow> snd (doctorStackEnvNetwork vals)"
      "worst (fst (doctorStackEnvTrustedProxy vals lookup)) = Fail \<longleftrightarrow> snd (doctorStackEnvTrustedProxy vals lookup)" for vals lookup
    using image_honest [of vals] network_honest [of vals] proxy_honest [of vals lookup] by (simp_all add: honest_def)
  have over: "worst (fst (applyDoctorStackEnvInterpolationOverrides vals interpolation)) = Fail
      \<longleftrightarrow> fst (snd (applyDoctorStackEnvInterpolationOverrides vals interpolation))" for vals
    using override_honest by (simp add: applyDoctorStackEnvInterpolationOverrides_def split: option.split)
  show ?thesis
    using parts over
    by (auto simp: runDoctorStackEnvChecks_def level_max split: option.split sum.split prod.split)
      (metis fst_conv snd_conv)+
qed

end
