(* ===== verification/File_Load.thy ===== *)
theory File_Load
  imports Metadata Health_Config
begin

text \<open>
  Loading the two documents from their files (\<open>loadServiceMetadataFile\<close> in \<open>service_metadata.go\<close>,
  \<open>loadServiceHealthConfigFile\<close> in \<open>service_health_config.go\<close>). What the file system answers is an argument: the
  status of the path, and what reading gives, which may have changed meanwhile.
\<close>

datatype file_failure = FileMissing | FileNotReadable | FileNotInspected | FileNotRegular | FileTooLarge | FileReadFailed

record disk_file =
  df_stat :: "file_failure + bool \<times> nat"
  df_open :: "file_failure + unit"
  df_read :: "string option"

text \<open>At most one byte more than the limit is read.\<close>

definition load_bounded :: "nat \<Rightarrow> disk_file \<Rightarrow> file_failure + string" where
  "load_bounded limit f =
     and_then (df_stat f) (\<lambda>(regular, bytes).
     and_then (reject_if (\<not> regular) FileNotRegular) (\<lambda>_.
     and_then (reject_if (bytes > limit) FileTooLarge) (\<lambda>_.
     and_then (df_open f) (\<lambda>_.
     (case df_read f of None \<Rightarrow> Inl FileReadFailed | Some contents \<Rightarrow>
       let data = take (Suc limit) contents in
       and_then (reject_if (length data > limit) FileTooLarge) (\<lambda>_. Inr data))))))"

datatype 'e document_error = DocumentFile file_failure | DocumentRejected 'e

definition parse_loaded :: "(string \<Rightarrow> 'e + 'a) \<Rightarrow> file_failure + string \<Rightarrow> 'e document_error + 'a" where
  "parse_loaded parse loaded = (case loaded of Inl e \<Rightarrow> Inl (DocumentFile e)
     | Inr data \<Rightarrow> (case parse data of Inl e \<Rightarrow> Inl (DocumentRejected e) | Inr a \<Rightarrow> Inr a))"

definition loadServiceMetadataFile :: "(string \<Rightarrow> disk_file) \<Rightarrow> string \<Rightarrow> metadata_error document_error + ServiceMetadata" where
  "loadServiceMetadataFile files path = parse_loaded parseServiceMetadata (load_bounded (256 * 1024) (files path))"

definition serviceMetadataLoaderForPath :: "(string \<Rightarrow> disk_file) \<Rightarrow> string \<Rightarrow> metadata_error document_error + ServiceMetadata" where
  "serviceMetadataLoaderForPath files path =
     (if trim_space path = [] then Inr emptyServiceMetadata else loadServiceMetadataFile files (trim_space path))"

definition loadServiceHealthConfigFile :: "(string \<Rightarrow> disk_file) \<Rightarrow> string \<Rightarrow> health_config_error document_error + ServiceHealthConfig" where
  "loadServiceHealthConfigFile files path = parse_loaded parseServiceHealthConfig (load_bounded (256 * 1024) (files path))"

definition serviceHealthConfigLoaderForPath :: "(string \<Rightarrow> disk_file) \<Rightarrow> string \<Rightarrow> health_config_error document_error + ServiceHealthConfig" where
  "serviceHealthConfigLoaderForPath files path =
     (if trim_space path = [] then Inr emptyServiceHealthConfig else loadServiceHealthConfigFile files (trim_space path))"

text \<open>A document is what the file held, whole, within the limit; a file that grows while it is read is refused.\<close>

lemma load_bounded_whole: "load_bounded limit f = Inr data \<Longrightarrow> df_read f = Some data \<and> length data \<le> limit"
  by (auto simp: load_bounded_def Let_def reject_if_def split: option.splits if_splits)

end
