(* ===== verification/Json_Roundtrip.thy ===== *)
theory Json_Roundtrip
  imports Json_Print Go_Utf8
begin

text \<open>
  Parsing what was printed: the printed text of a value with integer numbers and valid strings is read back
  as that value, with any white space around it.
\<close>

section \<open>Strings\<close>

lemma p_chars_close: "p_chars (char_of (34::nat) # r) = Some ([], r)"
  by (subst p_chars.simps) simp

lemma p_chars_plain:
  assumes "byte c < 128" and "32 \<le> byte c" and "byte c \<noteq> 34" and "byte c \<noteq> 92"
  shows "p_chars (c # t) = map_option (\<lambda>(v, r). (c # v, r)) (p_chars t)"
  using assms by (subst p_chars.simps) simp

lemma p_chars_escape:
  assumes "e \<noteq> CHR ''u''" and "simple_escape e = Some b"
  shows "p_chars (char_of (92::nat) # e # t) = map_option (\<lambda>(v, r). (b # v, r)) (p_chars t)"
  using assms by (subst p_chars.simps) simp

lemma p_chars_escape_u:
  assumes "read_escape_u (char_of (92::nat) # CHR ''u'' # h # t) = Some (bs, 6)"
  shows "p_chars (char_of (92::nat) # CHR ''u'' # h # t) = map_option (\<lambda>(v, r). (bs @ v, r)) (p_chars (drop 3 t))"
  using assms by (subst p_chars.simps) simp

lemma p_chars_rune:
  assumes "rune_bytes bs" and "128 \<le> byte (hd bs)"
  shows "p_chars (bs @ t) = map_option (\<lambda>(v, r). (bs @ v, r)) (p_chars t)"
proof -
  obtain a b where bs: "bs = a # b" using assms by (cases bs) (simp_all add: rune_bytes_def)
  have "decode_rune (a # b @ t) = (Suc (length b), True)" using decode_rune_append [OF assms(1)] bs by simp
  with assms(2) show ?thesis unfolding bs by (subst p_chars.simps) (simp del: decode_rune.simps)
qed

lemma hex_char_byte:
  assumes "d < 16"
  shows "is_hex (hex_char d)" "hex_value (hex_char d) = d"
  using assms by (auto simp: is_hex_def hex_value_def hex_char_def is_digit_def)

lemma read_u_escape: "b < 128 \<Longrightarrow> read_escape_u (u_escape b @ t) = Some ([char_of b], 6)"
proof -
  assume b: "b < 128"
  have "hex_number [CHR ''0'', CHR ''0'', hex_char (b div 16), hex_char (b mod 16)] = b"
    using b hex_char_byte by (simp add: hex_number_def hex_value_def is_digit_def)
  moreover have "is_hex (CHR ''0'')" by (simp add: is_hex_def is_digit_def)
  ultimately show ?thesis using b hex_char_byte
    by (simp add: read_escape_u_def read_u4_def u_escape_def encode_rune_def)
qed

lemma p_chars_u_escape: "b < 128 \<Longrightarrow> p_chars (u_escape b @ t) = map_option (\<lambda>(v, r). (char_of b # v, r)) (p_chars t)"
  using p_chars_escape_u [of "CHR ''0''" "[CHR ''0'', hex_char (b div 16), hex_char (b mod 16)] @ t" "[char_of b]"] read_u_escape [of b t]
  by (simp add: u_escape_def)

lemma p_chars_separator:
  "p_chars (char_of (92::nat) # ''u2028'' @ t) = map_option (\<lambda>(v, r). (map char_of [0xE2, 0x80, 0xA8::nat] @ v, r)) (p_chars t)"
  "p_chars (char_of (92::nat) # ''u2029'' @ t) = map_option (\<lambda>(v, r). (map char_of [0xE2, 0x80, 0xA9::nat] @ v, r)) (p_chars t)"
proof -
  have "read_escape_u (char_of (92::nat) # ''u2028'' @ t) = Some (map char_of [0xE2, 0x80, 0xA8::nat], 6)"
    "read_escape_u (char_of (92::nat) # ''u2029'' @ t) = Some (map char_of [0xE2, 0x80, 0xA9::nat], 6)"
    by (simp_all add: read_escape_u_def read_u4_def is_hex_def is_digit_def hex_number_def hex_value_def encode_rune_def)
  with p_chars_escape_u [of "CHR ''2''" "''028'' @ t"] p_chars_escape_u [of "CHR ''2''" "''029'' @ t"]
  show "p_chars (char_of (92::nat) # ''u2028'' @ t) = map_option (\<lambda>(v, r). (map char_of [0xE2, 0x80, 0xA8::nat] @ v, r)) (p_chars t)"
    "p_chars (char_of (92::nat) # ''u2029'' @ t) = map_option (\<lambda>(v, r). (map char_of [0xE2, 0x80, 0xA9::nat] @ v, r)) (p_chars t)"
    by simp_all
qed

lemma byte_char: "byte c = n \<Longrightarrow> c = char_of n"
  by auto

lemma p_chars_simple:
  assumes "byte c = n" and "(n, e) \<in> {(34, char_of (34::nat)), (92, char_of (92::nat)), (8, CHR ''b''), (12, CHR ''f''), (10, CHR ''n''), (13, CHR ''r''), (9, CHR ''t'')}"
  shows "p_chars (char_of (92::nat) # e # t) = map_option (\<lambda>(v, r). (c # v, r)) (p_chars t)"
proof -
  have "e \<noteq> CHR ''u'' \<and> simple_escape e = Some (char_of n)"
    using assms(2) by (elim insertE emptyE; simp add: simple_escape_def char_of_def bit_0)
  with p_chars_escape [of e "char_of n" t] assms(1) show ?thesis by auto
qed

lemma quote_ascii:
  assumes bs: "bs = [c]"
  obtains (simple) n e where "byte c = n" "(n, e) \<in> {(34, char_of (34::nat)), (92, char_of (92::nat)), (8, CHR ''b''), (12, CHR ''f''), (10, CHR ''n''), (13, CHR ''r''), (9, CHR ''t'')}"
      "quote_rune (bs, True) = [char_of (92::nat), e]"
    | (unicode) "quote_rune (bs, True) = u_escape (byte c)"
    | (plain) "32 \<le> byte c" "byte c \<noteq> 34" "byte c \<noteq> 92" "quote_rune (bs, True) = [c]"
proof -
  have q: "byte c \<in> {34, 92} \<Longrightarrow> quote_rune (bs, True) = [char_of (92::nat), c]"
    "byte c = 8 \<Longrightarrow> quote_rune (bs, True) = [char_of (92::nat), CHR ''b'']" "byte c = 12 \<Longrightarrow> quote_rune (bs, True) = [char_of (92::nat), CHR ''f'']"
    "byte c = 10 \<Longrightarrow> quote_rune (bs, True) = [char_of (92::nat), CHR ''n'']" "byte c = 13 \<Longrightarrow> quote_rune (bs, True) = [char_of (92::nat), CHR ''r'']"
    "byte c = 9 \<Longrightarrow> quote_rune (bs, True) = [char_of (92::nat), CHR ''t'']"
    "byte c \<notin> {34, 92, 8, 12, 10, 13, 9} \<Longrightarrow> quote_rune (bs, True) = u_escape (byte c) \<or> quote_rune (bs, True) = [c] \<and> 32 \<le> byte c"
    by (simp_all add: quote_rune_def bs)
  show thesis
  proof (cases "byte c \<in> {34, 92, 8, 12, 10, 13, 9}")
    case True
    then consider "byte c = 34" | "byte c = 92" | "byte c = 8" | "byte c = 12" | "byte c = 10" | "byte c = 13" | "byte c = 9" by blast
    then show thesis
      by cases (use simple [of 34 "char_of (34::nat)"] simple [of 92 "char_of (92::nat)"] simple [of 8] simple [of 12] simple [of 10] simple [of 13]
        simple [of 9] q in \<open>auto dest: byte_char\<close>)
  next
    case False
    with q(7) unicode plain show thesis by blast
  qed
qed

lemma quote_multi_byte:
  assumes bs: "bs = a # b # u"
  obtains "quote_rune (bs, True) = bs"
    | "bs = map char_of [0xE2, 0x80, 0xA8::nat]" "quote_rune (bs, True) = char_of (92::nat) # ''u2028''"
    | "bs = map char_of [0xE2, 0x80, 0xA9::nat]" "quote_rune (bs, True) = char_of (92::nat) # ''u2029''"
proof -
  have "quote_rune (bs, True) = bs"
    if "bs \<noteq> map char_of [0xE2, 0x80, 0xA8::nat]" "bs \<noteq> map char_of [0xE2, 0x80, 0xA9::nat]"
    using that unfolding bs by (simp only: quote_rune_def prod.case not_True_eq_False if_False list.case)
  moreover have "quote_rune (bs, True) = char_of (92::nat) # ''u2028''" if "bs = map char_of [0xE2, 0x80, 0xA8::nat]"
    using that by (simp only: quote_rune_def prod.case not_True_eq_False if_False refl if_True)
  moreover have "quote_rune (bs, True) = char_of (92::nat) # ''u2029''" if "bs = map char_of [0xE2, 0x80, 0xA9::nat]"
    using that by (simp add: quote_rune_def)
  ultimately show thesis using that by blast
qed

lemma p_chars_quoted:
  assumes "rune_bytes bs"
  shows "p_chars (quote_rune (bs, True) @ t) = map_option (\<lambda>(v, r). (bs @ v, r)) (p_chars t)"
  using rune_bytes_head [OF assms]
proof (elim disjE exE conjE)
  fix c
  assume bs: "bs = [c]" "byte c < 128"
  from bs(1) show ?thesis
  proof (cases rule: quote_ascii)
    case simple
    with p_chars_simple [OF simple(1,2)] bs show ?thesis by simp
  next
    case unicode
    with p_chars_u_escape [OF bs(2)] bs show ?thesis by simp
  next
    case plain
    with p_chars_plain [OF bs(2)] bs show ?thesis by simp
  qed
next
  fix a b u
  assume bs: "bs = a # b # u" "128 \<le> byte a"
  from bs(1) show ?thesis
  proof (cases rule: quote_multi_byte)
    case 1
    with p_chars_rune [OF assms] bs show ?thesis by simp
  next
    case 2
    show ?thesis unfolding 2(2) using p_chars_separator(1) 2(1) by simp
  next
    case 3
    show ?thesis unfolding 3(2) using p_chars_separator(2) 3(1) by simp
  qed
qed

lemma utf8_valid_runes: "utf8_valid s \<Longrightarrow> p_chars (concat (map quote_rune (runes s)) @ char_of (34::nat) # r) = Some (s, r)"
proof (induction s rule: rune_induct)
  case Nil
  show ?case by (simp add: p_chars_close)
next
  case (Valid bs s)
  then show ?case by (simp add: runes_valid utf8_valid_def p_chars_quoted)
next
  case (Invalid c s)
  then show ?case by (simp add: runes_invalid utf8_valid_def)
qed

section \<open>Numbers\<close>

text \<open>What may follow a value: nothing that would extend a number.\<close>

definition delimited :: "string \<Rightarrow> bool" where
  "delimited r \<longleftrightarrow> (case r of [] \<Rightarrow> True | c # _ \<Rightarrow> \<not> is_digit c \<and> c \<noteq> CHR ''.'' \<and> c \<noteq> CHR ''e'' \<and> c \<noteq> CHR ''E'')"

lemma delimited_simps [simp]:
  "delimited []" "delimited (CHR '','' # r)" "delimited (CHR '']'' # r)" "delimited (CHR ''}'' # r)" "delimited (char_of (10::nat) # r)"
  by (simp_all add: delimited_def is_digit_def char_of_def bit_0)

lemma digits_then:
  assumes "list_all is_digit u" and "delimited r"
  shows "takeWhile is_digit (u @ r) = u" "dropWhile is_digit (u @ r) = r"
proof -
  have "takeWhile is_digit r = []" "dropWhile is_digit r = r" using assms(2) by (cases r; simp add: delimited_def)+
  with assms(1) show "takeWhile is_digit (u @ r) = u" "dropWhile is_digit (u @ r) = r"
    by (simp_all add: list_all_iff takeWhile_append2 dropWhile_append2)
qed

lemma show_nat_head: "show_nat n = c # u \<Longrightarrow> c = CHR ''0'' \<Longrightarrow> u = []"
proof (induction n arbitrary: u rule: show_nat.induct)
  case (1 n)
  show ?case
  proof (cases "n < 10")
    case True
    with "1.prems" show ?thesis by (simp add: show_nat.simps [of n])
  next
    case False
    obtain d v where dv: "show_nat (n div 10) = d # v" by (cases "show_nat (n div 10)") simp_all
    with False "1.prems" have "d = CHR ''0''" by (simp add: show_nat.simps [of n])
    with False "1.IH" [of v] "1.prems"(2) dv have "v = []" by simp
    with dv \<open>d = CHR ''0''\<close> have "n div 10 = 0"
      using parse_show_nat [of "n div 10"] by (simp add: parse_digits_def digit_value_def is_digit_def)
    with False show ?thesis by simp
  qed
qed

lemma p_int_part_show: "delimited r \<Longrightarrow> p_int_part (show_nat n @ r) = Some (show_nat n, r)"
proof -
  assume r: "delimited r"
  obtain c u where c: "show_nat n = c # u" by (cases "show_nat n") simp_all
  have d: "list_all is_digit (c # u)" using show_nat_digits [of n] c by simp
  show ?thesis using digits_then [OF d r] d show_nat_head [OF c] by (auto simp: p_int_part_def c)
qed

lemma p_number_show_int: "delimited r \<Longrightarrow> p_number (show_int i @ r) = Some (JNum (show_int i), r)"
proof -
  assume r: "delimited r"
  have f: "p_fraction r = Some ([], r)" "p_exponent r = Some ([], r)"
    using r by (auto simp: p_fraction_def p_exponent_def delimited_def split: list.splits)
  show ?thesis
  proof (cases "i < 0")
    case True
    with p_int_part_show [OF r, of "nat (- i)"] f show ?thesis by (simp add: p_number_def show_int_def)
  next
    case False
    obtain c u where c: "show_nat (nat i) = c # u" by (cases "show_nat (nat i)") simp_all
    have "is_digit c" using show_nat_digits [of "nat i"] c by simp
    then have "c \<noteq> CHR ''-''" using digit_not_sign by blast
    with False p_int_part_show [OF r, of "nat i"] f c show ?thesis by (simp add: p_number_def show_int_def)
  qed
qed

lemma show_int_head:
  obtains c u where "show_int i = c # u" "c = CHR ''-'' \<or> is_digit c"
proof (cases "i < 0")
  case True
  with that [of "CHR ''-''" "show_nat (nat (- i))"] show thesis by (simp add: show_int_def)
next
  case False
  obtain c u where c: "show_nat (nat i) = c # u" by (cases "show_nat (nat i)") simp_all
  have "is_digit c" using show_nat_digits [of "nat i"] c by simp
  with False c that [of c u] show thesis by (simp add: show_int_def)
qed

section \<open>Values\<close>

text \<open>What the printer writes exactly: integers and valid strings.\<close>

fun plain_json :: "json \<Rightarrow> bool" where
  "plain_json JNull = True"
| "plain_json (JBool b) = True"
| "plain_json (JNum s) = (\<exists>i. s = show_int i)"
| "plain_json (JStr s) = utf8_valid s"
| "plain_json (JArr vs) = list_all plain_json vs"
| "plain_json (JObj ms) = list_all (\<lambda>(k, v). utf8_valid k \<and> plain_json v) ms"

text \<open>A reader reads a text as a value once it has enough fuel.\<close>

definition reads :: "(nat \<Rightarrow> string \<Rightarrow> ('a \<times> string) option) \<Rightarrow> string \<Rightarrow> 'a \<Rightarrow> string \<Rightarrow> bool" where
  "reads p s v r \<longleftrightarrow> (\<exists>m. \<forall>n \<ge> m. p n s = Some (v, r))"

lemma readsI: "(\<And>n. p (Suc n) s = Some (v, r)) \<Longrightarrow> reads p s v r"
  unfolding reads_def by (metis Suc_le_D)

lemma reads_Suc: "reads p s v r \<Longrightarrow> (\<And>n. p n s = Some (v, r) \<Longrightarrow> q (Suc n) t = Some (w, r')) \<Longrightarrow> reads q t w r'"
  unfolding reads_def by (metis Suc_le_D Suc_le_mono)

lemma reads_Suc2:
  assumes "reads p s v r" and "reads p' s' v' r'"
    and "\<And>n. p n s = Some (v, r) \<Longrightarrow> p' n s' = Some (v', r') \<Longrightarrow> q (Suc n) t = Some (w, u)"
  shows "reads q t w u"
proof -
  obtain m m' where "\<forall>n \<ge> m. p n s = Some (v, r)" "\<forall>n \<ge> m'. p' n s' = Some (v', r')" using assms(1,2) unfolding reads_def by blast
  then have "\<forall>n \<ge> Suc (max m m'). q n t = Some (w, u)" using assms(3) by (metis Suc_le_D Suc_le_mono max.bounded_iff)
  then show ?thesis unfolding reads_def by blast
qed

definition spaces :: "string \<Rightarrow> bool" where
  "spaces ws \<longleftrightarrow> list_all json_space ws"

lemma skip_spaces: "spaces ws \<Longrightarrow> skip_space (ws @ s) = skip_space s"
  by (induction ws) (simp_all add: spaces_def skip_space_def)

lemma spaces_newline [simp]: "spaces (newline d)" "spaces []" "spaces [CHR '' '']" "spaces [char_of (10::nat)]"
  by (simp_all add: spaces_def newline_def json_space_def list_all_iff)

lemma skip_space_solid: "\<not> json_space c \<Longrightarrow> skip_space (c # s) = c # s"
  by (simp add: skip_space_def)

lemma p_value_spaces: "spaces ws \<Longrightarrow> p_value n (ws @ s) = p_value n s"
  by (cases n) (simp_all add: skip_spaces)

lemma p_elems_spaces: "spaces ws \<Longrightarrow> p_elems n (ws @ s) = p_elems n s"
  by (cases n) (simp_all add: p_value_spaces)

lemma p_members_spaces: "spaces ws \<Longrightarrow> p_members n (ws @ s) = p_members n s"
  by (cases n) (simp_all add: skip_spaces)

lemma json_space_marks [simp]:
  "\<not> json_space (CHR '','')" "\<not> json_space (CHR '']'')" "\<not> json_space (CHR ''}'')" "\<not> json_space (CHR ''['')" "\<not> json_space (CHR ''{'')"
  "\<not> json_space (CHR '':'')" "\<not> json_space (CHR ''n'')" "\<not> json_space (CHR ''t'')" "\<not> json_space (CHR ''f'')" "\<not> json_space (CHR ''-'')"
  "is_digit c \<Longrightarrow> \<not> json_space c" "\<not> json_space (char_of (34::nat))"
  by (auto simp: json_space_def is_digit_def)

lemma reads_elems:
  assumes "vs \<noteq> []" and "spaces ws" and "spaces close" and "delimited (close @ CHR '']'' # r)"
    and "\<And>v r. v \<in> set vs \<Longrightarrow> delimited r \<Longrightarrow> reads p_value (print v @ r) v r"
  shows "reads p_elems (join_with (CHR '','' # ws) (map print vs) @ close @ CHR '']'' # r) vs r"
  using assms(1,5)
proof (induction vs rule: list_nonempty_induct)
  case (single v)
  have "reads p_value (print v @ close @ CHR '']'' # r) v (close @ CHR '']'' # r)" using single assms(4) by simp
  then show ?case
    by (rule reads_Suc) (simp add: skip_spaces assms(3) skip_space_solid)
next
  case (cons v vs)
  define rest where "rest = join_with (CHR '','' # ws) (map print vs) @ close @ CHR '']'' # r"
  have "reads p_value (print v @ CHR '','' # ws @ rest) v (CHR '','' # ws @ rest)" using cons.prems by simp
  moreover have "reads p_elems rest vs r" unfolding rest_def using cons by simp
  moreover have "join_with (CHR '','' # ws) (map print (v # vs)) @ close @ CHR '']'' # r = print v @ CHR '','' # ws @ rest"
    using cons.hyps by (cases vs) (simp_all add: rest_def)
  ultimately show ?case
    by (simp only:) (erule (1) reads_Suc2, simp add: skip_space_solid p_elems_spaces [OF assms(2)])
qed

lemma p_members_step:
  assumes "utf8_valid k" and "spaces gap" and "p_value n s = Some (v, r)"
  shows "p_members (Suc n) (json_quote k @ CHR '':'' # gap @ s) = (case skip_space r of [] \<Rightarrow> None | d # t \<Rightarrow>
     if d = CHR ''}'' then Some ([(k, v)], t)
     else if d = CHR '','' then map_option (\<lambda>(ms, r'). ((k, v) # ms, r')) (p_members n t) else None)"
proof -
  let ?b = "concat (map quote_rune (runes k)) @ char_of (34::nat) # CHR '':'' # gap @ s"
  have "skip_space (json_quote k @ CHR '':'' # gap @ s) = char_of (34::nat) # ?b"
    by (simp add: json_quote_def skip_space_solid)
  moreover have "p_chars ?b = Some (k, CHR '':'' # gap @ s)" by (rule utf8_valid_runes [OF assms(1)])
  ultimately show ?thesis using assms(3) by (simp add: p_value_spaces [OF assms(2)] skip_space_solid)
qed

lemma reads_members:
  assumes "ms \<noteq> []" and "spaces ws" and "spaces close" and "delimited (close @ CHR ''}'' # r)" and "spaces gap"
    and "\<And>k v r. (k, v) \<in> set ms \<Longrightarrow> utf8_valid k"
    and "\<And>k v r. (k, v) \<in> set ms \<Longrightarrow> delimited r \<Longrightarrow> reads p_value (print v @ r) v r"
  shows "reads p_members (join_with (CHR '','' # ws) (map (\<lambda>(k, v). json_quote k @ CHR '':'' # gap @ print v) ms) @ close @ CHR ''}'' # r) ms r"
  using assms(1,6,7)
proof (induction ms rule: list_nonempty_induct)
  case (single m)
  obtain k v where m: "m = (k, v)" by (cases m)
  have k: "utf8_valid k" using single(1) [of k v] m by simp
  have "reads p_value (print v @ close @ CHR ''}'' # r) v (close @ CHR ''}'' # r)" using single(2) [of k v] assms(4) m by simp
  then show ?case unfolding m
    by (rule reads_Suc) (simp add: p_members_step [OF k assms(5)] skip_spaces [OF assms(3)] skip_space_solid del: p_members.simps)
next
  case (cons m ms)
  obtain k v where m: "m = (k, v)" by (cases m)
  define rest where "rest = join_with (CHR '','' # ws) (map (\<lambda>(k, v). json_quote k @ CHR '':'' # gap @ print v) ms) @ close @ CHR ''}'' # r"
  have k: "utf8_valid k" using cons.prems(1) [of k v] m by simp
  have "reads p_value (print v @ CHR '','' # ws @ rest) v (CHR '','' # ws @ rest)" using cons.prems(2) [of k v] m by simp
  moreover have "reads p_members rest ms r" unfolding rest_def
    using cons.IH cons.prems by (meson list.set_intros(2))
  moreover have "join_with (CHR '','' # ws) (map (\<lambda>(k, v). json_quote k @ CHR '':'' # gap @ print v) (m # ms)) @ close @ CHR ''}'' # r
      = json_quote k @ CHR '':'' # gap @ print v @ CHR '','' # ws @ rest"
    using cons.hyps m by (cases ms) (simp_all add: rest_def)
  ultimately show ?case
    by (simp only:) (erule (1) reads_Suc2, simp add: p_members_step [OF k assms(5)] skip_space_solid p_members_spaces [OF assms(2)] m del: p_members.simps)
qed

lemma delimited_newline [simp]: "delimited (newline d @ r)"
  by (simp add: newline_def)

lemma reads_scalar:
  assumes "p_scalar (c # s) = Some (v, r)" and "\<not> json_space c" and "c \<noteq> CHR ''[''" and "c \<noteq> CHR ''{''"
  shows "reads p_value (c # s) v r"
  by (rule readsI) (simp add: skip_space_solid assms)

lemma pretty_head: "plain_json v \<Longrightarrow> \<exists>c u. pretty d v = c # u \<and> \<not> json_space c \<and> c \<noteq> CHR '']'' \<and> c \<noteq> CHR ''}''"
proof (cases v)
  case (JNum s)
  assume "plain_json v"
  then obtain i where "s = show_int i" using JNum by auto
  moreover obtain c u where "show_int i = c # u" "c = CHR ''-'' \<or> is_digit c" by (rule show_int_head)
  ultimately show ?thesis using JNum by (auto simp: is_digit_def)
qed (auto simp: json_quote_def char_of_def bit_0 json_space_def)

theorem reads_pretty: "plain_json v \<Longrightarrow> delimited r \<Longrightarrow> reads p_value (pretty d v @ r) v r"
proof (induction d v arbitrary: r rule: pretty.induct)
  case (3 d s)
  then obtain i where s: "s = show_int i" by auto
  obtain c u where c: "show_int i = c # u" "c = CHR ''-'' \<or> is_digit c" by (rule show_int_head)
  have "p_scalar (c # u @ r) = Some (JNum s, r)"
    using p_number_show_int [OF 3(2), of i] c by (auto simp: p_scalar_def has_prefix_def s is_digit_def)
  with c show ?case by (auto simp: s intro!: reads_scalar) (auto simp: is_digit_def)
next
  case (4 d s)
  have "p_scalar (json_quote s @ r) = Some (JStr s, r)"
    using utf8_valid_runes [of s r] 4 by (simp add: p_scalar_def has_prefix_def json_quote_def char_of_def bit_0)
  then show ?case by (auto simp: json_quote_def intro!: reads_scalar) (auto simp: char_of_def bit_0)
next
  case (5 d vs)
  show ?case
  proof (cases vs)
    case Nil
    then show ?thesis by (intro readsI) (simp add: skip_space_solid)
  next
    case (Cons v ws)
    define body where "body = join_with (CHR '','' # newline (Suc d)) (map (pretty (Suc d)) vs) @ newline d @ CHR '']'' # r"
    have b: "reads p_elems body vs r"
      unfolding body_def using 5 Cons by (intro reads_elems) (auto simp: list_all_iff)
    have "plain_json v" using 5(2) Cons by simp
    from pretty_head [OF this, of "Suc d"] obtain c u where c: "pretty (Suc d) v = c # u" "\<not> json_space c" "c \<noteq> CHR '']''" by blast
    then obtain t where t: "body = c # t" using Cons unfolding body_def by (cases ws) auto
    have "skip_space (newline (Suc d) @ body) = body" using c(2) by (simp add: skip_spaces t skip_space_solid)
    moreover have "pretty d (JArr vs) @ r = CHR ''['' # newline (Suc d) @ body" using Cons by (simp add: body_def)
    ultimately show ?thesis using b t c(3)
      by (simp only:) (erule reads_Suc, simp add: skip_space_solid)
  qed
next
  case (6 d ms)
  show ?case
  proof (cases ms)
    case Nil
    then show ?thesis by (intro readsI) (simp add: skip_space_solid)
  next
    case (Cons m ws)
    define body where "body = join_with (CHR '','' # newline (Suc d))
      (map (\<lambda>(k, v). json_quote k @ CHR '':'' # [CHR '' ''] @ pretty (Suc d) v) ms) @ newline d @ CHR ''}'' # r"
    have "reads p_value (pretty (Suc d) v @ r) v r" if "(k, v) \<in> set ms" "delimited r" for k v r
      using 6(1) [OF _ that(1)] 6(2) that Cons by (auto simp: list_all_iff)
    then have b: "reads p_members body ms r"
      unfolding body_def using 6(2) Cons by (intro reads_members) (auto simp: list_all_iff)
    obtain t where t: "body = char_of (34::nat) # t" using Cons unfolding body_def by (cases m; cases ws) (auto simp: json_quote_def)
    have "skip_space (newline (Suc d) @ body) = body" by (simp add: skip_spaces t skip_space_solid)
    moreover have "pretty d (JObj ms) @ r = CHR ''{'' # newline (Suc d) @ body" using Cons by (simp add: body_def)
    moreover have "char_of (34::nat) \<noteq> CHR ''}''" by (simp add: char_of_def bit_0)
    ultimately show ?thesis using b t
      by (simp only:) (erule reads_Suc, simp add: skip_space_solid)
  qed
qed (auto intro!: reads_scalar simp: p_scalar_def has_prefix_def)

text \<open>A printed document, with white space after it, is parsed as the value it was printed from.\<close>

theorem parse_pretty:
  assumes "plain_json v" and "spaces ws"
  shows "json_parse (pretty d v @ ws) = Some v"
proof -
  have "delimited ws" using assms(2) by (cases ws) (auto simp: delimited_def spaces_def json_space_def is_digit_def)
  from reads_pretty [OF assms(1) this] obtain m where m: "\<forall>n \<ge> m. p_value n (pretty d v @ ws) = Some (v, ws)"
    unfolding reads_def by blast
  define n where "n = max m (Suc (2 * length (pretty d v @ ws)))"
  have "p_value n (pretty d v @ ws) = Some (v, ws)" using m by (simp add: n_def)
  moreover have "skip_space ws = []" using skip_spaces [OF assms(2), of "[]"] by (simp add: skip_space_def)
  ultimately show ?thesis using json_parse_fuel [of "pretty d v @ ws" n] by (simp add: n_def)
qed

end
