(* ===== verification/Json_Utf8.thy ===== *)
theory Json_Utf8
  imports Go_Struct Go_Utf8
begin

text \<open>Every string the JSON decoder produces is valid UTF-8: invalid bytes and lone surrogates are replaced.\<close>

section \<open>Encoded runes\<close>

lemma byte_char_of: "n < 256 \<Longrightarrow> byte (char_of (n :: nat)) = n"
  by simp

lemma cont_byte_six: "cont_byte (char_of (0x80 + n mod 64 :: nat))"
proof -
  have "n mod 64 < 64" by simp
  then show ?thesis by (simp add: cont_byte_def)
qed

lemma rune_bytes_encode:
  assumes "v \<le> 0x10FFFF" and "\<not> (0xD800 \<le> v \<and> v \<le> 0xDFFF)"
  shows "rune_bytes (encode_rune v)"
proof -
  have six: "x mod 64 < 64" for x :: nat by simp
  consider "v < 0x80" | "0x80 \<le> v" "v < 0x800" | "0x800 \<le> v" "v < 0x10000" | "0x10000 \<le> v" by linarith
  then show ?thesis
  proof cases
    case 1
    then show ?thesis by (simp add: encode_rune_def rune_bytes_def)
  next
    case 2
    define x where "x = v div 64"
    have "2 \<le> x" "x < 32" using 2 by (auto simp: x_def)
    with 2 cont_byte_six [of v] show ?thesis by (simp add: encode_rune_def rune_bytes_def flip: x_def)
  next
    case 3
    define x y where "x = v div 4096" and "y = v div 64 mod 64"
    have x: "x < 16" using 3 by (auto simp: x_def)
    have y: "y < 64" by (simp add: y_def)
    have "v div 64 div 64 = x" by (simp only: x_def div_by_six)
    then have v: "v div 64 = 64 * x + y" using mult_div_mod_eq [of 64 "v div 64"] by (simp only: y_def)
    have "32 \<le> y" if "x = 0" using v that 3 by simp
    moreover have "y < 32" if "x = 13"
    proof (rule ccontr)
      assume "\<not> y < 32"
      with v that have "864 \<le> v div 64" by simp
      then have "0xD800 \<le> v" by simp
      moreover have "v div 4096 = 13" using that x_def by simp
      then have "v \<le> 0xDFFF" by simp
      ultimately show False using assms(2) by blast
    qed
    ultimately show ?thesis using 3 x y cont_byte_six [of v] cont_byte_six [of "v div 64"]
      by (cases "x = 13") (simp_all add: encode_rune_def rune_bytes_def flip: x_def y_def)
  next
    case 4
    define x y where "x = v div 262144" and "y = v div 4096 mod 64"
    have x: "x \<le> 4" using assms(1) by (auto simp: x_def)
    have y: "y < 64" by (simp add: y_def)
    have "v div 4096 div 64 = x" by (simp only: x_def div_by_six)
    then have v: "v div 4096 = 64 * x + y" using mult_div_mod_eq [of 64 "v div 4096"] by (simp only: y_def)
    have "16 \<le> y" if "x = 0" using v that 4 by simp
    moreover have "y < 16" if "x = 4" using v that assms(1) by simp
    ultimately show ?thesis using 4 x y cont_byte_six [of v] cont_byte_six [of "v div 64"] cont_byte_six [of "v div 4096"]
      by (cases "x = 4") (simp_all add: encode_rune_def rune_bytes_def flip: x_def y_def)
  qed
qed

section \<open>Decoded strings\<close>

lemma utf8_valid_append: "rune_bytes bs \<Longrightarrow> utf8_valid (bs @ s) = utf8_valid s"
  by (simp add: utf8_valid_def runes_valid)

lemma utf8_valid_Nil [simp]: "utf8_valid []"
  by (simp add: utf8_valid_def)

lemma utf8_valid_ascii: "byte c < 128 \<Longrightarrow> utf8_valid (c # s) = utf8_valid s"
  using utf8_valid_append [of "[c]" s] by (simp add: rune_bytes_def)

lemma rune_replacement: "rune_bytes replacement"
  unfolding replacement_def by (rule rune_bytes_encode) simp_all

lemma read_u4_bound: "read_u4 s = Some r \<Longrightarrow> r \<le> 0xFFFF"
proof -
  have h: "is_hex c \<Longrightarrow> hex_value c \<le> 15" for c by (auto simp: is_hex_def hex_value_def is_digit_def)
  show "read_u4 s = Some r \<Longrightarrow> r \<le> 0xFFFF"
    by (auto simp: read_u4_def hex_number_def split: list.splits if_splits dest!: h)
qed

lemma read_escape_u_rune:
  assumes "read_escape_u s = Some (bs, n)"
  shows "rune_bytes bs"
proof -
  from assms obtain r where r: "read_u4 s = Some r" by (auto simp: read_escape_u_def split: option.splits)
  note b = read_u4_bound [OF r]
  show ?thesis
  proof (cases "0xD800 \<le> r \<and> r \<le> 0xDFFF")
    case True
    with assms r show ?thesis
      by (auto simp: read_escape_u_def rune_replacement split: option.splits if_splits intro!: rune_bytes_encode)
  next
    case False
    with assms r have "bs = encode_rune r" by (auto simp: read_escape_u_def)
    with False b show ?thesis by (simp add: rune_bytes_encode)
  qed
qed

lemma simple_escape_ascii: "simple_escape c = Some b \<Longrightarrow> byte b < 128"
  by (auto simp: simple_escape_def split: if_splits)

lemma p_chars_valid: "p_chars s = Some (v, r) \<Longrightarrow> utf8_valid v"
proof (induction s arbitrary: v r rule: measure_induct_rule [of length])
  case (less s)
  have IH: "utf8_valid v'" if "p_chars u = Some (v', r')" "length u < length s" for u v' r'
    using less.IH [OF that(2,1)] .
  show ?case
  proof (cases s)
    case Nil
    with less.prems show ?thesis by (simp add: p_chars.simps [of "[]"])
  next
    case (Cons c t)
    consider (close) "byte c = 34" | (control) "byte c \<noteq> 34" "byte c < 32" | (escape) "byte c = 92" | (plain) "byte c \<noteq> 34" "\<not> byte c < 32" "byte c \<noteq> 92"
      by blast
    then show ?thesis
    proof cases
      case close
      with less.prems Cons show ?thesis by (subst (asm) p_chars.simps) simp
    next
      case control
      with less.prems Cons show ?thesis by (subst (asm) p_chars.simps) simp
    next
      case escape
      obtain e u where t: "t = e # u" using less.prems Cons escape by (cases t) (simp_all add: p_chars.simps [of "[c]"])
      show ?thesis
      proof (cases "e = CHR ''u''")
        case True
        with less.prems Cons escape t obtain bs n v' r' where
          "read_escape_u s = Some (bs, n)" "v = bs @ v'" "p_chars (drop (max 1 n) s) = Some (v', r')"
          by (subst (asm) p_chars.simps) (auto split: option.splits prod.splits simp del: drop_Suc_Cons)
        with IH [of "drop (max 1 n) s" v' r'] Cons show ?thesis by (simp add: utf8_valid_append [OF read_escape_u_rune])
      next
        case False
        with less.prems Cons escape t obtain b v' r' where
          "simple_escape e = Some b" "v = b # v'" "p_chars u = Some (v', r')"
          by (subst (asm) p_chars.simps) (auto split: option.splits)
        with IH [of u v' r'] Cons t show ?thesis by (simp add: utf8_valid_ascii [OF simple_escape_ascii])
      qed
    next
      case plain
      obtain n ok where d: "decode_rune s = (n, ok)" by (cases "decode_rune s")
      with less.prems Cons plain obtain v' r' where v: "v = (if ok then take n s else replacement) @ v'"
          "p_chars (drop (max 1 n) s) = Some (v', r')"
        by (subst (asm) p_chars.simps) (auto simp del: drop_Suc_Cons take_Suc_Cons decode_rune.simps)
      moreover have "rune_bytes (if ok then take n s else replacement)"
        using d Cons rune_replacement rune_bytes_take [of s n] by auto
      ultimately show ?thesis using IH [of "drop (max 1 n) s" v' r'] Cons by (simp only: utf8_valid_append) simp
    qed
  qed
qed

section \<open>Decoded values\<close>

fun utf8_json :: "json \<Rightarrow> bool" where
  "utf8_json (JStr s) = utf8_valid s"
| "utf8_json (JArr vs) = list_all utf8_json vs"
| "utf8_json (JObj ms) = list_all (\<lambda>(k, v). utf8_valid k \<and> utf8_json v) ms"
| "utf8_json _ = True"

lemma p_number_JNum: "p_number s = Some (v, r) \<Longrightarrow> \<exists>n. v = JNum n"
  by (auto simp: p_number_def split: prod.splits option.splits)

lemma p_scalar_valid: "p_scalar s = Some (v, r) \<Longrightarrow> utf8_json v"
  by (auto simp: p_scalar_def split: if_splits list.splits dest: p_chars_valid p_number_JNum)

lemma parse_valid:
  "p_value n s = Some (v, r) \<Longrightarrow> utf8_json v"
  "p_elems n s = Some (vs, r) \<Longrightarrow> list_all utf8_json vs"
  "p_members n s = Some (ms, r) \<Longrightarrow> list_all (\<lambda>(k, v). utf8_valid k \<and> utf8_json v) ms"
proof (induction n s and n s and n s arbitrary: v r and vs r and ms r rule: p_value_p_elems_p_members.induct)
  case (2 n s)
  then show ?case by (auto split: list.splits if_splits dest: p_scalar_valid)
next
  case (4 n s)
  then show ?case by (fastforce split: list.splits if_splits option.splits)
next
  case (6 n s)
  then show ?case by (fastforce split: list.splits if_splits option.splits dest: p_chars_valid)
qed simp_all

lemma json_parse_valid: "json_parse s = Some v \<Longrightarrow> utf8_json v"
  by (auto simp: json_parse_def simp del: p_value.simps split: option.splits if_splits dest: parse_valid(1))

end
