(* ===== verification/Metadata_Write.thy ===== *)
theory Metadata_Write
  imports Metadata Json_Roundtrip Json_Utf8
begin

text \<open>
  Writing the service metadata (\<open>service_metadata.go\<close>, \<open>mutateServiceMetadata\<close> of
  \<open>service_metadata_editor.go\<close>): the documents of version 1 and version 3, and the change of one entry.
\<close>

section \<open>Entries as JSON\<close>

definition opt_member :: "string \<Rightarrow> ('a \<Rightarrow> json) \<Rightarrow> 'a option \<Rightarrow> (string \<times> json) list" where
  "opt_member k f x = (case x of None \<Rightarrow> [] | Some a \<Rightarrow> [(k, f a)])"

definition json_int :: "int \<Rightarrow> json" where
  "json_int i = JNum (show_int i)"

text \<open>The members in the order of the struct, absent ones left out.\<close>

definition entry_members :: "serviceMetadataEntry \<Rightarrow> (string \<times> json) list" where
  "entry_members e = [(''proxy_host_id'', json_int (entry_ProxyHostID e))] @ opt_member ''name'' JStr (entry_Name e) @
     opt_member ''url'' JStr (entry_URL e) @ opt_member ''category'' JStr (entry_Category e) @
     opt_member ''order'' json_int (entry_Order e) @ opt_member ''icon'' JStr (entry_Icon e)"

text \<open>The members as a map, an explicit null put back; a map is written in the order of its keys.\<close>

definition entry_fields_v3 :: "serviceMetadataEntry \<Rightarrow> (string \<times> json) list" where
  "entry_fields_v3 e =
     (let m = obj_map (entry_members e);
          m1 = (if entry_NameNull e then gomap_put m ''name'' JNull else m);
          m2 = (if entry_URLNull e then gomap_put m1 ''url'' JNull else m1) in
      sort_slice (\<lambda>a b. fst a < fst b) m2)"

definition document_json :: "int \<Rightarrow> (string \<times> json) list list \<Rightarrow> json" where
  "document_json version services = JObj [(''version'', json_int version), (''services'', JArr (map JObj services))]"

definition document_text :: "json \<Rightarrow> string" where
  "document_text v = pretty 0 v @ [char_of (10::nat)]"

definition serializeServiceMetadataDocumentV1 :: "serviceMetadataEntry list \<Rightarrow> metadata_error + string" where
  "serializeServiceMetadataDocumentV1 services =
     (let data = document_text (document_json 1 (map entry_members services)) in
      and_then (reject_if (length data > 256 * 1024) MetaTooLarge) (\<lambda>_.
      and_then (parseServiceMetadata data) (\<lambda>_. Inr data)))"

definition by_host_id :: "serviceMetadataEntry \<Rightarrow> serviceMetadataEntry \<Rightarrow> bool" where
  "by_host_id a b \<longleftrightarrow> entry_ProxyHostID a < entry_ProxyHostID b"

definition serializeServiceMetadataDocumentV3 :: "serviceMetadataDocument \<Rightarrow> metadata_error + string" where
  "serializeServiceMetadataDocumentV3 doc =
     (let data = document_text (document_json 3 (map entry_fields_v3 (sort_slice by_host_id (doc_Services doc)))) in
      and_then (parseServiceMetadata data) (\<lambda>_. Inr data))"

section \<open>Changing one entry\<close>

datatype edit_error = EditBadName | EditBadURL | EditBadIcon

definition edit_valid :: "string \<Rightarrow> string \<Rightarrow> string \<Rightarrow> edit_error + unit" where
  "edit_valid name link icon =
     and_then (reject_if (name \<noteq> [] \<and> validateServiceMetadataName name = None) EditBadName) (\<lambda>_.
     and_then (reject_if (link \<noteq> [] \<and> validateServiceMetadataURL link = None) EditBadURL) (\<lambda>_.
       reject_if (icon \<noteq> [] \<and> \<not> validServiceIcon icon) EditBadIcon))"

definition set_if :: "bool \<Rightarrow> string \<Rightarrow> string option" where
  "set_if reset s = (if \<not> reset \<and> s \<noteq> [] then Some s else None)"

definition edited :: "serviceMetadataEntry \<Rightarrow> string \<Rightarrow> string \<Rightarrow> string \<Rightarrow> bool \<Rightarrow> serviceMetadataEntry" where
  "edited e name link icon reset = e\<lparr>entry_Name := set_if reset name, entry_URL := set_if reset link, entry_Icon := set_if reset icon,
     entry_NameNull := False, entry_URLNull := False\<rparr>"

text \<open>The last entry of the host is the one that is changed.\<close>

definition selected_entry :: "int \<Rightarrow> serviceMetadataEntry list \<Rightarrow> serviceMetadataEntry" where
  "selected_entry i es = foldl (\<lambda>s e. if entry_ProxyHostID e = i then e else s) (zero_entry\<lparr>entry_ProxyHostID := i\<rparr>) es"

definition mutateServiceMetadata :: "serviceMetadataDocument \<Rightarrow> int \<Rightarrow> string \<Rightarrow> string \<Rightarrow> string \<Rightarrow> bool \<Rightarrow> edit_error + serviceMetadataDocument" where
  "mutateServiceMetadata doc i name link icon reset =
     and_then (if reset then Inr () else edit_valid name link icon) (\<lambda>_.
       let selected = edited (selected_entry i (doc_Services doc)) name link icon reset;
           others = filter (\<lambda>e. entry_ProxyHostID e \<noteq> i) (doc_Services doc) in
       Inr \<lparr>doc_Version = 3, doc_Services = sort_slice by_host_id (others @ (if entry_sets_nothing selected then [] else [selected]))\<rparr>)"

section \<open>The round trip\<close>

text \<open>Entries as the parser produces them.\<close>

definition entry_wf :: "serviceMetadataEntry \<Rightarrow> bool" where
  "entry_wf e \<longleftrightarrow> in_int64 (entry_ProxyHostID e) \<noteq> None \<and> (\<forall>n \<in> set_option (entry_Order e). in_int64 n \<noteq> None) \<and>
     (\<forall>s \<in> set_option (entry_Name e) \<union> set_option (entry_URL e) \<union> set_option (entry_Category e) \<union> set_option (entry_Icon e). utf8_valid s) \<and>
     (entry_NameNull e \<longrightarrow> entry_Name e = None) \<and> (entry_URLNull e \<longrightarrow> entry_URL e = None)"

lemma int_literal_show: "in_int64 i \<noteq> None \<Longrightarrow> int_literal (show_int i) = Some i"
proof -
  assume i: "in_int64 i \<noteq> None"
  show ?thesis
  proof (cases "i < 0")
    case True
    with i show ?thesis by (simp add: int_literal_def show_int_def in_int64_def split: if_splits)
  next
    case False
    obtain c r where cr: "show_nat (nat i) = c # r" by (cases "show_nat (nat i)") auto
    then have "is_digit c" using show_nat_digits [of "nat i"] by simp
    with cr False i show ?thesis
      using parse_show_nat [of "nat i"] digit_not_sign [of c] by (simp add: int_literal_def show_int_def in_int64_def split: if_splits)
  qed
qed

lemma obj_map_distinct: "distinct (map fst ms) \<Longrightarrow> obj_map ms = ms"
proof (induction ms rule: rev_induct)
  case (snoc m ms)
  then show ?case by (cases m) (auto simp: obj_map_def gomap_put_def)
qed (simp add: obj_map_def)

lemma entry_members_keys: "distinct (map fst (entry_members e))"
  by (simp add: entry_members_def opt_member_def split: option.splits)

lemma entry_fields_keys: "distinct (map fst (entry_fields_v3 e))"
  using entry_members_keys [of e] by (simp add: entry_fields_v3_def Let_def)

lemma map_of_entry_fields:
  "map_of (entry_fields_v3 e) = (map_of (entry_members e))
     (''name'' := (if entry_NameNull e then Some JNull else map_of (entry_members e) ''name''),
      ''url'' := (if entry_URLNull e then Some JNull else map_of (entry_members e) ''url''))"
proof -
  let ?m = "obj_map (entry_members e)"
  let ?m1 = "if entry_NameNull e then gomap_put ?m ''name'' JNull else ?m"
  let ?m2 = "if entry_URLNull e then gomap_put ?m1 ''url'' JNull else ?m1"
  have wf: "gomap_wf ?m2" by simp
  have "map_of (entry_fields_v3 e) = map_of ?m2"
    using wf by (intro map_of_permute) (simp_all add: entry_fields_v3_def Let_def)
  then show ?thesis by (auto simp: obj_map_distinct [OF entry_members_keys])
qed

lemma map_of_entry_members:
  "map_of (entry_members e) ''proxy_host_id'' = Some (json_int (entry_ProxyHostID e))"
  "map_of (entry_members e) ''name'' = map_option JStr (entry_Name e)"
  "map_of (entry_members e) ''url'' = map_option JStr (entry_URL e)"
  "map_of (entry_members e) ''category'' = map_option JStr (entry_Category e)"
  "map_of (entry_members e) ''order'' = map_option json_int (entry_Order e)"
  "map_of (entry_members e) ''icon'' = map_option JStr (entry_Icon e)"
  by (simp_all add: entry_members_def opt_member_def split: option.splits)

lemma entry_members_known: "fst ` set (entry_members e) \<subseteq> set entry_fields"
  by (auto simp: entry_members_def opt_member_def entry_fields_def split: option.splits)

lemma entry_fields_known: "fst ` set (entry_fields_v3 e) \<subseteq> set entry_fields"
proof -
  have "k \<in> set entry_fields" if "map_of (entry_fields_v3 e) k \<noteq> None" for k
  proof (cases "k = ''name'' \<or> k = ''url''")
    case True
    then show ?thesis by (auto simp: entry_fields_def)
  next
    case False
    with that have "map_of (entry_members e) k \<noteq> None" by (auto simp: map_of_entry_fields)
    then have "k \<in> fst ` set (entry_members e)" by (simp add: map_of_eq_None_iff)
    with entry_members_known show ?thesis by blast
  qed
  then show ?thesis using map_of_eq_None_iff [of "entry_fields_v3 e"] by blast
qed

lemma decode_entry_fields:
  assumes "entry_wf e"
  shows "decode_entry (JObj (entry_fields_v3 e)) = Some e"
proof -
  have keys: "list_all (\<lambda>f. f \<in> set entry_fields) (map fst (entry_fields_v3 e))"
    using entry_fields_known [of e] by (auto simp: list_all_iff)
  have ints: "as_int (json_int i) = Some i" if "in_int64 i \<noteq> None" for i
    using that by (simp add: json_int_def int_literal_show)
  have ptr: "ptr_field as_string (map_option JStr x) = Some x" "ptr_field as_string (Some JNull) = Some None" for x
    by (cases x; simp add: ptr_field_def)+
  have ord: "ptr_field as_int (map_option json_int x) = Some x" if "\<forall>n \<in> set_option x. in_int64 n \<noteq> None" for x
    using that ints by (cases x) (auto simp: ptr_field_def json_int_def)
  have null: "map_option JStr x \<noteq> Some JNull" for x by (cases x) auto
  have names: "map_of (entry_fields_v3 e) ''name'' = (if entry_NameNull e then Some JNull else map_option JStr (entry_Name e))"
    "map_of (entry_fields_v3 e) ''url'' = (if entry_URLNull e then Some JNull else map_option JStr (entry_URL e))"
    "map_of (entry_fields_v3 e) ''proxy_host_id'' = Some (json_int (entry_ProxyHostID e))"
    "map_of (entry_fields_v3 e) ''category'' = map_option JStr (entry_Category e)"
    "map_of (entry_fields_v3 e) ''order'' = map_option json_int (entry_Order e)"
    "map_of (entry_fields_v3 e) ''icon'' = map_option JStr (entry_Icon e)"
    by (simp_all add: map_of_entry_fields map_of_entry_members)
  have fields: "ptr_field as_string (map_of (entry_fields_v3 e) ''name'') = Some (entry_Name e)"
    "ptr_field as_string (map_of (entry_fields_v3 e) ''url'') = Some (entry_URL e)"
    "(map_of (entry_fields_v3 e) ''name'' = Some JNull) = entry_NameNull e" "(map_of (entry_fields_v3 e) ''url'' = Some JNull) = entry_URLNull e"
    using assms by (simp_all add: names ptr null entry_wf_def)
  have "decode_entry (JObj (entry_fields_v3 e)) = Some \<lparr>entry_ProxyHostID = entry_ProxyHostID e, entry_Name = entry_Name e,
      entry_URL = entry_URL e, entry_Category = entry_Category e, entry_Order = entry_Order e, entry_Icon = entry_Icon e,
      entry_NameNull = entry_NameNull e, entry_URLNull = entry_URLNull e\<rparr>"
    using assms unfolding decode_entry_def entry_wf_def
    by (simp add: obj_map_distinct [OF entry_fields_keys] keys [simplified] fields names(3-6) ints ptr ord)
  then show ?thesis by simp
qed

lemma decode_each_map: "\<forall>x \<in> set xs. f (g x) = Some (x :: 'a) \<Longrightarrow> decode_each f (map g xs) = Some xs"
  by (induction xs) auto

lemma ascii_valid: "\<forall>c \<in> set s. is_ascii c \<Longrightarrow> utf8_valid s"
proof (induction s)
  case (Cons c s)
  then have "rune_bytes [c]" by (simp add: rune_bytes_def is_ascii_def)
  from runes_valid [OF this, of s] Cons show ?case by (simp add: utf8_valid_def)
qed (simp add: utf8_valid_def)

lemma set_gomap_put: "set (gomap_put m k v) \<subseteq> insert (k, v) (set m)"
  by (auto simp: gomap_put_def split: if_splits)

lemma plain_entry_fields:
  assumes "entry_wf e"
  shows "plain_json (JObj (entry_fields_v3 e))"
proof -
  have keys: "utf8_valid k" if "k \<in> set entry_fields" for k
  proof -
    have "\<forall>k \<in> set entry_fields. \<forall>c \<in> set k. is_ascii c" by (simp add: entry_fields_def is_ascii_def)
    with that show ?thesis by (intro ascii_valid) blast
  qed
  have "set (entry_fields_v3 e) \<subseteq> set (entry_members e) \<union> {(''name'', JNull), (''url'', JNull)}"
  proof -
    show ?thesis using set_obj_map [of "entry_members e"]
      by (auto simp: entry_fields_v3_def Let_def dest!: set_gomap_put [THEN subsetD] split: if_splits)
  qed
  moreover have "\<forall>(k, v) \<in> set (entry_members e). plain_json v"
    using assms by (auto simp: entry_members_def opt_member_def json_int_def entry_wf_def split: option.splits)
  ultimately have "plain_json v" if "(k, v) \<in> set (entry_fields_v3 e)" for k v using that by fastforce
  moreover have "utf8_valid k" if "(k, v) \<in> set (entry_fields_v3 e)" for k v
    using keys entry_fields_known [of e] that by force
  ultimately show ?thesis by (auto simp: list_all_iff)
qed

lemma plain_document:
  assumes "\<forall>ms \<in> set services. plain_json (JObj ms)"
  shows "plain_json (document_json n services)"
proof -
  have "utf8_valid ''version''" "utf8_valid ''services''" by (simp_all add: ascii_valid is_ascii_def)
  with assms show ?thesis by (auto simp: document_json_def json_int_def list_all_iff)
qed

lemma decode_document_json:
  assumes "in_int64 n \<noteq> None" and "\<forall>e \<in> set es. decode_entry (JObj (g e)) = Some e"
  shows "decode_document (document_json n (map g es)) = Some (n, Some es)"
proof -
  have "decode_each decode_entry (map (JObj \<circ> g) es) = Some es" using assms(2) by (intro decode_each_map) simp
  then show ?thesis
    using assms(1) by (simp add: decode_document_def document_json_def json_int_def int_literal_show obj_map_def gomap_put_def)
qed

lemma parse_document_text:
  assumes "parseServiceMetadata (document_text v) = Inr m" and "plain_json v"
  shows "metadata_document v = Inr m"
proof -
  have "json_parse (document_text v) = Some v"
    using parse_pretty [OF assms(2), of "[char_of (10::nat)]" 0] by (simp add: document_text_def)
  with assms(1) show ?thesis
    by (auto simp: parseServiceMetadata_def rejectDuplicateJSONFields_def split: if_splits)
qed

lemma serialize_v3_round_trip:
  assumes "serializeServiceMetadataDocumentV3 doc = Inr data" and "\<forall>e \<in> set (doc_Services doc). entry_wf e"
  shows "\<exists>m. parseServiceMetadata data = Inr m \<and>
     document m = \<lparr>doc_Version = 3, doc_Services = sort_slice by_host_id (doc_Services doc)\<rparr>"
proof -
  let ?es = "sort_slice by_host_id (doc_Services doc)"
  let ?v = "document_json 3 (map entry_fields_v3 ?es)"
  from assms(1) obtain m where m: "parseServiceMetadata (document_text ?v) = Inr m" and data: "data = document_text ?v"
    unfolding serializeServiceMetadataDocumentV3_def Let_def by (elim and_thenE) (simp only: sum.inject)
  have "\<forall>ms \<in> entry_fields_v3 ` set ?es. plain_json (JObj ms)"
  proof
    fix ms
    assume "ms \<in> entry_fields_v3 ` set ?es"
    then obtain e where "ms = entry_fields_v3 e" "e \<in> set (doc_Services doc)" by auto
    with assms(2) plain_entry_fields [of e] show "plain_json (JObj ms)" by blast
  qed
  then have "plain_json ?v" by (intro plain_document) (simp only: list.set_map)
  from parse_document_text [OF m this] have "metadata_document ?v = Inr m" .
  moreover have "decode_document ?v = Some (3, Some ?es)"
  proof (rule decode_document_json)
    show "in_int64 3 \<noteq> None" by (simp add: in_int64_def max_int64_def min_int64_def)
    show "\<forall>e \<in> set ?es. decode_entry (JObj (entry_fields_v3 e)) = Some e"
      using assms(2) by (intro ballI decode_entry_fields) simp
  qed
  ultimately have "validate_document \<lparr>doc_Version = 3, doc_Services = ?es\<rparr> = Inr m" by (simp add: metadata_document_def)
  from validate_document_ok [OF this] m data show ?thesis by blast
qed

section \<open>Entries that were parsed\<close>

lemma as_string_valid: "as_string v = Some s \<Longrightarrow> utf8_json v \<Longrightarrow> utf8_valid s"
  by (cases v) auto

lemma as_int_int64: "as_int v = Some n \<Longrightarrow> in_int64 n \<noteq> None"
  by (cases v) (auto simp: int_literal_def in_int64_def max_int64_def min_int64_def split: list.splits if_splits option.splits)

lemma ptr_string_valid:
  "ptr_field as_string w = Some x \<Longrightarrow> (\<And>v. w = Some v \<Longrightarrow> utf8_json v) \<Longrightarrow> s \<in> set_option x \<Longrightarrow> utf8_valid s"
  by (auto simp: ptr_field_def split: option.splits if_splits dest: as_string_valid)

lemma ptr_int_int64: "ptr_field as_int w = Some x \<Longrightarrow> n \<in> set_option x \<Longrightarrow> in_int64 n \<noteq> None"
  by (auto simp: ptr_field_def split: option.splits if_splits dest: as_int_int64)

lemma ptr_null: "ptr_field f (Some JNull) = Some x \<Longrightarrow> x = None"
  by (simp add: ptr_field_def)

lemma zero_entry_wf: "in_int64 i \<noteq> None \<Longrightarrow> entry_wf (zero_entry\<lparr>entry_ProxyHostID := i\<rparr>)"
  by (simp add: entry_wf_def zero_entry_def)

lemma decode_entry_wf:
  assumes "decode_entry v = Some e" and "utf8_json v"
  shows "entry_wf e"
proof (cases "as_raw_map v")
  case None
  with assms show ?thesis by (simp add: decode_entry_def)
next
  case (Some om)
  show ?thesis
  proof (cases om)
    case None
    with assms Some have "zero_entry = e" by (simp add: decode_entry_def)
    then have "e = zero_entry\<lparr>entry_ProxyHostID := 0\<rparr>" by (auto simp: zero_entry_def)
    then show ?thesis using zero_entry_wf [of 0] by (simp add: in_int64_def max_int64_def min_int64_def)
  next
    case m: (Some m)
    with Some obtain ms where "v = JObj ms" "m = obj_map ms" by (cases v) auto
    with assms(2) set_obj_map [of ms] have "\<forall>(k, w) \<in> set m. utf8_json w" by (auto simp: list_all_iff)
    then have member: "utf8_json w" if "map_of m k = Some w" for k w using map_of_SomeD [OF that] by blast
    from assms(1) Some m obtain i name link category order icon where
      e: "e = \<lparr>entry_ProxyHostID = i, entry_Name = name, entry_URL = link, entry_Category = category, entry_Order = order,
               entry_Icon = icon, entry_NameNull = (map_of m ''name'' = Some JNull), entry_URLNull = (map_of m ''url'' = Some JNull)\<rparr>"
      and i: "(case map_of m ''proxy_host_id'' of None \<Rightarrow> Some 0 | Some w \<Rightarrow> as_int w) = Some i"
      and strings: "ptr_field as_string (map_of m ''name'') = Some name" "ptr_field as_string (map_of m ''url'') = Some link"
        "ptr_field as_string (map_of m ''category'') = Some category" "ptr_field as_string (map_of m ''icon'') = Some icon"
      and order: "ptr_field as_int (map_of m ''order'') = Some order"
      by (auto simp: decode_entry_def split: if_splits option.splits)
    have "in_int64 0 \<noteq> None" by (simp add: in_int64_def max_int64_def min_int64_def)
    with i as_int_int64 have "in_int64 i \<noteq> None" by (cases "map_of m ''proxy_host_id''") auto
    moreover have "\<forall>n \<in> set_option order. in_int64 n \<noteq> None" using ptr_int_int64 [OF order] by blast
    moreover have "\<forall>s \<in> set_option name \<union> set_option link \<union> set_option category \<union> set_option icon. utf8_valid s"
      using ptr_string_valid [OF strings(1)] ptr_string_valid [OF strings(2)] ptr_string_valid [OF strings(3)]
        ptr_string_valid [OF strings(4)] member by blast
    moreover have "map_of m ''name'' = Some JNull \<longrightarrow> name = None" "map_of m ''url'' = Some JNull \<longrightarrow> link = None"
      using strings(1,2) by (auto simp: ptr_null)
    ultimately show ?thesis by (simp add: e entry_wf_def)
  qed
qed

lemma decode_each_set: "decode_each f vs = Some xs \<Longrightarrow> x \<in> set xs \<Longrightarrow> \<exists>v \<in> set vs. f v = Some x"
  by (induction vs arbitrary: xs) (auto split: option.splits)

lemma decode_document_wf:
  assumes "decode_document v = Some (version, Some es)" and "utf8_json v"
  shows "\<forall>e \<in> set es. entry_wf e"
proof -
  from assms(1) obtain m where m: "as_raw_map v = Some (Some m)" by (auto simp: decode_document_def split: option.splits)
  then obtain ms where "v = JObj ms" "m = obj_map ms" by (cases v) auto
  with assms(2) set_obj_map [of ms] have all: "\<forall>(k, w) \<in> set m. utf8_json w" by (auto simp: list_all_iff)
  from assms(1) m obtain w vs where w: "map_of m ''services'' = Some w" "as_raws w = Some (Some vs)" "decode_each decode_entry vs = Some es"
    by (auto simp: decode_document_def split: option.splits if_splits)
  then have "utf8_json w" using map_of_SomeD [OF w(1)] all by blast
  with w(2) have "\<forall>v \<in> set vs. utf8_json v" by (cases w) (auto simp: list_all_iff)
  then show ?thesis using decode_each_set [OF w(3)] decode_entry_wf by blast
qed

lemma parsed_entries_wf:
  assumes "parseServiceMetadata data = Inr m"
  shows "\<forall>e \<in> set (doc_Services (document m)). entry_wf e"
proof -
  from assms obtain v where v: "rejectDuplicateJSONFields data = Inr v" "metadata_document v = Inr m"
    by (auto simp: parseServiceMetadata_def)
  then have "utf8_json v" by (auto simp: rejectDuplicateJSONFields_def split: option.splits if_splits dest: json_parse_valid)
  moreover obtain version es where d: "decode_document v = Some (version, Some es)"
      "validate_document \<lparr>doc_Version = version, doc_Services = es\<rparr> = Inr m"
    using v(2) by (auto simp: metadata_document_def split: option.splits)
  ultimately show ?thesis using decode_document_wf [OF d(1)] validate_document_ok [OF d(2)] by simp
qed

section \<open>One edit\<close>

text \<open>The entry of a host, as the overrides are looked up.\<close>

definition entry_of :: "serviceMetadataEntry list \<Rightarrow> int \<Rightarrow> serviceMetadataEntry option" where
  "entry_of es i = find (\<lambda>e. entry_ProxyHostID e = i) es"

lemma entry_of_map: "entry_of es i = map_of (map (\<lambda>e. (entry_ProxyHostID e, e)) es) i"
  by (induction es) (auto simp: entry_of_def)

lemma entry_of_permute:
  assumes "distinct (map entry_ProxyHostID es)" and "mset es = mset es'"
  shows "entry_of es i = entry_of es' i"
proof -
  have "map_of (map (\<lambda>e. (entry_ProxyHostID e, e)) es) = map_of (map (\<lambda>e. (entry_ProxyHostID e, e)) es')"
    using assms by (intro map_of_permute) (simp_all add: comp_def)
  then show ?thesis by (simp add: entry_of_map)
qed

lemma foldl_keep: "i \<notin> entry_ProxyHostID ` set es \<Longrightarrow> foldl (\<lambda>s e. if entry_ProxyHostID e = i then e else s) z es = z"
  by (induction es arbitrary: z) auto

lemma foldl_entry_of:
  "distinct (map entry_ProxyHostID es) \<Longrightarrow> foldl (\<lambda>s e. if entry_ProxyHostID e = i then e else s) z es =
     (case entry_of es i of None \<Rightarrow> z | Some e \<Rightarrow> e)"
proof (induction es arbitrary: z)
  case (Cons e es)
  show ?case
  proof (cases "entry_ProxyHostID e = i")
    case True
    with Cons.prems have "i \<notin> entry_ProxyHostID ` set es" by auto
    with True show ?thesis by (simp add: entry_of_def foldl_keep)
  qed (use Cons in \<open>simp add: entry_of_def\<close>)
qed (simp add: entry_of_def)

lemma entry_of_ID: "entry_of es i = Some e \<Longrightarrow> entry_ProxyHostID e = i \<and> e \<in> set es"
  by (auto simp: entry_of_def find_Some_iff)

interpretation host_order: sort_order by_host_id
  unfolding by_host_id_def by (rule sort_order_key)

lemma edited_ID [simp]: "entry_ProxyHostID (edited e name link icon reset) = entry_ProxyHostID e"
  by (simp add: edited_def)

lemma selected_entry_eq:
  "distinct (map entry_ProxyHostID es) \<Longrightarrow>
     selected_entry i es = (case entry_of es i of None \<Rightarrow> zero_entry\<lparr>entry_ProxyHostID := i\<rparr> | Some e \<Rightarrow> e)"
  by (simp add: selected_entry_def foldl_entry_of)

lemma selected_entry_ID: "distinct (map entry_ProxyHostID es) \<Longrightarrow> entry_ProxyHostID (selected_entry i es) = i"
  by (auto simp: selected_entry_eq dest: entry_of_ID split: option.split)

lemma mutate_services:
  assumes "mutateServiceMetadata doc i name link icon reset = Inr doc'"
  shows "doc_Version doc' = 3" and "\<exists>ss. doc_Services doc' = sort_slice by_host_id ss \<and>
     ss = filter (\<lambda>e. entry_ProxyHostID e \<noteq> i) (doc_Services doc) @
       (let e = edited (selected_entry i (doc_Services doc)) name link icon reset in if entry_sets_nothing e then [] else [e])"
  using assms by (auto simp: mutateServiceMetadata_def Let_def)

lemma entry_of_filter: "entry_of (filter (\<lambda>e. entry_ProxyHostID e \<noteq> i) es) k = (if k = i then None else entry_of es k)"
  by (induction es) (auto simp: entry_of_def)

lemma entry_of_append: "entry_of (xs @ ys) k = (case entry_of xs k of None \<Rightarrow> entry_of ys k | Some e \<Rightarrow> Some e)"
  by (induction xs) (auto simp: entry_of_def)

text \<open>
  C32: An edit changes one service and nothing else. After an accepted edit of a document with distinct hosts the
  entries are in strictly ascending order of their host IDs, every other host has exactly the entry it had, and
  the edited host has its old category and order with the new name, link and icon (none where the field is empty
  or on a reset); it has no entry when nothing is set any more.
\<close>
theorem mutateServiceMetadata_exact:
  assumes "mutateServiceMetadata doc i name link icon reset = Inr doc'"
    and "distinct (map entry_ProxyHostID (doc_Services doc))"
  shows "doc_Version doc' = 3 \<and> sorted_wrt (<) (map entry_ProxyHostID (doc_Services doc')) \<and>
    (\<forall>k. entry_of (doc_Services doc') k =
       (if k \<noteq> i then entry_of (doc_Services doc) k
        else let old = (case entry_of (doc_Services doc) i of None \<Rightarrow> zero_entry\<lparr>entry_ProxyHostID := i\<rparr> | Some e \<Rightarrow> e);
                 new = edited old name link icon reset in
             if entry_sets_nothing new then None else Some new))"
proof -
  let ?new = "edited (selected_entry i (doc_Services doc)) name link icon reset"
  define ss where "ss = filter (\<lambda>e. entry_ProxyHostID e \<noteq> i) (doc_Services doc) @ (if entry_sets_nothing ?new then [] else [?new])"
  have d: "doc_Services doc' = sort_slice by_host_id ss" using mutate_services(2) [OF assms(1)] by (simp add: ss_def Let_def)
  have id: "entry_ProxyHostID ?new = i" using selected_entry_ID [OF assms(2)] by simp
  have dist: "distinct (map entry_ProxyHostID ss)"
    using assms(2) id by (auto simp: ss_def distinct_map_filter)
  have "sorted_wrt (\<lambda>x y. \<not> by_host_id y x) (doc_Services doc')" by (simp add: d host_order.sorted_sort_slice)
  moreover have dist': "distinct (map entry_ProxyHostID (doc_Services doc'))"
    using dist by (simp add: d distinct_map_sort_slice)
  ultimately have "sorted_wrt (<) (map entry_ProxyHostID (doc_Services doc'))"
    unfolding strict_sorted_iff by (simp add: by_host_id_def not_less sorted_map)
  moreover have "entry_of (doc_Services doc') k = entry_of ss k" for k
    using dist' by (intro entry_of_permute) (simp_all add: d)
  moreover have "entry_of ss k = (if k \<noteq> i then entry_of (doc_Services doc) k
      else if entry_sets_nothing ?new then None else Some ?new)" for k
    using id by (auto simp: ss_def entry_of_append entry_of_filter) (auto simp: entry_of_def split: option.split)
  ultimately show ?thesis
    using mutate_services(1) [OF assms(1)] selected_entry_eq [OF assms(2)] by (simp add: Let_def)
qed

lemma edited_wf:
  assumes "entry_wf e" and "utf8_valid name" "utf8_valid link" "utf8_valid icon"
  shows "entry_wf (edited e name link icon reset)"
  using assms by (auto simp: entry_wf_def edited_def set_if_def split: if_splits)

lemma mutate_wf:
  assumes "mutateServiceMetadata doc i name link icon reset = Inr doc'" and "\<forall>e \<in> set (doc_Services doc). entry_wf e"
    and "distinct (map entry_ProxyHostID (doc_Services doc))" and "in_int64 i \<noteq> None"
    and "utf8_valid name" "utf8_valid link" "utf8_valid icon"
  shows "\<forall>e \<in> set (doc_Services doc'). entry_wf e"
proof -
  have "entry_wf (selected_entry i (doc_Services doc))"
    using assms(2,4) zero_entry_wf by (auto simp: selected_entry_eq [OF assms(3)] dest: entry_of_ID split: option.split)
  from edited_wf [OF this assms(5-7), of reset] assms(2) show ?thesis
    using mutate_services(2) [OF assms(1)] by (auto simp: Let_def split: if_splits)
qed

text \<open>
  C31: Editing composes with writing and reading. When a document that was read is edited and written, then
  reading the written text gives exactly the edited document, whatever names, links and icons in valid UTF-8 were
  sent: no byte of any other service is changed by the save.
\<close>
theorem edit_round_trip:
  assumes "parseServiceMetadata data = Inr m"
    and "mutateServiceMetadata (document m) i name link icon reset = Inr doc"
    and "serializeServiceMetadataDocumentV3 doc = Inr data'"
    and "in_int64 i \<noteq> None" and "\<forall>s \<in> {name, link, icon}. utf8_valid s"
  shows "\<exists>m'. parseServiceMetadata data' = Inr m' \<and> document m' = doc"
proof -
  have "metadata_ok m" using assms(1) unfolding parseServiceMetadata_def metadata_document_def
    by (auto split: option.splits dest: validate_document_ok)
  then have dist: "distinct (map entry_ProxyHostID (doc_Services (document m)))" by (auto simp: metadata_ok_def)
  have "\<forall>e \<in> set (doc_Services doc). entry_wf e"
    using mutate_wf [OF assms(2) parsed_entries_wf [OF assms(1)] dist assms(4)] assms(5) by simp
  from serialize_v3_round_trip [OF assms(3) this] obtain m' where m': "parseServiceMetadata data' = Inr m'"
    "document m' = \<lparr>doc_Version = 3, doc_Services = sort_slice by_host_id (doc_Services doc)\<rparr>" by blast
  from mutate_services(2) [OF assms(2)] obtain ss where ss: "doc_Services doc = sort_slice by_host_id ss" by blast
  let ?new = "edited (selected_entry i (doc_Services (document m))) name link icon reset"
  have "distinct (map entry_ProxyHostID (doc_Services doc))"
  proof -
    have "distinct (map entry_ProxyHostID (filter (\<lambda>e. entry_ProxyHostID e \<noteq> i) (doc_Services (document m)) @
        (if entry_sets_nothing ?new then [] else [?new])))"
      using dist selected_entry_ID [OF dist, of i] by (auto simp: distinct_map_filter)
    then show ?thesis using mutate_services(2) [OF assms(2)] by (auto simp: Let_def distinct_map_sort_slice)
  qed
  then have "\<forall>x \<in> set (doc_Services doc). \<forall>y \<in> set (doc_Services doc). x \<noteq> y \<longrightarrow> by_host_id x y \<or> by_host_id y x"
    unfolding by_host_id_def distinct_map using linorder_neq_iff by (metis inj_onD)
  then have "sort_slice by_host_id (doc_Services doc) = doc_Services doc"
    using host_order.sort_slice_permute_on [of "sort_slice by_host_id ss" ss] by (simp add: ss)
  with m' mutate_services(1) [OF assms(2)] show ?thesis
    by (metis serviceMetadataDocument.equality serviceMetadataDocument.select_convs unit_eq)
qed

definition edited_sample :: serviceMetadataDocument where
  "edited_sample = \<lparr>doc_Version = 3, doc_Services = [zero_entry\<lparr>entry_ProxyHostID := 7, entry_Order := Some 2\<rparr>]\<rparr>"

lemma mutate_sample: "mutateServiceMetadata (document sample_metadata) 7 [] [] [] True = Inr edited_sample"
  by code_simp

lemma mutateServiceMetadata_exact_witness: "sorted_wrt (<) (map entry_ProxyHostID (doc_Services edited_sample))"
proof -
  have "distinct (map entry_ProxyHostID (doc_Services (document sample_metadata)))" by code_simp
  from mutateServiceMetadata_exact [OF mutate_sample this] show ?thesis by blast
qed

definition edited_text :: string where
  "edited_text = ''{'' @ newline 1 @ quote_json ''version'' @ '': 3,'' @ newline 1 @ quote_json ''services'' @ '': ['' @ newline 2 @ ''{'' @
     newline 3 @ quote_json ''order'' @ '': 2,'' @ newline 3 @ quote_json ''proxy_host_id'' @ '': 7'' @ newline 2 @ ''}'' @ newline 1 @ '']'' @
     newline 0 @ ''}'' @ newline 0"

definition plain_char :: "char \<Rightarrow> bool" where
  "plain_char c \<longleftrightarrow> is_lower c \<or> c = CHR ''_''"

lemma json_quote_plain: "\<forall>c \<in> set s. plain_char c \<Longrightarrow> json_quote s = quote_json s"
proof -
  have "concat (map quote_rune (runes s)) = s" if "\<forall>c \<in> set s. plain_char c"
    using that
  proof (induction s)
    case (Cons c s)
    then have c: "plain_char c" by simp
    then have "rune_bytes [c]" by (auto simp: rune_bytes_def plain_char_def is_lower_def)
    moreover have "quote_rune ([c], True) = [c]" using c by (auto simp: quote_rune_def plain_char_def is_lower_def)
    ultimately show ?case using runes_valid [of "[c]" s] Cons by simp
  qed simp
  then show "\<forall>c \<in> set s. plain_char c \<Longrightarrow> json_quote s = quote_json s"
    by (simp add: json_quote_def quote_json_def dquote_def)
qed

lemma serialize_sample: "\<exists>data. serializeServiceMetadataDocumentV3 edited_sample = Inr data"
proof -
  let ?v = "document_json 3 (map entry_fields_v3 (sort_slice by_host_id (doc_Services edited_sample)))"
  let ?w = "JObj [(''version'', JNum ''3''), (''services'', JArr [JObj [(''order'', JNum ''2''), (''proxy_host_id'', JNum ''7'')]])]"
  have "?v = ?w" by code_simp
  then have written: "document_text ?v = edited_text"
    by (simp add: document_text_def edited_text_def json_quote_plain plain_char_def is_lower_def) (simp add: newline_def)
  have "\<not> length edited_text > 256 * 1024" by (simp add: edited_text_def quote_json_def newline_def)
  moreover have "trim_space edited_text \<noteq> []" by code_simp
  moreover have "rejectDuplicateJSONFields edited_text = Inr ?w" by code_simp
  moreover have "rejectNonCanonicalServiceMetadataFields edited_text" by code_simp
  moreover have "\<exists>m. metadata_document ?w = Inr m"
  proof -
    have "case metadata_document ?w of Inl _ \<Rightarrow> False | Inr _ \<Rightarrow> True" by code_simp
    then show ?thesis by (auto split: sum.splits)
  qed
  ultimately have "\<exists>m. parseServiceMetadata edited_text = Inr m" by (auto simp: parseServiceMetadata_def)
  then show ?thesis unfolding serializeServiceMetadataDocumentV3_def Let_def written by auto
qed

lemma edit_round_trip_witness:
  "\<exists>data m'. serializeServiceMetadataDocumentV3 edited_sample = Inr data \<and> parseServiceMetadata data = Inr m' \<and> document m' = edited_sample"
proof -
  from serialize_sample obtain data where d: "serializeServiceMetadataDocumentV3 edited_sample = Inr data" ..
  have "in_int64 7 \<noteq> None" "\<forall>s \<in> {[], [], []}. utf8_valid s" by (simp_all add: in_int64_def max_int64_def min_int64_def)
  from edit_round_trip [OF parse_sample_metadata mutate_sample d this] d show ?thesis by blast
qed

end
