(* ===== verification/Editor.thy ===== *)
theory Editor
  imports Metadata_Write Config
begin

text \<open>
  The editor of the service metadata (\<open>service_metadata_editor.go\<close>): it owns one file, publishes a view of it
  and replaces it with a commit that either happens completely, does not happen, or ends the editing. The calls
  of the operating system that may fail, and the state of the disk whenever it is looked at, are arguments.
\<close>

datatype editor_error =
    MetadataConflict | MetadataStorage | MetadataUncertain | MetadataStartup | MetadataLocked | MetadataRejected metadata_error
  | MetadataNotVisible | MetadataStale | MetadataCSRF

section \<open>The disk\<close>

record file_info =
  fi_Directory :: bool
  fi_Regular :: bool
  fi_Symlink :: bool
  fi_Sticky :: bool
  fi_SetID :: bool
  fi_Perm :: "32 word"
  fi_Uid :: nat
  fi_Links :: nat
  fi_Inode :: nat

record editor_fs =
  fs_Euid :: nat
  fs_Lstat :: "string \<Rightarrow> file_info option"
  fs_Read :: "string \<Rightarrow> string option"

definition perm_all :: "32 word \<Rightarrow> file_info \<Rightarrow> bool" where
  "perm_all bits info \<longleftrightarrow> fi_Perm info AND bits = bits"

definition others_write :: "file_info \<Rightarrow> bool" where
  "others_write info \<longleftrightarrow> fi_Perm info AND 0x12 \<noteq> 0"

definition safeEditorDirectory :: "editor_fs \<Rightarrow> file_info \<Rightarrow> bool" where
  "safeEditorDirectory fs info \<longleftrightarrow>
     fi_Directory info \<and> fi_Uid info = fs_Euid fs \<and> perm_all 0x1C0 info \<and> \<not> others_write info \<and> \<not> fi_SetID info"

definition safeEditorFile :: "editor_fs \<Rightarrow> file_info \<Rightarrow> bool" where
  "safeEditorFile fs info \<longleftrightarrow>
     fi_Regular info \<and> fi_Links info = 1 \<and> fi_Uid info = fs_Euid fs \<and> perm_all 0x180 info \<and> \<not> others_write info \<and> \<not> fi_SetID info"

text \<open>\<open>filepath.Dir\<close> and \<open>filepath.Base\<close> of a clean path.\<close>

definition path_dir :: "string \<Rightarrow> string" where
  "path_dir p = (case last_index_byte p (CHR ''/'') of None \<Rightarrow> ''.'' | Some i \<Rightarrow> if i = 0 then ''/'' else take i p)"

lemma path_dir_shorter: "path_dir p \<noteq> p \<Longrightarrow> path_dir p = ''.'' \<or> length (path_dir p) < length p"
proof (cases "last_index_byte p (CHR ''/'')")
  case None
  then show ?thesis by (simp add: path_dir_def)
next
  case (Some i)
  assume ne: "path_dir p \<noteq> p"
  from last_index_byte_SomeD [OF Some] have i: "i < length p" "p ! i = CHR ''/''" by auto
  show ?thesis
  proof (cases "i = 0")
    case True
    with Some have dir: "path_dir p = ''/''" by (simp add: path_dir_def)
    with ne i True have "p \<noteq> ''/''" "p \<noteq> []" "hd p = CHR ''/''" by (auto simp: hd_conv_nth)
    then have "length p > 1" by (cases p) (auto simp: neq_Nil_conv)
    with dir show ?thesis by simp
  next
    case False
    with Some i show ?thesis by (simp add: path_dir_def)
  qed
qed

function validateEditorAncestors :: "editor_fs \<Rightarrow> string \<Rightarrow> bool" where
  "validateEditorAncestors fs current = (case fs_Lstat fs current of None \<Rightarrow> False | Some info \<Rightarrow>
     if \<not> fi_Directory info \<or> fi_Symlink info then False
     else if others_write info \<and> \<not> fi_Sticky info then False
     else if path_dir current = current then True else validateEditorAncestors fs (path_dir current))"
  by pat_completeness auto
termination
proof (relation "measure (\<lambda>(fs, p). if p = ''.'' then 0 else Suc (length p))")
  fix fs current info
  assume "path_dir current \<noteq> current"
  moreover have "path_dir ''.'' = ''.''" by (simp add: path_dir_def)
  ultimately show "((fs, path_dir current), fs, current) \<in> measure (\<lambda>(fs, p). if p = ''.'' then 0 else Suc (length p))"
    using path_dir_shorter [of current] by auto
qed simp

declare validateEditorAncestors.simps [simp del]

text \<open>\<open>filepath.IsAbs(path) && filepath.Clean(path) == path\<close>: no empty and no dot segments after the first slash.\<close>

definition clean_absolute :: "string \<Rightarrow> bool" where
  "clean_absolute p \<longleftrightarrow> (case split_byte (CHR ''/'') p of
     [] \<Rightarrow> False | s # segments \<Rightarrow> s = [] \<and> (segments = [[]] \<or> list_all (\<lambda>x. x \<noteq> [] \<and> x \<noteq> ''.'' \<and> x \<noteq> ''..'') segments))"

section \<open>The editor\<close>

record serviceMetadataEditorView =
  view_metadata :: ServiceMetadata
  view_bytes :: string
  view_revision :: string

text \<open>The directory and the lock are held open: their inodes; \<open>None\<close> is closed, or not there.\<close>

record ServiceMetadataEditor =
  ed_config :: ServiceMetadataEditorConfig
  ed_path :: string
  ed_directory :: "nat option"
  ed_lock :: "nat option"
  ed_view :: serviceMetadataEditorView
  ed_disabled :: bool

text \<open>The keyed digest of a purpose and a value, with the key of the process, is a parameter.\<close>

type_synonym digest = "string \<Rightarrow> string \<Rightarrow> string"

definition validateDirectoryAndLock :: "editor_fs \<Rightarrow> ServiceMetadataEditor \<Rightarrow> bool" where
  "validateDirectoryAndLock fs e = (case ed_directory e of None \<Rightarrow> False | Some held \<Rightarrow>
     validateEditorAncestors fs (path_dir (ed_path e)) \<and>
     (case fs_Lstat fs (path_dir (ed_path e)) of None \<Rightarrow> False
      | Some current \<Rightarrow> safeEditorDirectory fs current \<and> fi_Inode current = held) \<and>
     (case ed_lock e of None \<Rightarrow> True | Some held_lock \<Rightarrow>
        (case fs_Lstat fs (ed_path e @ ''.lock'') of None \<Rightarrow> False
         | Some current \<Rightarrow> safeEditorFile fs current \<and> fi_Inode current = held_lock)))"

definition readFile :: "editor_fs \<Rightarrow> ServiceMetadataEditor \<Rightarrow> editor_error + string" where
  "readFile fs e =
     (if \<not> validateDirectoryAndLock fs e then Inl MetadataStorage
      else (case fs_Lstat fs (ed_path e) of None \<Rightarrow> Inl MetadataStorage | Some info \<Rightarrow>
        if fi_Symlink info \<or> \<not> safeEditorFile fs info then Inl MetadataStorage
        else (case fs_Read fs (ed_path e) of None \<Rightarrow> Inl MetadataStorage | Some data \<Rightarrow>
          if length data > 256 * 1024 then Inl MetadataStorage else Inr data)))"

definition checkDisk :: "editor_fs \<Rightarrow> ServiceMetadataEditor \<Rightarrow> editor_error + unit" where
  "checkDisk fs e = and_then (readFile fs e) (\<lambda>data. reject_if (data \<noteq> view_bytes (ed_view e)) MetadataConflict)"

definition new_view :: "digest \<Rightarrow> string \<Rightarrow> ServiceMetadata \<Rightarrow> serviceMetadataEditorView" where
  "new_view digest data metadata = \<lparr>view_metadata = metadata, view_bytes = data, view_revision = digest ''file'' data\<rparr>"

definition close_editor :: "ServiceMetadataEditor \<Rightarrow> ServiceMetadataEditor" where
  "close_editor e = e\<lparr>ed_disabled := True, ed_lock := None, ed_directory := None\<rparr>"

text \<open>Any error of \<open>r\<close> is reported as \<open>err\<close>.\<close>

definition or_fail :: "'e \<Rightarrow> 'x + 'a \<Rightarrow> 'e + 'a" where
  "or_fail err r = (case r of Inl _ \<Rightarrow> Inl err | Inr a \<Rightarrow> Inr a)"

lemma or_fail_eq_Inr [simp]: "or_fail err r = Inr a \<longleftrightarrow> r = Inr a"
  by (auto simp: or_fail_def split: sum.splits)

section \<open>The start\<close>

datatype start_stage = StartOpen | StartFileSync | StartLockOpen | StartFlock | StartDirSync | StartResync | StartKey

text \<open>
  The disk is looked at before the lock is taken and again after it. The file is parsed both times.
\<close>

definition newServiceMetadataEditor ::
    "digest \<Rightarrow> editor_fs \<Rightarrow> editor_fs \<Rightarrow> (start_stage \<Rightarrow> bool) \<Rightarrow> string \<Rightarrow> ServiceMetadataEditorConfig option \<Rightarrow>
     editor_error + ServiceMetadataEditor option" where
  "newServiceMetadataEditor digest fs1 fs2 fails path config = (case config of None \<Rightarrow> Inr None | Some c \<Rightarrow>
     and_then (reject_if (\<not> clean_absolute path) MetadataStorage) (\<lambda>_.
     and_then (reject_if (\<not> validateEditorAncestors fs1 (path_dir path)) MetadataStorage) (\<lambda>_.
     (case fs_Lstat fs1 (path_dir path) of None \<Rightarrow> Inl MetadataStorage | Some dir \<Rightarrow>
     and_then (reject_if (fails StartOpen \<or> \<not> safeEditorDirectory fs1 dir) MetadataStorage) (\<lambda>_.
       let e = \<lparr>ed_config = c, ed_path = path, ed_directory = Some (fi_Inode dir), ed_lock = None,
                ed_view = new_view digest [] emptyServiceMetadata, ed_disabled = False\<rparr> in
     and_then (readFile fs1 e) (\<lambda>data1.
     and_then (or_fail MetadataStartup (parseServiceMetadata data1)) (\<lambda>_.
     and_then (reject_if (fails StartFileSync \<or> fails StartLockOpen) MetadataStorage) (\<lambda>_.
     (case fs_Lstat fs2 (path @ ''.lock'') of None \<Rightarrow> Inl MetadataStorage | Some lock \<Rightarrow>
     and_then (reject_if (\<not> safeEditorFile fs2 lock) MetadataStorage) (\<lambda>_.
     and_then (reject_if (fails StartFlock) MetadataLocked) (\<lambda>_.
     and_then (reject_if (fails StartDirSync) MetadataStorage) (\<lambda>_.
     and_then (readFile fs2 (e\<lparr>ed_lock := Some (fi_Inode lock)\<rparr>)) (\<lambda>data.
     and_then (or_fail MetadataStorage (parseServiceMetadata data)) (\<lambda>m.
     and_then (reject_if (fails StartResync \<or> fails StartKey) MetadataStorage) (\<lambda>_.
       Inr (Some (e\<lparr>ed_lock := Some (fi_Inode lock), ed_view := new_view digest data m\<rparr>)))))))))))))))))"

section \<open>The commit\<close>

datatype edit_stage = EditCreate | EditWrite | EditFileSync | EditClose | EditRecheck | EditRename | EditReplace | EditDirSync

definition fail_at :: "(edit_stage \<Rightarrow> bool) \<Rightarrow> edit_stage \<Rightarrow> editor_error + unit" where
  "fail_at fails stage = reject_if (fails stage) MetadataStorage"

text \<open>
  The steps up to the replacement, which leave the file alone: the text to write and its metadata.
\<close>

definition prepare_commit ::
    "editor_fs \<Rightarrow> editor_fs \<Rightarrow> (edit_stage \<Rightarrow> bool) \<Rightarrow> string \<Rightarrow> serviceMetadataDocument \<Rightarrow> editor_error + unit \<Rightarrow> ServiceMetadataEditor \<Rightarrow>
     editor_error + string \<times> ServiceMetadata" where
  "prepare_commit fs fs_recheck fails expected doc finalCheck e =
     and_then (reject_if (ed_disabled e) MetadataUncertain) (\<lambda>_.
     and_then (reject_if (expected \<noteq> view_revision (ed_view e)) MetadataConflict) (\<lambda>_.
     and_then (checkDisk fs e) (\<lambda>_.
     (case serializeServiceMetadataDocumentV3 doc of Inl err \<Rightarrow> Inl (MetadataRejected err) | Inr contents \<Rightarrow>
     (case parseServiceMetadata contents of Inl err \<Rightarrow> Inl (MetadataRejected err) | Inr metadata \<Rightarrow>
     and_then (fail_at fails EditCreate) (\<lambda>_.
     and_then (fail_at fails EditWrite) (\<lambda>_.
     and_then (fail_at fails EditFileSync) (\<lambda>_.
     and_then (fail_at fails EditClose) (\<lambda>_.
     and_then (fail_at fails EditRecheck) (\<lambda>_.
     and_then (checkDisk fs_recheck e) (\<lambda>_.
     and_then (fail_at fails EditRename) (\<lambda>_.
     and_then finalCheck (\<lambda>_.
     and_then (fail_at fails EditReplace) (\<lambda>_. Inr (contents, metadata)))))))))))))))"

text \<open>The result, the editor, and what the file was replaced with.\<close>

definition commit ::
    "digest \<Rightarrow> editor_fs \<Rightarrow> editor_fs \<Rightarrow> (edit_stage \<Rightarrow> bool) \<Rightarrow> string \<Rightarrow> serviceMetadataDocument \<Rightarrow> editor_error + unit \<Rightarrow>
     ServiceMetadataEditor \<Rightarrow> (editor_error + unit) \<times> ServiceMetadataEditor \<times> string option" where
  "commit digest fs fs_recheck fails expected doc finalCheck e =
     (case prepare_commit fs fs_recheck fails expected doc finalCheck e of
        Inl err \<Rightarrow> (Inl err, e, None)
      | Inr (contents, metadata) \<Rightarrow>
          if fails EditDirSync then (Inl MetadataUncertain, e\<lparr>ed_disabled := True\<rparr>, Some contents)
          else (Inr (), e\<lparr>ed_view := new_view digest contents metadata\<rparr>, Some contents))"

text \<open>The data a request is answered from: the confirmed view replaces what polling saw.\<close>

definition requestData :: "ServiceMetadataEditor option \<Rightarrow> CacheData option \<Rightarrow> CacheData option" where
  "requestData e data = (case (e, data) of
     (Some ed, Some d) \<Rightarrow> Some (d\<lparr>cd_ServiceMetadata := Some (view_metadata (ed_view ed))\<rparr>) | _ \<Rightarrow> data)"

definition json_bool :: "bool \<Rightarrow> json" where
  "json_bool b = JBool b"

definition targetRevision :: "digest \<Rightarrow> ProxyHost \<Rightarrow> string" where
  "targetRevision digest ph = digest ''target'' (compact (JObj
     [(''ID'', json_int (ph_ID ph)), (''Domains'', JArr (map JStr (DomainNames ph))), (''Scheme'', JStr (ForwardScheme ph)),
      (''Host'', JStr (ForwardHost ph)), (''Port'', json_int (ForwardPort ph)), (''Enabled'', json_bool (Enabled ph))]))"

text \<open>\<open>inspectServiceMetadataEditorStorage\<close>: the same checks without taking the lock.\<close>

definition inspectServiceMetadataEditorStorage :: "editor_fs \<Rightarrow> string \<Rightarrow> ServiceMetadataEditorConfig \<Rightarrow> bool" where
  "inspectServiceMetadataEditorStorage fs path c =
     (clean_absolute path \<and> validateEditorAncestors fs (path_dir path) \<and>
      (case fs_Lstat fs (path_dir path) of None \<Rightarrow> False | Some dir \<Rightarrow> safeEditorDirectory fs dir \<and>
        (case readFile fs \<lparr>ed_config = c, ed_path = path, ed_directory = Some (fi_Inode dir), ed_lock = None,
             ed_view = new_view (\<lambda>_ _. []) [] emptyServiceMetadata, ed_disabled = False\<rparr> of
           Inl _ \<Rightarrow> False
         | Inr data \<Rightarrow> (case parseServiceMetadata data of Inl _ \<Rightarrow> False | Inr _ \<Rightarrow> True))))"


section \<open>Facts\<close>

lemma fail_at_eq_Inr [simp]: "fail_at fails stage = Inr u \<longleftrightarrow> \<not> fails stage"
  by (simp add: fail_at_def)

lemma readFile_reads: "readFile fs e = Inr data \<Longrightarrow> fs_Read fs (ed_path e) = Some data"
  by (auto simp: readFile_def split: if_splits option.splits)

lemma checkDisk_reads: "checkDisk fs e = Inr u \<Longrightarrow> fs_Read fs (ed_path e) = Some (view_bytes (ed_view e))"
  by (auto simp: checkDisk_def dest: readFile_reads)

lemma prepare_commit_InrD:
  assumes "prepare_commit fs fs_recheck fails expected doc finalCheck e = Inr (contents, metadata)"
  shows "\<not> ed_disabled e" "expected = view_revision (ed_view e)" "checkDisk fs e = Inr ()" "checkDisk fs_recheck e = Inr ()"
    "serializeServiceMetadataDocumentV3 doc = Inr contents" "parseServiceMetadata contents = Inr metadata" "finalCheck = Inr ()"
    "\<not> fails EditReplace"
proof -
  note body = assms [unfolded prepare_commit_def]
  show "\<not> ed_disabled e" "expected = view_revision (ed_view e)" "checkDisk fs e = Inr ()"
    using body by (auto elim!: and_thenE split: sum.splits)
  from body obtain c m where ser: "serializeServiceMetadataDocumentV3 doc = Inr c" "parseServiceMetadata c = Inr m"
    by (elim and_thenE) (auto split: sum.splits)
  with body show "serializeServiceMetadataDocumentV3 doc = Inr contents" "parseServiceMetadata contents = Inr metadata"
    "checkDisk fs_recheck e = Inr ()" "finalCheck = Inr ()" "\<not> fails EditReplace"
    by (auto elim!: and_thenE)
qed

lemma prepare_commit_InrI:
  assumes "\<not> ed_disabled e" "expected = view_revision (ed_view e)" "checkDisk fs e = Inr ()" "checkDisk fs_recheck e = Inr ()"
    "serializeServiceMetadataDocumentV3 doc = Inr contents" "parseServiceMetadata contents = Inr metadata" "finalCheck = Inr ()"
    "\<And>stage. \<not> fails stage"
  shows "prepare_commit fs fs_recheck fails expected doc finalCheck e = Inr (contents, metadata)"
  using assms by (simp add: prepare_commit_def fail_at_def reject_if_def)

lemma serialized_parses:
  assumes "serializeServiceMetadataDocumentV3 doc = Inr contents"
  shows "\<exists>m. parseServiceMetadata contents = Inr m"
  using assms unfolding serializeServiceMetadataDocumentV3_def Let_def by (elim and_thenE) (simp only: sum.inject, blast)


section \<open>All or nothing\<close>

text \<open>
  C20: A commit happens completely, does not happen, or ends the editing. When it reports success the file on
  disk was the one the caller reviewed, seen twice, and it is replaced by the serialised document, which is what
  the editor now shows. When it reports that the outcome is uncertain, either the editing had ended before and
  nothing happened, or the file is replaced and the editor refuses everything from now on while it shows the old
  view. After any other error the file and the editor are as before.
\<close>
theorem commit_all_or_nothing:
  assumes "finalCheck \<noteq> Inl MetadataUncertain"
  shows "case commit digest fs fs_recheck fails expected doc finalCheck e of (out, e', written) \<Rightarrow>
     (case out of
        Inr _ \<Rightarrow> \<not> ed_disabled e \<and> expected = view_revision (ed_view e) \<and> finalCheck = Inr () \<and>
          fs_Read fs (ed_path e) = Some (view_bytes (ed_view e)) \<and> fs_Read fs_recheck (ed_path e) = Some (view_bytes (ed_view e)) \<and>
          (\<exists>contents metadata. serializeServiceMetadataDocumentV3 doc = Inr contents \<and> parseServiceMetadata contents = Inr metadata \<and>
             written = Some contents \<and> e' = e\<lparr>ed_view := new_view digest contents metadata\<rparr>)
      | Inl MetadataUncertain \<Rightarrow>
          if ed_disabled e then e' = e \<and> written = None
          else e' = e\<lparr>ed_disabled := True\<rparr> \<and> (\<exists>contents. serializeServiceMetadataDocumentV3 doc = Inr contents \<and> written = Some contents)
      | Inl _ \<Rightarrow> e' = e \<and> written = None)"
proof (cases "prepare_commit fs fs_recheck fails expected doc finalCheck e")
  case (Inl err)
  have "ed_disabled e" if "err = MetadataUncertain"
  proof (rule ccontr)
    assume "\<not> ed_disabled e"
    with Inl that assms show False
      by (auto simp: prepare_commit_def and_then_eq_Inl fail_at_def checkDisk_def readFile_def split: sum.splits if_splits option.splits)
  qed
  with Inl show ?thesis by (cases err) (auto simp: commit_def)
next
  case (Inr cm)
  obtain c m where cm: "cm = (c, m)" by (cases cm)
  from prepare_commit_InrD [OF Inr [unfolded cm]] show ?thesis
    using Inr by (auto simp: commit_def cm checkDisk_reads)
qed

section \<open>The life of an editor\<close>

text \<open>
  An editor and the contents of its file. Nobody else writes the file while the editor holds the lock, so the
  disk a commit looks at shows the contents it had.
\<close>

inductive editor_step :: "digest \<Rightarrow> ServiceMetadataEditor \<times> string \<Rightarrow> ServiceMetadataEditor \<times> string \<Rightarrow> bool" for digest :: digest where
  committed: "commit digest fs fs_recheck fails expected doc finalCheck e = (out, e', written) \<Longrightarrow>
     fs_Read fs (ed_path e) = Some file \<Longrightarrow>
     editor_step digest (e, file) (e', case written of None \<Rightarrow> file | Some contents \<Rightarrow> contents)"
| closed: "editor_step digest (e, file) (close_editor e, file)"

inductive editor_reachable :: "digest \<Rightarrow> ServiceMetadataEditor \<times> string \<Rightarrow> bool" for digest :: digest where
  started: "newServiceMetadataEditor digest fs1 fs2 fails path config = Inr (Some e) \<Longrightarrow> fs_Read fs2 path = Some file \<Longrightarrow>
     editor_reachable digest (e, file)"
| stepped: "editor_reachable digest s \<Longrightarrow> editor_step digest s s' \<Longrightarrow> editor_reachable digest s'"

inductive_cases editor_stepE: "editor_step digest (e, file) (e', file')"

definition view_wf :: "digest \<Rightarrow> serviceMetadataEditorView \<Rightarrow> bool" where
  "view_wf digest v \<longleftrightarrow> parseServiceMetadata (view_bytes v) = Inr (view_metadata v) \<and> view_revision v = digest ''file'' (view_bytes v)"

lemma new_view_wf: "parseServiceMetadata data = Inr m \<Longrightarrow> view_wf digest (new_view digest data m)"
  by (simp add: view_wf_def new_view_def)

lemma new_view_bytes [simp]: "view_bytes (new_view digest data m) = data"
  by (simp add: new_view_def)

definition editor_inv :: "digest \<Rightarrow> ServiceMetadataEditor \<times> string \<Rightarrow> bool" where
  "editor_inv digest s \<longleftrightarrow> (case s of (e, file) \<Rightarrow>
     view_wf digest (ed_view e) \<and> (\<exists>m. parseServiceMetadata file = Inr m) \<and> (ed_disabled e \<or> file = view_bytes (ed_view e)))"

lemma newServiceMetadataEditor_inv:
  assumes "newServiceMetadataEditor digest fs1 fs2 fails path config = Inr (Some e)" "fs_Read fs2 path = Some file"
  shows "editor_inv digest (e, file)"
proof -
  from assms(1) obtain c where c: "config = Some c" by (auto simp: newServiceMetadataEditor_def split: option.splits)
  from assms(1) [unfolded newServiceMetadataEditor_def c Let_def] obtain e0 data m
    where "readFile fs2 e0 = Inr data" "ed_path e0 = path" "parseServiceMetadata data = Inr m" "ed_view e = new_view digest data m"
    by (auto split: option.split_asm)
  with assms(2) readFile_reads show ?thesis by (fastforce simp: editor_inv_def new_view_wf)
qed

lemma commit_inv:
  assumes inv: "editor_inv digest (e, file)" and commit: "commit digest fs fs_recheck fails expected doc finalCheck e = (out, e', written)"
    and on_disk: "fs_Read fs (ed_path e) = Some file"
  shows "editor_inv digest (e', case written of None \<Rightarrow> file | Some contents \<Rightarrow> contents)"
proof (cases "prepare_commit fs fs_recheck fails expected doc finalCheck e")
  case (Inl err)
  with inv commit show ?thesis by (auto simp: commit_def)
next
  case (Inr cm)
  obtain c m where cm: "cm = (c, m)" by (cases cm)
  from prepare_commit_InrD(6) [OF Inr [unfolded cm]] have "parseServiceMetadata c = Inr m" .
  with Inr inv commit show ?thesis by (auto simp: commit_def cm editor_inv_def new_view_wf split: if_splits)
qed

lemma editor_step_inv: "editor_step digest s s' \<Longrightarrow> editor_inv digest s \<Longrightarrow> editor_inv digest s'"
proof (induction rule: editor_step.induct)
  case committed
  then show ?case by (blast intro: commit_inv)
next
  case closed
  then show ?case by (simp add: editor_inv_def close_editor_def)
qed


lemma editor_reachable_inv: "editor_reachable digest s \<Longrightarrow> editor_inv digest s"
  by (induction rule: editor_reachable.induct) (simp_all add: newServiceMetadataEditor_inv editor_step_inv)

text \<open>
  C21: As long as an editor holds the lock, its file is a document the parser accepts, whatever edits were attempted
  and wherever they failed; the view it publishes is a document with its own parse and revision; and unless editing
  has ended the view is the file.
\<close>
theorem editor_view_is_the_file:
  assumes "editor_reachable digest (e, contents)"
  shows "parseServiceMetadata (view_bytes (ed_view e)) = Inr (view_metadata (ed_view e)) \<and>
    view_revision (ed_view e) = digest ''file'' (view_bytes (ed_view e)) \<and>
    (\<exists>m. parseServiceMetadata contents = Inr m) \<and>
    (ed_disabled e \<or> contents = view_bytes (ed_view e))"
  using editor_reachable_inv [OF assms] by (simp add: editor_inv_def view_wf_def)

text \<open>
  C35: An editor that is not disabled gets every good edit done: in any state it can reach, an edit made against
  the published revision whose document serialises is committed when the disk works and the caller still agrees,
  the new contents are published under a new revision, and the editor is ready for the next edit in that state.
\<close>
theorem editor_commits_when_disk_works:
  assumes reach: "editor_reachable digest (e, contents)" and "\<not> ed_disabled e"
    and disk: "readFile fs e = Inr contents" "readFile fs_recheck e = Inr contents"
    and doc: "serializeServiceMetadataDocumentV3 doc = Inr new_contents"
  shows "\<exists>e'. commit digest fs fs_recheck (\<lambda>stage. False) (view_revision (ed_view e)) doc (Inr ()) e = (Inr (), e', Some new_contents) \<and>
     view_bytes (ed_view e') = new_contents \<and> view_revision (ed_view e') = digest ''file'' new_contents \<and> \<not> ed_disabled e' \<and>
     editor_reachable digest (e', new_contents)"
proof -
  from doc obtain m where m: "parseServiceMetadata new_contents = Inr m" using serialized_parses by blast
  have same: "contents = view_bytes (ed_view e)" using editor_reachable_inv [OF reach] assms(2) by (simp add: editor_inv_def)
  let ?e = "e\<lparr>ed_view := new_view digest new_contents m\<rparr>"
  have c: "commit digest fs fs_recheck (\<lambda>stage. False) (view_revision (ed_view e)) doc (Inr ()) e = (Inr (), ?e, Some new_contents)"
    using prepare_commit_InrI [OF assms(2) refl _ _ doc m refl, of fs fs_recheck "\<lambda>_. False"] disk same
    by (simp add: commit_def checkDisk_def reject_if_def)
  from editor_step.committed [OF c readFile_reads [OF disk(1)]] reach have "editor_reachable digest (?e, new_contents)"
    by (auto intro: stepped)
  with c assms(2) show ?thesis by (simp add: new_view_def)
qed

section \<open>Samples\<close>

definition sample_info :: file_info where
  "sample_info = \<lparr>fi_Directory = True, fi_Regular = False, fi_Symlink = False, fi_Sticky = False, fi_SetID = False,
     fi_Perm = 0x1C0, fi_Uid = 0, fi_Links = 2, fi_Inode = 1\<rparr>"

definition sample_file_info :: file_info where
  "sample_file_info = sample_info\<lparr>fi_Directory := False, fi_Regular := True, fi_Perm := 0x180, fi_Links := 1, fi_Inode := 2\<rparr>"

definition sample_fs :: editor_fs where
  "sample_fs = \<lparr>fs_Euid = 0,
     fs_Lstat = (\<lambda>p. if p \<in> {''/'', ''/m''} then Some sample_info else if p \<in> {''/m/s'', ''/m/s.lock''} then Some sample_file_info else None),
     fs_Read = (\<lambda>p. if p = ''/m/s'' then Some sample_metadata_text else None)\<rparr>"

definition sample_editor :: ServiceMetadataEditor where
  "sample_editor = \<lparr>ed_config = \<lparr>Logins = [''a@x''], Origin = ''https://p.example'', ed_Host = ''p.example''\<rparr>, ed_path = ''/m/s'',
     ed_directory = Some 1, ed_lock = Some 2, ed_view = new_view (\<lambda>purpose v. purpose) sample_metadata_text sample_metadata, ed_disabled = False\<rparr>"

lemma sample_dir: "path_dir ''/m/s'' = ''/m''" "clean_absolute ''/m/s''"
  by code_simp+

lemma sample_safe: "safeEditorDirectory sample_fs sample_info" "safeEditorFile sample_fs sample_file_info"
  by (simp_all add: safeEditorDirectory_def safeEditorFile_def sample_fs_def sample_info_def sample_file_info_def perm_all_def others_write_def)

lemma sample_lstat: "fs_Lstat sample_fs ''/m'' = Some sample_info" "fs_Lstat sample_fs ''/m/s'' = Some sample_file_info"
   "fs_Lstat sample_fs ''/m/s.lock'' = Some sample_file_info" "fs_Read sample_fs ''/m/s'' = Some sample_metadata_text"
   "fi_Inode sample_info = 1" "fi_Inode sample_file_info = 2" "\<not> fi_Symlink sample_file_info"
  by (simp_all add: sample_fs_def sample_info_def sample_file_info_def)

lemma sample_ancestors: "validateEditorAncestors sample_fs ''/m''"
proof -
  have dir: "path_dir ''/m'' = ''/''" "path_dir ''/'' = ''/''" by code_simp+
  have info: "fi_Directory sample_info" "\<not> fi_Symlink sample_info" "\<not> others_write sample_info"
    by (simp_all add: sample_info_def others_write_def)
  have "fs_Lstat sample_fs ''/'' = Some sample_info" by (simp add: sample_fs_def)
  then have "validateEditorAncestors sample_fs ''/''" by (subst validateEditorAncestors.simps) (simp add: dir info)
  then show ?thesis by (subst validateEditorAncestors.simps) (simp add: dir info sample_lstat)
qed

lemma sample_read:
  assumes "ed_path e = ''/m/s''" "ed_directory e = Some 1" "ed_lock e \<in> {None, Some 2}"
  shows "readFile sample_fs e = Inr sample_metadata_text"
proof -
  have "validateDirectoryAndLock sample_fs e"
    using assms by (auto simp: validateDirectoryAndLock_def sample_dir sample_ancestors sample_lstat sample_safe)
  moreover have "length sample_metadata_text \<le> 256 * 1024" by (simp add: sample_metadata_text_def quote_json_def)
  ultimately show ?thesis using assms by (simp add: readFile_def sample_lstat sample_safe)
qed

lemma sample_editor_starts:
  "newServiceMetadataEditor (\<lambda>purpose v. purpose) sample_fs sample_fs (\<lambda>_. False) ''/m/s''
     (Some \<lparr>Logins = [''a@x''], Origin = ''https://p.example'', ed_Host = ''p.example''\<rparr>) = Inr (Some sample_editor)"
  by (simp add: newServiceMetadataEditor_def sample_dir sample_ancestors sample_lstat sample_safe sample_read reject_if_def Let_def
        or_fail_def parse_sample_metadata sample_editor_def)

lemma sample_editor_reachable: "editor_reachable (\<lambda>purpose v. purpose) (sample_editor, sample_metadata_text)"
  by (rule started [OF sample_editor_starts]) (simp add: sample_lstat)

lemma editor_view_is_the_file_witness: "view_revision (ed_view sample_editor) = ''file''"
  using editor_view_is_the_file [OF sample_editor_reachable] by simp

lemma editor_commit_sample:
  assumes "serializeServiceMetadataDocumentV3 edited_sample = Inr data"
  shows "\<exists>e'. commit (\<lambda>purpose v. purpose) sample_fs sample_fs (\<lambda>stage. False) ''file'' edited_sample (Inr ()) sample_editor = (Inr (), e', Some data)"
proof -
  from serialized_parses [OF assms] obtain m where m: "parseServiceMetadata data = Inr m" ..
  have e: "\<not> ed_disabled sample_editor" "readFile sample_fs sample_editor = Inr sample_metadata_text"
    "view_revision (ed_view sample_editor) = ''file''" "view_bytes (ed_view sample_editor) = sample_metadata_text"
    by (simp_all add: sample_editor_def sample_read new_view_def)
  then have "checkDisk sample_fs sample_editor = Inr ()" by (simp add: checkDisk_def reject_if_def)
  from prepare_commit_InrI [OF e(1) e(3) [symmetric] this this assms m refl, of "\<lambda>_. False"] show ?thesis
    by (simp add: commit_def)
qed

lemma editor_commits_when_disk_works_witness:
  "\<exists>new_contents e'. serializeServiceMetadataDocumentV3 edited_sample = Inr new_contents \<and>
     commit (\<lambda>purpose v. purpose) sample_fs sample_fs (\<lambda>stage. False) ''file'' edited_sample (Inr ()) sample_editor = (Inr (), e', Some new_contents)"
proof -
  from serialize_sample obtain data where d: "serializeServiceMetadataDocumentV3 edited_sample = Inr data" ..
  have e: "\<not> ed_disabled sample_editor" "readFile sample_fs sample_editor = Inr sample_metadata_text"
    "view_revision (ed_view sample_editor) = ''file''"
    by (simp_all add: sample_editor_def sample_read new_view_def)
  from editor_commits_when_disk_works [OF sample_editor_reachable e(1) e(2) e(2) d] d show ?thesis
    unfolding e(3) by blast
qed

lemma commit_all_or_nothing_witness:
  "case commit (\<lambda>purpose v. purpose) sample_fs sample_fs (\<lambda>stage. True) ''file'' edited_sample (Inr ()) (close_editor sample_editor) of
     (out, e', written) \<Rightarrow> out = Inl MetadataUncertain \<and> e' = close_editor sample_editor \<and> written = None"
proof -
  have c: "commit (\<lambda>purpose v. purpose) sample_fs sample_fs (\<lambda>stage. True) ''file'' edited_sample (Inr ()) (close_editor sample_editor) =
     (Inl MetadataUncertain, close_editor sample_editor, None)"
    by (simp add: commit_def prepare_commit_def close_editor_def reject_if_def)
  have "(Inr () :: editor_error + unit) \<noteq> Inl MetadataUncertain" by simp
  from commit_all_or_nothing [OF this, where digest = "\<lambda>purpose v. purpose" and fs = sample_fs and fs_recheck = sample_fs and
      fails = "\<lambda>_. True" and expected = "''file''" and doc = edited_sample and e = "close_editor sample_editor"]
  show ?thesis unfolding c by simp
qed

end
