(* ===== verification/Suggestions.thy ===== *)
theory Suggestions
  imports Matcher Metadata_Write
begin

text \<open>
  The hostname suggestions (\<open>hostname_suggestions.go\<close>): names for proxy hosts that have wildcard domains
  only. A name is suggested where it fits one host and the host fits one name; everything else is ambiguous.
\<close>

section \<open>Names\<close>

datatype hostnameSuggestionSource = SourceControlPlane | SourceStdin | SourceCombined

record hostnameSuggestionCandidate =
  cand_Hostname :: string
  cand_Source :: hostnameSuggestionSource

record eligibleHostnameSuggestionHost =
  eh_ProxyHostID :: int
  WildcardSuffixes :: "string list"
  ExistingName :: string

record hostnameSuggestion =
  sug_ProxyHostID :: int
  sug_Hostname :: string
  sug_Source :: hostnameSuggestionSource

record hostnameSuggestionAmbiguity =
  ProxyHostIDs :: "int list"
  Candidates :: "hostnameSuggestionCandidate list"

datatype suggestion_error =
    TooManyNames | TooManyCandidates | StdinInvalid nat | NoSnapshot | TooManyHosts | DuplicateHostIDs | TooManyDomains
  | TooManySuffixes | TooManyEdges | BadBrowserScheme | TooManyServices | ProposalIneligible | ProposalInvalid | ProposalRejected metadata_error

definition normalizeHostnameSuggestion :: "string \<Rightarrow> string option" where
  "normalizeHostnameSuggestion raw =
     (let v = trim_space raw in
      if v = [] \<or> \<not> list_all is_ascii v then None
      else (let h = trim_suffix (to_lower v) ''.'' in
        if has_suffix h ''.'' \<or> count_byte h (CHR ''.'') < 1 then None
        else if validateServiceHealthHost h then Some h else None))"

definition add_source ::
    "hostnameSuggestionSource \<Rightarrow> string \<Rightarrow> (string, hostnameSuggestionSource) gomap \<Rightarrow> suggestion_error + (string, hostnameSuggestionSource) gomap" where
  "add_source source host_name sources = (case map_of sources host_name of
     Some current \<Rightarrow> Inr (if current \<noteq> source then gomap_put sources host_name SourceCombined else sources)
   | None \<Rightarrow> if length sources \<ge> 1024 then Inl TooManyCandidates else Inr (gomap_put sources host_name source))"

fun add_control_plane_names ::
    "string list \<Rightarrow> (string, hostnameSuggestionSource) gomap \<Rightarrow> suggestion_error + (string, hostnameSuggestionSource) gomap" where
  "add_control_plane_names [] sources = Inr sources"
| "add_control_plane_names (raw # raws) sources = (case normalizeHostnameSuggestion raw of
     None \<Rightarrow> add_control_plane_names raws sources
   | Some host_name \<Rightarrow> and_then (add_source SourceControlPlane host_name sources) (add_control_plane_names raws))"

fun add_stdin_names ::
    "nat \<Rightarrow> string list \<Rightarrow> (string, hostnameSuggestionSource) gomap \<Rightarrow> suggestion_error + (string, hostnameSuggestionSource) gomap" where
  "add_stdin_names i [] sources = Inr sources"
| "add_stdin_names i (raw # raws) sources = (case normalizeHostnameSuggestion raw of
     None \<Rightarrow> Inl (StdinInvalid (Suc i))
   | Some host_name \<Rightarrow> and_then (add_source SourceStdin host_name sources) (add_stdin_names (Suc i) raws))"

definition mergeHostnameSuggestionCandidates :: "string list \<Rightarrow> string list \<Rightarrow> suggestion_error + hostnameSuggestionCandidate list" where
  "mergeHostnameSuggestionCandidates controlPlaneNames stdinNames =
     and_then (reject_if (length controlPlaneNames > 4096) TooManyNames) (\<lambda>_.
     and_then (add_control_plane_names controlPlaneNames []) (\<lambda>sources.
     and_then (add_stdin_names 0 stdinNames sources) (\<lambda>sources.
       Inr (sort_slice (\<lambda>l r. cand_Hostname l < cand_Hostname r)
         (map (\<lambda>(h, s). \<lparr>cand_Hostname = h, cand_Source = s\<rparr>) sources)))))"

section \<open>Hosts\<close>

definition extractHostnameSuggestionWildcardSuffix :: "string \<Rightarrow> string option" where
  "extractHostnameSuggestionWildcardSuffix raw =
     (let domain = trim_space raw in
      if \<not> has_prefix domain ''*.'' \<or> count_byte domain (CHR ''*'') \<noteq> 1 then None
      else normalizeHostnameSuggestion (trim_prefix domain ''*.''))"

text \<open>The domains of one host: the counters of the whole run, the suffixes, and whether a domain is concrete.\<close>

record domain_scan =
  ds_domains :: nat
  ds_suffixes :: nat
  ds_wildcards :: "string list"
  ds_concrete :: bool

fun scan_domains :: "string list \<Rightarrow> domain_scan \<Rightarrow> suggestion_error + domain_scan" where
  "scan_domains [] s = Inr s"
| "scan_domains (domain # domains) s0 = (let s = s0\<lparr>ds_domains := Suc (ds_domains s0)\<rparr> in
     if ds_domains s > 4096 then Inl TooManyDomains
     else (case extractHostnameSuggestionWildcardSuffix domain of
       Some suffix \<Rightarrow>
         if suffix \<in> set (ds_wildcards s) then scan_domains domains s
         else if Suc (ds_suffixes s) > 2048 then Inl TooManySuffixes
         else scan_domains domains (s\<lparr>ds_suffixes := Suc (ds_suffixes s), ds_wildcards := ds_wildcards s @ [suffix]\<rparr>)
     | None \<Rightarrow> scan_domains domains (if validConcreteCardDomain (trim_space domain) then s\<lparr>ds_concrete := True\<rparr> else s)))"

text \<open>The name a host has, unless an override already gives it a link.\<close>

definition existing_name :: "ServiceMetadata option \<Rightarrow> int \<Rightarrow> string option" where
  "existing_name metadata host_id = (case override_for metadata host_id of None \<Rightarrow> Some []
     | Some ov \<Rightarrow> if override_URL ov \<noteq> [] then None else Some (override_Name ov))"

fun eligible_hosts ::
    "CacheData \<Rightarrow> ServiceMetadata option \<Rightarrow> int list \<Rightarrow> nat \<Rightarrow> nat \<Rightarrow> ProxyHost list \<Rightarrow>
     suggestion_error + eligibleHostnameSuggestionHost list" where
  "eligible_hosts snapshot metadata seen domains suffixes [] = Inr []"
| "eligible_hosts snapshot metadata seen domains suffixes (ph # phs) =
     (if ph_ID ph > 0 \<and> ph_ID ph \<in> set seen then Inl DuplicateHostIDs
      else (let seen' = (if ph_ID ph > 0 then ph_ID ph # seen else seen) in
        if ph_ID ph \<le> 0 \<or> \<not> enabledProxyHostHasSupportedDestinationMatch ph (Some snapshot)
        then eligible_hosts snapshot metadata seen' domains suffixes phs
        else (case scan_domains (DomainNames ph)
            \<lparr>ds_domains = domains, ds_suffixes = suffixes, ds_wildcards = [], ds_concrete = False\<rparr> of
          Inl e \<Rightarrow> Inl e
        | Inr s \<Rightarrow>
            if ds_concrete s \<or> ds_wildcards s = []
            then eligible_hosts snapshot metadata seen' (ds_domains s) (ds_suffixes s) phs
            else (case existing_name metadata (ph_ID ph) of
              None \<Rightarrow> eligible_hosts snapshot metadata seen' (ds_domains s) (ds_suffixes s) phs
            | Some name \<Rightarrow>
                and_then (eligible_hosts snapshot metadata seen' (ds_domains s) (ds_suffixes s) phs) (\<lambda>rest.
                  Inr (\<lparr>eh_ProxyHostID = ph_ID ph, WildcardSuffixes = sort_linear (ds_wildcards s), ExistingName = name\<rparr> # rest))))))"

definition eligibleHostnameSuggestionHosts ::
    "CacheData option \<Rightarrow> ServiceMetadata option \<Rightarrow> suggestion_error + eligibleHostnameSuggestionHost list" where
  "eligibleHostnameSuggestionHosts snapshot metadata = (case snapshot of None \<Rightarrow> Inl NoSnapshot | Some d \<Rightarrow>
     and_then (reject_if (length (cd_ProxyHosts d) > 1024) TooManyHosts) (\<lambda>_.
     and_then (eligible_hosts d metadata [] 0 0 (cd_ProxyHosts d)) (\<lambda>eligible.
       Inr (sort_slice (\<lambda>l r. eh_ProxyHostID l < eh_ProxyHostID r) eligible))))"

section \<open>The graph of names and hosts\<close>

definition hostnameMatchesSuggestionSuffix :: "string \<Rightarrow> string \<Rightarrow> bool" where
  "hostnameMatchesSuggestionSuffix host_name suffix \<longleftrightarrow> host_name \<noteq> suffix \<and> has_suffix host_name (CHR ''.'' # suffix)"

definition graph_edges :: "hostnameSuggestionCandidate list \<Rightarrow> eligibleHostnameSuggestionHost list \<Rightarrow> (string \<times> int) list" where
  "graph_edges candidates eligible =
     concat (map (\<lambda>c. map (\<lambda>h. (cand_Hostname c, eh_ProxyHostID h))
       (filter (\<lambda>h. list_ex (hostnameMatchesSuggestionSuffix (cand_Hostname c)) (WildcardSuffixes h)) eligible)) candidates)"

definition add_edge :: "('a, 'b list) gomap \<Rightarrow> 'a \<times> 'b \<Rightarrow> ('a, 'b list) gomap" where
  "add_edge m e = (case e of (a, b) \<Rightarrow> gomap_put m a (let bs = gomap_get m a [] in if b \<in> set bs then bs else bs @ [b]))"

definition edge_map :: "('a \<times> 'b) list \<Rightarrow> ('a, 'b list) gomap" where
  "edge_map edges = foldl add_edge [] edges"

text \<open>One pass over a queue: what is new is visited and its neighbours that were not visited are queued.\<close>

fun drain :: "('a \<Rightarrow> 'b list) \<Rightarrow> 'b list \<Rightarrow> 'a list \<Rightarrow> 'a list \<Rightarrow> 'a list \<times> 'a list \<times> 'b list" where
  "drain nbrs others [] visited = (visited, [], [])"
| "drain nbrs others (x # queue) visited =
     (if x \<in> set visited then drain nbrs others queue visited
      else (case drain nbrs others queue (x # visited) of (visited', found, queued) \<Rightarrow>
        (visited', x # found, filter (\<lambda>y. y \<notin> set others) (nbrs x) @ queued)))"

text \<open>
  The two queues in turn, until both are empty; every round but the last one visits a hostname, so one more round than
  there are hostnames is enough.
\<close>

fun explore ::
    "nat \<Rightarrow> ('h \<Rightarrow> 'i list) \<Rightarrow> ('i \<Rightarrow> 'h list) \<Rightarrow> 'h list \<Rightarrow> 'h list \<Rightarrow> 'i list \<Rightarrow> ('h list \<times> 'i list) \<times> 'h list \<times> 'i list" where
  "explore 0 ids hosts queue vh vi = ((vh, vi), [], [])"
| "explore (Suc n) ids hosts queue vh vi =
     (if queue = [] then ((vh, vi), [], [])
      else (case drain ids vi queue vh of (vh1, found_hosts, id_queue) \<Rightarrow>
        (case drain hosts vh1 id_queue vi of (vi1, found_ids, queue1) \<Rightarrow>
          (case explore n ids hosts queue1 vh1 vi1 of (v, hs, is) \<Rightarrow> (v, found_hosts @ hs, found_ids @ is)))))"

fun components ::
    "nat \<Rightarrow> ('h \<Rightarrow> 'i list) \<Rightarrow> ('i \<Rightarrow> 'h list) \<Rightarrow> 'h list \<Rightarrow> 'h list \<Rightarrow> 'i list \<Rightarrow> ('h list \<times> 'i list) list" where
  "components fuel ids hosts [] vh vi = []"
| "components fuel ids hosts (start # starts) vh vi =
     (if start \<in> set vh then components fuel ids hosts starts vh vi
      else (case explore fuel ids hosts [start] vh vi of ((vh1, vi1), hs, is) \<Rightarrow>
        (hs, is) # components fuel ids hosts starts vh1 vi1))"

definition candidate_for :: "hostnameSuggestionCandidate list \<Rightarrow> string \<Rightarrow> hostnameSuggestionCandidate" where
  "candidate_for candidates h = (case find (\<lambda>c. cand_Hostname c = h) (rev candidates) of
     Some c \<Rightarrow> c | None \<Rightarrow> \<lparr>cand_Hostname = [], cand_Source = SourceControlPlane\<rparr>)"

definition suggestion_less :: "hostnameSuggestion \<Rightarrow> hostnameSuggestion \<Rightarrow> bool" where
  "suggestion_less = lex_less sug_Hostname (\<lambda>l r. sug_ProxyHostID l < sug_ProxyHostID r)"

definition ambiguity_less :: "hostnameSuggestionAmbiguity \<Rightarrow> hostnameSuggestionAmbiguity \<Rightarrow> bool" where
  "ambiguity_less = lex_less (\<lambda>a. cand_Hostname (hd (Candidates a))) (\<lambda>l r. hd (ProxyHostIDs l) < hd (ProxyHostIDs r))"

definition graph_components :: "(string \<times> int) list \<Rightarrow> (string list \<times> int list) list" where
  "graph_components edges =
     (let by_host = edge_map edges; by_id = edge_map (map prod.swap edges) in
      map (\<lambda>(hs, is). (sort_linear hs, sort_linear is))
        (components (Suc (length by_host)) (\<lambda>h. gomap_get by_host h []) (\<lambda>i. gomap_get by_id i [])
          (sort_linear (map fst by_host)) [] []))"

definition suggestion_of :: "hostnameSuggestionCandidate list \<Rightarrow> string list \<times> int list \<Rightarrow> hostnameSuggestion option" where
  "suggestion_of candidates part = (case part of
     ([h], [i]) \<Rightarrow> (let c = candidate_for candidates h in Some \<lparr>sug_ProxyHostID = i, sug_Hostname = cand_Hostname c, sug_Source = cand_Source c\<rparr>)
   | _ \<Rightarrow> None)"

definition ambiguity_of :: "hostnameSuggestionCandidate list \<Rightarrow> string list \<times> int list \<Rightarrow> hostnameSuggestionAmbiguity option" where
  "ambiguity_of candidates part = (case part of
     ([h], [i]) \<Rightarrow> None
   | (hs, is) \<Rightarrow> Some \<lparr>ProxyHostIDs = is, Candidates = map (candidate_for candidates) hs\<rparr>)"

definition buildHostnameSuggestions ::
    "hostnameSuggestionCandidate list \<Rightarrow> eligibleHostnameSuggestionHost list \<Rightarrow>
     suggestion_error + hostnameSuggestion list \<times> hostnameSuggestionAmbiguity list" where
  "buildHostnameSuggestions candidates eligible =
     (let edges = graph_edges candidates eligible in
      if length edges > 16384 then Inl TooManyEdges
      else (let comps = graph_components edges in
        Inr (sort_slice suggestion_less (List.map_filter (suggestion_of candidates) comps),
             sort_slice ambiguity_less (List.map_filter (ambiguity_of candidates) comps))))"

section \<open>The proposal\<close>

definition proposal_entry ::
    "eligibleHostnameSuggestionHost list \<Rightarrow> string \<Rightarrow> hostnameSuggestion \<Rightarrow> suggestion_error + serviceMetadataEntry" where
  "proposal_entry eligible scheme s = (case find (\<lambda>h. eh_ProxyHostID h = sug_ProxyHostID s) (rev eligible) of
     None \<Rightarrow> Inl ProposalIneligible
   | Some host \<Rightarrow>
       if normalizeHostnameSuggestion (sug_Hostname s) \<noteq> Some (sug_Hostname s) then Inl ProposalInvalid
       else Inr (zero_entry\<lparr>entry_ProxyHostID := sug_ProxyHostID s,
         entry_Name := Some (if ExistingName host \<noteq> [] then ExistingName host else sug_Hostname s),
         entry_URL := Some (origin_url scheme (sug_Hostname s))\<rparr>))"

definition buildHostnameSuggestionProposal ::
    "hostnameSuggestion list \<Rightarrow> eligibleHostnameSuggestionHost list \<Rightarrow> string \<Rightarrow> suggestion_error + string" where
  "buildHostnameSuggestionProposal suggestions eligible scheme =
     and_then (reject_if (scheme \<noteq> ''http'' \<and> scheme \<noteq> ''https'') BadBrowserScheme) (\<lambda>_.
     and_then (reject_if (length suggestions > 1024) TooManyServices) (\<lambda>_.
     and_then (each (\<lambda>_. proposal_entry eligible scheme) 0 (sort_slice suggestion_less suggestions)) (\<lambda>entries.
     (case serializeServiceMetadataDocumentV1 entries of Inl e \<Rightarrow> Inl (ProposalRejected e) | Inr data \<Rightarrow> Inr data))))"


section \<open>Draining and exploring\<close>

lemma drain_visited: "drain nbrs others queue visited = (visited', found, queued) \<Longrightarrow>
   set visited' = set visited \<union> set queue \<and> set found = set queue - set visited \<and> distinct found \<and>
   set queued = (\<Union>x \<in> set found. set (nbrs x)) - set others"
proof (induction nbrs others queue visited arbitrary: visited' found queued rule: drain.induct)
  case (2 nbrs others x queue visited)
  show ?case
  proof (cases "x \<in> set visited")
    case True
    with "2.prems" have "drain nbrs others queue visited = (visited', found, queued)" by simp
    from "2.IH"(1) [OF True this] True have "set visited' = set visited \<union> set (x # queue)" "set found = set (x # queue) - set visited"
        "distinct found" "set queued = (\<Union>x \<in> set found. set (nbrs x)) - set others" by auto
    then show ?thesis by blast
  next
    case False
    obtain v f q where d: "drain nbrs others queue (x # visited) = (v, f, q)" by (metis prod_cases3)
    from "2.IH"(2) [OF False d] have ih: "set v = insert x (set visited) \<union> set queue" "set f = set queue - insert x (set visited)" "distinct f"
        "set q = (\<Union>x \<in> set f. set (nbrs x)) - set others" by auto
    have r: "visited' = v" "found = x # f" "queued = filter (\<lambda>y. y \<notin> set others) (nbrs x) @ q"
      using "2.prems" False d by simp_all
    show ?thesis unfolding r by (intro conjI) (use ih False in auto)
  qed
qed simp

lemma distinct_single: "distinct xs \<Longrightarrow> set xs = {x} \<Longrightarrow> xs = [x]"
  by (cases xs) (auto dest: subset_singletonD)

text \<open>
  The contract of the two neighbour functions: the graph has each edge in both directions. The client's
  lemmas are about any such graph.
\<close>

locale bipartite =
  fixes ids :: "'h \<Rightarrow> 'i list" and hosts :: "'i \<Rightarrow> 'h list"
  assumes both_ways: "i \<in> set (ids h) \<longleftrightarrow> h \<in> set (hosts i)"
begin

definition closed :: "'h set \<Rightarrow> 'i set \<Rightarrow> bool" where
  "closed H I \<longleftrightarrow> (\<forall>h \<in> H. set (ids h) \<subseteq> I) \<and> (\<forall>i \<in> I. set (hosts i) \<subseteq> H)"

text \<open>
  During the exploration: the hosts visited have their neighbours visited, and the neighbours of the IDs visited are
  visited or queued.
\<close>

lemma explore_ok:
  assumes "explore n ids hosts queue vh vi = ((vh', vi'), hs, is)"
    and "\<forall>h \<in> set vh. set (ids h) \<subseteq> set vi" and "\<forall>i \<in> set vi. set (hosts i) \<subseteq> set vh \<union> set queue"
    and "card (U - set vh) < n" and "finite U" and "set queue \<subseteq> U" and "\<forall>i. set (hosts i) \<subseteq> U"
  shows "closed (set vh') (set vi') \<and> set vh' = set vh \<union> set hs \<and> set vi' = set vi \<union> set is \<and> set queue \<subseteq> set vh' \<and>
    distinct hs \<and> distinct is \<and> set hs \<inter> set vh = {} \<and> set is \<inter> set vi = {}"
  using assms
proof (induction n arbitrary: queue vh vi vh' vi' hs "is")
  case (Suc n)
  show ?case
  proof (cases "queue = []")
    case True
    with Suc.prems show ?thesis by (auto simp: closed_def)
  next
    case False
    obtain vh1 fh iq where d1: "drain ids vi queue vh = (vh1, fh, iq)" by (metis prod_cases3)
    obtain vi1 fi q1 where d2: "drain hosts vh1 iq vi = (vi1, fi, q1)" by (metis prod_cases3)
    obtain vh2 vi2 hs2 is2 where e: "explore n ids hosts q1 vh1 vi1 = ((vh2, vi2), hs2, is2)" by (metis prod.collapse)
    from Suc.prems(1) False d1 d2 e have r: "vh' = vh2" "vi' = vi2" "hs = fh @ hs2" "is = fi @ is2" by simp_all
    note D1 = drain_visited [OF d1] and D2 = drain_visited [OF d2]
    show ?thesis
    proof (cases "fh = []")
      case True
      then have "iq = []" using D1 by auto
      then have "q1 = []" "vi1 = vi" "fi = []" using D2 d2 by auto
      moreover have same: "set vh1 = set vh" "set queue \<subseteq> set vh" using D1 True by auto
      moreover have "closed (set vh) (set vi)" using Suc.prems(2, 3) same(2) unfolding closed_def by blast
      moreover from \<open>q1 = []\<close> e have "hs2 = []" "is2 = []" "vh2 = vh1" "vi2 = vi1" by (cases n; simp)+
      ultimately show ?thesis using r True by simp
    next
      case fh: False
      then obtain h where "h \<in> set fh" by (cases fh) auto
      then have "h \<in> U - set vh" "h \<in> set vh1" using D1 Suc.prems(6) by auto
      then have "U - set vh1 \<subset> U - set vh" using D1 by auto
      then have "card (U - set vh1) < n"
        using psubset_card_mono [of "U - set vh" "U - set vh1"] Suc.prems(4, 5) by simp
      moreover have "\<forall>h \<in> set vh1. set (ids h) \<subseteq> set vi1" using D1 D2 Suc.prems(2) by fastforce
      moreover have "\<forall>i \<in> set vi1. set (hosts i) \<subseteq> set vh1 \<union> set q1" using D1 D2 Suc.prems(3) by fastforce
      moreover have "set q1 \<subseteq> U" using D2 Suc.prems(7) by blast
      ultimately have "closed (set vh2) (set vi2) \<and> set vh2 = set vh1 \<union> set hs2 \<and> set vi2 = set vi1 \<union> set is2 \<and> set q1 \<subseteq> set vh2 \<and>
          distinct hs2 \<and> distinct is2 \<and> set hs2 \<inter> set vh1 = {} \<and> set is2 \<inter> set vi1 = {}"
        using Suc.IH [OF e] Suc.prems(5, 7) by blast
      with r D1 D2 show ?thesis by auto
    qed
  qed
qed simp

text \<open>What is found lies in every closed part of the graph that contains the queue.\<close>

lemma explore_minimal:
  assumes "explore n ids hosts queue vh vi = ((vh', vi'), hs, is)" and "closed H I" and "set queue \<subseteq> H"
  shows "set hs \<subseteq> H \<and> set is \<subseteq> I"
  using assms
proof (induction n arbitrary: queue vh vi vh' vi' hs "is")
  case (Suc n)
  show ?case
  proof (cases "queue = []")
    case True
    with Suc.prems show ?thesis by auto
  next
    case False
    obtain vh1 fh iq where d1: "drain ids vi queue vh = (vh1, fh, iq)" by (metis prod_cases3)
    obtain vi1 fi q1 where d2: "drain hosts vh1 iq vi = (vi1, fi, q1)" by (metis prod_cases3)
    obtain vh2 vi2 hs2 is2 where e: "explore n ids hosts q1 vh1 vi1 = ((vh2, vi2), hs2, is2)" by (metis prod.collapse)
    from Suc.prems(1) False d1 d2 e have r: "hs = fh @ hs2" "is = fi @ is2" by simp_all
    note D1 = drain_visited [OF d1] and D2 = drain_visited [OF d2]
    have "set fh \<subseteq> H" using D1 Suc.prems(3) by auto
    moreover from this have iq: "set iq \<subseteq> I" using D1 Suc.prems(2) by (fastforce simp: closed_def)
    moreover from iq have "set fi \<subseteq> I" using D2 by auto
    moreover from this have "set q1 \<subseteq> H" using D2 Suc.prems(2) by (fastforce simp: closed_def)
    ultimately show ?thesis using Suc.IH [OF e Suc.prems(2)] r by auto
  qed
qed simp

text \<open>The component of one start: closed together with what was visited before, and a single pair just when start is isolated.\<close>

lemma explore_start:
  assumes e: "explore n ids hosts [start] vh vi = ((vh', vi'), hs, is)" and before: "closed (set vh) (set vi)" and new: "start \<notin> set vh"
    and universe: "finite U" "card U < n" "start \<in> U" "\<forall>i. set (hosts i) \<subseteq> U"
  shows "closed (set vh') (set vi')" "set vh' = set vh \<union> set hs" "start \<in> set hs" "distinct hs" "set hs \<inter> set vh = {}" "set hs \<subseteq> U"
    "set vi' = set vi \<union> set is" "distinct is" "set is \<inter> set vi = {}"
proof -
  have small: "card (U - set vh) < n" using universe(1, 2) card_mono [of U "U - set vh"] by simp
  have "\<forall>h \<in> set vh. set (ids h) \<subseteq> set vi" "\<forall>i \<in> set vi. set (hosts i) \<subseteq> set vh \<union> set [start]"
    using before unfolding closed_def by auto
  moreover have "set [start] \<subseteq> U" using universe(3) by simp
  ultimately have all: "closed (set vh') (set vi') \<and> set vh' = set vh \<union> set hs \<and> set vi' = set vi \<union> set is \<and> set [start] \<subseteq> set vh' \<and>
      distinct hs \<and> distinct is \<and> set hs \<inter> set vh = {} \<and> set is \<inter> set vi = {}"
    using explore_ok [OF e _ _ small universe(1) _ universe(4)] by blast
  then have "set [start] \<subseteq> set vh'" by blast
  with all new show "closed (set vh') (set vi')" "set vh' = set vh \<union> set hs" "start \<in> set hs" "distinct hs" "set hs \<inter> set vh = {}"
      "set vi' = set vi \<union> set is" "distinct is" "set is \<inter> set vi = {}"
    by auto
  have "closed U UNIV" using universe(4) by (simp add: closed_def)
  from explore_minimal [OF e this] universe(3) show "set hs \<subseteq> U" by simp
qed

lemma pair_is_isolated:
  assumes e: "explore n ids hosts [h] vh vi = ((vh', vi'), [h], [i])" and before: "closed (set vh) (set vi)" and new: "h \<notin> set vh" "i \<notin> set vi"
    and after: "closed (set vh') (set vi')" "set vh' = set vh \<union> {h}" "set vi' = set vi \<union> {i}"
  shows "set (ids h) = {i} \<and> set (hosts i) = {h}"
proof -
  have "set (ids h) \<subseteq> set vi \<union> {i}" "set (hosts i) \<subseteq> set vh \<union> {h}" using after unfolding closed_def by auto
  moreover have "j \<notin> set vi" if "j \<in> set (ids h)" for j
    using before new(1) that both_ways [of j h] by (auto simp: closed_def)
  moreover have "g \<notin> set vh" if "g \<in> set (hosts i)" for g
    using before new(2) that both_ways [of i g] by (auto simp: closed_def)
  ultimately have sub: "set (ids h) \<subseteq> {i}" "set (hosts i) \<subseteq> {h}" by blast+
  have "set (ids h) \<noteq> {}"
  proof
    assume "set (ids h) = {}"
    then have "closed {h} {}" by (simp add: closed_def)
    from explore_minimal [OF e this] show False by simp
  qed
  with subset_singletonD [OF sub(1)] have ids: "set (ids h) = {i}" by simp
  then have "h \<in> set (hosts i)" using both_ways [of i h] by simp
  with ids sub(2) show ?thesis by blast
qed

lemma explore_isolated:
  assumes e: "explore n ids hosts [start] vh vi = ((vh', vi'), hs, is)" and before: "closed (set vh) (set vi)" and new: "start \<notin> set vh"
    and universe: "finite U" "card U < n" "start \<in> U" "\<forall>i. set (hosts i) \<subseteq> U"
  shows "hs = [h] \<and> is = [i] \<longleftrightarrow> h = start \<and> set (ids h) = {i} \<and> set (hosts i) = {h}"
proof
  note ok = explore_start [OF e before new universe]
  assume single: "hs = [h] \<and> is = [i]"
  with ok(3) have h: "start = h" by simp
  have "h \<notin> set vh" "i \<notin> set vi" "set vh' = set vh \<union> {h}" "set vi' = set vi \<union> {i}"
    using ok(2, 5, 7, 9) single by auto
  with pair_is_isolated [of n h vh vi vh' vi' i] e before ok(1) single
  show "h = start \<and> set (ids h) = {i} \<and> set (hosts i) = {h}" unfolding h by blast
next
  note ok = explore_start [OF e before new universe]
  assume iso: "h = start \<and> set (ids h) = {i} \<and> set (hosts i) = {h}"
  then have "set (ids h) = {i}" "set (hosts i) = {h}" by blast+
  then have "closed {h} {i}" by (simp add: closed_def)
  from explore_minimal [OF e this] iso have "set hs \<subseteq> {h}" "set is \<subseteq> {i}" by simp_all
  moreover have "i \<in> set vi'" using ok(1, 2, 3) iso unfolding closed_def by blast
  moreover have "i \<notin> set vi" using before iso new by (auto simp: closed_def)
  ultimately have "set hs = {h}" "set is = {i}" using ok(3, 7) by auto
  with ok(4, 8) show "hs = [h] \<and> is = [i]" by (simp add: distinct_single)
qed

lemma components_ok:
  assumes "closed (set vh) (set vi)" and "finite U" "card U < fuel" "set starts \<subseteq> U" "\<forall>i. set (hosts i) \<subseteq> U"
  shows "distinct (concat (map fst (components fuel ids hosts starts vh vi))) \<and>
     set (concat (map fst (components fuel ids hosts starts vh vi))) \<inter> set vh = {} \<and>
     set starts - set vh \<subseteq> set (concat (map fst (components fuel ids hosts starts vh vi))) \<and>
     set (concat (map fst (components fuel ids hosts starts vh vi))) \<subseteq> U \<and>
     {(h, i). ([h], [i]) \<in> set (components fuel ids hosts starts vh vi)} =
       {(h, i). h \<in> set starts - set vh \<and> set (ids h) = {i} \<and> set (hosts i) = {h}}"
  using assms
proof (induction starts arbitrary: vh vi)
  case (Cons start starts)
  show ?case
  proof (cases "start \<in> set vh")
    case True
    with Cons show ?thesis by auto
  next
    case False
    obtain vh1 vi1 hs "is" where e: "explore fuel ids hosts [start] vh vi = ((vh1, vi1), hs, is)" by (metis prod.collapse)
    from Cons.prems(4) have start: "start \<in> U" by simp
    note one = explore_start [OF e Cons.prems(1) False Cons.prems(2, 3) start Cons.prems(5)]
    note iso_start = explore_isolated [OF e Cons.prems(1) False Cons.prems(2, 3) start Cons.prems(5)]
    let ?cs = "components fuel ids hosts starts vh1 vi1"
    from Cons.IH [OF one(1) Cons.prems(2, 3) _ Cons.prems(5)] Cons.prems(4)
    have ih: "distinct (concat (map fst ?cs))" "set (concat (map fst ?cs)) \<inter> set vh1 = {}" "set starts - set vh1 \<subseteq> set (concat (map fst ?cs))"
          "set (concat (map fst ?cs)) \<subseteq> U"
        and "{(h, i). ([h], [i]) \<in> set ?cs} = {(h, i). h \<in> set starts - set vh1 \<and> set (ids h) = {i} \<and> set (hosts i) = {h}}"
      by simp_all
    then have iso: "([h], [i]) \<in> set ?cs \<longleftrightarrow> h \<in> set starts - set vh1 \<and> set (ids h) = {i} \<and> set (hosts i) = {h}" for h i
      by (simp add: set_eq_iff)
    have cs: "components fuel ids hosts (start # starts) vh vi = (hs, is) # ?cs" using False e by simp
    have "([h], [i]) \<in> set ((hs, is) # ?cs) \<longleftrightarrow> h \<in> set (start # starts) - set vh \<and> set (ids h) = {i} \<and> set (hosts i) = {h}" for h i
    proof -
      have only: "h = start" if "h \<in> set hs" "set (ids h) = {i}" "set (hosts i) = {h}"
      proof (rule ccontr)
        assume "h \<noteq> start"
        have "closed (- {h}) (- {i})"
          using that(2, 3) both_ways unfolding closed_def by blast
        from explore_minimal [OF e this] \<open>h \<noteq> start\<close> that(1) show False by auto
      qed
      have "([h], [i]) \<in> set ((hs, is) # ?cs) \<longleftrightarrow> (hs = [h] \<and> is = [i]) \<or> ([h], [i]) \<in> set ?cs" by auto
      moreover have "h \<in> set (start # starts) - set vh \<longleftrightarrow> (h = start \<or> h \<in> set starts) \<and> h \<notin> set vh" by simp
      moreover have "h \<in> set starts - set vh1 \<longleftrightarrow> h \<in> set starts \<and> h \<notin> set vh \<and> h \<notin> set hs" using one(2) by auto
      ultimately show ?thesis using one(3) iso_start [of h i] iso [of h i] only False by blast
    qed
    moreover have "distinct (concat (map fst ((hs, is) # ?cs)))" using ih(1, 2) one(2, 4) by auto
    moreover have "set (concat (map fst ((hs, is) # ?cs))) \<inter> set vh = {}" using ih(2) one(2, 5) by auto
    moreover have "set (start # starts) - set vh \<subseteq> set (concat (map fst ((hs, is) # ?cs)))" using ih(3) one(2, 3) by auto
    moreover have "set (concat (map fst ((hs, is) # ?cs))) \<subseteq> U" using ih(4) one(6) by auto
    ultimately show ?thesis unfolding cs by blast
  qed
qed simp

end


section \<open>The graph of the model\<close>

lemma gomap_get_add_edge: "b' \<in> set (gomap_get (add_edge m (a, b)) a' []) \<longleftrightarrow> (a' = a \<and> b' = b) \<or> b' \<in> set (gomap_get m a' [])"
  by (auto simp: add_edge_def Let_def gomap_get_def split: option.splits)

lemma edge_map_get: "b \<in> set (gomap_get (edge_map edges) a []) \<longleftrightarrow> (a, b) \<in> set edges"
proof -
  have "b \<in> set (gomap_get (foldl add_edge m edges) a []) \<longleftrightarrow> (a, b) \<in> set edges \<or> b \<in> set (gomap_get m a [])" for m
  proof (induction edges arbitrary: m)
    case (Cons e edges)
    obtain x y where "e = (x, y)" by (cases e)
    with Cons.IH [of "add_edge m e"] show ?case by (auto simp: gomap_get_add_edge)
  qed simp
  then show ?thesis by (simp add: edge_map_def gomap_get_def)
qed

lemma add_edge_keys: "fst ` set (add_edge m e) = insert (fst e) (fst ` set m)"
proof -
  have "set (map fst (add_edge m e)) = insert (fst e) (set (map fst m))"
    unfolding add_edge_def by (simp add: case_prod_beta Let_def fst_gomap_put insert_absorb del: set_map) auto
  then show ?thesis by simp
qed

lemma edge_map_keys: "fst ` set (edge_map edges) = fst ` set edges"
proof -
  have "fst ` set (foldl add_edge m edges) = fst ` set edges \<union> fst ` set m" for m
    by (induction edges arbitrary: m) (auto simp: add_edge_keys)
  then show ?thesis by (simp add: edge_map_def)
qed

interpretation edge_graph: bipartite "\<lambda>h. gomap_get (edge_map edges) h []" "\<lambda>i. gomap_get (edge_map (map prod.swap edges)) i []"
  for edges :: "(string \<times> int) list"
  by unfold_locales (force simp: edge_map_get)

definition isolated_edge :: "(string \<times> int) list \<Rightarrow> string \<Rightarrow> int \<Rightarrow> bool" where
  "isolated_edge edges h i \<longleftrightarrow> (h, i) \<in> set edges \<and> (\<forall>j. (h, j) \<in> set edges \<longrightarrow> j = i) \<and> (\<forall>g. (g, i) \<in> set edges \<longrightarrow> g = h)"

lemma sorted_components: "mset (concat (map fst (map (\<lambda>(hs, is). (sort_linear hs, sort_linear is)) cs))) = mset (concat (map fst cs))"
  by (induction cs) auto

lemma sort_linear_single [simp]: "sort_linear xs = [x] \<longleftrightarrow> xs = [x]" "[x] = sort_linear xs \<longleftrightarrow> xs = [x]"
proof -
  show one: "sort_linear xs = [x] \<longleftrightarrow> xs = [x]"
    by (metis mset_single_iff mset_sort_linear)
  then show "[x] = sort_linear xs \<longleftrightarrow> xs = [x]" by metis
qed

lemma swapped_edge: "(i, h) \<in> set (map prod.swap edges) \<longleftrightarrow> (h, i) \<in> set edges"
  by force

lemma graph_components_ok:
  "distinct (concat (map fst (graph_components edges)))"
  "set (concat (map fst (graph_components edges))) = fst ` set edges"
  "([h], [i]) \<in> set (graph_components edges) \<longleftrightarrow> isolated_edge edges h i"
proof -
  let ?ids = "\<lambda>h. gomap_get (edge_map edges) h []" and ?hosts = "\<lambda>i. gomap_get (edge_map (map prod.swap edges)) i []"
  let ?starts = "sort_linear (map fst (edge_map edges))"
  define cs where "cs = components (Suc (length (edge_map edges))) ?ids ?hosts ?starts [] []"
  have gc: "graph_components edges = map (\<lambda>(hs, is). (sort_linear hs, sort_linear is)) cs"
    by (simp add: graph_components_def Let_def cs_def)
  have starts: "set ?starts = fst ` set edges" using edge_map_keys [of edges] by simp
  have "card (fst ` set edges) < Suc (length (edge_map edges))"
    by (metis edge_map_keys card_length length_map less_Suc_eq_le set_map)
  moreover have "\<forall>i. set (?hosts i) \<subseteq> fst ` set edges" by (force simp: edge_map_get)
  moreover have "edge_graph.closed edges (set []) (set [])" by (simp add: edge_graph.closed_def)
  ultimately have ok: "distinct (concat (map fst cs))" "fst ` set edges \<subseteq> set (concat (map fst cs))"
      "set (concat (map fst cs)) \<subseteq> fst ` set edges"
      "{(h, i). ([h], [i]) \<in> set cs} = {(h, i). h \<in> fst ` set edges \<and> set (?ids h) = {i} \<and> set (?hosts i) = {h}}"
    using edge_graph.components_ok [of edges "[]" "[]" "fst ` set edges" "Suc (length (edge_map edges))" ?starts] starts
    unfolding cs_def by simp_all
  note same = sorted_components [of cs, folded gc]
  from ok(1) same show "distinct (concat (map fst (graph_components edges)))" by (metis mset_eq_imp_distinct_iff)
  from ok(2, 3) mset_eq_setD [OF same] show "set (concat (map fst (graph_components edges))) = fst ` set edges" by simp
  have "([h], [i]) \<in> set (graph_components edges) \<longleftrightarrow> ([h], [i]) \<in> set cs"
    unfolding gc set_map image_iff by (simp add: Bex_def split_paired_Ex)
  also have "\<dots> \<longleftrightarrow> h \<in> fst ` set edges \<and> set (?ids h) = {i} \<and> set (?hosts i) = {h}" using ok(4) by (simp add: set_eq_iff)
  also have "\<dots> \<longleftrightarrow> isolated_edge edges h i"
  proof -
    have "set (?ids h) = {i} \<longleftrightarrow> (\<forall>j. (h, j) \<in> set edges \<longleftrightarrow> j = i)"
      by (simp only: set_eq_iff edge_map_get singleton_iff)
    moreover have "set (?hosts i) = {h} \<longleftrightarrow> (\<forall>g. (g, i) \<in> set edges \<longleftrightarrow> g = h)"
      by (simp only: set_eq_iff edge_map_get swapped_edge singleton_iff)
    moreover have "(h, i) \<in> set edges \<Longrightarrow> h \<in> fst ` set edges" by force
    ultimately show ?thesis unfolding isolated_edge_def by blast
  qed
  finally show "([h], [i]) \<in> set (graph_components edges) \<longleftrightarrow> isolated_edge edges h i" .
qed


section \<open>What is suggested\<close>

text \<open>A name fits a host that has a wildcard suffix it lies below.\<close>

definition name_fits :: "hostnameSuggestionCandidate list \<Rightarrow> eligibleHostnameSuggestionHost list \<Rightarrow> string \<Rightarrow> int \<Rightarrow> bool" where
  "name_fits candidates eligible name i \<longleftrightarrow>
     (\<exists>c \<in> set candidates. cand_Hostname c = name) \<and>
     (\<exists>h \<in> set eligible. eh_ProxyHostID h = i \<and>
        (\<exists>suffix \<in> set (WildcardSuffixes h). name \<noteq> suffix \<and> has_suffix name (CHR ''.'' # suffix)))"

lemma graph_edges_iff: "(name, i) \<in> set (graph_edges candidates eligible) \<longleftrightarrow> name_fits candidates eligible name i"
  by (auto simp: graph_edges_def name_fits_def list_ex_iff hostnameMatchesSuggestionSuffix_def)

lemma candidate_for_ok:
  assumes "c \<in> set candidates"
  shows "cand_Hostname (candidate_for candidates (cand_Hostname c)) = cand_Hostname c" "candidate_for candidates (cand_Hostname c) \<in> set candidates"
proof -
  have "find (\<lambda>d. cand_Hostname d = cand_Hostname c) (rev candidates) \<noteq> None" using assms by (auto simp: find_None_iff)
  then obtain d where d: "find (\<lambda>d. cand_Hostname d = cand_Hostname c) (rev candidates) = Some d" by auto
  then have "cand_Hostname d = cand_Hostname c" "d \<in> set candidates" by (auto simp: find_Some_iff) (metis length_rev nth_mem set_rev)
  then show "cand_Hostname (candidate_for candidates (cand_Hostname c)) = cand_Hostname c" "candidate_for candidates (cand_Hostname c) \<in> set candidates"
    by (simp_all add: candidate_for_def d)
qed

lemma suggestion_of_SomeD:
  "suggestion_of candidates part = Some s \<Longrightarrow> \<exists>h i. part = ([h], [i]) \<and> s = \<lparr>sug_ProxyHostID = i,
     sug_Hostname = cand_Hostname (candidate_for candidates h), sug_Source = cand_Source (candidate_for candidates h)\<rparr>"
  by (auto simp: suggestion_of_def Let_def split: prod.split_asm list.split_asm)

text \<open>Each name of a component appears once, in the suggestion or in the ambiguity.\<close>

lemma component_names:
  assumes "\<And>name. name \<in> set (concat (map fst parts)) \<Longrightarrow> cand_Hostname (candidate_for candidates name) = name"
  shows "mset (map sug_Hostname (List.map_filter (suggestion_of candidates) parts)) +
     mset (concat (map (\<lambda>a. map cand_Hostname (Candidates a)) (List.map_filter (ambiguity_of candidates) parts))) = mset (concat (map fst parts))"
  using assms
proof (induction parts)
  case (Cons part parts)
  obtain hs "is" where part: "part = (hs, is)" by (cases part)
  have names: "map (\<lambda>h. cand_Hostname (candidate_for candidates h)) hs = hs"
    using Cons.prems part by (intro map_idI) auto
  show ?case
  proof (cases "\<exists>h i. part = ([h], [i])")
    case True
    then obtain h i where "part = ([h], [i])" by blast
    then show ?thesis using Cons names part by (simp add: map_filter_def suggestion_of_def ambiguity_of_def Let_def)
  next
    case False
    then have "suggestion_of candidates part = None" using suggestion_of_SomeD by (cases "suggestion_of candidates part") blast+
    moreover have "ambiguity_of candidates part = Some \<lparr>ProxyHostIDs = is, Candidates = map (candidate_for candidates) hs\<rparr>"
      using False unfolding ambiguity_of_def part by (auto split: list.split)
    ultimately show ?thesis using Cons names part by (simp add: map_filter_def comp_def)
  qed
qed (simp add: map_filter_def)

lemma mset_concat_sort_slice: "mset (concat (map f (sort_slice lt xs))) = mset (concat (map f xs))"
proof -
  have "mset (concat (map f xs)) = \<Sum>\<^sub># (image_mset (\<lambda>x. mset (f x)) (mset xs))" for xs
    by (induction xs) simp_all
  then show ?thesis by simp
qed


lemma suggested_pairs:
  assumes "\<And>name. name \<in> set (concat (map fst parts)) \<Longrightarrow> cand_Hostname (candidate_for candidates name) = name"
  shows "(\<lambda>s. (sug_Hostname s, sug_ProxyHostID s)) ` set (List.map_filter (suggestion_of candidates) parts) = {(h, i). ([h], [i]) \<in> set parts}"
proof (rule set_eqI)
  fix p :: "string \<times> int"
  obtain h i where p: "p = (h, i)" by (cases p)
  let ?s = "\<lambda>h i. \<lparr>sug_ProxyHostID = i, sug_Hostname = cand_Hostname (candidate_for candidates h), sug_Source = cand_Source (candidate_for candidates h)\<rparr>"
  have found: "s \<in> set (List.map_filter (suggestion_of candidates) parts) \<longleftrightarrow> (\<exists>h i. ([h], [i]) \<in> set parts \<and> s = ?s h i)" for s
  proof
    assume "s \<in> set (List.map_filter (suggestion_of candidates) parts)"
    then obtain part where "part \<in> set parts" "suggestion_of candidates part = Some s" by (auto simp: map_filter_def)
    with suggestion_of_SomeD show "\<exists>h i. ([h], [i]) \<in> set parts \<and> s = ?s h i" by blast
  next
    assume "\<exists>h i. ([h], [i]) \<in> set parts \<and> s = ?s h i"
    then show "s \<in> set (List.map_filter (suggestion_of candidates) parts)"
      by (force simp: map_filter_def suggestion_of_def Let_def image_iff)
  qed
  have name: "cand_Hostname (candidate_for candidates h') = h'" if "([h'], [i']) \<in> set parts" for h' i'
    using assms that by force
  show "p \<in> (\<lambda>s. (sug_Hostname s, sug_ProxyHostID s)) ` set (List.map_filter (suggestion_of candidates) parts) \<longleftrightarrow>
      p \<in> {(h, i). ([h], [i]) \<in> set parts}"
  proof
    assume "p \<in> (\<lambda>s. (sug_Hostname s, sug_ProxyHostID s)) ` set (List.map_filter (suggestion_of candidates) parts)"
    then show "p \<in> {(h, i). ([h], [i]) \<in> set parts}" unfolding image_iff Bex_def found using name by auto
  next
    assume "p \<in> {(h, i). ([h], [i]) \<in> set parts}"
    then have part: "([h], [i]) \<in> set parts" by (simp add: p)
    then have "?s h i \<in> set (List.map_filter (suggestion_of candidates) parts)" unfolding found by blast
    with name [OF part] show "p \<in> (\<lambda>s. (sug_Hostname s, sug_ProxyHostID s)) ` set (List.map_filter (suggestion_of candidates) parts)"
      by (force simp: p image_iff)
  qed
qed

text \<open>
  C19: A name is suggested for a host exactly when there is nothing to choose: it fits this host and no other, and
  no other name fits the host. Every name that fits some host appears exactly once, as that suggestion or among the
  ambiguous ones, and no other name appears.
\<close>
theorem suggestions_unambiguous:
  assumes "buildHostnameSuggestions candidates eligible = Inr (suggestions, ambiguities)"
  shows "(\<lambda>s. (sug_Hostname s, sug_ProxyHostID s)) ` set suggestions =
      {(name, i). name_fits candidates eligible name i \<and> (\<forall>j. name_fits candidates eligible name j \<longrightarrow> j = i) \<and>
         (\<forall>other. name_fits candidates eligible other i \<longrightarrow> other = name)} \<and>
    mset (map sug_Hostname suggestions) + mset (concat (map (\<lambda>a. map cand_Hostname (Candidates a)) ambiguities)) =
      mset_set {name. \<exists>i. name_fits candidates eligible name i}"
proof -
  let ?edges = "graph_edges candidates eligible"
  let ?parts = "graph_components ?edges"
  from assms have out: "suggestions = sort_slice suggestion_less (List.map_filter (suggestion_of candidates) ?parts)"
      "ambiguities = sort_slice ambiguity_less (List.map_filter (ambiguity_of candidates) ?parts)"
    by (simp_all add: buildHostnameSuggestions_def Let_def split: if_splits)
  note parts = graph_components_ok [where edges = ?edges]
  have fits: "fst ` set ?edges = {name. \<exists>i. name_fits candidates eligible name i}"
    using graph_edges_iff by force
  have name: "cand_Hostname (candidate_for candidates name) = name" if "name \<in> set (concat (map fst ?parts))" for name
    using that candidate_for_ok unfolding parts(2) fits by (auto simp: name_fits_def)
  have "(\<lambda>s. (sug_Hostname s, sug_ProxyHostID s)) ` set suggestions = {(h, i). isolated_edge ?edges h i}"
    using suggested_pairs [OF name] parts(3) by (simp add: out)
  moreover have "mset (map sug_Hostname suggestions) + mset (concat (map (\<lambda>a. map cand_Hostname (Candidates a)) ambiguities)) =
      mset (concat (map fst ?parts))"
    using component_names [OF name] unfolding out mset_concat_sort_slice by simp
  moreover have "mset (concat (map fst ?parts)) = mset_set {name. \<exists>i. name_fits candidates eligible name i}"
    using mset_set_set [OF parts(1)] unfolding parts(2) fits by simp
  ultimately show ?thesis by (simp add: isolated_edge_def graph_edges_iff)
qed

definition sample_candidates :: "hostnameSuggestionCandidate list" where
  "sample_candidates = map (\<lambda>h. \<lparr>cand_Hostname = h, cand_Source = SourceStdin\<rparr>) [''a.x.io'', ''b.y.io'', ''c.y.io'']"

definition sample_eligible :: "eligibleHostnameSuggestionHost list" where
  "sample_eligible = [\<lparr>eh_ProxyHostID = 1, WildcardSuffixes = [''x.io''], ExistingName = []\<rparr>,
     \<lparr>eh_ProxyHostID = 2, WildcardSuffixes = [''y.io''], ExistingName = []\<rparr>]"

lemma suggestions_unambiguous_witness:
  "{j. name_fits sample_candidates sample_eligible ''a.x.io'' j} = {1}"
proof -
  let ?s = "\<lparr>sug_ProxyHostID = 1, sug_Hostname = ''a.x.io'', sug_Source = SourceStdin\<rparr>"
  have "buildHostnameSuggestions sample_candidates sample_eligible =
      Inr ([?s], [\<lparr>ProxyHostIDs = [2], Candidates = tl sample_candidates\<rparr>])" by code_simp
  note only = conjunct1 [OF suggestions_unambiguous [OF this]]
  have "(''a.x.io'', 1) \<in> (\<lambda>s. (sug_Hostname s, sug_ProxyHostID s)) ` set [?s]" by simp
  then show ?thesis unfolding only by blast
qed

end
