(* ===== verification/Probe.thy ===== *)
theory Probe
  imports Go_Net Health_Config Npm
begin

text \<open>
  The backend probes (\<open>service_probe.go\<close>): which socket a probe may open. The resolver, the network and the
  clock are arguments: what the resolver answers to the target and to each protected host, what a dial gives,
  what the server replies, and the time before and after.
\<close>

datatype ServiceHealthState = HealthUnknown | HealthReachable | HealthAuthRequired | HealthResponseError | HealthUnreachable | HealthStale

record ServiceHealthResult =
  hr_ProxyHostID :: int
  hr_State :: ServiceHealthState
  hr_CheckedAt :: int
  hr_Duration :: int
  hr_StatusClass :: int

section \<open>The engine\<close>

record serviceProbeProtectedEndpoint =
  protected_host :: string
  protected_port :: "16 word"

record serviceProbeEngine =
  pe_timeout :: int
  pe_allowedCIDRs :: "prefix list"
  pe_allowedHosts :: "string list"
  pe_allowedDNSSuffixes :: "string list"
  pe_protected :: "serviceProbeProtectedEndpoint list"

definition canonicalServiceProbeHost :: "string \<Rightarrow> string option" where
  "canonicalServiceProbeHost raw =
     (if raw = [] \<or> trim_space raw \<noteq> raw then None
      else (case parse_addr raw of
        Some a \<Rightarrow> if addr_zone a \<noteq> [] then None else Some (addr_string (addr_unmap a))
      | None \<Rightarrow> if validateServiceHealthHost (to_lower raw) then Some (to_lower raw) else None))"

text \<open>\<open>strconv.ParseUint(s, 10, 16)\<close>.\<close>

definition parse_uint16 :: "string \<Rightarrow> nat option" where
  "parse_uint16 s = (case parse_digits s of None \<Rightarrow> None | Some n \<Rightarrow> if n \<le> 65535 then Some n else None)"

definition parseServiceProbeProtectedEndpoint :: "string \<Rightarrow> serviceProbeProtectedEndpoint option" where
  "parseServiceProbeProtectedEndpoint raw = (case url_parse raw of None \<Rightarrow> None | Some u \<Rightarrow>
     if (Scheme u \<noteq> ''http'' \<and> Scheme u \<noteq> ''https'') \<or> hostname u = [] \<or> HasUser u then None
     else (let port = (if url_port u = [] then (if Scheme u = ''https'' then ''443'' else ''80'') else url_port u) in
       case parse_uint16 port of None \<Rightarrow> None | Some n \<Rightarrow>
         if n = 0 then None
         else (case canonicalServiceProbeHost (hostname u) of None \<Rightarrow> None
           | Some host \<Rightarrow> Some \<lparr>protected_host = host, protected_port = of_nat n\<rparr>)))"

fun protected_endpoints :: "nat \<Rightarrow> string list \<Rightarrow> nat + serviceProbeProtectedEndpoint list" where
  "protected_endpoints i [] = Inr []"
| "protected_endpoints i (raw # raws) = (case parseServiceProbeProtectedEndpoint raw of None \<Rightarrow> Inl i
     | Some e \<Rightarrow> and_then (protected_endpoints (Suc i) raws) (\<lambda>es. Inr (e # es)))"

datatype probe_engine_error = EngineNoConfig | EngineBadURL nat

definition newServiceProbeEngine :: "ServiceHealthConfig option \<Rightarrow> string list \<Rightarrow> probe_engine_error + serviceProbeEngine" where
  "newServiceProbeEngine config urls = (case config of None \<Rightarrow> Inl EngineNoConfig | Some c \<Rightarrow>
     (case protected_endpoints 0 urls of Inl i \<Rightarrow> Inl (EngineBadURL i) | Inr protected \<Rightarrow>
       Inr \<lparr>pe_timeout = (if Timeout c \<le> 0 then default_timeout else Timeout c), pe_allowedCIDRs = AllowedCIDRs c,
            pe_allowedHosts = AllowedHosts c, pe_allowedDNSSuffixes = AllowedDNSSuffixes c, pe_protected = protected\<rparr>))"

section \<open>The target\<close>

record serviceProbeTarget =
  target_ID :: int
  target_Type :: ServiceHealthProbeType
  target_scheme :: string
  target_host :: string
  target_canonicalHost :: string
  target_port :: "16 word"
  target_authority :: string
  target_path :: string
  target_statuses :: "ServiceHealthStatusRange list"

definition status_range_valid :: "ServiceHealthStatusRange \<Rightarrow> bool" where
  "status_range_valid r \<longleftrightarrow> 100 \<le> status_Min r \<and> status_Max r \<le> 599 \<and> status_Min r \<le> status_Max r"

fun ranges_ascend :: "ServiceHealthStatusRange list \<Rightarrow> bool" where
  "ranges_ascend (r # s # rs) \<longleftrightarrow> status_Max r < status_Min s \<and> ranges_ascend (s # rs)"
| "ranges_ascend _ = True"

definition validServiceProbeStatusRanges :: "ServiceHealthStatusRange list \<Rightarrow> bool" where
  "validServiceProbeStatusRanges ranges \<longleftrightarrow>
     ranges \<noteq> [] \<and> length ranges \<le> 8 \<and> list_all status_range_valid ranges \<and> ranges_ascend ranges"

definition service_shape_ok :: "ServiceHealthService \<Rightarrow> bool" where
  "service_shape_ok s \<longleftrightarrow> (case hs_Type s of
     ProbeHTTP \<Rightarrow> validateServiceHealthPath (hs_Path s) \<and> validServiceProbeStatusRanges (AcceptedStatuses s)
   | ProbeTCP \<Rightarrow> hs_Path s = [] \<and> AcceptedStatuses s = [])"

definition deriveServiceProbeTarget :: "ProxyHost \<Rightarrow> ServiceHealthService \<Rightarrow> serviceProbeTarget option" where
  "deriveServiceProbeTarget ph s =
     (if \<not> Enabled ph \<or> ph_ID ph \<le> 0 \<or> ph_ID ph \<noteq> hs_ProxyHostID s \<or> ForwardPort ph \<le> 0 \<or> ForwardPort ph > 65535 then None
      else (let scheme = to_lower (ForwardScheme ph) in
        if scheme \<noteq> ''http'' \<and> scheme \<noteq> ''https'' then None
        else (case canonicalServiceProbeHost (ForwardHost ph) of None \<Rightarrow> None | Some canonical \<Rightarrow>
          if \<not> service_shape_ok s then None
          else Some \<lparr>target_ID = ph_ID ph, target_Type = hs_Type s, target_scheme = scheme, target_host = ForwardHost ph,
            target_canonicalHost = canonical, target_port = of_int (ForwardPort ph),
            target_authority = JoinHostPort (ForwardHost ph) (show_int (ForwardPort ph)),
            target_path = (if hs_Type s = ProbeHTTP then hs_Path s else []), target_statuses = AcceptedStatuses s\<rparr>)))"

section \<open>Addresses\<close>

definition serviceProbeDangerousAddress :: "addr \<Rightarrow> bool" where
  "serviceProbeDangerousAddress a \<longleftrightarrow> addr_zone a \<noteq> [] \<or> serviceHealthDangerousAddress a \<or> a = V4 (- 1)"

definition addressAllowed :: "serviceProbeEngine \<Rightarrow> addr \<Rightarrow> bool" where
  "addressAllowed engine address = (let a = addr_unmap address in
     \<not> serviceProbeDangerousAddress a \<and> list_ex (\<lambda>p. prefix_contains p a) (pe_allowedCIDRs engine))"

definition dnsNameAllowed :: "serviceProbeEngine \<Rightarrow> string \<Rightarrow> bool" where
  "dnsNameAllowed engine host \<longleftrightarrow>
     host \<in> set (pe_allowedHosts engine) \<or> list_ex (has_suffix host) (pe_allowedDNSSuffixes engine)"

text \<open>An answer of the resolver: an error, or addresses, where \<open>None\<close> is the invalid address.\<close>

type_synonym dns_answer = "addr option list option"

fun resolved_addresses :: "addr list \<Rightarrow> addr option list \<Rightarrow> addr list option" where
  "resolved_addresses unique [] = Some unique"
| "resolved_addresses unique (None # answers) = None"
| "resolved_addresses unique (Some a # answers) =
     (if addr_zone a \<noteq> [] then None
      else if serviceProbeDangerousAddress (addr_unmap a) then None
      else if addr_unmap a \<in> set unique then resolved_addresses unique answers
      else resolved_addresses (unique @ [addr_unmap a]) answers)"

definition resolveHost :: "dns_answer \<Rightarrow> string \<Rightarrow> addr list option" where
  "resolveHost answer host = (case parse_addr host of
     Some a \<Rightarrow> if serviceProbeDangerousAddress (addr_unmap a) then None else Some [addr_unmap a]
   | None \<Rightarrow> (case answer of None \<Rightarrow> None | Some [] \<Rightarrow> None | Some answers \<Rightarrow> resolved_addresses [] answers))"

definition resolveAllowedTarget :: "serviceProbeEngine \<Rightarrow> dns_answer \<Rightarrow> string \<Rightarrow> addr list option" where
  "resolveAllowedTarget engine answer host = (case parse_addr host of
     Some a \<Rightarrow> if addressAllowed engine (addr_unmap a) then Some [addr_unmap a] else None
   | None \<Rightarrow>
       if \<not> dnsNameAllowed engine host then None
       else (case resolveHost answer host of None \<Rightarrow> None | Some addresses \<Rightarrow>
         if list_all (addressAllowed engine) addresses then Some addresses else None))"

definition serviceProbeAddressSetsIntersect :: "addr list \<Rightarrow> addr list \<Rightarrow> bool" where
  "serviceProbeAddressSetsIntersect left right \<longleftrightarrow> list_ex (\<lambda>a. addr_unmap a \<in> addr_unmap ` set left) right"

definition isProtectedExact :: "serviceProbeEngine \<Rightarrow> string \<Rightarrow> 16 word \<Rightarrow> bool" where
  "isProtectedExact engine host port \<longleftrightarrow> list_ex (\<lambda>e. protected_host e = host \<and> protected_port e = port) (pe_protected engine)"

text \<open>The protected endpoints from number \<open>i\<close> on, each resolved on its own.\<close>

fun away_from_protected :: "(nat \<Rightarrow> dns_answer) \<Rightarrow> 16 word \<Rightarrow> addr list \<Rightarrow> nat \<Rightarrow> serviceProbeProtectedEndpoint list \<Rightarrow> bool" where
  "away_from_protected answers port addresses i [] = True"
| "away_from_protected answers port addresses i (e # es) =
     (if protected_port e \<noteq> port then away_from_protected answers port addresses (Suc i) es
      else (case resolveHost (answers i) (protected_host e) of None \<Rightarrow> False | Some ps \<Rightarrow>
        \<not> serviceProbeAddressSetsIntersect addresses ps \<and> away_from_protected answers port addresses (Suc i) es))"

definition validateTarget :: "serviceProbeEngine \<Rightarrow> dns_answer \<Rightarrow> (nat \<Rightarrow> dns_answer) \<Rightarrow> serviceProbeTarget \<Rightarrow> addr list option" where
  "validateTarget engine answer protected_answers target =
     (if isProtectedExact engine (target_canonicalHost target) (target_port target) then None
      else (case resolveAllowedTarget engine answer (target_canonicalHost target) of None \<Rightarrow> None | Some addresses \<Rightarrow>
        if away_from_protected protected_answers (target_port target) addresses 0 (pe_protected engine) then Some addresses else None))"

section \<open>Probing\<close>

datatype dial_result = DialConnected | DialFailed | DialExpired

text \<open>The connection made, if any, and the sockets dialed.\<close>

fun dialValidated :: "(string \<Rightarrow> dial_result) \<Rightarrow> 16 word \<Rightarrow> addr list \<Rightarrow> addr option \<times> addr list" where
  "dialValidated dial port [] = (None, [])"
| "dialValidated dial port (a # addresses) = (case dial (JoinHostPort (addr_string a) (show_nat (unat port))) of
     DialConnected \<Rightarrow> (Some a, [a])
   | DialExpired \<Rightarrow> (None, [a])
   | DialFailed \<Rightarrow> (case dialValidated dial port addresses of (c, tried) \<Rightarrow> (c, a # tried)))"

record http_probe =
  hp_URL :: string
  hp_Host :: string
  hp_ServerName :: "string option"

record probe_net =
  net_answer :: dns_answer
  net_protected :: "nat \<Rightarrow> dns_answer"
  net_dial :: "string \<Rightarrow> dial_result"
  net_reply :: "http_probe \<Rightarrow> int option"
  net_start :: int
  net_end :: int

definition probeTCP :: "probe_net \<Rightarrow> serviceProbeTarget \<Rightarrow> addr list \<Rightarrow> ServiceHealthState \<times> addr list" where
  "probeTCP net target addresses = (case dialValidated (net_dial net) (target_port target) addresses of
     (None, tried) \<Rightarrow> (HealthUnreachable, tried) | (Some _, tried) \<Rightarrow> (HealthReachable, tried))"

definition http_probe_for :: "serviceProbeTarget \<Rightarrow> url \<Rightarrow> http_probe" where
  "http_probe_for target u = \<lparr>hp_URL = url_string u, hp_Host = target_authority target,
     hp_ServerName = (if parse_addr (target_canonicalHost target) = None then Some (target_host target) else None)\<rparr>"

definition classify_status :: "ServiceHealthStatusRange list \<Rightarrow> int \<Rightarrow> ServiceHealthState" where
  "classify_status accepted status =
     (if status = 401 \<or> status = 403 then HealthAuthRequired
      else if list_ex (\<lambda>r. status_Min r \<le> status \<and> status \<le> status_Max r) accepted then HealthReachable
      else HealthResponseError)"

definition probeHTTP :: "probe_net \<Rightarrow> serviceProbeTarget \<Rightarrow> addr list \<Rightarrow> (ServiceHealthState \<times> int) \<times> addr list" where
  "probeHTTP net target addresses =
     (case url_parse (target_scheme target @ ''://'' @ target_authority target @ target_path target) of
        None \<Rightarrow> ((HealthUnknown, 0), [])
      | Some u \<Rightarrow>
        if url_parse (url_string u) = None then ((HealthUnknown, 0), [])
        else (case dialValidated (net_dial net) (target_port target) addresses of
          (None, tried) \<Rightarrow> ((HealthUnreachable, 0), tried)
        | (Some _, tried) \<Rightarrow> (case net_reply net (http_probe_for target u) of
            None \<Rightarrow> ((HealthUnreachable, 0), tried)
          | Some status \<Rightarrow> ((classify_status (target_statuses target) status, status div 100), tried))))"

definition finishResult :: "probe_net \<Rightarrow> ServiceHealthResult \<Rightarrow> ServiceHealthResult" where
  "finishResult net result = result\<lparr>hr_CheckedAt := net_end net, hr_Duration := max 0 (net_end net - net_start net)\<rparr>"

definition unknown_result :: "int \<Rightarrow> ServiceHealthResult" where
  "unknown_result host_id = \<lparr>hr_ProxyHostID = host_id, hr_State = HealthUnknown, hr_CheckedAt = zero_time, hr_Duration = 0, hr_StatusClass = 0\<rparr>"

text \<open>The result, and the sockets the probe dialed.\<close>

definition run_probe :: "probe_net \<Rightarrow> serviceProbeTarget \<Rightarrow> addr list \<Rightarrow> (ServiceHealthState \<times> int) \<times> addr list" where
  "run_probe net target addresses = (case target_Type target of
     ProbeHTTP \<Rightarrow> probeHTTP net target addresses
   | ProbeTCP \<Rightarrow> (case probeTCP net target addresses of (state, tried) \<Rightarrow> ((state, 0), tried)))"

definition Probe :: "serviceProbeEngine \<Rightarrow> probe_net \<Rightarrow> ProxyHost \<Rightarrow> ServiceHealthService \<Rightarrow> ServiceHealthResult \<times> (addr \<times> 16 word) list" where
  "Probe engine net ph s =
     (let result = unknown_result (hs_ProxyHostID s) in
      case deriveServiceProbeTarget ph s of None \<Rightarrow> (finishResult net result, [])
      | Some target \<Rightarrow>
          let result1 = result\<lparr>hr_ProxyHostID := target_ID target\<rparr> in
          (case validateTarget engine (net_answer net) (net_protected net) target of
             None \<Rightarrow> (finishResult net (result1\<lparr>hr_State := HealthUnreachable\<rparr>), [])
           | Some addresses \<Rightarrow> (case run_probe net target addresses of ((state, status_class), tried) \<Rightarrow>
               (finishResult net (result1\<lparr>hr_State := state, hr_StatusClass := status_class\<rparr>),
                map (\<lambda>a. (a, target_port target)) tried))))"


section \<open>Facts\<close>

lemma addr_unmap_idem [simp]: "addr_unmap (addr_unmap a) = addr_unmap a"
  by (cases a) simp_all

lemma addr_unmap_zone [simp]: "addr_zone a = [] \<Longrightarrow> addr_zone (addr_unmap a) = []"
  by (cases a) simp_all

lemma dialed_among: "set (snd (dialValidated dial port addresses)) \<subseteq> set addresses"
  by (induction addresses) (auto split: dial_result.splits prod.splits)

lemma run_probe_dialed: "set (snd (run_probe net target addresses)) \<subseteq> set addresses"
  using dialed_among [of "net_dial net" "target_port target" addresses]
  by (auto simp: run_probe_def probeHTTP_def probeTCP_def split: ServiceHealthProbeType.splits option.splits prod.splits)

definition unmapped :: "addr \<Rightarrow> bool" where
  "unmapped a \<longleftrightarrow> addr_unmap a = a"

lemma unmapped_unmap [simp]: "unmapped (addr_unmap a)"
  by (simp add: unmapped_def)

lemma resolved_addresses_unmapped:
  "resolved_addresses unique answers = Some addresses \<Longrightarrow> list_all unmapped unique \<Longrightarrow> list_all unmapped addresses"
  by (induction unique answers rule: resolved_addresses.induct) (auto split: if_splits)

lemma resolveHost_unmapped:
  assumes "resolveHost answer host = Some addresses" and "a \<in> set addresses"
  shows "addr_unmap a = a"
proof -
  have "list_all unmapped addresses"
  proof (cases "parse_addr host")
    case None
    with assms(1) obtain answers where "resolved_addresses [] answers = Some addresses"
      by (auto simp: resolveHost_def split: option.split_asm list.split_asm)
    from resolved_addresses_unmapped [OF this] show ?thesis by simp
  next
    case (Some b)
    with assms(1) have "addresses = [addr_unmap b]" by (simp add: resolveHost_def split: if_split_asm)
    then show ?thesis by simp
  qed
  with assms(2) show ?thesis by (simp add: list_all_iff unmapped_def)
qed

lemma resolveAllowedTarget_ok:
  assumes "resolveAllowedTarget engine answer host = Some addresses" and "a \<in> set addresses"
  shows "addr_unmap a = a" "addressAllowed engine a" "parse_addr host \<noteq> None \<or> dnsNameAllowed engine host"
  using assms resolveHost_unmapped
  by (auto simp: resolveAllowedTarget_def list_all_iff split: option.split_asm if_split_asm)

lemma away_from_protected_ok:
  assumes "away_from_protected answers port addresses k es" and "i < length es" and "protected_port (es ! i) = port" and "a \<in> set addresses"
  shows "\<exists>ps. resolveHost (answers (k + i)) (protected_host (es ! i)) = Some ps \<and> addr_unmap a \<notin> set ps"
  using assms
proof (induction answers port addresses k es arbitrary: i rule: away_from_protected.induct)
  case (2 answers port addresses k e es)
  show ?case
  proof (cases i)
    case 0
    with "2.prems" obtain ps where ps: "resolveHost (answers k) (protected_host e) = Some ps" "\<not> serviceProbeAddressSetsIntersect addresses ps"
      by (auto split: option.split_asm)
    have "addr_unmap a \<notin> set ps"
    proof
      assume "addr_unmap a \<in> set ps"
      with ps(2) "2.prems"(4) show False by (auto simp: serviceProbeAddressSetsIntersect_def list_ex_iff)
    qed
    with 0 ps(1) show ?thesis by simp
  next
    case (Suc j)
    with "2.prems" have "away_from_protected answers port addresses (Suc k) es" by (auto split: if_split_asm option.split_asm)
    with "2.IH" Suc "2.prems" show ?thesis by (auto split: if_split_asm option.split_asm)
  qed
qed simp

definition safe_socket :: "serviceProbeEngine \<Rightarrow> probe_net \<Rightarrow> addr \<Rightarrow> 16 word \<Rightarrow> bool" where
  "safe_socket engine net a port \<longleftrightarrow>
     \<not> serviceProbeDangerousAddress a \<and> (\<exists>p \<in> set (pe_allowedCIDRs engine). prefix_contains p a) \<and>
     (\<forall>i < length (pe_protected engine). protected_port (pe_protected engine ! i) = port \<longrightarrow>
        (\<exists>ps. resolveHost (net_protected net i) (protected_host (pe_protected engine ! i)) = Some ps \<and> a \<notin> set ps))"

lemma validateTarget_ok:
  assumes "validateTarget engine (net_answer net) (net_protected net) target = Some addresses" and "a \<in> set addresses"
  shows "safe_socket engine net a (target_port target)" "\<not> isProtectedExact engine (target_canonicalHost target) (target_port target)"
    "parse_addr (target_canonicalHost target) \<noteq> None \<or> dnsNameAllowed engine (target_canonicalHost target)"
proof -
  from assms(1) have r: "resolveAllowedTarget engine (net_answer net) (target_canonicalHost target) = Some addresses"
      and away: "away_from_protected (net_protected net) (target_port target) addresses 0 (pe_protected engine)"
      and exact: "\<not> isProtectedExact engine (target_canonicalHost target) (target_port target)"
    by (auto simp: validateTarget_def split: if_split_asm option.split_asm)
  note ok = resolveAllowedTarget_ok [OF r assms(2)]
  have "\<exists>ps. resolveHost (net_protected net i) (protected_host (pe_protected engine ! i)) = Some ps \<and> a \<notin> set ps"
    if "i < length (pe_protected engine)" "protected_port (pe_protected engine ! i) = target_port target" for i
    using away_from_protected_ok [OF away that assms(2)] ok(1) by simp
  with ok(1, 2) show "safe_socket engine net a (target_port target)"
    by (auto simp: safe_socket_def addressAllowed_def Let_def list_ex_iff)
  show "\<not> isProtectedExact engine (target_canonicalHost target) (target_port target)"
    "parse_addr (target_canonicalHost target) \<noteq> None \<or> dnsNameAllowed engine (target_canonicalHost target)"
    using exact ok(3) by simp_all
qed

lemma deriveServiceProbeTarget_ok:
  assumes "deriveServiceProbeTarget ph s = Some target"
  shows "Enabled ph" "ph_ID ph = hs_ProxyHostID s" "0 < ForwardPort ph" "ForwardPort ph \<le> 65535" "target_port target = of_int (ForwardPort ph)"
    "canonicalServiceProbeHost (ForwardHost ph) = Some (target_canonicalHost target)" "target_ID target = hs_ProxyHostID s"
  using assms by (auto simp: deriveServiceProbeTarget_def Let_def split: if_split_asm option.split_asm)

lemma Probe_dialed:
  assumes "(a, port) \<in> set (snd (Probe engine net ph s))"
  obtains target addresses where "deriveServiceProbeTarget ph s = Some target" "port = target_port target"
    "validateTarget engine (net_answer net) (net_protected net) target = Some addresses" "a \<in> set addresses"
proof -
  from assms obtain target addresses where t: "deriveServiceProbeTarget ph s = Some target" "port = target_port target"
      "validateTarget engine (net_answer net) (net_protected net) target = Some addresses"
      and "a \<in> set (snd (run_probe net target addresses))"
    by (auto simp: Probe_def Let_def split: option.split_asm prod.split_asm)
  with run_probe_dialed that show ?thesis by blast
qed

lemma Probe_ID [simp]: "hr_ProxyHostID (fst (Probe engine net ph s)) = hs_ProxyHostID s"
  by (auto simp: Probe_def Let_def finishResult_def unknown_result_def deriveServiceProbeTarget_ok split: option.splits prod.splits)

end
