(* ===== verification/Service_Cards.thy ===== *)
theory Service_Cards
  imports Matcher
begin

text \<open>
  What the matcher's cards guarantee: the link state tells whether there is a link, and a
  generated link points at exactly the proxy host's concrete domain.
\<close>

section \<open>Domains a link may be built from\<close>

lemma validConcreteCardDomain_D:
  assumes "validConcreteCardDomain d"
  shows "d \<noteq> []" and "origin_bytes d" and "parse_host d = Some d" and "CHR ''*'' \<notin> set d"
proof -
  have checks: "d \<noteq> []" "\<not> contains_control d" "\<not> contains_any d ([CHR ''*'', char_of (92::nat)] @ ''/?#@'')"
    and parsed: "\<exists>u. url_parse (''https'' @ ''://'' @ d) = Some u \<and> Host u = d"
    using assms by (auto simp: validConcreteCardDomain_def split: if_splits option.splits)
  show "d \<noteq> []" by (rule checks(1))
  show origin: "origin_bytes d"
    using checks(2,3) contains_control_ctl by (auto simp: origin_bytes_def contains_any_def)
  show "CHR ''*'' \<notin> set d" using checks(3) by (auto simp: contains_any_def)
  show "parse_host d = Some d"
    using parsed url_parse_origin [of "''https''" d] origin by (auto split: option.splits)
qed

text \<open>
  A link generated for an ASCII domain is the scheme, two slashes and the domain, and parses
  back to a URL with that very host and scheme and nothing else: no user information, path,
  query or fragment can be smuggled in through a domain name of the proxy manager.
\<close>
theorem generated_link_points_at_domain:
  assumes "validConcreteCardDomain d" and "\<forall>c \<in> set d. is_ascii c" and "scheme = ''http'' \<or> scheme = ''https''"
  shows "origin_url scheme d = scheme @ ''://'' @ d \<and>
    url_parse (origin_url scheme d) = Some (no_url\<lparr>Scheme := scheme, Host := d\<rparr>)"
proof -
  note d = validConcreteCardDomain_D [OF assms(1)]
  have "list_all (\<lambda>c. \<not> should_escape EncodeHost c) d"
    unfolding list_all_iff
  proof
    fix c
    assume "c \<in> set d"
    with parse_host_self [OF d(3)] assms(2) have "host_plain c" "is_ascii c" by (simp_all add: list_all_iff)
    then show "\<not> should_escape EncodeHost c" unfolding host_plain_def is_ascii_def by linarith
  qed
  moreover have "scheme \<noteq> []" using assms(3) by auto
  ultimately have "origin_url scheme d = scheme @ ''://'' @ d" using d(1) by (intro origin_url_plain)
  with url_parse_origin [OF assms(3) d(2)] d(3) show ?thesis by simp
qed

lemma generated_link_points_at_domain_witness:
  "origin_url ''https'' ''app.example.com:8443'' = ''https://app.example.com:8443''"
proof -
  have "validConcreteCardDomain ''app.example.com:8443''" by code_simp
  moreover have "\<forall>c \<in> set ''app.example.com:8443''. is_ascii c" by (simp add: is_ascii_def)
  ultimately show ?thesis using generated_link_points_at_domain [of "''app.example.com:8443''" "''https''"] by simp
qed

section \<open>Link states\<close>

definition link_ok :: "ServiceCard \<Rightarrow> bool" where
  "link_ok c \<longleftrightarrow> card_Domain c \<noteq> [] \<and> card_Name c \<noteq> [] \<and> (LinkState c = LinkReady \<longleftrightarrow> card_URL c \<noteq> [])"

lemma base_card_ok: "card_domains ph \<noteq> [] \<Longrightarrow> link_ok (base_card ph)"
  by (cases "card_domains ph") (auto simp: link_ok_def base_card_def Let_def card_domains_def dest: filter_eq_ConsD)

lemma base_card_no_url: "card_URL (base_card ph) = []" "LinkState (base_card ph) = LinkNeedsMetadata"
  by (simp_all add: base_card_def Let_def)

lemma apply_override_ok: "link_ok c \<Longrightarrow> link_ok (apply_override ov c)"
  by (auto simp: link_ok_def apply_override_def Let_def)

lemma apply_override_no_url:
  "override_URL ov = [] \<Longrightarrow> card_URL (apply_override ov c) = card_URL c \<and> LinkState (apply_override ov c) = LinkState c"
  by (auto simp: apply_override_def Let_def)

lemma default_link_ok:
  assumes "link_ok c" and "card_URL c = []"
  shows "link_ok (default_link ph c)"
  using assms by (auto simp: link_ok_def default_link_def Let_def origin_url_nonempty)

text \<open>
  Every card has a name and a domain, and the state of its link is honest: it is ready exactly
  when the card has a URL. The URL is the operator's override where there is one, and otherwise
  the generated link; a scheme other than http and https makes the link invalid instead.
\<close>
theorem resolveServiceCard_link:
  assumes "resolveServiceCard ph metadata = Some c"
  shows "link_ok c \<and> card_ID c = ph_ID ph \<and>
    card_URL c = (case override_for metadata (ph_ID ph) of
        Some ov \<Rightarrow> if override_URL ov \<noteq> [] then override_URL ov else card_URL (default_link ph (base_card ph))
      | None \<Rightarrow> card_URL (default_link ph (base_card ph)))"
proof -
  have url: "card_URL (default_link ph x) = card_URL (default_link ph y)" if "card_URL x = card_URL y" for x y
    using that by (simp add: default_link_def Let_def)
  have domains: "card_domains ph \<noteq> []" using assms by (simp add: resolveServiceCard_def split: if_splits)
  have id: "card_ID c = ph_ID ph" using assms by (rule resolveServiceCard_ID)
  show ?thesis
  proof (cases "override_for metadata (ph_ID ph)")
    case None
    with assms domains have "c = default_link ph (base_card ph)" by (simp add: resolveServiceCard_def)
    with None id base_card_ok [OF domains] show ?thesis by (simp add: default_link_ok base_card_no_url)
  next
    case (Some ov)
    let ?c = "apply_override ov (base_card ph)"
    have c: "c = (if override_URL ov \<noteq> [] then ?c else default_link ph ?c)"
      using assms domains Some by (simp add: resolveServiceCard_def Let_def split: if_splits)
    have ok: "link_ok ?c" using base_card_ok [OF domains] by (rule apply_override_ok)
    show ?thesis
    proof (cases "override_URL ov = []")
      case True
      have "card_URL ?c = card_URL (base_card ph)" using apply_override_no_url [OF True] by simp
      with True Some id c default_link_ok [OF ok] url [of ?c "base_card ph"] show ?thesis
        by (simp add: base_card_no_url)
    next
      case False
      then have "card_URL ?c = override_URL ov" by (simp add: apply_override_def Let_def)
      with False Some id c ok show ?thesis by simp
    qed
  qed
qed

definition sample_host :: ProxyHost where
  "sample_host = \<lparr>ph_ID = 7, DomainNames = [''*.example.com'', ''app.example.com''], ForwardScheme = ''http'',
     ForwardHost = ''web'', ForwardPort = 80, AccessListID = 0, Enabled = True, NginxOnline = True\<rparr>"

lemma sample_host_domain: "concrete_domain sample_host = ''app.example.com''"
  by code_simp

lemma sample_card: "resolveServiceCard sample_host None = Some (default_link sample_host (base_card sample_host))"
proof -
  have "card_domains sample_host \<noteq> []" by code_simp
  then show ?thesis by (simp add: resolveServiceCard_def override_for_def)
qed

lemma resolveServiceCard_link_witness:
  "card_URL (default_link sample_host (base_card sample_host)) = ''http://app.example.com'' \<and>
   link_ok (default_link sample_host (base_card sample_host))"
proof -
  have "card_URL (default_link sample_host (base_card sample_host)) = ''http://app.example.com''" by code_simp
  with resolveServiceCard_link [OF sample_card] show ?thesis by simp
qed

end
