(* ===== verification/Service_Health.thy ===== *)
theory Service_Health
  imports Probe Service_Cards Config
begin

text \<open>
  The health poller and its store (\<open>service_health.go\<close>). The workers of a cycle are a schedule: which jobs were
  probed before the cycle ended and which results arrived, in their order of arrival.
\<close>

section \<open>The store\<close>

record serviceHealthSnapshot =
  snap_Results :: "(int, ServiceHealthResult) gomap"
  snap_StaleAfter :: int

type_synonym ServiceHealthStore = "serviceHealthSnapshot option"

definition store_get :: "ServiceHealthStore \<Rightarrow> int \<Rightarrow> int \<Rightarrow> ServiceHealthResult option" where
  "store_get store now host_id = (case store of None \<Rightarrow> None | Some snapshot \<Rightarrow>
     (case map_of (snap_Results snapshot) host_id of None \<Rightarrow> None | Some r \<Rightarrow>
        if hr_State r \<noteq> HealthUnknown \<and> hr_State r \<noteq> HealthStale \<and> hr_CheckedAt r \<noteq> zero_time \<and> snap_StaleAfter snapshot > 0 \<and>
           now - hr_CheckedAt r > snap_StaleAfter snapshot
        then Some (r\<lparr>hr_State := HealthStale\<rparr>) else Some r))"

definition publish :: "(int, ServiceHealthResult) gomap \<Rightarrow> int \<Rightarrow> ServiceHealthStore" where
  "publish results stale_after = Some \<lparr>snap_Results = results, snap_StaleAfter = stale_after\<rparr>"

definition serviceHealthProtectedURLs :: "Config option \<Rightarrow> string list" where
  "serviceHealthProtectedURLs config = (case config of None \<Rightarrow> [] | Some c \<Rightarrow>
     [NPMURL c] @ (if ControlPlane c = Tailscale then [tailscaleAPIOrigin] else [HeadscaleURL c]))"

section \<open>A cycle\<close>

record probeJob =
  job_Host :: ProxyHost
  job_Service :: ServiceHealthService

record cycle_env =
  ce_net :: "probeJob \<Rightarrow> probe_net"
  ce_probed :: "probeJob list \<Rightarrow> probeJob list"
  ce_delivered :: "probeJob list \<Rightarrow> probeJob list"

definition unknown_results :: "ServiceHealthService list \<Rightarrow> (int, ServiceHealthResult) gomap" where
  "unknown_results services = foldl (\<lambda>m s. gomap_put m (hs_ProxyHostID s) (unknown_result (hs_ProxyHostID s))) [] services"

text \<open>Of hosts with the same ID the last one counts.\<close>

definition host_with_ID :: "ProxyHost list \<Rightarrow> int \<Rightarrow> ProxyHost option" where
  "host_with_ID hosts i = find (\<lambda>h. ph_ID h = i) (rev hosts)"

definition probe_jobs :: "ServiceHealthService list \<Rightarrow> CacheData \<Rightarrow> probeJob list" where
  "probe_jobs services d = List.map_filter (\<lambda>s. case host_with_ID (cd_ProxyHosts d) (hs_ProxyHostID s) of None \<Rightarrow> None
     | Some h \<Rightarrow> if \<not> enabledProxyHostHasSupportedDestinationMatch h (Some d) then None else Some \<lparr>job_Host = h, job_Service = s\<rparr>) services"

definition put_result :: "(int, ServiceHealthResult) gomap \<Rightarrow> ServiceHealthResult \<Rightarrow> (int, ServiceHealthResult) gomap" where
  "put_result results r = (if gomap_has results (hr_ProxyHostID r) then gomap_put results (hr_ProxyHostID r) r else results)"

definition job_probe :: "cycle_env \<Rightarrow> serviceProbeEngine \<Rightarrow> probeJob \<Rightarrow> ServiceHealthResult \<times> (addr \<times> 16 word) list" where
  "job_probe env engine j = Probe engine (ce_net env j) (job_Host j) (job_Service j)"

text \<open>The delay until the next cycle, the store, and the sockets dialed.\<close>

definition enabled_cycle ::
    "cycle_env \<Rightarrow> string list \<Rightarrow> CacheData option \<Rightarrow> ServiceHealthConfig \<Rightarrow> int \<times> ServiceHealthStore \<times> (addr \<times> 16 word) list" where
  "enabled_cycle env urls snapshot c =
     (let results = unknown_results (hc_Services c);
          idle = (Interval c, publish results (Interval c * 3), []) in
      case snapshot of None \<Rightarrow> idle | Some d \<Rightarrow>
        if cd_Policy d = None then idle
        else (let jobs = probe_jobs (hc_Services c) d in
          if jobs = [] then idle
          else (case newServiceProbeEngine (Some c) urls of Inl _ \<Rightarrow> idle
            | Inr engine \<Rightarrow>
                (Interval c,
                 publish (foldl put_result results (map (\<lambda>j. fst (job_probe env engine j)) (ce_delivered env jobs))) (Interval c * 3),
                 concat (map (\<lambda>j. snd (job_probe env engine j)) (ce_probed env jobs))))))"

definition runCycle ::
    "cycle_env \<Rightarrow> string list \<Rightarrow> CacheData option \<Rightarrow> 'e + ServiceHealthConfig option \<Rightarrow> ServiceHealthStore \<Rightarrow>
     int \<times> ServiceHealthStore \<times> (addr \<times> 16 word) list" where
  "runCycle env urls snapshot loaded store = (case loaded of
     Inl _ \<Rightarrow> (default_interval, store, [])
   | Inr None \<Rightarrow> (default_interval, store, [])
   | Inr (Some c) \<Rightarrow>
       if \<not> hc_Enabled c then (default_interval, publish [] 0, [])
       else enabled_cycle env urls snapshot c)"

section \<open>What a cycle opens\<close>

lemma protected_endpoints_ok:
  "protected_endpoints k urls = Inr es \<Longrightarrow> map Some es = map parseServiceProbeProtectedEndpoint urls"
  by (induction k urls arbitrary: es rule: protected_endpoints.induct) (auto split: option.split_asm)

lemma newServiceProbeEngine_ok:
  assumes "newServiceProbeEngine (Some c) urls = Inr engine"
  shows "pe_allowedCIDRs engine = AllowedCIDRs c" "pe_allowedHosts engine = AllowedHosts c" "pe_allowedDNSSuffixes engine = AllowedDNSSuffixes c"
    "map Some (pe_protected engine) = map parseServiceProbeProtectedEndpoint urls"
proof -
  from assms obtain es where es: "protected_endpoints 0 urls = Inr es" and e: "engine = \<lparr>pe_timeout = (if Timeout c \<le> 0 then default_timeout else Timeout c),
      pe_allowedCIDRs = AllowedCIDRs c, pe_allowedHosts = AllowedHosts c, pe_allowedDNSSuffixes = AllowedDNSSuffixes c, pe_protected = es\<rparr>"
    by (auto simp: newServiceProbeEngine_def split: sum.split_asm)
  show "pe_allowedCIDRs engine = AllowedCIDRs c" "pe_allowedHosts engine = AllowedHosts c" "pe_allowedDNSSuffixes engine = AllowedDNSSuffixes c"
    "map Some (pe_protected engine) = map parseServiceProbeProtectedEndpoint urls"
    using protected_endpoints_ok [OF es] by (simp_all add: e)
qed

lemma host_with_ID_ok: "host_with_ID hosts i = Some h \<Longrightarrow> h \<in> set hosts \<and> ph_ID h = i"
  unfolding host_with_ID_def find_Some_iff by (metis length_rev nth_mem set_rev)

lemma probe_jobs_ok:
  assumes "j \<in> set (probe_jobs services d)"
  shows "job_Service j \<in> set services" "job_Host j \<in> set (cd_ProxyHosts d)" "ph_ID (job_Host j) = hs_ProxyHostID (job_Service j)"
    "enabledProxyHostHasSupportedDestinationMatch (job_Host j) (Some d)"
  using assms by (auto simp: probe_jobs_def map_filter_def dest: host_with_ID_ok split: option.split_asm if_split_asm)

lemma runCycle_dialed:
  assumes "(a, port) \<in> set (snd (snd (runCycle env urls snapshot (Inr (Some c)) store)))"
  obtains d engine j where "snapshot = Some d" "cd_Policy d \<noteq> None" "newServiceProbeEngine (Some c) urls = Inr engine" "hc_Enabled c"
    "j \<in> set (ce_probed env (probe_jobs (hc_Services c) d))" "(a, port) \<in> set (snd (job_probe env engine j))"
  using assms
  by (auto simp: runCycle_def enabled_cycle_def Let_def split: if_split_asm option.split_asm sum.split_asm)


text \<open>
  C4: What the portal probes stays inside the operator's limits, whatever the resolver answers and however the workers
  run. A socket a cycle dials belongs to an enabled proxy host that is configured for a check and that the policy
  opens to somebody, on the port it forwards to; its address is not dangerous and lies in a configured
  network, the forwarded host being that address or an allowed name; and it is no address at which the
  proxy manager or the control plane listens on that port, as they resolved during the probe.
\<close>
theorem cycle_dials_allowed:
  assumes "(a, port) \<in> set (snd (snd (runCycle env (serviceHealthProtectedURLs cfg) snapshot (Inr (Some c)) store)))"
    and schedule: "\<And>jobs. set (ce_probed env jobs) \<subseteq> set jobs"
  shows "\<exists>d ph s. snapshot = Some d \<and> ph \<in> set (cd_ProxyHosts d) \<and> s \<in> set (hc_Services c) \<and> ph_ID ph = hs_ProxyHostID s \<and>
     enabledProxyHostHasSupportedDestinationMatch ph snapshot \<and>
     0 < ForwardPort ph \<and> ForwardPort ph \<le> 65535 \<and> port = of_int (ForwardPort ph) \<and>
     \<not> serviceProbeDangerousAddress a \<and> (\<exists>p \<in> set (AllowedCIDRs c). prefix_contains p a) \<and>
     (\<exists>host. canonicalServiceProbeHost (ForwardHost ph) = Some host \<and>
        (parse_addr host \<noteq> None \<or> host \<in> set (AllowedHosts c) \<or> list_ex (has_suffix host) (AllowedDNSSuffixes c))) \<and>
     (\<forall>i < length (serviceHealthProtectedURLs cfg). \<exists>e.
        parseServiceProbeProtectedEndpoint (serviceHealthProtectedURLs cfg ! i) = Some e \<and>
        (protected_port e = port \<longrightarrow> (\<exists>ps. resolveHost (net_protected (ce_net env \<lparr>job_Host = ph, job_Service = s\<rparr>) i) (protected_host e) = Some ps \<and> a \<notin> set ps)))"
proof -
  let ?urls = "serviceHealthProtectedURLs cfg"
  from assms(1) obtain d engine j where d: "snapshot = Some d" and engine: "newServiceProbeEngine (Some c) ?urls = Inr engine"
      and j: "j \<in> set (ce_probed env (probe_jobs (hc_Services c) d))" and dialed: "(a, port) \<in> set (snd (job_probe env engine j))"
    by (rule runCycle_dialed)
  from j schedule have "j \<in> set (probe_jobs (hc_Services c) d)" by blast
  note job = probe_jobs_ok [OF this]
  note eng = newServiceProbeEngine_ok [OF engine]
  from dialed [unfolded job_probe_def] obtain target addresses where t: "deriveServiceProbeTarget (job_Host j) (job_Service j) = Some target"
      and port: "port = target_port target" and v: "validateTarget engine (net_answer (ce_net env j)) (net_protected (ce_net env j)) target = Some addresses"
      and a: "a \<in> set addresses"
    by (rule Probe_dialed)
  note target = deriveServiceProbeTarget_ok [OF t]
  note safe = validateTarget_ok [OF v a, folded port]
  have parsed: "parseServiceProbeProtectedEndpoint (?urls ! i) = Some (pe_protected engine ! i) \<and> i < length (pe_protected engine)"
    if "i < length ?urls" for i
  proof -
    from eng(4) have "length (pe_protected engine) = length ?urls" by (metis length_map)
    with that eng(4) show ?thesis by (metis nth_map)
  qed
  have job_parts: "\<lparr>job_Host = job_Host j, job_Service = job_Service j\<rparr> = j" by simp
  have "\<forall>i < length ?urls. \<exists>e. parseServiceProbeProtectedEndpoint (?urls ! i) = Some e \<and>
      (protected_port e = port \<longrightarrow> (\<exists>ps. resolveHost (net_protected (ce_net env \<lparr>job_Host = job_Host j, job_Service = job_Service j\<rparr>) i)
         (protected_host e) = Some ps \<and> a \<notin> set ps))"
    using parsed safe(1) unfolding safe_socket_def job_parts by blast
  moreover have "\<not> serviceProbeDangerousAddress a" "\<exists>p \<in> set (AllowedCIDRs c). prefix_contains p a"
    using safe(1) eng(1) by (simp_all add: safe_socket_def)
  moreover have "parse_addr (target_canonicalHost target) \<noteq> None \<or> target_canonicalHost target \<in> set (AllowedHosts c) \<or>
      list_ex (has_suffix (target_canonicalHost target)) (AllowedDNSSuffixes c)"
    using safe(3) eng(2, 3) by (simp add: dnsNameAllowed_def)
  ultimately show ?thesis using d job target port
    by (intro exI [of _ d] exI [of _ "job_Host j"] exI [of _ "job_Service j"] conjI exI [of _ "target_canonicalHost target"]) simp_all
qed

section \<open>What a cycle publishes\<close>

lemma map_of_unknown_results:
  "map_of (unknown_results services) i = (if i \<in> hs_ProxyHostID ` set services then Some (unknown_result i) else None)"
proof -
  have "map_of (foldl (\<lambda>m s. gomap_put m (hs_ProxyHostID s) (unknown_result (hs_ProxyHostID s))) m services) i =
      (if i \<in> hs_ProxyHostID ` set services then Some (unknown_result i) else map_of m i)" for m
    by (induction services arbitrary: m) auto
  then show ?thesis by (simp add: unknown_results_def)
qed

text \<open>A result that arrives replaces what its service had; the last one counts.\<close>

lemma put_result_keys: "map fst (put_result m r) = map fst m"
  by (auto simp: put_result_def gomap_has_def fst_gomap_put)

lemma put_results_keys: "map fst (foldl put_result m rs) = map fst m"
  by (induction rs arbitrary: m) (simp_all add: put_result_keys)

lemma map_of_put_result:
  "map_of (put_result m r) i = (if hr_ProxyHostID r = i \<and> i \<in> fst ` set m then Some r else map_of m i)"
  by (auto simp: put_result_def gomap_has_def)

lemma map_of_put_results:
  "map_of (foldl put_result m rs) i =
     (case find (\<lambda>r. hr_ProxyHostID r = i) (rev rs) of None \<Rightarrow> map_of m i | Some r \<Rightarrow> if i \<in> fst ` set m then Some r else map_of m i)"
proof (induction rs arbitrary: m rule: rev_induct)
  case (snoc r rs)
  have "fst ` set (foldl put_result m rs) = fst ` set m" by (metis put_results_keys set_map)
  with snoc show ?case by (simp add: map_of_put_result split: option.splits)
qed simp

lemma unknown_results_keys: "fst ` set (unknown_results services) = hs_ProxyHostID ` set services"
proof (rule set_eqI)
  fix i
  have "i \<in> fst ` set (unknown_results services) \<longleftrightarrow> map_of (unknown_results services) i \<noteq> None"
    by (simp add: map_of_eq_None_iff)
  then show "i \<in> fst ` set (unknown_results services) \<longleftrightarrow> i \<in> hs_ProxyHostID ` set services"
    by (simp add: map_of_unknown_results)
qed

text \<open>The stored results are the unknown ones, some replaced by what probes of eligible jobs saw.\<close>

definition probed_result :: "cycle_env \<Rightarrow> string list \<Rightarrow> CacheData option \<Rightarrow> ServiceHealthConfig \<Rightarrow> int \<Rightarrow> ServiceHealthResult \<Rightarrow> bool" where
  "probed_result env urls snapshot c i r \<longleftrightarrow>
     (\<exists>d engine ph s. snapshot = Some d \<and> ph \<in> set (cd_ProxyHosts d) \<and> s \<in> set (hc_Services c) \<and> ph_ID ph = i \<and>
        hs_ProxyHostID s = i \<and> enabledProxyHostHasSupportedDestinationMatch ph snapshot \<and>
        newServiceProbeEngine (Some c) urls = Inr engine \<and>
        r = fst (Probe engine (ce_net env \<lparr>job_Host = ph, job_Service = s\<rparr>) ph s))"

lemma job_probe_result:
  assumes "snapshot = Some d" "newServiceProbeEngine (Some c) urls = Inr engine" "j \<in> set (probe_jobs (hc_Services c) d)"
  shows "probed_result env urls snapshot c (hr_ProxyHostID (fst (job_probe env engine j))) (fst (job_probe env engine j))"
proof -
  have parts: "\<lparr>job_Host = job_Host j, job_Service = job_Service j\<rparr> = j" by simp
  show ?thesis
    unfolding probed_result_def
    using assms(1, 2) probe_jobs_ok [OF assms(3)]
    by (intro exI [of _ d] exI [of _ engine] exI [of _ "job_Host j"] exI [of _ "job_Service j"]) (simp add: job_probe_def parts)
qed

lemma enabled_cycle_results:
  assumes schedule: "\<And>jobs. set (ce_delivered env jobs) \<subseteq> set jobs"
  shows "\<exists>rs. fst (snd (enabled_cycle env urls snapshot c)) = publish (foldl put_result (unknown_results (hc_Services c)) rs) (Interval c * 3) \<and>
     (\<forall>r \<in> set rs. probed_result env urls snapshot c (hr_ProxyHostID r) r)"
proof (cases "\<exists>d engine. snapshot = Some d \<and> cd_Policy d \<noteq> None \<and> probe_jobs (hc_Services c) d \<noteq> [] \<and> newServiceProbeEngine (Some c) urls = Inr engine")
  case True
  then obtain d engine where d: "snapshot = Some d" "cd_Policy d \<noteq> None" "probe_jobs (hc_Services c) d \<noteq> []"
    "newServiceProbeEngine (Some c) urls = Inr engine" by blast
  let ?rs = "map (\<lambda>j. fst (job_probe env engine j)) (ce_delivered env (probe_jobs (hc_Services c) d))"
  have "\<forall>r \<in> set ?rs. probed_result env urls snapshot c (hr_ProxyHostID r) r"
    using job_probe_result [OF d(1, 4)] schedule by fastforce
  then show ?thesis by (intro exI [of _ ?rs]) (simp add: enabled_cycle_def d Let_def)
next
  case False
  then have "fst (snd (enabled_cycle env urls snapshot c)) = publish (unknown_results (hc_Services c)) (Interval c * 3)"
    by (auto simp: enabled_cycle_def Let_def split: option.splits sum.splits)
  then show ?thesis by (intro exI [of _ "[]"]) simp
qed

text \<open>
  What a cycle publishes is about the configured services and nothing else: each of them has exactly one result,
  under its own ID, and it is either that nothing is known, or what a probe of this service saw, of an enabled
  proxy host with that ID which the policy opens; reading it later gives the same, marked stale once it is older
  than three intervals.
\<close>
theorem cycle_publishes:
  assumes "runCycle env urls snapshot (Inr (Some c)) store = (delay, store', dialed)" and "hc_Enabled c"
    and schedule: "\<And>jobs. set (ce_delivered env jobs) \<subseteq> set jobs"
  shows "\<exists>results. store' = Some \<lparr>snap_Results = results, snap_StaleAfter = Interval c * 3\<rparr> \<and>
     fst ` set results = hs_ProxyHostID ` set (hc_Services c) \<and>
     (\<forall>i r. map_of results i = Some r \<longrightarrow> hr_ProxyHostID r = i \<and> (r = unknown_result i \<or> probed_result env urls snapshot c i r) \<and>
        store_get store' now i = Some (if hr_State r \<notin> {HealthUnknown, HealthStale} \<and> hr_CheckedAt r \<noteq> zero_time \<and>
          0 < Interval c * 3 \<and> now - hr_CheckedAt r > Interval c * 3 then r\<lparr>hr_State := HealthStale\<rparr> else r))"
proof -
  from enabled_cycle_results [OF schedule] obtain rs
    where rs: "fst (snd (enabled_cycle env urls snapshot c)) = publish (foldl put_result (unknown_results (hc_Services c)) rs) (Interval c * 3)"
      and probed: "\<forall>r \<in> set rs. probed_result env urls snapshot c (hr_ProxyHostID r) r" by blast
  let ?results = "foldl put_result (unknown_results (hc_Services c)) rs"
  from assms(1, 2) rs have store: "store' = Some \<lparr>snap_Results = ?results, snap_StaleAfter = Interval c * 3\<rparr>"
    by (simp add: runCycle_def publish_def)
  have "fst ` set ?results = hs_ProxyHostID ` set (hc_Services c)"
    by (metis put_results_keys set_map unknown_results_keys)
  moreover have "hr_ProxyHostID r = i \<and> (r = unknown_result i \<or> probed_result env urls snapshot c i r)" if "map_of ?results i = Some r" for i r
  proof (cases "find (\<lambda>r. hr_ProxyHostID r = i) (rev rs)")
    case None
    with that show ?thesis by (auto simp: map_of_put_results map_of_unknown_results unknown_result_def split: if_splits)
  next
    case (Some r')
    then have "r' \<in> set rs" "hr_ProxyHostID r' = i" by (auto simp: find_Some_iff) (metis length_rev nth_mem set_rev)
    with that Some probed show ?thesis
      by (auto simp: map_of_put_results map_of_unknown_results unknown_result_def split: if_splits)
  qed
  ultimately show ?thesis by (auto simp: store store_get_def)
qed


section \<open>A sample cycle\<close>

definition probed_service :: ServiceHealthService where
  "probed_service = \<lparr>hs_ProxyHostID = 7, hs_Type = ProbeTCP, hs_Path = [], AcceptedStatuses = []\<rparr>"

definition probing_config :: ServiceHealthConfig where
  "probing_config = \<lparr>hc_Enabled = True, Interval = 60, Timeout = 3, Workers = 1, AllowedCIDRs = [sample_net],
     AllowedHosts = [''web''], AllowedDNSSuffixes = [], hc_Services = [probed_service]\<rparr>"

definition portal_config :: Config where
  "portal_config = \<lparr>ControlPlane = Headscale, ControlPlaneExplicit = True, InactiveControlPlaneKeys = [], ControlPlaneRedactionValues = [],
     HeadscaleURL = ''http://headscale:8080'', HeadscaleAPIKey = ''k'', TailscaleOAuthClientID = [], TailscaleOAuthClientSecret = [],
     NPMURL = ''http://npm'', NPMEmail = ''e'', NPMPassword = ''p'', ServiceMetadataFile = [], ServiceMetadataEditor = None,
     ServiceHealthFile = [], ListenAddr = [], PollInterval = 60, TrustedProxyCIDR = Net4 0 0, PortalLogoDefaultVisible = True\<rparr>"

definition probing_env :: cycle_env where
  "probing_env = \<lparr>ce_net = (\<lambda>_. \<lparr>net_answer = Some [Some (V4 0x0A000007)], net_protected = (\<lambda>_. Some [Some (V4 0x0A000003)]), net_dial = (\<lambda>_. DialConnected), net_reply = (\<lambda>_. None),
     net_start = 0, net_end = 1\<rparr>), ce_probed = (\<lambda>jobs. jobs), ce_delivered = (\<lambda>jobs. jobs)\<rparr>"

definition probing_engine :: serviceProbeEngine where
  "probing_engine = \<lparr>pe_timeout = 3, pe_allowedCIDRs = [sample_net], pe_allowedHosts = [''web''], pe_allowedDNSSuffixes = [],
     pe_protected = [\<lparr>protected_host = ''npm'', protected_port = 80\<rparr>, \<lparr>protected_host = ''headscale'', protected_port = 8080\<rparr>]\<rparr>"

lemma probing_endpoints:
  "parseServiceProbeProtectedEndpoint ''http://npm'' = Some \<lparr>protected_host = ''npm'', protected_port = 80\<rparr>"
  "parseServiceProbeProtectedEndpoint ''http://headscale:8080'' = Some \<lparr>protected_host = ''headscale'', protected_port = 8080\<rparr>"
proof -
  have "url_parse ''http://npm'' = Some (no_url\<lparr>Scheme := ''http'', Host := ''npm''\<rparr>)"
    "url_parse ''http://headscale:8080'' = Some (no_url\<lparr>Scheme := ''http'', Host := ''headscale:8080''\<rparr>)" by code_simp+
  moreover have "split_host_port ''npm'' = (''npm'', [])" "split_host_port ''headscale:8080'' = (''headscale'', ''8080'')" by code_simp+
  moreover have "parse_uint16 ''80'' = Some 80" "parse_uint16 ''8080'' = Some 8080"
    by (simp_all add: parse_uint16_def parse_digits_def is_digit_def digit_value_def)
  moreover have "canonicalServiceProbeHost ''npm'' = Some ''npm''" "canonicalServiceProbeHost ''headscale'' = Some ''headscale''" by code_simp+
  ultimately show "parseServiceProbeProtectedEndpoint ''http://npm'' = Some \<lparr>protected_host = ''npm'', protected_port = 80\<rparr>"
    "parseServiceProbeProtectedEndpoint ''http://headscale:8080'' = Some \<lparr>protected_host = ''headscale'', protected_port = 8080\<rparr>"
    by (simp_all add: parseServiceProbeProtectedEndpoint_def hostname_def url_port_def no_url_def)
qed

lemma probing_engine_made: "newServiceProbeEngine (Some probing_config) (serviceHealthProtectedURLs (Some portal_config)) = Inr probing_engine"
  by (simp add: newServiceProbeEngine_def serviceHealthProtectedURLs_def portal_config_def probing_endpoints probing_config_def probing_engine_def)

lemma probed_jobs: "probe_jobs [probed_service] (sample_data [sample_host]) = [\<lparr>job_Host = sample_host, job_Service = probed_service\<rparr>]"
  by code_simp

lemma probed_target: "\<exists>target. deriveServiceProbeTarget sample_host probed_service = Some target \<and> target_canonicalHost target = ''web'' \<and>
   target_port target = 80 \<and> target_Type target = ProbeTCP"
proof -
  have "canonicalServiceProbeHost ''web'' = Some ''web''" "to_lower ''http'' = ''http''" by code_simp+
  then show ?thesis
    by (simp add: deriveServiceProbeTarget_def sample_host_def probed_service_def service_shape_ok_def)
qed

lemma probed_addresses:
  "resolveAllowedTarget probing_engine (Some [Some (V4 0x0A000007)]) ''web'' = Some [V4 0x0A000007]"
  "resolveHost (Some [Some (V4 0x0A000003)]) ''npm'' = Some [V4 0x0A000003]"
proof -
  have "parse_addr ''web'' = None" "parse_addr ''npm'' = None" by code_simp+
  moreover have "\<not> serviceProbeDangerousAddress (V4 0x0A000007)" "\<not> serviceProbeDangerousAddress (V4 0x0A000003)"
    by (simp_all add: serviceProbeDangerousAddress_def serviceHealthDangerousAddress_def addr_unspecified_def addr_loopback_def
        addr_multicast_def addr_link_local_unicast_def addr_link_local_multicast_def v4_octet_def octets_of_v4_def)
  moreover have "prefix_contains sample_net (V4 0x0A000007)" by (simp add: prefix_contains_def sample_net_def)
  ultimately show "resolveAllowedTarget probing_engine (Some [Some (V4 0x0A000007)]) ''web'' = Some [V4 0x0A000007]"
    "resolveHost (Some [Some (V4 0x0A000003)]) ''npm'' = Some [V4 0x0A000003]"
    by (simp_all add: resolveAllowedTarget_def resolveHost_def dnsNameAllowed_def probing_engine_def addressAllowed_def)
qed

lemma probed_sockets: "set (snd (job_probe probing_env probing_engine \<lparr>job_Host = sample_host, job_Service = probed_service\<rparr>)) = {(V4 0x0A000007, 80)}"
proof -
  from probed_target obtain target where t: "deriveServiceProbeTarget sample_host probed_service = Some target" "target_canonicalHost target = ''web''"
    "target_port target = 80" "target_Type target = ProbeTCP" by blast
  have "validateTarget probing_engine (Some [Some (V4 0x0A000007)]) (\<lambda>_. Some [Some (V4 0x0A000003)]) target = Some [V4 0x0A000007]"
    using probed_addresses
    by (simp add: validateTarget_def t isProtectedExact_def) (simp add: probing_engine_def serviceProbeAddressSetsIntersect_def)
  then show ?thesis by (simp add: job_probe_def probing_env_def Probe_def t run_probe_def probeTCP_def)
qed

lemma probing_cycle:
  "(V4 0x0A000007, 80) \<in> set (snd (snd (runCycle probing_env (serviceHealthProtectedURLs (Some portal_config)) (Some (sample_data [sample_host]))
     (Inr (Some probing_config) :: health_config_error + ServiceHealthConfig option) None)))"
proof -
  have "hc_Services probing_config = [probed_service]" "hc_Enabled probing_config" by (simp_all add: probing_config_def)
  moreover have "cd_Policy (sample_data [sample_host]) \<noteq> None" by (simp add: sample_data_def)
  moreover have "ce_probed probing_env = (\<lambda>jobs. jobs)" by (simp add: probing_env_def)
  ultimately show ?thesis
    using probed_sockets by (simp add: runCycle_def enabled_cycle_def Let_def probed_jobs probing_engine_made)
qed

lemma cycle_dials_allowed_witness: "\<exists>p \<in> set (AllowedCIDRs probing_config). prefix_contains p (V4 0x0A000007)"
proof -
  have "\<And>jobs. set (ce_probed probing_env jobs) \<subseteq> set jobs" by (simp add: probing_env_def)
  from cycle_dials_allowed [OF probing_cycle this] show ?thesis by blast
qed

lemma cycle_publishes_witness:
  "\<exists>results. fst (snd (runCycle probing_env (serviceHealthProtectedURLs (Some portal_config)) (Some (sample_data [sample_host]))
     (Inr (Some probing_config) :: health_config_error + ServiceHealthConfig option) None)) = Some \<lparr>snap_Results = results, snap_StaleAfter = 180\<rparr> \<and> fst ` set results = {7}"
proof -
  let ?cycle = "runCycle probing_env (serviceHealthProtectedURLs (Some portal_config)) (Some (sample_data [sample_host])) (Inr (Some probing_config) :: health_config_error + ServiceHealthConfig option) None"
  have sub: "\<And>jobs. set (ce_delivered probing_env jobs) \<subseteq> set jobs" by (simp add: probing_env_def)
  have c: "?cycle = (fst ?cycle, fst (snd ?cycle), snd (snd ?cycle))" by simp
  have "hc_Enabled probing_config" "Interval probing_config * 3 = 180" "hs_ProxyHostID ` set (hc_Services probing_config) = {7}"
    by (simp_all add: probing_config_def probed_service_def)
  with cycle_publishes [OF c _ sub, of 0] show ?thesis by auto
qed

end
