(* ===== verification/Machines.thy ===== *)
theory Machines
  imports Matcher Health_Config
begin

text \<open>
  Which machines an identity may reach by Tailscale SSH (\<open>machine_matcher.go\<close>): a supported
  SSH rule, a Grant for TCP port 22 and a device that reported SSH, all for the exact login.
\<close>

section \<open>Data\<close>

record MachineAccess =
  User :: string
  Action :: string
  CheckPeriod :: int

record MachineCard =
  mcard_ID :: string
  mcard_Name :: string
  Target :: string
  Access :: "MachineAccess list"

record machineSSHAccessEvidence =
  ssh_Access :: MachineAccess
  ssh_RuleIndex :: nat
  ssh_SourceToken :: string
  DestinationToken :: string

record machineMatchEvidence =
  mm_Card :: MachineCard
  mm_Node :: Node
  SSHAccess :: "machineSSHAccessEvidence list"
  GrantRuleIndex :: nat
  GrantSourceToken :: string
  GrantDestination :: destinationMatchEvidence

definition nonroot :: string where "nonroot = ''autogroup:nonroot''"

definition machineConsoleEligibleRoles :: "string list" where
  "machineConsoleEligibleRoles =
     [''autogroup:owner'', ''autogroup:admin'', ''autogroup:it-admin'', ''autogroup:network-admin'']"

section \<open>Names and addresses\<close>

text \<open>100.64.0.0/10 and fd7a:115c:a1e0::/48.\<close>

definition tailscaleMachineAddressPrefixes :: "prefix list" where
  "tailscaleMachineAddressPrefixes =
     [\<lparr>prefix_addr = V4 0x64400000, prefix_bits = 10\<rparr>,
      \<lparr>prefix_addr = V6 0xfd7a115ca1e000000000000000000000 [], prefix_bits = 48\<rparr>]"

definition tailscaleMachineAddress :: "string \<Rightarrow> string option" where
  "tailscaleMachineAddress raw = (case parse_addr (trim_space raw) of None \<Rightarrow> None | Some a \<Rightarrow>
     if addr_zone a \<noteq> [] then None
     else (let b = addr_unmap a in
       if list_ex (\<lambda>p. prefix_contains p b) tailscaleMachineAddressPrefixes then Some (addr_string b) else None))"

definition normalizeMachineTargetName :: "string \<Rightarrow> string option" where
  "normalizeMachineTargetName raw = (let value = trim_space raw in
     if value = [] then None
     else if \<not> list_all is_ascii value then None
     else (let name = to_lower (trim_suffix value ''.'') in
       if has_suffix name ''.'' \<or> \<not> has_suffix name ''.ts.net'' \<or> count_byte name (CHR ''.'') < 3 then None
       else if validateServiceHealthHost name then Some name else None))"

text \<open>The first IPv4 address, or else the first IPv6 one.\<close>

fun machine_address :: "string list \<Rightarrow> string option \<Rightarrow> string option" where
  "machine_address [] fallback = fallback"
| "machine_address (raw # raws) fallback = (case tailscaleMachineAddress raw of
     None \<Rightarrow> machine_address raws fallback
   | Some a \<Rightarrow>
       if (case parse_addr a of Some b \<Rightarrow> addr_is4 b | None \<Rightarrow> False) then Some a
       else machine_address raws (case fallback of None \<Rightarrow> Some a | Some f \<Rightarrow> Some f))"

definition machineTarget :: "Node \<Rightarrow> string option" where
  "machineTarget node = (case normalizeMachineTargetName (node_Name node) of
     Some name \<Rightarrow> Some name
   | None \<Rightarrow> machine_address (Addresses node) None)"

definition machineShortName :: "string \<Rightarrow> string option" where
  "machineShortName target = (case normalizeMachineTargetName target of None \<Rightarrow> None | Some name \<Rightarrow>
     if name \<noteq> target then None
     else (case cut_byte name (CHR ''.'') of None \<Rightarrow> None | Some (label, _) \<Rightarrow>
       if label = [] then None else Some label))"

definition console_url :: string where
  "console_url = ''https://console.tailscale.com/admin/machines''"

definition machineConsoleURL :: "string \<Rightarrow> string option" where
  "machineConsoleURL target =
     (let canonical = (normalizeMachineTargetName target = Some target) in
      if \<not> canonical \<and> tailscaleMachineAddress target \<noteq> Some target then None
      else (case (if canonical then machineShortName target else Some target) of
          None \<Rightarrow> None
        | Some term \<Rightarrow> Some (console_url @ ''?q='' @ escape EncodeQuery (term @ '' property:tailscale-ssh''))))"

section \<open>Eligibility\<close>

definition machineProjectionAvailable :: "CacheData option \<Rightarrow> bool" where
  "machineProjectionAvailable data \<longleftrightarrow> (case data of None \<Rightarrow> False | Some d \<Rightarrow>
     (case cd_Policy d of None \<Rightarrow> False | Some p \<Rightarrow>
       Provider (cd_ControlPlane d) = Tailscale \<and> State (SSH p) = SSHSupported))"

definition machineConsoleEligible :: "string \<Rightarrow> CacheData option \<Rightarrow> bool" where
  "machineConsoleEligible login data \<longleftrightarrow>
     (if \<not> machineProjectionAvailable data \<or> \<not> exactSSHLogin login then False
      else (case data of None \<Rightarrow> False | Some d \<Rightarrow>
        (case map_of (GrantRoleSelectorsByLogin d) login of None \<Rightarrow> False
         | Some roles \<Rightarrow> list_ex (\<lambda>r. r \<in> set machineConsoleEligibleRoles) roles)))"

definition machineSSHCapable :: "string \<Rightarrow> CacheData option \<Rightarrow> bool" where
  "machineSSHCapable machineID data \<longleftrightarrow> (case data of None \<Rightarrow> False | Some d \<Rightarrow>
     gomap_get (MachineSSHCapableByID d) machineID False)"

definition buildSSHIdentitySet :: "string \<Rightarrow> Policy option \<Rightarrow> string set" where
  "buildSSHIdentitySet login policy =
     (case policy of None \<Rightarrow> {} | Some p \<Rightarrow>
       if \<not> exactSSHLogin login then {}
       else insert login (set (map fst (List.filter (\<lambda>(g, ms). login \<in> set ms) (Groups p)))))"

section \<open>SSH rules\<close>

definition sourceGrantForSSHRule :: "SSHRule \<Rightarrow> string set \<Rightarrow> string set \<Rightarrow> string option" where
  "sourceGrantForSSHRule rule ids roles = find (\<lambda>s. s \<in> ids \<or> s \<in> roles) (ssh_Src rule)"

definition sshDestinationGrant :: "Node \<Rightarrow> string list \<Rightarrow> string \<Rightarrow> string option" where
  "sshDestinationGrant node destinations login =
     find (\<lambda>d. if d = ''autogroup:self'' then OwnerLogin node = login
               else if \<not> has_prefix d ''tag:'' then False else d \<in> set (Tags node)) destinations"

text \<open>One candidate per user: a check replaces an accept, otherwise the first one stays.\<close>

definition offer_access ::
  "(string, machineSSHAccessEvidence) gomap \<Rightarrow> machineSSHAccessEvidence \<Rightarrow> (string, machineSSHAccessEvidence) gomap" where
  "offer_access byUser candidate =
     (let u = User (ssh_Access candidate) in
      case map_of byUser u of
        None \<Rightarrow> gomap_put byUser u candidate
      | Some current \<Rightarrow>
          if Action (ssh_Access current) = ''accept'' \<and> Action (ssh_Access candidate) = ''check''
          then gomap_put byUser u candidate else byUser)"

definition rule_access ::
  "Node \<Rightarrow> string set \<Rightarrow> string set \<Rightarrow> string \<Rightarrow> nat \<times> SSHRule \<Rightarrow> machineSSHAccessEvidence list" where
  "rule_access node ids roles login ir = (case ir of (i, rule) \<Rightarrow>
     (case sourceGrantForSSHRule rule ids roles of None \<Rightarrow> [] | Some source \<Rightarrow>
     (case sshDestinationGrant node (ssh_Dst rule) login of None \<Rightarrow> [] | Some destination \<Rightarrow>
        map (\<lambda>user. \<lparr>ssh_Access = \<lparr>User = user, Action = ssh_Action rule, CheckPeriod = ssh_CheckPeriod rule\<rparr>,
            ssh_RuleIndex = i, ssh_SourceToken = source, DestinationToken = destination\<rparr>) (ssh_Users rule))))"

definition access_by_user ::
  "Node \<Rightarrow> SSHRule list \<Rightarrow> string set \<Rightarrow> string set \<Rightarrow> string \<Rightarrow> (string, machineSSHAccessEvidence) gomap" where
  "access_by_user node rules ids roles login =
     foldl (\<lambda>m ir. foldl offer_access m (rule_access node ids roles login ir)) [] (enumerate 0 rules)"

text \<open>A check for every non-root account removes the accepts of the literal ones.\<close>

definition drop_dominated :: "(string, machineSSHAccessEvidence) gomap \<Rightarrow> (string, machineSSHAccessEvidence) gomap" where
  "drop_dominated byUser = (case map_of byUser nonroot of None \<Rightarrow> byUser | Some e \<Rightarrow>
     if Action (ssh_Access e) = ''check''
     then List.filter (\<lambda>(user, ev). \<not> (user \<noteq> ''root'' \<and> user \<noteq> nonroot \<and> Action (ssh_Access ev) = ''accept'')) byUser
     else byUser)"

definition access_less :: "machineSSHAccessEvidence \<Rightarrow> machineSSHAccessEvidence \<Rightarrow> bool" where
  "access_less l r =
     (let a = ssh_Access l; b = ssh_Access r in
      if User a \<noteq> User b then User a < User b
      else if Action a \<noteq> Action b then Action a = ''check''
      else ssh_RuleIndex l < ssh_RuleIndex r)"

definition evaluateMachineSSHAccess ::
  "Node \<Rightarrow> SSHRule list \<Rightarrow> string set \<Rightarrow> string set \<Rightarrow> string \<Rightarrow> machineSSHAccessEvidence list" where
  "evaluateMachineSSHAccess node rules ids roles login =
     sort_slice access_less (map snd (drop_dominated (access_by_user node rules ids roles login)))"

section \<open>Grants for port 22\<close>

fun grant_addresses ::
  "accessRule \<Rightarrow> string list \<Rightarrow> matchContext \<Rightarrow> destinationMatchEvidence option" where
  "grant_addresses rule [] mc = None"
| "grant_addresses rule (raw # raws) mc = (case tailscaleMachineAddress raw of
     None \<Rightarrow> grant_addresses rule raws mc
   | Some address \<Rightarrow> (case destinationGrant (rule_Dst rule) address mc of
       Some d \<Rightarrow> Some d | None \<Rightarrow> grant_addresses rule raws mc))"

fun machine_grants ::
  "Node \<Rightarrow> string set \<Rightarrow> string set \<Rightarrow> matchContext \<Rightarrow> nat \<Rightarrow> GrantRule list \<Rightarrow> (nat \<times> string \<times> destinationMatchEvidence) option"
where
  "machine_grants node ids roles mc i [] = None"
| "machine_grants node ids roles mc i (g # gs) =
     (let rule = grant_access_rule i g in
      if \<not> rule_permitsTCP rule 22 then machine_grants node ids roles mc (Suc i) gs
      else (case sourceGrantForRule rule ids roles of
          None \<Rightarrow> machine_grants node ids roles mc (Suc i) gs
        | Some source \<Rightarrow> (case grant_addresses rule (Addresses node) mc of
            Some d \<Rightarrow> Some (i, source, d)
          | None \<Rightarrow> machine_grants node ids roles mc (Suc i) gs)))"

definition machineGrantEvidence ::
  "Node \<Rightarrow> GrantRule list \<Rightarrow> string set \<Rightarrow> string set \<Rightarrow> matchContext \<Rightarrow> (nat \<times> string \<times> destinationMatchEvidence) option" where
  "machineGrantEvidence node grants ids roles mc = machine_grants node ids roles mc 0 grants"

section \<open>Evaluation\<close>

definition machine_match ::
  "CacheData \<Rightarrow> Policy \<Rightarrow> string \<Rightarrow> string set \<Rightarrow> string set \<Rightarrow> matchContext \<Rightarrow> Node \<Rightarrow> machineMatchEvidence option" where
  "machine_match d p login ids roles mc node =
     (if \<not> machineSSHCapable (node_ID node) (Some d) then None
      else (case machineTarget node of None \<Rightarrow> None | Some target \<Rightarrow>
        (let ssh = evaluateMachineSSHAccess node (Rules (SSH p)) ids roles login in
         if ssh = [] then None
         else (case machineGrantEvidence node (Grants p) ids roles mc of None \<Rightarrow> None | Some (i, source, dest) \<Rightarrow>
           Some \<lparr>mm_Card = \<lparr>mcard_ID = node_ID node, mcard_Name = target, Target = target, Access = map ssh_Access ssh\<rparr>,
                 mm_Node = node, SSHAccess = ssh, GrantRuleIndex = i, GrantSourceToken = source, GrantDestination = dest\<rparr>))))"

definition machine_less :: "machineMatchEvidence \<Rightarrow> machineMatchEvidence \<Rightarrow> bool" where
  "machine_less l r =
     (if mcard_Name (mm_Card l) \<noteq> mcard_Name (mm_Card r) then mcard_Name (mm_Card l) < mcard_Name (mm_Card r)
      else mcard_ID (mm_Card l) < mcard_ID (mm_Card r))"

definition evaluateMachines :: "Identity option \<Rightarrow> CacheData option \<Rightarrow> machineMatchEvidence list" where
  "evaluateMachines identity data =
     (case (identity, data) of
        (Some i, Some d) \<Rightarrow>
          if \<not> machineProjectionAvailable data then []
          else (case cd_Policy d of None \<Rightarrow> [] | Some p \<Rightarrow>
            (let login = trim_space (Login i) in
             if \<not> exactSSHLogin login then []
             else (case map_of (GrantRoleSelectorsByLogin d) login of None \<Rightarrow> [] | Some roles \<Rightarrow>
               sort_slice machine_less (List.map_filter
                 (machine_match d p login (buildSSHIdentitySet login (Some p)) (set roles)
                   (buildMatchContext login p (cd_Nodes d))) (cd_Nodes d)))))
      | _ \<Rightarrow> [])"

definition MatchMachines :: "Identity option \<Rightarrow> CacheData option \<Rightarrow> MachineCard list" where
  "MatchMachines identity data = map mm_Card (evaluateMachines identity data)"

section \<open>Sorting\<close>

lemma access_less_lex:
  "access_less = lex_less (\<lambda>e. User (ssh_Access e)) (\<lambda>l r. if Action (ssh_Access l) \<noteq> Action (ssh_Access r)
     then Action (ssh_Access l) = ''check'' else ssh_RuleIndex l < ssh_RuleIndex r)"
  by (simp add: fun_eq_iff access_less_def lex_less_def Let_def)

lemma machine_less_lex:
  "machine_less = lex_less (\<lambda>e. mcard_Name (mm_Card e)) (\<lambda>l r. mcard_ID (mm_Card l) < mcard_ID (mm_Card r))"
  by (simp add: fun_eq_iff machine_less_def lex_less_def)

interpretation machine_order: sort_order machine_less
  unfolding machine_less_lex by (intro sort_order_lex sort_order_key)

text \<open>
  On evidence whose actions are accept and check, the comparison is the lexicographic order on the
  user, then check before accept, then the rule.
\<close>

definition access_order :: "machineSSHAccessEvidence \<Rightarrow> machineSSHAccessEvidence \<Rightarrow> bool" where
  "access_order = lex_less (\<lambda>e. User (ssh_Access e))
     (lex_less (\<lambda>e. Action (ssh_Access e) \<noteq> ''check'') (\<lambda>l r. ssh_RuleIndex l < ssh_RuleIndex r))"

interpretation access_order: sort_order access_order
  unfolding access_order_def by (intro sort_order_lex sort_order_key)

section \<open>The access of one machine\<close>

definition two_actions :: "machineSSHAccessEvidence list \<Rightarrow> bool" where
  "two_actions es \<longleftrightarrow> (\<forall>e \<in> set es. Action (ssh_Access e) = ''accept'' \<or> Action (ssh_Access e) = ''check'')"

definition offers :: "machineSSHAccessEvidence list \<Rightarrow> string \<Rightarrow> bool" where
  "offers cs u \<longleftrightarrow> (\<exists>c \<in> set cs. User (ssh_Access c) = u)"

definition offers_check :: "machineSSHAccessEvidence list \<Rightarrow> string \<Rightarrow> bool" where
  "offers_check cs u \<longleftrightarrow> (\<exists>c \<in> set cs. User (ssh_Access c) = u \<and> Action (ssh_Access c) = ''check'')"

lemma foldl_offer_access:
  assumes "two_actions cs"
  shows "gomap_wf (foldl offer_access [] cs) \<and>
    (\<forall>u. case map_of (foldl offer_access [] cs) u of
        None \<Rightarrow> \<not> offers cs u
      | Some e \<Rightarrow> e \<in> set cs \<and> User (ssh_Access e) = u \<and> (Action (ssh_Access e) = ''check'' \<longleftrightarrow> offers_check cs u))"
  using assms
proof (induction cs rule: rev_induct)
  case (snoc c cs)
  let ?m = "foldl offer_access [] cs"
  let ?u = "User (ssh_Access c)"
  have wf: "gomap_wf ?m" and spec: "\<And>u. case map_of ?m u of None \<Rightarrow> \<not> offers cs u
      | Some e \<Rightarrow> e \<in> set cs \<and> User (ssh_Access e) = u \<and> (Action (ssh_Access e) = ''check'' \<longleftrightarrow> offers_check cs u)"
    and act: "Action (ssh_Access c) = ''accept'' \<or> Action (ssh_Access c) = ''check''" "two_actions cs"
    using snoc by (auto simp: two_actions_def)
  have step: "map_of (foldl offer_access [] (cs @ [c])) u =
      (if u = ?u \<and> (map_of ?m u = None \<or> Action (ssh_Access c) = ''check'' \<and> \<not> offers_check cs u)
       then Some c else map_of ?m u)" for u
  proof (cases "map_of ?m ?u")
    case None
    then show ?thesis by (simp add: offer_access_def Let_def)
  next
    case (Some e)
    with spec [of ?u] act(2) have "Action (ssh_Access e) = ''accept'' \<longleftrightarrow> \<not> offers_check cs ?u"
      by (auto simp: two_actions_def)
    with Some show ?thesis by (auto simp: offer_access_def Let_def)
  qed
  have offers: "offers (cs @ [c]) u \<longleftrightarrow> offers cs u \<or> u = ?u"
    "offers_check (cs @ [c]) u \<longleftrightarrow> offers_check cs u \<or> (u = ?u \<and> Action (ssh_Access c) = ''check'')" for u
    by (auto simp: offers_def offers_check_def)
  have none: "offers_check cs u \<Longrightarrow> offers cs u" for u by (auto simp: offers_def offers_check_def)
  have "case map_of (foldl offer_access [] (cs @ [c])) u of None \<Rightarrow> \<not> offers (cs @ [c]) u
      | Some e \<Rightarrow> e \<in> set (cs @ [c]) \<and> User (ssh_Access e) = u \<and> (Action (ssh_Access e) = ''check'' \<longleftrightarrow> offers_check (cs @ [c]) u)" for u
    unfolding step offers using spec [of u] none [of u]
    by (cases "map_of ?m u"; cases "u = ?u") auto
  moreover have "gomap_wf (foldl offer_access [] (cs @ [c]))"
    using wf by (simp add: offer_access_def Let_def split: option.split)
  ultimately show ?case by blast
qed (simp add: offers_def)

definition candidates :: "Node \<Rightarrow> SSHRule list \<Rightarrow> string set \<Rightarrow> string set \<Rightarrow> string \<Rightarrow> machineSSHAccessEvidence list" where
  "candidates node rules ids roles login = concat (map (rule_access node ids roles login) (enumerate 0 rules))"

lemma access_by_user_candidates:
  "access_by_user node rules ids roles login = foldl offer_access [] (candidates node rules ids roles login)"
proof -
  have "foldl (\<lambda>m ir. foldl offer_access m (f ir)) m xs = foldl offer_access m (concat (map f xs))" for f m and xs :: "(nat \<times> SSHRule) list"
    by (induction xs arbitrary: m) auto
  then show ?thesis by (simp add: access_by_user_def candidates_def)
qed

text \<open>The rules that apply to a machine and an identity.\<close>

definition applies :: "Node \<Rightarrow> string set \<Rightarrow> string set \<Rightarrow> string \<Rightarrow> SSHRule \<Rightarrow> bool" where
  "applies node ids roles login r \<longleftrightarrow> (\<exists>s \<in> set (ssh_Src r). s \<in> ids \<or> s \<in> roles) \<and>
     (\<exists>d \<in> set (ssh_Dst r). (d = ''autogroup:self'' \<and> OwnerLogin node = login) \<or> (has_prefix d ''tag:'' \<and> d \<in> set (Tags node)))"

lemma rule_access_iff:
  "c \<in> set (rule_access node ids roles login (i, r)) \<longrightarrow> applies node ids roles login r \<and>
     User (ssh_Access c) \<in> set (ssh_Users r) \<and> Action (ssh_Access c) = ssh_Action r"
  "applies node ids roles login r \<Longrightarrow> u \<in> set (ssh_Users r) \<Longrightarrow>
     \<exists>c \<in> set (rule_access node ids roles login (i, r)). User (ssh_Access c) = u \<and> Action (ssh_Access c) = ssh_Action r"
proof -
  have self: "\<not> has_prefix ''autogroup:self'' ''tag:''" by (simp add: has_prefix_def)
  have source: "sourceGrantForSSHRule r ids roles \<noteq> None \<longleftrightarrow> (\<exists>s \<in> set (ssh_Src r). s \<in> ids \<or> s \<in> roles)"
    by (auto simp: sourceGrantForSSHRule_def find_None_iff)
  have dest: "sshDestinationGrant node (ssh_Dst r) login \<noteq> None \<longleftrightarrow>
      (\<exists>d \<in> set (ssh_Dst r). (d = ''autogroup:self'' \<and> OwnerLogin node = login) \<or> (has_prefix d ''tag:'' \<and> d \<in> set (Tags node)))"
    using self by (auto simp: sshDestinationGrant_def find_None_iff)
  show "c \<in> set (rule_access node ids roles login (i, r)) \<longrightarrow> applies node ids roles login r \<and>
     User (ssh_Access c) \<in> set (ssh_Users r) \<and> Action (ssh_Access c) = ssh_Action r"
    using source dest by (auto simp: rule_access_def applies_def split: option.splits)
  assume "applies node ids roles login r" and u: "u \<in> set (ssh_Users r)"
  then obtain s d where "sourceGrantForSSHRule r ids roles = Some s" "sshDestinationGrant node (ssh_Dst r) login = Some d"
    using source dest unfolding applies_def by blast
  with u show "\<exists>c \<in> set (rule_access node ids roles login (i, r)). User (ssh_Access c) = u \<and> Action (ssh_Access c) = ssh_Action r"
    by (auto simp: rule_access_def)
qed

lemma offers_rules:
  "offers (candidates node rules ids roles login) u \<longleftrightarrow>
     (\<exists>r \<in> set rules. applies node ids roles login r \<and> u \<in> set (ssh_Users r))"
  "offers_check (candidates node rules ids roles login) u \<longleftrightarrow>
     (\<exists>r \<in> set rules. applies node ids roles login r \<and> u \<in> set (ssh_Users r) \<and> ssh_Action r = ''check'')"
proof -
  have mem: "c \<in> set (candidates node rules ids roles login) \<longleftrightarrow>
      (\<exists>i < length rules. c \<in> set (rule_access node ids roles login (i, rules ! i)))" for c
    by (auto simp: candidates_def in_set_enumerate_eq)
  have rule: "r \<in> set rules \<longleftrightarrow> (\<exists>i < length rules. r = rules ! i)" for r by (auto simp: in_set_conv_nth)
  show "offers (candidates node rules ids roles login) u \<longleftrightarrow>
     (\<exists>r \<in> set rules. applies node ids roles login r \<and> u \<in> set (ssh_Users r))"
    unfolding offers_def Bex_def mem rule using rule_access_iff by blast
  show "offers_check (candidates node rules ids roles login) u \<longleftrightarrow>
     (\<exists>r \<in> set rules. applies node ids roles login r \<and> u \<in> set (ssh_Users r) \<and> ssh_Action r = ''check'')"
    unfolding offers_check_def Bex_def mem rule using rule_access_iff by metis
qed

lemma offer_lookup:
  assumes "two_actions cs"
  shows "map_of (foldl offer_access [] cs) u = None \<longleftrightarrow> \<not> offers cs u"
    and "map_of (foldl offer_access [] cs) u = Some e \<Longrightarrow> e \<in> set cs \<and> User (ssh_Access e) = u \<and>
      Action (ssh_Access e) = (if offers_check cs u then ''check'' else ''accept'')"
proof -
  have spec: "case map_of (foldl offer_access [] cs) u of
        None \<Rightarrow> \<not> offers cs u
      | Some e \<Rightarrow> e \<in> set cs \<and> User (ssh_Access e) = u \<and> (Action (ssh_Access e) = ''check'' \<longleftrightarrow> offers_check cs u)"
    using foldl_offer_access [OF assms] by blast
  then show "map_of (foldl offer_access [] cs) u = None \<longleftrightarrow> \<not> offers cs u"
    by (auto simp: offers_def split: option.splits)
  assume "map_of (foldl offer_access [] cs) u = Some e"
  with spec assms show "e \<in> set cs \<and> User (ssh_Access e) = u \<and>
      Action (ssh_Access e) = (if offers_check cs u then ''check'' else ''accept'')"
    by (auto simp: two_actions_def)
qed

definition drops :: "machineSSHAccessEvidence list \<Rightarrow> string \<Rightarrow> bool" where
  "drops cs u \<longleftrightarrow> u \<noteq> ''root'' \<and> u \<noteq> nonroot \<and> offers_check cs nonroot \<and> \<not> offers_check cs u"

lemma gomap_wf_filter: "gomap_wf m \<Longrightarrow> gomap_wf (List.filter P m)"
  by (induction m) auto

lemma wf_entry: "gomap_wf m \<Longrightarrow> (u, e) \<in> set m \<longleftrightarrow> map_of m u = Some e"
  by (auto dest: map_of_SomeD)

lemma drop_dominated_entries:
  assumes "two_actions cs" and m: "m = foldl offer_access [] cs"
  shows "(u, e) \<in> set (drop_dominated m) \<longleftrightarrow> map_of m u = Some e \<and> \<not> drops cs u"
proof -
  have wf: "gomap_wf m" using foldl_offer_access [OF assms(1)] by (simp add: m)
  note look = offer_lookup [OF assms(1), folded m]
  have "offers_check cs nonroot \<Longrightarrow> offers cs nonroot" by (auto simp: offers_def offers_check_def)
  then show ?thesis
    using look(1) [of nonroot] look(2) [of nonroot] look(2) [of u e] wf_entry [OF wf, of u e]
    by (cases "map_of m nonroot") (auto simp: drop_dominated_def drops_def)
qed

lemma drop_dominated_nonempty: "drop_dominated m = [] \<longleftrightarrow> m = []"
proof (cases "map_of m nonroot")
  case (Some e)
  then have "(nonroot, e) \<in> set m" by (rule map_of_SomeD)
  then show ?thesis by (auto simp: drop_dominated_def Some filter_empty_conv)
qed (simp add: drop_dominated_def)

lemma insert_by_cong:
  "\<forall>y \<in> set ys. lt y x = lt' y x \<Longrightarrow> insert_by lt x ys = insert_by lt' x ys"
  by (induction ys) auto

lemma sort_slice_cong:
  assumes "\<forall>x \<in> set xs. \<forall>y \<in> set xs. lt x y = lt' x y"
  shows "sort_slice lt xs = sort_slice lt' xs"
  using assms
proof (induction xs)
  case (Cons x xs)
  then have "sort_slice lt xs = sort_slice lt' xs" by simp
  then show ?case using Cons.prems by (auto intro!: insert_by_cong)
qed simp

lemma access_less_order:
  assumes "two_actions es" and "l \<in> set es" and "r \<in> set es"
  shows "access_less l r = access_order l r"
proof -
  have "Action (ssh_Access l) \<in> {''accept'', ''check''}" "Action (ssh_Access r) \<in> {''accept'', ''check''}"
    using assms by (auto simp: two_actions_def)
  then show ?thesis by (auto simp: access_less_lex access_order_def lex_less_def)
qed

lemma sorted_users:
  assumes "two_actions es" and "distinct (map (\<lambda>e. User (ssh_Access e)) es)"
  shows "sorted_wrt (<) (map (\<lambda>e. User (ssh_Access e)) (sort_slice access_less es))"
proof -
  have "sort_slice access_less es = sort_slice access_order es"
    by (rule sort_slice_cong) (use access_less_order [OF assms(1)] in blast)
  moreover have "sorted (map (\<lambda>e. User (ssh_Access e)) (sort_slice access_order es))"
    using access_order.sorted_sort_slice [of es]
    by (auto simp: sorted_wrt_map access_order_def lex_less_def not_less elim!: sorted_wrt_mono_rel [rotated] split: if_splits)
  ultimately show ?thesis using assms(2) by (simp add: strict_sorted_iff)
qed

text \<open>The accounts the rules of the policy open on a machine, and the ones they open only after a check.\<close>

definition account_listed :: "Node \<Rightarrow> SSHRule list \<Rightarrow> string set \<Rightarrow> string set \<Rightarrow> string \<Rightarrow> string \<Rightarrow> bool" where
  "account_listed node rules ids roles login u \<longleftrightarrow>
     (\<exists>r \<in> set rules. applies node ids roles login r \<and> u \<in> set (ssh_Users r))"

definition account_checked :: "Node \<Rightarrow> SSHRule list \<Rightarrow> string set \<Rightarrow> string set \<Rightarrow> string \<Rightarrow> string \<Rightarrow> bool" where
  "account_checked node rules ids roles login u \<longleftrightarrow>
     (\<exists>r \<in> set rules. applies node ids roles login r \<and> u \<in> set (ssh_Users r) \<and> ssh_Action r = ''check'')"

lemma two_actions_candidates:
  assumes "\<forall>r \<in> set rules. ssh_Action r = ''accept'' \<or> ssh_Action r = ''check''"
  shows "two_actions (candidates node rules ids roles login)"
proof -
  have "Action (ssh_Access c) = ''accept'' \<or> Action (ssh_Access c) = ''check''"
    if "i < length rules" "c \<in> set (rule_access node ids roles login (i, rules ! i))" for c i
    using that assms rule_access_iff(1) [of c node ids roles login i "rules ! i"] by auto
  then show ?thesis
    unfolding two_actions_def candidates_def by (fastforce simp: in_set_enumerate_eq)
qed

text \<open>The entries that stay, read off the rules: the account, its action, and their order.\<close>

lemma evaluated_entries:
  "evaluateMachineSSHAccess node rules ids roles login
     = sort_slice access_less (map snd (drop_dominated (foldl offer_access [] (candidates node rules ids roles login))))"
  by (simp add: evaluateMachineSSHAccess_def access_by_user_candidates)

lemma offers_of_rules:
  "offers (candidates node rules ids roles login) u = account_listed node rules ids roles login u"
  "offers_check (candidates node rules ids roles login) u = account_checked node rules ids roles login u"
  by (simp_all add: offers_rules account_listed_def account_checked_def)

lemma evaluated_access_iff:
  assumes "two_actions (candidates node rules ids roles login)"
  shows "a \<in> set (map ssh_Access (evaluateMachineSSHAccess node rules ids roles login)) \<longleftrightarrow>
    (\<exists>u e. a = ssh_Access e \<and> map_of (foldl offer_access [] (candidates node rules ids roles login)) u = Some e
       \<and> \<not> drops (candidates node rules ids roles login) u)"
proof -
  let ?cs = "candidates node rules ids roles login" and ?m = "foldl offer_access [] (candidates node rules ids roles login)"
  have "e \<in> snd ` set (drop_dominated ?m) \<longleftrightarrow> (\<exists>u. map_of ?m u = Some e \<and> \<not> drops ?cs u)" for e
    using drop_dominated_entries [OF assms refl] by force
  then have "set (evaluateMachineSSHAccess node rules ids roles login) = {e. \<exists>u. map_of ?m u = Some e \<and> \<not> drops ?cs u}"
    unfolding evaluated_entries set_eq_iff mem_Collect_eq by simp
  then show ?thesis by auto
qed

lemma evaluated_accounts_sorted:
  assumes "two_actions (candidates node rules ids roles login)"
  shows "sorted_wrt (<) (map (\<lambda>e. User (ssh_Access e)) (evaluateMachineSSHAccess node rules ids roles login))"
proof -
  let ?m = "foldl offer_access [] (candidates node rules ids roles login)"
  note entries = drop_dominated_entries [OF assms refl] and some = offer_lookup(2) [OF assms]
  have "two_actions (map snd (drop_dominated ?m))"
    unfolding two_actions_def using entries some by auto
  moreover have "map (\<lambda>e. User (ssh_Access e)) (map snd (drop_dominated ?m)) = map fst (drop_dominated ?m)"
    using entries some by auto
  moreover have "gomap_wf (drop_dominated ?m)"
    using foldl_offer_access [OF assms] by (simp add: drop_dominated_def gomap_wf_filter split: option.split)
  ultimately show ?thesis
    unfolding evaluated_entries by (intro sorted_users) (assumption, simp only:)
qed

text \<open>
  C10: The accounts of a machine: with actions accept and check, an account is shown exactly when
  an applying rule lists it, unless it is a literal non-root account without a check of its own
  while every non-root account is checked. Its action is check if and only if some applying
  rule checks it, whatever the order of the rules, and the accounts come once each, sorted.
\<close>
theorem machine_access_exact:
  assumes "\<forall>r \<in> set rules. ssh_Action r = ''accept'' \<or> ssh_Action r = ''check''"
  shows "{(User a, Action a) | a. a \<in> set (map ssh_Access (evaluateMachineSSHAccess node rules ids roles login))} =
      {(u, if account_checked node rules ids roles login u then ''check'' else ''accept'') | u.
         account_listed node rules ids roles login u \<and>
         \<not> (u \<noteq> ''root'' \<and> u \<noteq> ''autogroup:nonroot'' \<and> \<not> account_checked node rules ids roles login u \<and>
            account_checked node rules ids roles login ''autogroup:nonroot'')} \<and>
    sorted_wrt (<) (map (\<lambda>e. User (ssh_Access e)) (evaluateMachineSSHAccess node rules ids roles login))"
    (is "?L = ?R \<and> _")
proof
  let ?cs = "candidates node rules ids roles login"
  have two: "two_actions ?cs" using assms by (rule two_actions_candidates)
  note none = offer_lookup(1) [OF two, unfolded offers_of_rules] and some = offer_lookup(2) [OF two, unfolded offers_of_rules]
  note shown = evaluated_access_iff [OF two]
  have drops: "drops ?cs u \<longleftrightarrow> u \<noteq> ''root'' \<and> u \<noteq> ''autogroup:nonroot''
      \<and> account_checked node rules ids roles login ''autogroup:nonroot'' \<and> \<not> account_checked node rules ids roles login u" for u
    by (simp add: drops_def offers_of_rules nonroot_def)
  show "?L = ?R"
  proof (intro set_eqI iffI)
    fix x assume "x \<in> ?L"
    then obtain u e where "x = (User (ssh_Access e), Action (ssh_Access e))" "map_of (foldl offer_access [] ?cs) u = Some e" "\<not> drops ?cs u"
      using shown by auto
    with some [of u e] none [of u] drops [of u] show "x \<in> ?R" by auto
  next
    fix x assume "x \<in> ?R"
    then obtain u where u: "x = (u, if account_checked node rules ids roles login u then ''check'' else ''accept'')"
        "account_listed node rules ids roles login u" "\<not> drops ?cs u"
      unfolding drops by blast
    with none obtain e where e: "map_of (foldl offer_access [] ?cs) u = Some e"
      by (cases "map_of (foldl offer_access [] ?cs) u") auto
    with u(3) have "ssh_Access e \<in> set (map ssh_Access (evaluateMachineSSHAccess node rules ids roles login))"
      unfolding shown by blast
    with some [OF e] u(1) show "x \<in> ?L" by (intro CollectI exI [of _ "ssh_Access e"]) simp
  qed
  show "sorted_wrt (<) (map (\<lambda>e. User (ssh_Access e)) (evaluateMachineSSHAccess node rules ids roles login))"
    by (rule evaluated_accounts_sorted [OF two])
qed

text \<open>An evaluated access: two rules list one account, one of them with a check.\<close>

definition sample_node :: Node where
  "sample_node = \<lparr>node_ID = ''n1'', node_Name = ''db.tail1.ts.net'', OwnerLogin = ''alice@example.com'', Tags = [''tag:db''],
     Addresses = [''100.64.0.9'']\<rparr>"

definition sample_ssh_rule :: "string \<Rightarrow> string \<Rightarrow> SSHRule" where
  "sample_ssh_rule user action = \<lparr>ssh_Action = action, ssh_Src = [''group:ops''], ssh_Dst = [''tag:db''], ssh_Users = [user],
     ssh_CheckPeriod = 0\<rparr>"

definition sample_ssh_rules :: "SSHRule list" where
  "sample_ssh_rules = [sample_ssh_rule ''root'' ''accept'', sample_ssh_rule ''deploy'' ''accept'', sample_ssh_rule nonroot ''check'',
     sample_ssh_rule ''root'' ''check'']"

lemma machine_access_exact_witness:
  "(''root'', ''check'') \<in> {(User a, Action a) | a.
      a \<in> set (map ssh_Access (evaluateMachineSSHAccess sample_node sample_ssh_rules {''group:ops''} {} ''bob@example.com''))}"
proof -
  have "\<forall>r \<in> set sample_ssh_rules. ssh_Action r = ''accept'' \<or> ssh_Action r = ''check''"
    by (simp add: sample_ssh_rules_def sample_ssh_rule_def)
  from machine_access_exact [OF this, THEN conjunct1] show ?thesis
    by (simp only: mem_Collect_eq)
      (simp add: account_listed_def account_checked_def applies_def sample_ssh_rules_def sample_ssh_rule_def sample_node_def has_prefix_def)
qed

section \<open>The machines of an identity\<close>

text \<open>
  The specification: the device reported SSH and has a name to reach it by, an SSH rule applies and
  lists an account, and a Grant that opens TCP port 22 reaches one of its tailnet addresses.
\<close>

definition grant_reaches :: "Node \<Rightarrow> string set \<Rightarrow> string set \<Rightarrow> matchContext \<Rightarrow> accessRule \<Rightarrow> bool" where
  "grant_reaches node ids roles mc rule \<longleftrightarrow> rule_permitsTCP rule 22 \<and>
     (\<exists>s \<in> set (rule_Src rule). s = ''*'' \<or> s \<in> ids \<or> (rule_Kind rule = RuleGrant \<and> s \<in> roles)) \<and>
     (\<exists>raw \<in> set (Addresses node). \<exists>a. tailscaleMachineAddress raw = Some a \<and> (\<exists>t \<in> set (rule_Dst rule). matchDst t a mc))"

definition machine_open :: "CacheData \<Rightarrow> Policy \<Rightarrow> string \<Rightarrow> string set \<Rightarrow> Node \<Rightarrow> bool" where
  "machine_open d p login roles node \<longleftrightarrow> machineSSHCapable (node_ID node) (Some d) \<and>
     (\<exists>r \<in> set (Rules (SSH p)). applies node (buildSSHIdentitySet login (Some p)) roles login r \<and> ssh_Users r \<noteq> []) \<and>
     (\<exists>g \<in> set (Grants p). grant_reaches node (buildSSHIdentitySet login (Some p)) roles
        (buildMatchContext login p (cd_Nodes d)) (grant_access_rule 0 g))"

lemma grant_addresses_iff:
  "grant_addresses rule raws mc \<noteq> None \<longleftrightarrow>
     (\<exists>raw \<in> set raws. \<exists>a. tailscaleMachineAddress raw = Some a \<and> (\<exists>t \<in> set (rule_Dst rule). matchDst t a mc))"
proof (induction raws)
  case (Cons raw raws)
  show ?case
  proof (cases "tailscaleMachineAddress raw")
    case None
    with Cons.IH show ?thesis by simp
  next
    case (Some a)
    show ?thesis
      using Cons.IH destinationGrant_iff [of "rule_Dst rule" a mc]
      by (cases "destinationGrant (rule_Dst rule) a mc") (simp_all add: Some)
  qed
qed simp

lemma machine_grants_iff:
  "machine_grants node ids roles mc i gs \<noteq> None \<longleftrightarrow> (\<exists>g \<in> set gs. grant_reaches node ids roles mc (grant_access_rule 0 g))"
proof (induction gs arbitrary: i)
  case (Cons g gs)
  have idx: "rule_permitsTCP (grant_access_rule i g) 22 = rule_permitsTCP (grant_access_rule 0 g) 22"
    "sourceGrantForRule (grant_access_rule i g) ids roles = sourceGrantForRule (grant_access_rule 0 g) ids roles"
    "rule_Dst (grant_access_rule i g) = rule_Dst (grant_access_rule 0 g)"
    "grant_addresses (grant_access_rule i g) raws mc = grant_addresses (grant_access_rule 0 g) raws mc" for raws
    by (simp_all add: grant_access_rule_def rule_permitsTCP_def sourceGrantForRule_def)
       (induction raws; simp add: grant_access_rule_def split: option.split)
  have "grant_reaches node ids roles mc (grant_access_rule 0 g) \<longleftrightarrow> rule_permitsTCP (grant_access_rule 0 g) 22 \<and>
      sourceGrantForRule (grant_access_rule 0 g) ids roles \<noteq> None \<and> grant_addresses (grant_access_rule 0 g) (Addresses node) mc \<noteq> None"
    by (simp only: grant_reaches_def sourceGrantForRule_iff grant_addresses_iff)
  then show ?case
    using Cons.IH [of "Suc i"]
    by (cases "sourceGrantForRule (grant_access_rule 0 g) ids roles";
        cases "grant_addresses (grant_access_rule 0 g) (Addresses node) mc") (simp_all add: idx Let_def)
qed simp

lemma access_empty_iff:
  "evaluateMachineSSHAccess node rules ids roles login = [] \<longleftrightarrow>
     \<not> (\<exists>r \<in> set rules. applies node ids roles login r \<and> ssh_Users r \<noteq> [])"
proof -
  have put: "offer_access m c \<noteq> []" for m c
    by (cases m) (auto simp: offer_access_def gomap_put_def Let_def split: option.split)
  have "foldl offer_access [] cs = [] \<longleftrightarrow> cs = []" for cs
    by (cases cs rule: rev_cases) (simp_all add: put)
  moreover have "sort_slice lt xs = [] \<longleftrightarrow> xs = []" for lt and xs :: "machineSSHAccessEvidence list"
    by (simp flip: length_0_conv)
  ultimately have "evaluateMachineSSHAccess node rules ids roles login = [] \<longleftrightarrow> candidates node rules ids roles login = []"
    by (simp add: evaluateMachineSSHAccess_def access_by_user_candidates drop_dominated_nonempty)
  also have "\<dots> \<longleftrightarrow> \<not> (\<exists>u. offers (candidates node rules ids roles login) u)"
    by (cases "candidates node rules ids roles login") (auto simp: offers_def)
  finally show ?thesis unfolding offers_rules by (metis ex_in_conv set_empty)
qed

lemma machine_match_iff:
  "(\<exists>e. machine_match d p login (buildSSHIdentitySet login (Some p)) roles (buildMatchContext login p (cd_Nodes d)) node = Some e \<and>
      mcard_ID (mm_Card e) = i \<and> Target (mm_Card e) = t) \<longleftrightarrow>
     machine_open d p login roles node \<and> machineTarget node = Some t \<and> i = node_ID node"
  unfolding machine_match_def machine_open_def
  using access_empty_iff [of node "Rules (SSH p)" "buildSSHIdentitySet login (Some p)" roles login]
    machine_grants_iff [of node "buildSSHIdentitySet login (Some p)" roles "buildMatchContext login p (cd_Nodes d)" 0 "Grants p"]
  by (cases "machineSSHCapable (node_ID node) (Some d)"; cases "machineTarget node")
    (auto simp: Let_def machineGrantEvidence_def split: option.split)

text \<open>
  C2: The machines shown are exactly the ones the specification opens: with a Tailscale snapshot
  whose SSH policy is supported and an exact login whose roles are known, a machine is on the
  list if and only if it reported SSH, has a target, an SSH rule lists an account for the identity on it
  and a Grant lets the identity reach TCP port 22 of one of its tailnet addresses; in every other
  case the list is empty.
\<close>
theorem MatchMachines_exact:
  "{(mcard_ID c, Target c) | c. c \<in> set (MatchMachines identity data)} =
     {(node_ID node, t) | node t. \<exists>i d p roles. identity = Some i \<and> data = Some d \<and> machineProjectionAvailable data \<and>
        cd_Policy d = Some p \<and> exactSSHLogin (trim_space (Login i)) \<and>
        map_of (GrantRoleSelectorsByLogin d) (trim_space (Login i)) = Some roles \<and>
        node \<in> set (cd_Nodes d) \<and> machineTarget node = Some t \<and> machine_open d p (trim_space (Login i)) (set roles) node}"
proof (cases "\<exists>i d p roles. identity = Some i \<and> data = Some d \<and> machineProjectionAvailable data \<and>
        cd_Policy d = Some p \<and> exactSSHLogin (trim_space (Login i)) \<and>
        map_of (GrantRoleSelectorsByLogin d) (trim_space (Login i)) = Some roles")
  case False
  then have "MatchMachines identity data = []"
    by (auto simp: MatchMachines_def evaluateMachines_def Let_def split: option.splits)
  with False show ?thesis by auto
next
  case True
  then obtain i d p roles where c: "identity = Some i" "data = Some d" "machineProjectionAvailable data" "cd_Policy d = Some p"
    "exactSSHLogin (trim_space (Login i))" "map_of (GrantRoleSelectorsByLogin d) (trim_space (Login i)) = Some roles"
    by blast
  let ?l = "trim_space (Login i)"
  let ?f = "machine_match d p ?l (buildSSHIdentitySet ?l (Some p)) (set roles) (buildMatchContext ?l p (cd_Nodes d))"
  have "set (List.map_filter f xs) = {y. \<exists>x \<in> set xs. f x = Some y}" for f :: "Node \<Rightarrow> machineMatchEvidence option" and xs
    by (force simp: map_filter_def)
  with c have "set (MatchMachines identity data) = mm_Card ` {e. \<exists>node \<in> set (cd_Nodes d). ?f node = Some e}"
    by (simp add: MatchMachines_def evaluateMachines_def Let_def)
  then have "(k, t) \<in> {(mcard_ID c, Target c) | c. c \<in> set (MatchMachines identity data)} \<longleftrightarrow>
      (\<exists>node \<in> set (cd_Nodes d). \<exists>e. ?f node = Some e \<and> mcard_ID (mm_Card e) = k \<and> Target (mm_Card e) = t)" for k t
    by (simp only:) blast
  then show ?thesis
    unfolding set_eq_iff split_paired_All machine_match_iff using c by auto
qed

section \<open>The console link\<close>

lemma index_byte_takeWhile: "index_byte s c = Some i \<Longrightarrow> take i s = takeWhile (\<lambda>x. x \<noteq> c) s"
  by (induction s arbitrary: i) (auto split: if_splits)

lemma normalized_target:
  assumes "normalizeMachineTargetName raw = Some t"
  shows "validateServiceHealthHost t" and "\<not> has_suffix t ''.''" and "has_suffix t ''.ts.net''"
    and "3 \<le> count_byte t (CHR ''.'')" and "to_lower t = t"
  using assms by (auto simp: normalizeMachineTargetName_def Let_def not_less split: if_splits)

lemma machine_label:
  assumes "normalizeMachineTargetName raw = Some t" and "normalizeMachineTargetName t = Some t"
  shows "machineShortName t = Some (takeWhile (\<lambda>c. c \<noteq> CHR ''.'') t)"
proof -
  note n = normalized_target [OF assms(1)]
  have "CHR ''.'' \<in> set t" using n(4) by (auto simp: count_byte_def count_list_0_iff [symmetric] intro: ccontr)
  then obtain i where i: "index_byte t (CHR ''.'') = Some i"
    using index_byte_None_iff [of t "CHR ''.''"] by (cases "index_byte t (CHR ''.'')") auto
  have "takeWhile (\<lambda>c. c \<noteq> CHR ''.'') t \<noteq> []"
  proof
    assume "takeWhile (\<lambda>c. c \<noteq> CHR ''.'') t = []"
    then have "t = [] \<or> (\<exists>s. t = CHR ''.'' # s)" by (cases t) (auto split: if_splits)
    then show False using n(1) by (auto simp: validateServiceHealthHost_def valid_host_label_def split: if_splits)
  qed
  with assms(2) i show ?thesis by (simp add: machineShortName_def cut_byte_def index_byte_takeWhile)
qed

lemma escape_label:
  assumes "\<forall>c \<in> set l. host_char c"
  shows "escape EncodeQuery (l @ r) = l @ escape EncodeQuery r"
proof -
  have "escape_char EncodeQuery c = [c]" if "host_char c" for c
    using that by (auto simp: host_char_def escape_char_def should_escape_def is_alnum_def)
  with assms show ?thesis by (induction l) (auto simp: escape_def)
qed

lemma escape_property: "escape EncodeQuery '' property:tailscale-ssh'' = ''+property%3Atailscale-ssh''"
  by code_simp

text \<open>
  The name of a machine is a fixed point of its normalisation, and the console link built
  from it is the fixed Machines page with the first label as the search: nothing in a name
  can add a parameter, a path or another host to the link.
\<close>
theorem machine_console_link:
  assumes "normalizeMachineTargetName raw = Some t"
  shows "normalizeMachineTargetName t = Some t \<and>
    machineConsoleURL t = Some (console_url @ ''?q='' @ takeWhile (\<lambda>c. c \<noteq> CHR ''.'') t @ ''+property%3Atailscale-ssh'')"
proof
  note n = normalized_target [OF assms]
  note b = valid_host_bytes [OF n(1)]
  have "trim_space t = t" "to_lower t = t" using n(1) by (auto simp: validateServiceHealthHost_def split: if_splits)
  moreover have "list_all is_ascii t" using b(3) host_char_plain(1) by (auto simp: list_all_iff)
  ultimately show self: "normalizeMachineTargetName t = Some t"
    using n b(1) by (simp add: normalizeMachineTargetName_def trim_suffix_def)
  have "\<forall>c \<in> set (takeWhile (\<lambda>c. c \<noteq> CHR ''.'') t). host_char c"
    using b(3) by (meson set_takeWhileD)
  then show "machineConsoleURL t = Some (console_url @ ''?q='' @ takeWhile (\<lambda>c. c \<noteq> CHR ''.'') t @ ''+property%3Atailscale-ssh'')"
    by (simp add: machineConsoleURL_def self machine_label [OF assms self] escape_label escape_property)
qed

lemma sample_target: "normalizeMachineTargetName ''DB.tail1.ts.net.'' = Some ''db.tail1.ts.net''"
proof -
  have low: "to_lower (trim_suffix ''DB.tail1.ts.net.'' ''.'') = ''db.tail1.ts.net''" by code_simp
  have "parse_addr ''db.tail1.ts.net'' = None"
    by (simp add: parse_addr_def parse_v4_fields_def parse_octet_def parse_digits_def is_digit_def)
  moreover have "list_all valid_host_label (split_byte (CHR ''.'') ''db.tail1.ts.net'')" by code_simp
  moreover have "trim_space ''db.tail1.ts.net'' = ''db.tail1.ts.net''" "to_lower ''db.tail1.ts.net'' = ''db.tail1.ts.net''"
    "\<not> has_suffix ''db.tail1.ts.net'' ''.''" "\<not> contains_control ''db.tail1.ts.net''" by code_simp+
  ultimately have "validateServiceHealthHost ''db.tail1.ts.net''" by (simp add: validateServiceHealthHost_def)
  moreover have "trim_space ''DB.tail1.ts.net.'' = ''DB.tail1.ts.net.''" "list_all is_ascii ''DB.tail1.ts.net.''"
    "has_suffix ''db.tail1.ts.net'' ''.ts.net''" "\<not> has_suffix ''db.tail1.ts.net'' ''.''"
    "\<not> count_byte ''db.tail1.ts.net'' (CHR ''.'') < 3" by code_simp+
  ultimately show ?thesis by (simp add: normalizeMachineTargetName_def low Let_def)
qed

lemma machine_console_link_witness:
  "machineConsoleURL ''db.tail1.ts.net'' =
     Some ''https://console.tailscale.com/admin/machines?q=db+property%3Atailscale-ssh''"
  using machine_console_link [OF sample_target] by (simp add: console_url_def)

end
