(* ===== verification/Go_Flag.thy ===== *)
theory Go_Flag
  imports Go_Strings Portal_Prelude
begin

text \<open>
  \<open>flag.FlagSet.Parse\<close> with \<open>ContinueOnError\<close>: each flag has a setter of the options, which may refuse the value;
  the arguments after the flags are left over. Any error is an error of the command line.
\<close>

datatype 'o flag = ValueFlag string "string \<Rightarrow> 'o \<Rightarrow> 'o option" | BoolFlag string "string \<Rightarrow> 'o \<Rightarrow> 'o option"

fun flag_name :: "'o flag \<Rightarrow> string" where
  "flag_name (ValueFlag n f) = n"
| "flag_name (BoolFlag n f) = n"

text \<open>The name and the value after the first equals sign behind its first byte.\<close>

definition split_flag :: "string \<Rightarrow> string \<times> string option" where
  "split_flag name = (case index_byte (drop 1 name) (CHR ''='') of
     None \<Rightarrow> (name, None) | Some i \<Rightarrow> (take (Suc i) name, Some (drop (Suc (Suc i)) name)))"

text \<open>An argument: a flag with its text, or where the flags end, and whether the argument itself is consumed.\<close>

datatype flag_arg = FlagText string | FlagsEnd bool | FlagSyntax

definition flag_arg_of :: "string \<Rightarrow> flag_arg" where
  "flag_arg_of s =
     (if length s < 2 \<or> hd s \<noteq> CHR ''-'' then FlagsEnd False
      else if s = ''--'' then FlagsEnd True
      else (let name = (if s ! 1 = CHR ''-'' then drop 2 s else drop 1 s) in
        if name = [] \<or> hd name = CHR ''-'' \<or> hd name = CHR ''='' then FlagSyntax else FlagText name))"

fun parse_flags :: "'o flag list \<Rightarrow> 'o \<Rightarrow> string list \<Rightarrow> ('o \<times> string list) option" where
  "parse_flags flags o' [] = Some (o', [])"
| "parse_flags flags o' (s # args) = (case flag_arg_of s of
     FlagsEnd consumed \<Rightarrow> Some (o', if consumed then args else s # args)
   | FlagSyntax \<Rightarrow> None
   | FlagText t \<Rightarrow> (case split_flag t of (name, v) \<Rightarrow>
       (case find (\<lambda>f. flag_name f = name) flags of
          None \<Rightarrow> None
        | Some (BoolFlag n setter) \<Rightarrow>
            (case setter (case v of Some x \<Rightarrow> x | None \<Rightarrow> ''true'') o' of None \<Rightarrow> None | Some o'' \<Rightarrow> parse_flags flags o'' args)
        | Some (ValueFlag n setter) \<Rightarrow>
            (case v of
               Some x \<Rightarrow> (case setter x o' of None \<Rightarrow> None | Some o'' \<Rightarrow> parse_flags flags o'' args)
             | None \<Rightarrow> (case args of [] \<Rightarrow> None | x # args' \<Rightarrow>
                 (case setter x o' of None \<Rightarrow> None | Some o'' \<Rightarrow> parse_flags flags o'' args'))))))"

text \<open>A setter that refuses an empty value.\<close>

definition required_text :: "(string \<Rightarrow> 'o \<Rightarrow> 'o) \<Rightarrow> string \<Rightarrow> 'o \<Rightarrow> 'o option" where
  "required_text upd v o' = (if trim_space v = [] then None else Some (upd v o'))"

definition is_help :: "string \<Rightarrow> bool" where
  "is_help arg \<longleftrightarrow> arg = ''-h'' \<or> arg = ''--help''"

text \<open>
  What the commands share: help alone, help among other arguments, flags, and no argument left over.
\<close>

datatype 'o command_line = ShowHelp | BadUsage | Options 'o

definition command_line :: "'o flag list \<Rightarrow> 'o \<Rightarrow> string list \<Rightarrow> 'o command_line" where
  "command_line flags zero args =
     (if length args = 1 \<and> is_help (hd args) then ShowHelp
      else if list_ex is_help args then BadUsage
      else (case parse_flags flags zero args of None \<Rightarrow> BadUsage
        | Some (o', rest) \<Rightarrow> if rest \<noteq> [] then BadUsage else Options o'))"

end
