(* ===== verification/Doctor.thy ===== *)
theory Doctor
  imports Stack_Env File_Load Editor Suggestions Service_Health Machines Go_Flag
begin

text \<open>
  The diagnostics (\<open>doctor.go\<close>): every step from the options to the previews, with its report and the exit code.
  The error texts are left out; their redaction is the theory \<open>Redact\<close>.
\<close>

section \<open>The coverage of the joins\<close>

definition doctor_context :: "Policy \<Rightarrow> Node list \<Rightarrow> matchContext" where
  "doctor_context p nodes =
     \<lparr>mc_hosts = Hosts p,
      mc_tagIPs = foldl (\<lambda>m node. foldl (add_tag_ips node) m (nodeTags node)) [] nodes,
      mc_selfIPs = concat (map Addresses nodes)\<rparr>"

definition doctorProxyHostHasSupportedJoin :: "ProxyHost \<Rightarrow> Policy \<Rightarrow> matchContext \<Rightarrow> bool" where
  "doctorProxyHostHasSupportedJoin ph policy mc \<longleftrightarrow>
     list_ex (\<lambda>rule. rule_permitsTCP rule (ForwardPort ph) \<and> list_ex (\<lambda>d. matchDst (stripPort d) (ForwardHost ph) mc) (rule_Dst rule))
       (accessRules (Some policy))"

text \<open>A domain that is not joined, with the forward host; sorted by both letter cases of the domain, then by the host.\<close>

definition unmatched_less :: "string \<times> string \<Rightarrow> string \<times> string \<Rightarrow> bool" where
  "unmatched_less l r =
     (if to_lower (fst l) \<noteq> to_lower (fst r) then to_lower (fst l) < to_lower (fst r)
      else if fst l \<noteq> fst r then fst l < fst r else snd l < snd r)"

definition doctorJoinCoverage :: "CacheData option \<Rightarrow> nat \<times> nat \<times> (string \<times> string) list" where
  "doctorJoinCoverage snapshot =
     (case snapshot of None \<Rightarrow> (0, 0, []) | Some d \<Rightarrow> (case cd_Policy d of None \<Rightarrow> (0, 0, []) | Some p \<Rightarrow>
       (let hosts = filter (\<lambda>ph. Enabled ph \<and> DomainNames ph \<noteq> []) (cd_ProxyHosts d);
            joined = (\<lambda>ph. doctorProxyHostHasSupportedJoin ph p (doctor_context p (cd_Nodes d))) in
        (length (filter joined hosts), length hosts,
         sort_slice unmatched_less (concat (map (\<lambda>ph. map (\<lambda>dom. (dom, ForwardHost ph)) (DomainNames ph)) (filter (\<lambda>ph. \<not> joined ph) hosts)))))))"

definition reportDoctorJoinCoverage :: "CacheData option \<Rightarrow> report" where
  "reportDoctorJoinCoverage snapshot = (case doctorJoinCoverage snapshot of (matched, evaluated, unmatched) \<Rightarrow>
     (if evaluated \<noteq> 0 \<and> matched = evaluated then Pass else Warn, ''supported join coverage'') # map (\<lambda>_. (Warn, ''unmatched join'')) unmatched)"

section \<open>The previews\<close>

text \<open>\<open>doctorIdentityFlags.Set\<close>.\<close>

definition doctor_identity :: "string \<Rightarrow> string option" where
  "doctor_identity raw = (let identity = trim_space raw in
     if identity = [] then None
     else if list_ex forbidden_byte identity then None
     else if rune_count identity > 320 then None
     else Some identity)"

definition preview_identity :: "string \<Rightarrow> Identity option" where
  "preview_identity login = Some \<lparr>Login = login, id_Name = [], ProfilePic = []\<rparr>"

text \<open>A card is printed as its domain, URL and link state, and whether the proxy manager reports the route online.\<close>

definition npmRouteOnline :: "CacheData option \<Rightarrow> int \<Rightarrow> bool" where
  "npmRouteOnline snapshot host_id = (case snapshot of None \<Rightarrow> False
     | Some d \<Rightarrow> (case find (\<lambda>ph. ph_ID ph = host_id) (cd_ProxyHosts d) of None \<Rightarrow> False | Some ph \<Rightarrow> NginxOnline ph))"

definition identity_preview :: "CacheData option \<Rightarrow> string \<Rightarrow> report" where
  "identity_preview snapshot login =
     [(if MatchServices (preview_identity login) snapshot = [] then Warn else Pass, ''identity preview'')] @
     (if \<not> machineProjectionAvailable snapshot then []
      else [(if MatchMachines (preview_identity login) snapshot = [] then Warn else Pass, ''machine preview'')])"

definition reportDoctorIdentityPreviews :: "string list \<Rightarrow> CacheData option \<Rightarrow> report" where
  "reportDoctorIdentityPreviews identities snapshot =
     (if identities = [] then [(Warn, ''identity previews'')] else concat (map (identity_preview snapshot) identities))"

section \<open>Links and health\<close>

definition reportDoctorServiceLinks :: "CacheData option \<Rightarrow> report" where
  "reportDoctorServiceLinks snapshot =
     (let metadata = (case snapshot of None \<Rightarrow> None | Some d \<Rightarrow> cd_ServiceMetadata d) in
      (case eligibleHostnameSuggestionHosts snapshot metadata of Inl _ \<Rightarrow> [(Warn, ''service link eligibility'')]
       | Inr eligible \<Rightarrow> [(if eligible \<noteq> [] then Warn else Pass, ''service link eligibility'')]) @
      (case snapshot of None \<Rightarrow> [] | Some d \<Rightarrow>
         if concreteDomainServiceMetadataURLOverrideCount metadata (cd_ProxyHosts d) > 0
         then [(Warn, ''service metadata URL precedence'')] else []))"

definition health_line :: "ServiceHealthStore \<Rightarrow> int \<Rightarrow> ServiceHealthService \<Rightarrow> level \<times> string" where
  "health_line store now s =
     (let result = (case store_get store now (hs_ProxyHostID s) of Some r \<Rightarrow> r | None \<Rightarrow> unknown_result (hs_ProxyHostID s)) in
      (if hr_State result = HealthReachable then Pass else Warn, ''service health target''))"

definition reportDoctorServiceHealth :: "cycle_env \<Rightarrow> int \<Rightarrow> Config \<Rightarrow> ServiceHealthConfig \<Rightarrow> CacheData \<Rightarrow> report" where
  "reportDoctorServiceHealth env now cfg c snapshot =
     (case runCycle env (serviceHealthProtectedURLs (Some cfg)) (Some snapshot) (Inr (Some c) :: unit + ServiceHealthConfig option) None of
        (_, store, _) \<Rightarrow> map (health_line store now) (hc_Services c) @ [(Pass, ''service health summary'')])"

section \<open>The command\<close>

text \<open>
  What the diagnostics look at: the process environment, the files as environment files and as documents, the
  mode of a file (whether it is regular, and its permissions), the disk of the editor, the upstream servers and
  the clock, the network of the probes and the time after them.
\<close>

record doctor_world =
  dw_env :: "string \<Rightarrow> string option"
  dw_file :: "string \<Rightarrow> string option"
  dw_mode :: "string \<Rightarrow> (bool \<times> 9 word) option"
  dw_document :: "string \<Rightarrow> disk_file"
  dw_editor :: editor_fs
  dw_server :: server
  dw_clock :: clock
  dw_cycle :: cycle_env
  dw_now :: int

record doctor_options =
  do_env_file :: string
  do_stack :: string
  do_identities :: "string list"

definition doctor_flags :: "doctor_options flag list" where
  "doctor_flags =
     [ValueFlag ''env-file'' (required_text (\<lambda>v o'. o'\<lparr>do_env_file := v\<rparr>)), ValueFlag ''stack-env'' (required_text (\<lambda>v o'. o'\<lparr>do_stack := v\<rparr>)),
      ValueFlag ''identity'' (\<lambda>v o'. map_option (\<lambda>i. o'\<lparr>do_identities := do_identities o' @ [i]\<rparr>) (doctor_identity v))]"

text \<open>The settings: those of the process, or of a file that only its owner may touch.\<close>

definition doctor_source :: "doctor_world \<Rightarrow> string \<Rightarrow> report \<times> configLookup option" where
  "doctor_source w path =
     (if path = [] then ([(Pass, ''config source''), (Pass, ''env file mode'')], Some (processConfigLookup (dw_env w)))
      else (case (case dw_file w path of None \<Rightarrow> None | Some s \<Rightarrow> (case parseEnvFile s of Inl _ \<Rightarrow> None | Inr vals \<Rightarrow> Some vals)) of
        None \<Rightarrow> ([(Fail, ''config source'')], None)
      | Some vals \<Rightarrow> (case dw_mode w path of
          None \<Rightarrow> ([(Pass, ''config source''), (Fail, ''env file mode'')], None)
        | Some (regular, permissions) \<Rightarrow>
            if \<not> regular \<or> permissions AND 0x3F \<noteq> 0 then ([(Pass, ''config source''), (Fail, ''env file mode'')], None)
            else ([(Pass, ''config source''), (Pass, ''env file mode'')], Some (\<lambda>key. case mapConfigLookup vals key of
              None \<Rightarrow> ([], False, False) | Some v \<Rightarrow> (v, True, False))))))"

text \<open>The Compose variables on top of the settings, when their file is given.\<close>

definition doctor_stack :: "doctor_world \<Rightarrow> string \<Rightarrow> configLookup \<Rightarrow> report \<times> configLookup option" where
  "doctor_stack w path lookup =
     (if path = [] then ([], Some lookup)
      else (case runDoctorStackEnvChecks (dw_file w path) (Some lookup) (Some (processConfigLookup (dw_env w))) of
        (ls, proxy, failed) \<Rightarrow> (ls, if failed then None else Some (doctorStackEnvConfigLookup lookup proxy))))"

definition doctor_config :: "configLookup \<Rightarrow> report \<times> Config option" where
  "doctor_config lookup = (case loadConfigFrom lookup of Inl _ \<Rightarrow> ([(Fail, ''config'')], None)
     | Inr cfg \<Rightarrow>
        ([(Pass, ''config''), (if ControlPlaneExplicit cfg then Pass else Warn, ''control plane selection'')] @
         (if InactiveControlPlaneKeys cfg \<noteq> [] then [(Warn, ''inactive control-plane configuration'')] else []) @
         reportDoctorSingleAddressCIDR ''trusted proxy CIDR'' (TrustedProxyCIDR cfg) @
         (if ControlPlane cfg = Headscale \<and> classifyHeadscaleTransport (HeadscaleURL cfg) = TransportRestrictedHTTP
          then [(Warn, ''Headscale HTTP route'')] else []), Some cfg))"

definition doctor_metadata :: "doctor_world \<Rightarrow> Config \<Rightarrow> report \<times> ServiceMetadata option" where
  "doctor_metadata w cfg = (case serviceMetadataLoaderForPath (dw_document w) (ServiceMetadataFile cfg) of
     Inl _ \<Rightarrow> ([(Fail, ''service metadata''), (Fail, ''snapshot'')], None)
   | Inr metadata \<Rightarrow> ([(Pass, ''service metadata'')], Some metadata))"

definition doctor_editor :: "doctor_world \<Rightarrow> Config \<Rightarrow> report \<times> bool" where
  "doctor_editor w cfg = (case ServiceMetadataEditor cfg of None \<Rightarrow> ([(Pass, ''service editor'')], False)
     | Some c \<Rightarrow>
        if \<not> inspectServiceMetadataEditorStorage (dw_editor w) (ServiceMetadataFile cfg) c then ([(Fail, ''service editor'')], True)
        else ([(Pass, ''service editor''), (Warn, ''service editor'')], False))"

text \<open>A broken health configuration is reported, but the diagnostics go on.\<close>

definition doctor_health :: "doctor_world \<Rightarrow> Config \<Rightarrow> report \<times> ServiceHealthConfig option" where
  "doctor_health w cfg = (case serviceHealthConfigLoaderForPath (dw_document w) (ServiceHealthFile cfg) of
     Inl _ \<Rightarrow> ([(Fail, ''service health configuration'')], None)
   | Inr c \<Rightarrow> ([(Pass, ''service health configuration'')], Some c))"

text \<open>The stages of a load in their order; the ones before a failure are reported as passed.\<close>

fun load_stages :: "controlPlaneProvider \<Rightarrow> snapshotLoadStage list" where
  "load_stages Headscale = [SnapshotHeadscalePolicy, SnapshotHeadscaleNodes, SnapshotNPMAuth, SnapshotNPMProxyHosts]"
| "load_stages Tailscale = [SnapshotTailscaleOAuth, SnapshotTailscalePolicy, SnapshotTailscaleUsers, SnapshotTailscaleDevices,
     SnapshotNPMAuth, SnapshotNPMProxyHosts]"

fun is_proxy_stage :: "snapshotLoadStage \<Rightarrow> bool" where
  "is_proxy_stage SnapshotNPMAuth = True"
| "is_proxy_stage SnapshotNPMProxyHosts = True"
| "is_proxy_stage _ = False"

definition passed_stages :: "controlPlaneProvider \<Rightarrow> snapshotLoadError \<Rightarrow> snapshotLoadStage list" where
  "passed_stages provider e =
     (if sle_Stage e = SnapshotControlPlane
      then (if sle_Err e = CauseIncomplete then filter (\<lambda>s. \<not> is_proxy_stage s) (load_stages provider) else [])
      else takeWhile (\<lambda>s. s \<noteq> sle_Stage e) (load_stages provider))"

fun stage_label :: "snapshotLoadStage \<Rightarrow> string" where
  "stage_label SnapshotHeadscalePolicy = ''Headscale policy''"
| "stage_label SnapshotHeadscaleNodes = ''Headscale nodes''"
| "stage_label SnapshotTailscaleOAuth = ''Tailscale OAuth''"
| "stage_label SnapshotTailscalePolicy = ''Tailscale policy''"
| "stage_label SnapshotTailscaleUsers = ''Tailscale users''"
| "stage_label SnapshotTailscaleDevices = ''Tailscale devices''"
| "stage_label SnapshotControlPlane = ''control plane''"
| "stage_label SnapshotServiceMetadata = ''service metadata''"
| "stage_label SnapshotNPMAuth = ''NPM authentication''"
| "stage_label SnapshotNPMProxyHosts = ''NPM proxy hosts''"

definition stage_lines :: "snapshotLoadStage list \<Rightarrow> report" where
  "stage_lines stages = map (\<lambda>s. (Pass, stage_label s)) stages"

definition doctor_snapshot :: "doctor_world \<Rightarrow> Config \<Rightarrow> ServiceMetadata \<Rightarrow> report \<times> CacheData option" where
  "doctor_snapshot w cfg metadata =
     (case loadSnapshot (dw_server w) (dw_clock w) (newUpstreamClients cfg) [] of
        (Inl e, _) \<Rightarrow>
          (stage_lines (passed_stages (ControlPlane cfg) e) @ [(Fail, stage_label (sle_Stage e)), (Fail, ''snapshot'')], None)
      | (Inr d, _) \<Rightarrow>
          if cd_Policy d = None then (stage_lines (load_stages (ControlPlane cfg)) @ [(Fail, ''snapshot'')], None)
          else (stage_lines (load_stages (ControlPlane cfg)) @ [(Pass, ''snapshot'')],
                Some (d\<lparr>cd_ServiceMetadata := Some metadata\<rparr>)))"

definition doctor_previews :: "doctor_world \<Rightarrow> Config \<Rightarrow> string list \<Rightarrow> ServiceHealthConfig option \<Rightarrow> CacheData \<Rightarrow> report" where
  "doctor_previews w cfg identities healthConfig d =
     (if unmatchedServiceMetadataCount (cd_ServiceMetadata d) (cd_ProxyHosts d) > 0 then [(Warn, ''service metadata targets'')] else []) @
     reportDoctorServiceLinks (Some d) @ [(Pass, ''control plane metadata'')] @
     (case cd_Policy d of None \<Rightarrow> [] | Some p \<Rightarrow> (case State (SSH p) of
        SSHSupported \<Rightarrow> [(Pass, ''policy support'')] | SSHUnsupported \<Rightarrow> [(Warn, ''policy support'')] | SSHAbsent \<Rightarrow> [])) @
     reportDoctorJoinCoverage (Some d) @ reportDoctorIdentityPreviews identities (Some d) @
     (case healthConfig of None \<Rightarrow> [] | Some c \<Rightarrow> if hc_Enabled c then reportDoctorServiceHealth (dw_cycle w) (dw_now w) cfg c d else []) @
     [(Warn, ''validation scope'')]"

text \<open>From an accepted configuration to the end.\<close>

definition doctor_run :: "doctor_world \<Rightarrow> Config \<Rightarrow> string list \<Rightarrow> report \<times> bool" where
  "doctor_run w cfg identities =
     (case doctor_metadata w cfg of (ls1, None) \<Rightarrow> (ls1, True) | (ls1, Some metadata) \<Rightarrow>
     (case doctor_editor w cfg of (ls2, True) \<Rightarrow> (ls1 @ ls2, True) | (ls2, False) \<Rightarrow>
     (case doctor_health w cfg of (ls3, healthConfig) \<Rightarrow>
     (case doctor_snapshot w cfg metadata of (ls4, None) \<Rightarrow> (ls1 @ ls2 @ ls3 @ ls4, True) | (ls4, Some d) \<Rightarrow>
        (ls1 @ ls2 @ ls3 @ ls4 @ doctor_previews w cfg identities healthConfig d @
           [(if healthConfig = None then Fail else Pass, ''doctor'')], healthConfig = None)))))"

text \<open>The exit code with the report.\<close>

definition runDoctorCommand :: "doctor_world \<Rightarrow> string list \<Rightarrow> nat \<times> report" where
  "runDoctorCommand w args = (case command_line doctor_flags \<lparr>do_env_file = [], do_stack = [], do_identities = []\<rparr> args of
     ShowHelp \<Rightarrow> (0, [])
   | BadUsage \<Rightarrow> (2, [])
   | Options o' \<Rightarrow>
       if do_stack o' \<noteq> [] \<and> do_env_file o' = [] then
         (if do_identities o' \<noteq> [] then (2, [])
          else (case runDoctorStackEnvChecks (dw_file w (do_stack o')) None (Some (processConfigLookup (dw_env w))) of
            (ls, _, failed) \<Rightarrow> if failed then (1, ls) else (0, ls @ [(Pass, ''doctor'')])))
       else (case doctor_source w (do_env_file o') of (ls1, None) \<Rightarrow> (1, ls1) | (ls1, Some lookup1) \<Rightarrow>
         (case doctor_stack w (do_stack o') lookup1 of (ls2, None) \<Rightarrow> (1, ls1 @ ls2) | (ls2, Some lookup) \<Rightarrow>
         (case doctor_config lookup of (ls3, None) \<Rightarrow> (1, ls1 @ ls2 @ ls3) | (ls3, Some cfg) \<Rightarrow>
         (case doctor_run w cfg (do_identities o') of (ls4, failed) \<Rightarrow> (if failed then 1 else 0, ls1 @ ls2 @ ls3 @ ls4))))))"

section \<open>The exit code\<close>

lemma worst_map: "(\<And>x. x \<in> set xs \<Longrightarrow> fst (f x) \<noteq> Fail) \<Longrightarrow> worst (map f xs) \<noteq> Fail"
  by (auto simp: worst_Fail_iff)

lemma worst_concat_map: "(\<And>x. x \<in> set xs \<Longrightarrow> worst (f x) \<noteq> Fail) \<Longrightarrow> worst (concat (map f xs)) \<noteq> Fail"
  by (induction xs) auto

text \<open>The steps that fail are those that report a failure.\<close>

lemma doctor_source_honest: "worst (fst (doctor_source w path)) = Fail \<longleftrightarrow> snd (doctor_source w path) = None"
  by (auto simp: doctor_source_def level_max split: option.split sum.split)

lemma doctor_stack_honest: "worst (fst (doctor_stack w path lookup)) = Fail \<longleftrightarrow> snd (doctor_stack w path lookup) = None"
  using runDoctorStackEnvChecks_honest [of "dw_file w path" "Some lookup" "Some (processConfigLookup (dw_env w))"]
  by (auto simp: doctor_stack_def level_max split: prod.split)

lemma doctor_config_honest: "worst (fst (doctor_config lookup)) = Fail \<longleftrightarrow> snd (doctor_config lookup) = None"
  by (auto simp: doctor_config_def level_max split: sum.split)

lemma doctor_metadata_honest: "worst (fst (doctor_metadata w cfg)) = Fail \<longleftrightarrow> snd (doctor_metadata w cfg) = None"
  by (auto simp: doctor_metadata_def level_max split: sum.split)

lemma doctor_editor_honest: "worst (fst (doctor_editor w cfg)) = Fail \<longleftrightarrow> snd (doctor_editor w cfg)"
  by (auto simp: doctor_editor_def level_max split: option.split)

lemma doctor_health_honest: "worst (fst (doctor_health w cfg)) = Fail \<longleftrightarrow> snd (doctor_health w cfg) = None"
  by (auto simp: doctor_health_def level_max split: sum.split)

lemma stage_lines_pass [simp]: "worst (stage_lines stages) \<noteq> Fail"
  unfolding stage_lines_def by (rule worst_map) simp

lemma doctor_snapshot_honest: "worst (fst (doctor_snapshot w cfg m)) = Fail \<longleftrightarrow> snd (doctor_snapshot w cfg m) = None"
  by (auto simp: doctor_snapshot_def level_max split: sum.split prod.split)

lemma health_report_pass: "worst (reportDoctorServiceHealth env now cfg c d) \<noteq> Fail"
proof -
  have "worst (map (health_line store now) ss) \<noteq> Fail" for store ss
    by (rule worst_map) (simp add: health_line_def Let_def)
  then show ?thesis by (simp add: reportDoctorServiceHealth_def level_max split: prod.split)
qed

lemma previews_pass: "worst (reportDoctorIdentityPreviews identities snapshot) \<noteq> Fail"
proof -
  have "worst (concat (map (identity_preview snapshot) identities)) \<noteq> Fail"
    by (rule worst_concat_map) (simp add: identity_preview_def level_max)
  then show ?thesis by (simp add: reportDoctorIdentityPreviews_def level_max)
qed

lemma coverage_pass: "worst (reportDoctorJoinCoverage snapshot) \<noteq> Fail"
proof -
  have "worst (map (\<lambda>_. (Warn, ''unmatched join'')) us) \<noteq> Fail" for us :: "(string \<times> string) list"
    by (rule worst_map) simp
  then show ?thesis by (simp add: reportDoctorJoinCoverage_def split: prod.split)
qed

lemma links_pass: "worst (reportDoctorServiceLinks snapshot) \<noteq> Fail"
  by (simp add: reportDoctorServiceLinks_def Let_def level_max split: option.split sum.split)

lemma doctor_previews_pass: "worst (doctor_previews w cfg identities h d) \<noteq> Fail"
proof -
  have ssh: "worst (case cd_Policy d of None \<Rightarrow> [] | Some p \<Rightarrow> (case State (SSH p) of
      SSHSupported \<Rightarrow> [(Pass, ''policy support'')] | SSHUnsupported \<Rightarrow> [(Warn, ''policy support'')] | SSHAbsent \<Rightarrow> [])) \<noteq> Fail"
    by (simp add: level_max split: option.split sshPolicyState.split)
  have health: "worst (case h of None \<Rightarrow> [] | Some c \<Rightarrow> if hc_Enabled c then reportDoctorServiceHealth (dw_cycle w) (dw_now w) cfg c d else []) \<noteq> Fail"
    using health_report_pass by (cases h) simp_all
  show ?thesis
    unfolding doctor_previews_def worst_append max_Fail_iff
    by (simp add: level_max links_pass coverage_pass previews_pass ssh health)
qed

text \<open>The steps of the command, each with what it gives.\<close>

lemma doctor_steps:
  "doctor_source w path = (ls, r1) \<Longrightarrow> worst ls = Fail \<longleftrightarrow> r1 = None"
  "doctor_stack w path look = (ls, r1) \<Longrightarrow> worst ls = Fail \<longleftrightarrow> r1 = None"
  "doctor_config look = (ls, r2) \<Longrightarrow> worst ls = Fail \<longleftrightarrow> r2 = None"
  "doctor_metadata w cfg = (ls, r3) \<Longrightarrow> worst ls = Fail \<longleftrightarrow> r3 = None"
  "doctor_editor w cfg = (ls, failed) \<Longrightarrow> worst ls = Fail \<longleftrightarrow> failed"
  "doctor_health w cfg = (ls, r4) \<Longrightarrow> worst ls = Fail \<longleftrightarrow> r4 = None"
  "doctor_snapshot w cfg m = (ls, r5) \<Longrightarrow> worst ls = Fail \<longleftrightarrow> r5 = None"
  "runDoctorStackEnvChecks contents provider interpolation = (ls, proxy, failed) \<Longrightarrow> worst ls = Fail \<longleftrightarrow> failed"
  using doctor_source_honest [of w path] doctor_stack_honest [of w path look] doctor_config_honest [of look] doctor_metadata_honest [of w cfg]
    doctor_editor_honest [of w cfg] doctor_health_honest [of w cfg] doctor_snapshot_honest [of w cfg m]
    runDoctorStackEnvChecks_honest [of contents provider interpolation]
  by simp_all

lemma doctor_run_honest: "doctor_run w cfg identities = (ls, failed) \<Longrightarrow> worst ls = Fail \<longleftrightarrow> failed"
  unfolding doctor_run_def
  by (auto simp: level_max doctor_steps doctor_previews_pass split: prod.split_asm option.split_asm bool.split_asm)

text \<open>
  C27: The exit code of the diagnostics says what they report: with code 1 a line of the report is a failure,
  with code 0 none is, and with code 2 nothing was checked, whatever the options, the files, the servers and
  the network answer.
\<close>
theorem doctor_exit_code:
  "(case runDoctorCommand w args of (code, ls) \<Rightarrow>
     (code = 1 \<longleftrightarrow> worst ls = Fail) \<and> code \<in> {0, 1, 2} \<and> (if code = 2 then ls = [] else True))"
proof (cases "runDoctorCommand w args")
  case (Pair code ls)
  then show ?thesis
    unfolding runDoctorCommand_def
    by (auto simp: level_max doctor_steps doctor_run_honest
        split: command_line.split_asm prod.split_asm option.split_asm if_split_asm)
qed

section \<open>The coverage covers the cards\<close>

text \<open>The diagnostics know every address that may be the viewer's own.\<close>

lemma self_addresses_subset:
  "set (foldl (\<lambda>ips node. if loginMatches login (OwnerLogin node) then ips @ Addresses node else ips) ips nodes) \<subseteq> set ips \<union> set (concat (map Addresses nodes))"
  by (induction nodes arbitrary: ips) (auto, fastforce+)

lemma matchResolved_mono:
  assumes "matchResolvedDestination sel host mc \<noteq> None" and "mc_tagIPs mc = mc_tagIPs mc'" and "set (mc_selfIPs mc) \<subseteq> set (mc_selfIPs mc')"
  shows "matchResolvedDestination sel host mc' \<noteq> None"
  using assms by (auto simp: matchResolvedDestination_def split: if_splits)

text \<open>A match resolves one selector: the value of an alias, or the selector, without its port.\<close>

definition resolved_selector :: "string \<Rightarrow> matchContext \<Rightarrow> string" where
  "resolved_selector n mc = (if reservedPolicySelector n then n
     else (case map_of (mc_hosts mc) n of Some value \<Rightarrow> stripPort value | None \<Rightarrow> n))"

lemma matchDst_resolved: "matchDst d host mc \<longleftrightarrow> matchResolvedDestination (resolved_selector (stripPort d) mc) host mc \<noteq> None"
  by (simp add: matchDst_def matchDestination_def resolved_selector_def Let_def split: option.split)

lemma matchDst_mono:
  assumes "matchDst d host mc" and "mc_hosts mc = mc_hosts mc'" and "mc_tagIPs mc = mc_tagIPs mc'" and "set (mc_selfIPs mc) \<subseteq> set (mc_selfIPs mc')"
  shows "matchDst d host mc'"
proof -
  have "resolved_selector (stripPort d) mc = resolved_selector (stripPort d) mc'" by (simp add: resolved_selector_def assms(2))
  with assms(1) matchResolved_mono [OF _ assms(3,4)] show ?thesis unfolding matchDst_resolved by metis
qed

lemma matchDst_strip: "stripPort (stripPort d) = stripPort d \<Longrightarrow> matchDst (stripPort d) host mc \<longleftrightarrow> matchDst d host mc"
  by (simp add: matchDst_resolved)

lemma service_matches_grants:
  assumes "e \<in> set (service_matches i d p)"
  shows "sm_ProxyHost e \<in> set (cd_ProxyHosts d)" "Enabled (sm_ProxyHost e)" "DomainNames (sm_ProxyHost e) \<noteq> []" "may_open i d p (sm_ProxyHost e)"
proof -
  from assms obtain ph where ph: "ph \<in> set (cd_ProxyHosts d)" "Enabled ph" "DomainNames ph \<noteq> []"
      and e: "service_rules ph (cd_ServiceMetadata d) (buildIdentitySet (Some i) (Some p))
        (grantRoleSelectorSet (trim_space (Login i)) (Some d)) (buildMatchContext (normalizeLogin (Login i)) p (cd_Nodes d))
        (accessRules (Some p)) = Some e"
    by (auto simp: service_matches_def Let_def map_filter_def split: if_splits)
  have "sm_ProxyHost e = ph" using service_rules_card [OF e] by simp
  moreover have "may_open i d p ph" using e service_rules_Some unfolding may_open_rule_grants by blast
  ultimately show "sm_ProxyHost e \<in> set (cd_ProxyHosts d)" "Enabled (sm_ProxyHost e)" "DomainNames (sm_ProxyHost e) \<noteq> []" "may_open i d p (sm_ProxyHost e)"
    using ph by simp_all
qed

text \<open>The selectors of a policy lose their ports at once.\<close>

definition ports_strip_once :: "Policy \<Rightarrow> bool" where
  "ports_strip_once p \<longleftrightarrow> (\<forall>r \<in> set (accessRules (Some p)). \<forall>t \<in> set (rule_Dst r). stripPort (stripPort t) = stripPort t)"

lemma may_open_joined:
  assumes "may_open i d p ph" and "ports_strip_once p"
  shows "doctorProxyHostHasSupportedJoin ph p (doctor_context p (cd_Nodes d))"
proof -
  let ?mc = "buildMatchContext (normalizeLogin (Login i)) p (cd_Nodes d)" and ?all = "doctor_context p (cd_Nodes d)"
  obtain r t where r: "r \<in> set (accessRules (Some p))" "rule_permitsTCP r (ForwardPort ph)" and t: "t \<in> set (rule_Dst r)" "matchDst t (ForwardHost ph) ?mc"
    using assms(1) by (auto simp: may_open_def)
  have "matchDst t (ForwardHost ph) ?all"
    by (rule matchDst_mono [OF t(2)]) (use self_addresses_subset [of _ "[]"] in \<open>auto simp: buildMatchContext_def doctor_context_def\<close>)
  moreover have "stripPort (stripPort t) = stripPort t" using assms(2) r(1) t(1) by (simp add: ports_strip_once_def)
  ultimately have "matchDst (stripPort t) (ForwardHost ph) ?all" by (simp add: matchDst_strip)
  then show ?thesis using r t(1) unfolding doctorProxyHostHasSupportedJoin_def list_ex_iff by blast
qed

text \<open>
  C28: The diagnostics do not report a joined service as unmatched. Whoever looks, every service of the portal
  belongs to an enabled proxy host that the coverage counts as joined, so that a host it lists as unmatched is
  shown to nobody; this holds for policies whose selectors lose their ports at once, as the coverage strips
  them twice.
\<close>
theorem shown_services_are_joined:
  assumes "cd_Policy d = Some p" and "ports_strip_once p" and "e \<in> set (evaluateServices identity (Some d))"
  shows "sm_ProxyHost e \<in> set (cd_ProxyHosts d) \<and> Enabled (sm_ProxyHost e) \<and>
    doctorProxyHostHasSupportedJoin (sm_ProxyHost e) p (doctor_context p (cd_Nodes d)) \<and>
    0 < fst (doctorJoinCoverage (Some d))"
proof -
  obtain i where "e \<in> set (service_matches i d p)"
    using assms(1,3) by (auto simp: evaluateServices_def split: option.split_asm if_split_asm)
  note e = service_matches_grants [OF this]
  have joined: "doctorProxyHostHasSupportedJoin (sm_ProxyHost e) p (doctor_context p (cd_Nodes d))"
    by (rule may_open_joined [OF e(4) assms(2)])
  let ?hosts = "filter (\<lambda>ph. doctorProxyHostHasSupportedJoin ph p (doctor_context p (cd_Nodes d)))
      (filter (\<lambda>ph. Enabled ph \<and> DomainNames ph \<noteq> []) (cd_ProxyHosts d))"
  have "fst (doctorJoinCoverage (Some d)) = length ?hosts" by (simp add: doctorJoinCoverage_def assms(1) Let_def)
  moreover have "sm_ProxyHost e \<in> set ?hosts" using e joined by simp
  ultimately have "0 < fst (doctorJoinCoverage (Some d))" by (metis length_pos_if_in_set)
  then show ?thesis using e(1,2) joined by blast
qed

lemma shown_services_are_joined_witness:
  "\<exists>e \<in> set (evaluateServices (Some sample_identity) (Some (sample_data sample_hosts))).
     doctorProxyHostHasSupportedJoin (sm_ProxyHost e) (the (cd_Policy (sample_data sample_hosts)))
       (doctor_context (the (cd_Policy (sample_data sample_hosts))) (cd_Nodes (sample_data sample_hosts)))"
proof -
  have p: "cd_Policy (sample_data sample_hosts) = Some (the (cd_Policy (sample_data sample_hosts)))" by (simp add: sample_data_def)
  have once: "ports_strip_once (the (cd_Policy (sample_data sample_hosts)))" by code_simp
  have "evaluateServices (Some sample_identity) (Some (sample_data sample_hosts)) \<noteq> []" by code_simp
  then obtain e where "e \<in> set (evaluateServices (Some sample_identity) (Some (sample_data sample_hosts)))" by (metis hd_in_set)
  with shown_services_are_joined [OF p once this] show ?thesis by blast
qed

end
