(* ===== verification/Healthcheck.thy ===== *)
theory Healthcheck
  imports Config Go_Flag
begin

text \<open>
  The probe of the local health endpoint (\<open>healthcheck.go\<close>) and the build information (\<open>version.go\<close>). The request itself
  is a parameter: the status of the response to a URL within a timeout, or nothing when it fails.
\<close>

definition validateHealthcheckURL :: "string \<Rightarrow> url option" where
  "validateHealthcheckURL raw0 = (let raw = trim_space raw0 in
     if raw = [] then None
     else (case url_parse raw of None \<Rightarrow> None
       | Some u \<Rightarrow>
          if Scheme u \<noteq> ''http'' \<and> Scheme u \<noteq> ''https'' then None
          else if Host u = [] \<or> hostname u = [] then None
          else if HasUser u then None
          else if has_suffix (Host u) '':'' then None
          else if url_port u \<noteq> [] \<and> \<not> valid_port (url_port u) then None
          else if Fragment u \<noteq> [] then None
          else Some u))"

record healthcheck_options =
  hc_url :: string
  hc_timeout :: int

definition healthcheck_flags :: "healthcheck_options flag list" where
  "healthcheck_flags =
     [ValueFlag ''url'' (\<lambda>v o'. Some (o'\<lparr>hc_url := v\<rparr>)),
      ValueFlag ''timeout'' (\<lambda>v o'. map_option (\<lambda>d. o'\<lparr>hc_timeout := d\<rparr>) (parse_duration v))]"

definition healthcheck_zero :: healthcheck_options where
  "healthcheck_zero = \<lparr>hc_url = ''http://127.0.0.1:8080/healthz'', hc_timeout = seconds 3\<rparr>"

definition runHealthcheckCommand :: "(string \<Rightarrow> int \<Rightarrow> nat option) \<Rightarrow> string list \<Rightarrow> nat" where
  "runHealthcheckCommand request args = (case command_line healthcheck_flags healthcheck_zero args of
     ShowHelp \<Rightarrow> 0
   | BadUsage \<Rightarrow> 2
   | Options o' \<Rightarrow>
       if hc_timeout o' \<le> 0 then 2
       else (case validateHealthcheckURL (hc_url o') of None \<Rightarrow> 2
         | Some u \<Rightarrow> (case request (url_string u) (hc_timeout o') of None \<Rightarrow> 1
             | Some status \<Rightarrow> if status \<noteq> 200 then 1 else 0)))"

text \<open>The command succeeds without asking for help only when an accepted URL answered with 200.\<close>

lemma runHealthcheckCommand_healthy:
  "runHealthcheckCommand request args = 0 \<longleftrightarrow> command_line healthcheck_flags healthcheck_zero args = ShowHelp
     \<or> (\<exists>o' u. command_line healthcheck_flags healthcheck_zero args = Options o' \<and> 0 < hc_timeout o'
        \<and> validateHealthcheckURL (hc_url o') = Some u \<and> request (url_string u) (hc_timeout o') = Some 200)"
  by (auto simp: runHealthcheckCommand_def split: command_line.split option.split)

section \<open>The build\<close>

record BuildInfo =
  Version :: string
  Revision :: string
  SourceState :: string

definition unknownBuildValue :: string where "unknownBuildValue = ''unknown''"

definition SourceTraceable :: "BuildInfo \<Rightarrow> bool" where
  "SourceTraceable info \<longleftrightarrow> Revision info \<noteq> [] \<and> Revision info \<noteq> unknownBuildValue \<and> SourceState info = ''clean''"

end
