(* ===== verification/Validation.thy ===== *)
theory Validation
  imports Doctor Healthcheck
begin

text \<open>
  The validation report (\<open>validation.go\<close>): what the matcher shows to each of several labelled identities, the
  services they share, and findings for review. The rendering as text or JSON and the messages of the findings
  are left out; a finding is its severity, its code and its subject.
\<close>

section \<open>Identities and options\<close>

record validationIdentityInput =
  vi_Label :: string
  vi_Login :: string

definition label_char :: "char \<Rightarrow> bool" where
  "label_char c \<longleftrightarrow> is_lower c \<or> is_upper c \<or> is_digit c \<or> c = CHR ''-'' \<or> c = CHR ''_'' \<or> c = CHR ''.''"

definition validateValidationLabel :: "string \<Rightarrow> bool" where
  "validateValidationLabel label \<longleftrightarrow> label \<noteq> [] \<and> length label \<le> 64 \<and> list_all label_char label"

text \<open>\<open>validationIdentityFlags.Set\<close>.\<close>

definition add_identity :: "string \<Rightarrow> validationIdentityInput list \<Rightarrow> validationIdentityInput list option" where
  "add_identity raw inputs =
     (if length inputs \<ge> 20 then None
      else (case index_byte raw (CHR ''='') of None \<Rightarrow> None
      | Some i \<Rightarrow>
          if i = 0 \<or> Suc i = length raw then None
          else (let label = trim_space (take i raw); login = trim_space (drop (Suc i) raw) in
            if \<not> validateValidationLabel label then None
            else if login = [] then None
            else if list_ex forbidden_byte login then None
            else if rune_count login > 320 then None
            else if list_ex (\<lambda>v. vi_Label v = label \<or> vi_Login v = login) inputs then None
            else Some (inputs @ [\<lparr>vi_Label = label, vi_Login = login\<rparr>]))))"

text \<open>The labels and the logins stay distinct, and at most twenty.\<close>

definition inputs_ok :: "validationIdentityInput list \<Rightarrow> bool" where
  "inputs_ok inputs \<longleftrightarrow> length inputs \<le> 20 \<and> distinct (map vi_Label inputs) \<and> distinct (map vi_Login inputs)
     \<and> list_all (\<lambda>v. validateValidationLabel (vi_Label v) \<and> vi_Login v \<noteq> []) inputs"

lemma add_identity_ok: "add_identity raw inputs = Some inputs' \<Longrightarrow> inputs_ok inputs \<Longrightarrow> inputs_ok inputs'"
  by (auto simp: add_identity_def inputs_ok_def Let_def list_ex_iff list_all_iff split: option.splits if_splits) metis+

record validate_options =
  vo_env_file :: string
  vo_identities :: "validationIdentityInput list"
  vo_format :: string
  vo_privacy :: string

definition validate_flags :: "validate_options flag list" where
  "validate_flags =
     [ValueFlag ''env-file'' (required_text (\<lambda>v o'. o'\<lparr>vo_env_file := v\<rparr>)),
      ValueFlag ''identity'' (\<lambda>v o'. map_option (\<lambda>is. o'\<lparr>vo_identities := is\<rparr>) (add_identity v (vo_identities o'))),
      ValueFlag ''format'' (\<lambda>v o'. Some (o'\<lparr>vo_format := v\<rparr>)), ValueFlag ''privacy'' (\<lambda>v o'. Some (o'\<lparr>vo_privacy := v\<rparr>))]"

datatype validationPrivacy = PrivacySummary | PrivacyPrivate

definition validation_privacy :: "string \<Rightarrow> validationPrivacy option" where
  "validation_privacy t = (let p = to_lower (trim_space t) in
     if p = ''summary'' then Some PrivacySummary else if p = ''private'' then Some PrivacyPrivate else None)"

definition validation_format_ok :: "string \<Rightarrow> bool" where
  "validation_format_ok t \<longleftrightarrow> to_lower (trim_space t) = ''text'' \<or> to_lower (trim_space t) = ''json''"

text \<open>The settings of the process, or of a file that only its owner may touch, and which of them.\<close>

definition validationConfigLookup :: "doctor_world \<Rightarrow> string \<Rightarrow> (configLookup \<times> string) option" where
  "validationConfigLookup w path =
     (if path = [] then Some (processConfigLookup (dw_env w), ''process_environment'')
      else (case dw_file w path of None \<Rightarrow> None
      | Some s \<Rightarrow> (case parseEnvFile s of Inl _ \<Rightarrow> None
        | Inr vals \<Rightarrow> (case dw_mode w path of None \<Rightarrow> None
          | Some (regular, permissions) \<Rightarrow>
              if \<not> regular \<or> permissions AND 0x3F \<noteq> 0 then None
              else Some (\<lambda>key. case mapConfigLookup vals key of None \<Rightarrow> ([], False, False) | Some v \<Rightarrow> (v, True, False),
                         ''environment_file'')))))"

section \<open>The report\<close>

datatype severity_kind = Review | Notice

record ValidationFinding =
  vf_Severity :: severity_kind
  vf_Code :: string
  vf_Subject :: string

record ValidationControlPlane =
  vc_Metadata :: "ControlPlaneMetadata option"
  vc_Selection :: string

record ValidationSnapshot =
  vs_AccessRules :: nat
  vs_Nodes :: nat
  vs_ProxyHosts :: nat
  vs_EnabledProxyHosts :: nat
  vs_EvaluatedServices :: nat

record ValidationPrivateService =
  vp_Host :: ProxyHost
  vp_CardURL :: string

record ValidationService =
  vsv_ID :: string
  vsv_ForwardHostClass :: string
  vsv_Kinds :: "destinationMatchKind list"
  vsv_Paths :: nat
  vsv_IdentityDependent :: bool
  vsv_VisibleTo :: "string list"
  vsv_Private :: "ValidationPrivateService option"

record ValidationPrivateMatch =
  vm_SourceToken :: string
  vm_DestinationSelector :: string
  vm_ResolvedValue :: string

record ValidationIdentityService =
  vis_ServiceID :: string
  vis_RuleKind :: accessRuleKind
  vis_RuleIndex :: nat
  vis_DestinationKind :: destinationMatchKind
  vis_Private :: "ValidationPrivateMatch option"

record ValidationIdentityReport =
  vir_Label :: string
  vir_Services :: "ValidationIdentityService list"
  vir_Unique :: "string list"

record ValidationReport =
  vr_Pass :: bool
  vr_Privacy :: validationPrivacy
  vr_ConfigSource :: string
  vr_ControlPlane :: ValidationControlPlane
  vr_Build :: BuildInfo
  vr_Snapshot :: ValidationSnapshot
  vr_Services :: "ValidationService list"
  vr_Identities :: "ValidationIdentityReport list"
  vr_Common :: "string list"
  vr_Findings :: "ValidationFinding list"

fun validationSeverityRank :: "severity_kind \<Rightarrow> nat" where
  "validationSeverityRank Review = 0"
| "validationSeverityRank Notice = 1"

definition finding_less :: "ValidationFinding \<Rightarrow> ValidationFinding \<Rightarrow> bool" where
  "finding_less l r =
     (if validationSeverityRank (vf_Severity l) \<noteq> validationSeverityRank (vf_Severity r)
      then validationSeverityRank (vf_Severity l) < validationSeverityRank (vf_Severity r)
      else if vf_Code l \<noteq> vf_Code r then vf_Code l < vf_Code r else vf_Subject l < vf_Subject r)"

definition sortValidationFindings :: "ValidationReport \<Rightarrow> ValidationReport" where
  "sortValidationFindings r = r\<lparr>vr_Findings := sort_slice finding_less (vr_Findings r)\<rparr>"

definition addValidationFinding :: "ValidationReport \<Rightarrow> severity_kind \<Rightarrow> string \<Rightarrow> string \<Rightarrow> ValidationReport" where
  "addValidationFinding r sev code subject =
     r\<lparr>vr_Findings := vr_Findings r @ [\<lparr>vf_Severity = sev, vf_Code = code, vf_Subject = subject\<rparr>],
       vr_Pass := (vr_Pass r \<and> sev \<noteq> Review)\<rparr>"

text \<open>Several findings one after the other.\<close>

definition add_findings :: "ValidationReport \<Rightarrow> (severity_kind \<times> string \<times> string) list \<Rightarrow> ValidationReport" where
  "add_findings r fs = foldl (\<lambda>r (sev, code, subject). addValidationFinding r sev code subject) r fs"

section \<open>Services\<close>

text \<open>The hosts with a domain, by ID, then by the first domain without case, then by the forward host.\<close>

definition validation_host_less :: "ProxyHost \<Rightarrow> ProxyHost \<Rightarrow> bool" where
  "validation_host_less l r =
     (if ph_ID l \<noteq> ph_ID r then ph_ID l < ph_ID r
      else if to_lower (hd (DomainNames l)) \<noteq> to_lower (hd (DomainNames r))
      then to_lower (hd (DomainNames l)) < to_lower (hd (DomainNames r))
      else ForwardHost l < ForwardHost r)"

definition validationProxyHosts :: "ProxyHost list \<Rightarrow> ProxyHost list" where
  "validationProxyHosts hosts = sort_slice validation_host_less (filter (\<lambda>ph. Enabled ph \<and> DomainNames ph \<noteq> []) hosts)"

fun kind_text :: "destinationMatchKind \<Rightarrow> string" where
  "kind_text MatchExact = ''exact''"
| "kind_text MatchWildcard = ''wildcard''"
| "kind_text MatchCIDR = ''cidr''"
| "kind_text MatchHostAlias = ''host_alias''"
| "kind_text MatchTag = ''tag''"
| "kind_text MatchSelf = ''autogroup_self''"

definition uniqueDestinationKinds :: "destinationMatchEvidence list \<Rightarrow> destinationMatchKind list" where
  "uniqueDestinationKinds matches = sort_slice (\<lambda>a b. kind_text a < kind_text b) (remdups (map ev_Kind matches))"

definition classifyForwardHost :: "string \<Rightarrow> string" where
  "classifyForwardHost raw = (let host = trim_space raw in
     if host = [] then ''empty''
     else if net_parse_ip host \<noteq> None then ''ip''
     else if net_parse_cidr host \<noteq> None then ''cidr''
     else if equal_fold host ''localhost'' then ''localhost''
     else if contains_byte host (CHR ''.'') then ''fqdn''
     else if list_ex (\<lambda>c. c = CHR '' '' \<or> c = CHR ''/'' \<or> byte c = 92) host then ''other''
     else ''short_name'')"

definition privateValidationSourceToken :: "string \<Rightarrow> string \<Rightarrow> string" where
  "privateValidationSourceToken source login =
     (if source = ''*'' \<or> has_prefix source ''group:'' then source
      else if source \<in> identityTokens login then ''identity''
      else source)"

text \<open>The name of the service at an index: at least three digits.\<close>

definition service_name :: "nat \<Rightarrow> string" where
  "service_name k = (let ds = show_nat (Suc k) in ''service-'' @ replicate (3 - length ds) (CHR ''0'') @ ds)"

text \<open>The index of a service by the ID of its host; of hosts with the same ID the last one counts.\<close>

definition service_index :: "ProxyHost list \<Rightarrow> int \<Rightarrow> nat option" where
  "service_index hosts host_id = (case find (\<lambda>kh. ph_ID (snd kh) = host_id) (rev (enumerate 0 hosts)) of
     None \<Rightarrow> None | Some (k, _) \<Rightarrow> Some k)"

text \<open>A service before the identities are known, and what is found about it.\<close>

definition service_entry :: "CacheData \<Rightarrow> validationPrivacy \<Rightarrow> nat \<Rightarrow> ProxyHost \<Rightarrow> ValidationService" where
  "service_entry d privacy k ph =
     (case structuralDestinationMatches ph (Some d) of (matches, dependent) \<Rightarrow>
       \<lparr>vsv_ID = service_name k, vsv_ForwardHostClass = classifyForwardHost (ForwardHost ph),
        vsv_Kinds = uniqueDestinationKinds matches, vsv_Paths = length matches, vsv_IdentityDependent = dependent, vsv_VisibleTo = [],
        vsv_Private = (if privacy = PrivacyPrivate then Some \<lparr>vp_Host = ph,
            vp_CardURL = (case resolveServiceCard ph (cd_ServiceMetadata d) of None \<Rightarrow> [] | Some c \<Rightarrow> card_URL c)\<rparr> else None)\<rparr>)"

definition service_findings :: "CacheData \<Rightarrow> nat \<Rightarrow> ProxyHost \<Rightarrow> (severity_kind \<times> string \<times> string) list" where
  "service_findings d k ph =
     (case resolveServiceCard ph (cd_ServiceMetadata d) of
        None \<Rightarrow> [(Review, ''card-domain-unavailable'', service_name k)]
      | Some c \<Rightarrow>
          if LinkState c = LinkNeedsMetadata then [(Review, ''wildcard-card-needs-url'', service_name k)]
          else if LinkState c = LinkInvalid then [(Review, ''browser-link-unavailable'', service_name k)] else []) @
     (if length (DomainNames ph) > 1 then [(Notice, ''additional-domains-not-rendered'', service_name k)] else []) @
     (if length (fst (structuralDestinationMatches ph (Some d))) > 1 then [(Notice, ''multiple-structural-match-paths'', service_name k)] else [])"

section \<open>Identities\<close>

definition input_identity :: "validationIdentityInput \<Rightarrow> Identity option" where
  "input_identity v = Some \<lparr>Login = vi_Login v, id_Name = [], ProfilePic = []\<rparr>"

definition identity_entry :: "validationPrivacy \<Rightarrow> string \<Rightarrow> nat \<Rightarrow> serviceMatchEvidence \<Rightarrow> ValidationIdentityService" where
  "identity_entry privacy login k m =
     \<lparr>vis_ServiceID = service_name k, vis_RuleKind = sm_RuleKind m, vis_RuleIndex = sm_RuleIndex m,
      vis_DestinationKind = ev_Kind (Destination m),
      vis_Private = (if privacy = PrivacyPrivate then
        Some \<lparr>vm_SourceToken = privateValidationSourceToken (SourceToken m) login,
           vm_DestinationSelector = ev_Selector (Destination m), vm_ResolvedValue = ev_Resolved (Destination m)\<rparr> else None)\<rparr>"

text \<open>The services of an identity with their indexes, in the order of the cards.\<close>

definition identity_matches :: "ProxyHost list \<Rightarrow> CacheData \<Rightarrow> validationIdentityInput \<Rightarrow> (nat \<times> serviceMatchEvidence) list" where
  "identity_matches hosts d v = List.map_filter (\<lambda>m. case service_index hosts (ph_ID (sm_ProxyHost m)) of
     None \<Rightarrow> None | Some k \<Rightarrow> Some (k, m)) (evaluateServices (input_identity v) (Some d))"

definition identity_services :: "ProxyHost list \<Rightarrow> CacheData \<Rightarrow> validationPrivacy \<Rightarrow> validationIdentityInput \<Rightarrow> ValidationIdentityService list" where
  "identity_services hosts d privacy v =
     sort_slice (\<lambda>l r. vis_ServiceID l < vis_ServiceID r) (map (\<lambda>(k, m). identity_entry privacy (vi_Login v) k m) (identity_matches hosts d v))"

definition visible_labels :: "ProxyHost list \<Rightarrow> CacheData \<Rightarrow> validationIdentityInput list \<Rightarrow> nat \<Rightarrow> string list" where
  "visible_labels hosts d inputs k =
     concat (map (\<lambda>v. map (\<lambda>_. vi_Label v) (filter (\<lambda>jm. fst jm = k) (identity_matches hosts d v))) inputs)"

text \<open>The sets of services by label; a set is the list of its services.\<close>

definition identity_sets :: "ProxyHost list \<Rightarrow> CacheData \<Rightarrow> validationIdentityInput list \<Rightarrow> (string, string list) gomap" where
  "identity_sets hosts d inputs =
     foldl (\<lambda>m v. gomap_put m (vi_Label v) (remdups (map (service_name \<circ> fst) (identity_matches hosts d v)))) [] inputs"

definition commonValidationServices :: "(string, string list) gomap \<Rightarrow> string list" where
  "commonValidationServices sets =
     (case sort_linear (map fst sets) of [] \<Rightarrow> []
      | l # labels \<Rightarrow> sort_linear (filter (\<lambda>s. list_all (\<lambda>l'. s \<in> set (gomap_get sets l' [])) labels) (gomap_get sets l [])))"

definition uniqueValidationServices :: "string \<Rightarrow> (string, string list) gomap \<Rightarrow> string list" where
  "uniqueValidationServices label sets =
     sort_linear (filter (\<lambda>s. list_all (\<lambda>ls. fst ls = label \<or> s \<notin> set (snd ls)) sets) (gomap_get sets label []))"

definition validationSetsIdentical :: "(string, string list) gomap \<Rightarrow> bool" where
  "validationSetsIdentical sets \<longleftrightarrow> length sets \<ge> 2 \<and>
     (case sort_linear (map fst sets) of [] \<Rightarrow> False
      | l # labels \<Rightarrow> (let baseline = gomap_get sets l [] in
          list_all (\<lambda>l'. length (gomap_get sets l' []) = length baseline \<and> list_all (\<lambda>s. s \<in> set (gomap_get sets l' [])) baseline) labels))"

section \<open>Building the report\<close>

definition empty_report :: "validationPrivacy \<Rightarrow> string \<Rightarrow> BuildInfo \<Rightarrow> CacheData option \<Rightarrow> ValidationReport" where
  "empty_report privacy source build snapshot =
     \<lparr>vr_Pass = True, vr_Privacy = privacy, vr_ConfigSource = source,
      vr_ControlPlane = \<lparr>vc_Metadata = map_option cd_ControlPlane snapshot, vc_Selection = ''unknown''\<rparr>,
      vr_Build = build, vr_Snapshot = \<lparr>vs_AccessRules = 0, vs_Nodes = 0, vs_ProxyHosts = 0, vs_EnabledProxyHosts = 0, vs_EvaluatedServices = 0\<rparr>,
      vr_Services = [], vr_Identities = [], vr_Common = [], vr_Findings = []\<rparr>"

definition identity_report ::
    "ProxyHost list \<Rightarrow> CacheData \<Rightarrow> validationPrivacy \<Rightarrow> validationIdentityInput list \<Rightarrow> validationIdentityInput \<Rightarrow> ValidationIdentityReport" where
  "identity_report hosts d privacy inputs v =
     \<lparr>vir_Label = vi_Label v, vir_Services = identity_services hosts d privacy v,
      vir_Unique = uniqueValidationServices (vi_Label v) (identity_sets hosts d inputs)\<rparr>"

definition visible_service :: "ProxyHost list \<Rightarrow> CacheData \<Rightarrow> validationPrivacy \<Rightarrow> validationIdentityInput list \<Rightarrow> nat \<times> ProxyHost \<Rightarrow> ValidationService" where
  "visible_service hosts d privacy inputs kh =
     (service_entry d privacy (fst kh) (snd kh))\<lparr>vsv_VisibleTo := sort_linear (visible_labels hosts d inputs (fst kh))\<rparr>"

text \<open>The findings in the order they are made, before they are sorted.\<close>

definition report_findings :: "CacheData \<Rightarrow> validationPrivacy \<Rightarrow> BuildInfo \<Rightarrow> validationIdentityInput list \<Rightarrow> (severity_kind \<times> string \<times> string) list" where
  "report_findings d privacy build inputs =
     (let hosts = validationProxyHosts (cd_ProxyHosts d) in
      (if \<not> SourceTraceable build then [(Review, ''untraceable-build'', [])] else []) @
      (if list_ex (\<lambda>ph. Enabled ph \<and> DomainNames ph = []) (cd_ProxyHosts d) then [(Review, ''enabled-host-without-domain'', [])] else []) @
      concat (map (\<lambda>(k, ph). service_findings d k ph) (enumerate 0 hosts)) @
      (if unmatchedServiceMetadataCount (cd_ServiceMetadata d) hosts > 0 then [(Notice, ''unused-service-metadata'', [])] else []) @
      (if hosts \<noteq> [] then [(Notice, ''browser-scheme-unverified'', [])] else []) @
      concat (map (\<lambda>v. if identity_services hosts d privacy v = [] then [(Review, ''zero-card-identity'', vi_Label v)] else []) inputs) @
      concat (map (\<lambda>s. if vsv_Kinds s = [] \<and> vsv_VisibleTo s = [] then [(Review, ''unmatched-forward-host'', vsv_ID s)] else [])
        (map (visible_service hosts d privacy inputs) (enumerate 0 hosts))) @
      (if validationSetsIdentical (identity_sets hosts d inputs) then [(Review, ''identical-card-sets'', [])] else []))"

definition buildValidationReport ::
    "CacheData option \<Rightarrow> validationIdentityInput list \<Rightarrow> validationPrivacy \<Rightarrow> string \<Rightarrow> BuildInfo \<Rightarrow> ValidationReport" where
  "buildValidationReport snapshot inputs privacy source build =
     (let r = empty_report privacy source build snapshot; incomplete = addValidationFinding r Review ''incomplete-snapshot'' [] in
      case snapshot of None \<Rightarrow> incomplete | Some d \<Rightarrow> (case cd_Policy d of None \<Rightarrow> incomplete | Some p \<Rightarrow>
        (let hosts = validationProxyHosts (cd_ProxyHosts d) in
         sortValidationFindings (add_findings
           (r\<lparr>vr_Snapshot := \<lparr>vs_AccessRules = accessRuleCount (Some p), vs_Nodes = length (cd_Nodes d), vs_ProxyHosts = length (cd_ProxyHosts d),
                vs_EnabledProxyHosts = length (filter Enabled (cd_ProxyHosts d)), vs_EvaluatedServices = length hosts\<rparr>,
              vr_Services := map (visible_service hosts d privacy inputs) (enumerate 0 hosts),
              vr_Identities := map (identity_report hosts d privacy inputs) inputs,
              vr_Common := commonValidationServices (identity_sets hosts d inputs)\<rparr>)
           (report_findings d privacy build inputs)))))"

section \<open>The command\<close>

text \<open>The exit code and the report; the notices of the selection and of plain HTTP come on top.\<close>

definition validation_notices :: "Config \<Rightarrow> ValidationReport \<Rightarrow> ValidationReport" where
  "validation_notices cfg r =
     (let r1 = r\<lparr>vr_ControlPlane := (vr_ControlPlane r)\<lparr>vc_Selection := (if ControlPlaneExplicit cfg then ''explicit'' else ''implicit'')\<rparr>\<rparr>;
          r2 = (if ControlPlaneExplicit cfg then r1
                else sortValidationFindings (addValidationFinding r1 Notice ''implicit-control-plane-selection'' [])) in
      if ControlPlane cfg = Headscale \<and> classifyHeadscaleTransport (HeadscaleURL cfg) = TransportRestrictedHTTP
      then sortValidationFindings (addValidationFinding r2 Notice ''headscale-http-route-unverified'' []) else r2)"

definition runValidationCommand :: "doctor_world \<Rightarrow> BuildInfo \<Rightarrow> string list \<Rightarrow> nat \<times> ValidationReport option" where
  "runValidationCommand w build args =
     (case command_line validate_flags \<lparr>vo_env_file = [], vo_identities = [], vo_format = ''text'', vo_privacy = ''summary''\<rparr> args of
        ShowHelp \<Rightarrow> (0, None)
      | BadUsage \<Rightarrow> (2, None)
      | Options o' \<Rightarrow>
          if length (vo_identities o') < 2 \<or> \<not> validation_format_ok (vo_format o') then (2, None)
          else (case validation_privacy (vo_privacy o') of None \<Rightarrow> (2, None) | Some privacy \<Rightarrow>
            (case validationConfigLookup w (vo_env_file o') of None \<Rightarrow> (1, None) | Some (lookup, source) \<Rightarrow>
            (case loadConfigFrom lookup of Inl _ \<Rightarrow> (1, None) | Inr cfg \<Rightarrow>
            (case serviceMetadataLoaderForPath (dw_document w) (ServiceMetadataFile cfg) of Inl _ \<Rightarrow> (1, None) | Inr metadata \<Rightarrow>
            (case loadSnapshot (dw_server w) (dw_clock w) (newUpstreamClients cfg) [] of
               (Inl _, _) \<Rightarrow> (1, None)
             | (Inr d, _) \<Rightarrow>
                 (let r = validation_notices cfg
                    (buildValidationReport (Some (d\<lparr>cd_ServiceMetadata := Some metadata\<rparr>)) (vo_identities o') privacy source build) in
                  (if vr_Pass r then 0 else 1, Some r))))))))"

section \<open>What the report says\<close>

text \<open>A host is shown to an identity when the policy lets it in and the host has a card.\<close>

definition shown_to :: "CacheData \<Rightarrow> Policy \<Rightarrow> validationIdentityInput \<Rightarrow> ProxyHost \<Rightarrow> bool" where
  "shown_to d p v ph \<longleftrightarrow> normalizeLogin (vi_Login v) \<noteq> [] \<and> may_open \<lparr>Login = vi_Login v, id_Name = [], ProfilePic = []\<rparr> d p ph
     \<and> resolveServiceCard ph (cd_ServiceMetadata d) \<noteq> None"

definition shown_services :: "CacheData \<Rightarrow> Policy \<Rightarrow> validationIdentityInput \<Rightarrow> string set" where
  "shown_services d p v = service_name ` {k. k < length (validationProxyHosts (cd_ProxyHosts d)) \<and> shown_to d p v (validationProxyHosts (cd_ProxyHosts d) ! k)}"

lemma service_matches_hosts:
  "sm_ProxyHost ` set (service_matches i d p) =
     {ph \<in> set (cd_ProxyHosts d). Enabled ph \<and> DomainNames ph \<noteq> [] \<and> may_open i d p ph \<and> resolveServiceCard ph (cd_ServiceMetadata d) \<noteq> None}"
proof -
  let ?rules = "\<lambda>ph. service_rules ph (cd_ServiceMetadata d) (buildIdentitySet (Some i) (Some p))
      (grantRoleSelectorSet (trim_space (Login i)) (Some d)) (buildMatchContext (normalizeLogin (Login i)) p (cd_Nodes d)) (accessRules (Some p))"
  have "ph \<in> sm_ProxyHost ` set (service_matches i d p) \<longleftrightarrow>
      ph \<in> set (cd_ProxyHosts d) \<and> Enabled ph \<and> DomainNames ph \<noteq> [] \<and> (\<exists>e. ?rules ph = Some e)" for ph
    using service_rules_card
    by (fastforce simp: service_matches_def Let_def map_filter_def image_iff split: if_splits)
  moreover have "(\<exists>e. ?rules ph = Some e) \<longleftrightarrow> may_open i d p ph \<and> resolveServiceCard ph (cd_ServiceMetadata d) \<noteq> None" for ph
    using service_rules_Some [of ph "cd_ServiceMetadata d" "buildIdentitySet (Some i) (Some p)"
      "grantRoleSelectorSet (trim_space (Login i)) (Some d)" "buildMatchContext (normalizeLogin (Login i)) p (cd_Nodes d)" "accessRules (Some p)"]
    unfolding may_open_rule_grants by blast
  ultimately show ?thesis by blast
qed

lemma validationProxyHosts_set: "set (validationProxyHosts hosts) = {ph \<in> set hosts. Enabled ph \<and> DomainNames ph \<noteq> []}"
  by (simp add: validationProxyHosts_def)

lemma validationProxyHosts_distinct: "distinct (map ph_ID hosts) \<Longrightarrow> distinct (map ph_ID (validationProxyHosts hosts))"
  by (simp add: validationProxyHosts_def distinct_map_filter)

lemma find_member: "find P xs = Some x \<Longrightarrow> x \<in> set xs \<and> P x"
  by (induction xs) (auto split: if_splits)

lemma service_index_iff:
  assumes "distinct (map ph_ID hosts)"
  shows "service_index hosts host_id = Some k \<longleftrightarrow> k < length hosts \<and> ph_ID (hosts ! k) = host_id"
proof -
  have found: "k < length hosts \<and> ph_ID (hosts ! k) = host_id" if "service_index hosts host_id = Some k" for k
  proof -
    from that obtain h where "find (\<lambda>kh. ph_ID (snd kh) = host_id) (rev (enumerate 0 hosts)) = Some (k, h)"
      by (auto simp: service_index_def split: option.split_asm)
    then have "(k, h) \<in> set (enumerate 0 hosts)" "ph_ID h = host_id" using find_member by fastforce+
    then show ?thesis by (auto simp: in_set_enumerate_eq)
  qed
  have "service_index hosts host_id \<noteq> None" if "k < length hosts" "ph_ID (hosts ! k) = host_id"
  proof -
    have "(k, hosts ! k) \<in> set (rev (enumerate 0 hosts))" using that by (simp add: in_set_enumerate_eq)
    then show ?thesis using that by (force simp: service_index_def find_None_iff split: option.splits)
  qed
  then show ?thesis using found assms by (auto simp: distinct_conv_nth)
qed

lemma service_name_inject: "service_name j = service_name k \<longleftrightarrow> j = k"
proof -
  have zeros: "foldl (\<lambda>n c. 10 * n + digit_value c) 0 (replicate m (CHR ''0'') @ ds) = foldl (\<lambda>n c. 10 * n + digit_value c) 0 ds" for m ds
    by (induction m) (simp_all add: digit_value_def)
  have "parse_digits (replicate m (CHR ''0'') @ show_nat n) = Some n" for m n
    using parse_show_nat [of n] show_nat_digits [of n] zeros [of m "show_nat n"]
    by (auto simp: parse_digits_def list_all_iff is_digit_def split: if_splits)
  then have "parse_digits (drop 8 (service_name k)) = Some (Suc k)" for k by (simp add: service_name_def Let_def)
  then show ?thesis by (metis option.inject nat.inject)
qed

lemma identity_matches_services:
  assumes "cd_Policy d = Some p" and "distinct (map ph_ID (cd_ProxyHosts d))"
  shows "(service_name \<circ> fst) ` set (identity_matches (validationProxyHosts (cd_ProxyHosts d)) d v) = shown_services d p v"
proof -
  let ?hosts = "validationProxyHosts (cd_ProxyHosts d)" and ?i = "\<lparr>Login = vi_Login v, id_Name = [], ProfilePic = []\<rparr>"
  note dist = validationProxyHosts_distinct [OF assms(2)]
  have "set (evaluateServices (input_identity v) (Some d)) = (if normalizeLogin (vi_Login v) = [] then {} else set (service_matches ?i d p))"
    by (simp add: evaluateServices_def input_identity_def assms(1))
  then have hosts: "sm_ProxyHost ` set (evaluateServices (input_identity v) (Some d)) = {ph \<in> set ?hosts. shown_to d p v ph}"
    by (auto simp: service_matches_hosts validationProxyHosts_set shown_to_def)
  have "fst ` set (identity_matches ?hosts d v) = {k. \<exists>ph \<in> sm_ProxyHost ` set (evaluateServices (input_identity v) (Some d)). service_index ?hosts (ph_ID ph) = Some k}"
    by (force simp: identity_matches_def map_filter_def image_iff split: option.splits)
  also have "\<dots> = {k. k < length ?hosts \<and> shown_to d p v (?hosts ! k)}"
    unfolding hosts service_index_iff [OF dist] using dist by (auto simp: distinct_conv_nth in_set_conv_nth)
  finally show ?thesis unfolding shown_services_def by (metis image_comp)
qed

section \<open>Sets by label\<close>

lemma identity_sets_fold:
  assumes "distinct (map vi_Label inputs)" and "\<forall>v \<in> set inputs. vi_Label v \<notin> fst ` set m"
  shows "foldl (\<lambda>m v. gomap_put m (vi_Label v) (f v)) m inputs = m @ map (\<lambda>v. (vi_Label v, f v)) inputs"
  using assms
proof (induction inputs arbitrary: m)
  case (Cons v inputs)
  have "gomap_put m (vi_Label v) (f v) = m @ [(vi_Label v, f v)]" using Cons.prems(2) by (simp add: gomap_put_def)
  moreover have "\<forall>u \<in> set inputs. vi_Label u \<notin> fst ` set (m @ [(vi_Label v, f v)])"
    using Cons.prems by (auto simp: image_iff)
  ultimately show ?case using Cons.IH [of "m @ [(vi_Label v, f v)]"] Cons.prems(1) by simp
qed simp

lemma labelled_get:
  assumes "distinct (map vi_Label inputs)" and "v \<in> set inputs"
  shows "gomap_get (map (\<lambda>v. (vi_Label v, f v)) inputs) (vi_Label v) [] = f v"
proof -
  have "map_of (map (\<lambda>v. (vi_Label v, f v)) inputs) (vi_Label v) = Some (f v)"
    using assms by (intro map_of_is_SomeI) (auto simp: comp_def)
  then show ?thesis by (simp add: gomap_get_def)
qed

lemma common_services_set:
  assumes "distinct (map vi_Label inputs)" and "inputs \<noteq> []"
  shows "set (commonValidationServices (map (\<lambda>v. (vi_Label v, f v)) inputs)) = (\<Inter>v \<in> set inputs. set (f v))"
proof -
  let ?m = "map (\<lambda>v. (vi_Label v, f v)) inputs"
  have labels: "set (sort_linear (map fst ?m)) = vi_Label ` set inputs" by (simp add: comp_def)
  obtain l ls where sorted: "sort_linear (map fst ?m) = l # ls"
    using assms(2) labels by (cases "sort_linear (map fst ?m)") (metis empty_set image_is_empty set_empty, blast)
  then have ls: "insert l (set ls) = vi_Label ` set inputs" using labels by simp
  have "set (commonValidationServices ?m) = {s. \<forall>l' \<in> insert l (set ls). s \<in> set (gomap_get ?m l' [])}"
    unfolding commonValidationServices_def sorted by (auto simp: list_all_iff)
  also have "\<dots> = {s. \<forall>v \<in> set inputs. s \<in> set (gomap_get ?m (vi_Label v) [])}" by (simp add: ls)
  also have "\<dots> = (\<Inter>v \<in> set inputs. set (f v))" using labelled_get [OF assms(1), of _ f] by auto
  finally show ?thesis .
qed

lemma unique_services_set:
  assumes "distinct (map vi_Label inputs)" and "v \<in> set inputs"
  shows "set (uniqueValidationServices (vi_Label v) (map (\<lambda>v. (vi_Label v, f v)) inputs)) = set (f v) - (\<Union>u \<in> set inputs - {v}. set (f u))"
proof -
  have "u = v" if "u \<in> set inputs" "vi_Label u = vi_Label v" for u
    using assms that by (simp add: distinct_map inj_on_def)
  then show ?thesis
    using labelled_get [OF assms, of f] by (auto simp: uniqueValidationServices_def list_all_iff)
qed

section \<open>The report is exact\<close>

lemma add_findings_fields:
  "vr_Services (add_findings r fs) = vr_Services r" "vr_Identities (add_findings r fs) = vr_Identities r"
  "vr_Common (add_findings r fs) = vr_Common r" "vr_Snapshot (add_findings r fs) = vr_Snapshot r"
  "vr_Findings (add_findings r fs) = vr_Findings r @ map (\<lambda>(sev, code, subject). \<lparr>vf_Severity = sev, vf_Code = code, vf_Subject = subject\<rparr>) fs"
  "vr_Pass (add_findings r fs) \<longleftrightarrow> vr_Pass r \<and> list_all (\<lambda>f. fst f \<noteq> Review) fs"
  by (induction fs arbitrary: r) (auto simp: add_findings_def addValidationFinding_def)

lemma buildValidationReport_fields:
  assumes "cd_Policy d = Some p"
  shows "vr_Common (buildValidationReport (Some d) inputs privacy source build) =
      commonValidationServices (identity_sets (validationProxyHosts (cd_ProxyHosts d)) d inputs)"
    and "vr_Identities (buildValidationReport (Some d) inputs privacy source build) =
      map (identity_report (validationProxyHosts (cd_ProxyHosts d)) d privacy inputs) inputs"
    and "vr_Services (buildValidationReport (Some d) inputs privacy source build) =
      map (visible_service (validationProxyHosts (cd_ProxyHosts d)) d privacy inputs) (enumerate 0 (validationProxyHosts (cd_ProxyHosts d)))"
    and "vr_Pass (buildValidationReport (Some d) inputs privacy source build) \<longleftrightarrow>
      list_all (\<lambda>f. vf_Severity f \<noteq> Review) (vr_Findings (buildValidationReport (Some d) inputs privacy source build))"
  by (auto simp: buildValidationReport_def Let_def assms sortValidationFindings_def add_findings_fields empty_report_def list_all_iff
      split: prod.splits)

lemma identity_sets_map:
  "distinct (map vi_Label inputs) \<Longrightarrow>
   identity_sets hosts d inputs = map (\<lambda>v. (vi_Label v, remdups (map (service_name \<circ> fst) (identity_matches hosts d v)))) inputs"
  unfolding identity_sets_def by (subst identity_sets_fold) simp_all

lemma identity_services_names:
  assumes "cd_Policy d = Some p" and "distinct (map ph_ID (cd_ProxyHosts d))"
  shows "vis_ServiceID ` set (identity_services (validationProxyHosts (cd_ProxyHosts d)) d privacy v) = shown_services d p v"
  unfolding identity_matches_services [OF assms, symmetric] by (force simp: identity_services_def identity_entry_def image_iff)

text \<open>
  C29: The validation report is exact. For a snapshot with a policy, hosts with different IDs and identities
  with different labels, each identity is reported with exactly the services the policy shows to it, the common
  services are those shown to every identity, the unique ones those shown to no other, different services have
  different names, and the report passes exactly when no finding asks for a review.
\<close>
theorem validation_report_exact:
  assumes "cd_Policy d = Some p" and "distinct (map ph_ID (cd_ProxyHosts d))" and "distinct (map vi_Label inputs)" and "inputs \<noteq> []"
  shows "set (vr_Common (buildValidationReport (Some d) inputs privacy source build)) = (\<Inter>v \<in> set inputs. shown_services d p v)
    \<and> map (\<lambda>r. (vir_Label r, vis_ServiceID ` set (vir_Services r), set (vir_Unique r)))
        (vr_Identities (buildValidationReport (Some d) inputs privacy source build))
      = map (\<lambda>v. (vi_Label v, shown_services d p v, shown_services d p v - (\<Union>u \<in> set inputs - {v}. shown_services d p u))) inputs
    \<and> distinct (map vsv_ID (vr_Services (buildValidationReport (Some d) inputs privacy source build)))
    \<and> (vr_Pass (buildValidationReport (Some d) inputs privacy source build) \<longleftrightarrow>
        list_all (\<lambda>f. vf_Severity f \<noteq> Review) (vr_Findings (buildValidationReport (Some d) inputs privacy source build)))"
proof (intro conjI)
  let ?hosts = "validationProxyHosts (cd_ProxyHosts d)"
  let ?f = "\<lambda>v. remdups (map (service_name \<circ> fst) (identity_matches ?hosts d v))"
  note sets = identity_sets_map [OF assms(3), of ?hosts d]
  have names: "set (?f v) = shown_services d p v" for v
    using identity_matches_services [OF assms(1,2), of v] by simp
  show "set (vr_Common (buildValidationReport (Some d) inputs privacy source build)) = (\<Inter>v \<in> set inputs. shown_services d p v)"
    unfolding buildValidationReport_fields(1) [OF assms(1)] sets common_services_set [OF assms(3,4)] names ..
  have "set (uniqueValidationServices (vi_Label v) (identity_sets ?hosts d inputs)) = shown_services d p v - (\<Union>u \<in> set inputs - {v}. shown_services d p u)"
    if "v \<in> set inputs" for v
    unfolding sets unique_services_set [OF assms(3) that] names ..
  then show "map (\<lambda>r. (vir_Label r, vis_ServiceID ` set (vir_Services r), set (vir_Unique r)))
        (vr_Identities (buildValidationReport (Some d) inputs privacy source build))
      = map (\<lambda>v. (vi_Label v, shown_services d p v, shown_services d p v - (\<Union>u \<in> set inputs - {v}. shown_services d p u))) inputs"
    unfolding buildValidationReport_fields(2) [OF assms(1)]
    by (simp add: identity_report_def identity_services_names [OF assms(1,2)])
  have "map vsv_ID (map (visible_service ?hosts d privacy inputs) (enumerate 0 ?hosts)) = map service_name (map fst (enumerate 0 ?hosts))"
    unfolding map_map by (rule map_cong [OF refl]) (simp add: visible_service_def service_entry_def split: prod.split)
  moreover have "distinct (map service_name (map fst (enumerate 0 ?hosts)))"
    by (simp only: map_fst_enumerate distinct_map distinct_upt) (simp add: inj_on_def service_name_inject)
  ultimately show "distinct (map vsv_ID (vr_Services (buildValidationReport (Some d) inputs privacy source build)))"
    unfolding buildValidationReport_fields(3) [OF assms(1)] by simp
  show "vr_Pass (buildValidationReport (Some d) inputs privacy source build) \<longleftrightarrow>
      list_all (\<lambda>f. vf_Severity f \<noteq> Review) (vr_Findings (buildValidationReport (Some d) inputs privacy source build))"
    by (rule buildValidationReport_fields(4) [OF assms(1)])
qed

definition sample_inputs :: "validationIdentityInput list" where
  "sample_inputs = [\<lparr>vi_Label = ''admin'', vi_Login = ''alice@example.com''\<rparr>, \<lparr>vi_Label = ''guest'', vi_Login = ''bob@example.com''\<rparr>]"

definition sample_build :: BuildInfo where
  "sample_build = \<lparr>Version = ''v1'', Revision = ''abc'', SourceState = ''clean''\<rparr>"

lemma validation_report_exact_witness:
  "set (vr_Common (buildValidationReport (Some (sample_data sample_hosts)) sample_inputs PrivacySummary ''environment_file'' sample_build)) =
     (\<Inter>v \<in> set sample_inputs. shown_services (sample_data sample_hosts) (the (cd_Policy (sample_data sample_hosts))) v) \<and>
   commonValidationServices (identity_sets (validationProxyHosts sample_hosts) (sample_data sample_hosts) sample_inputs) = [''service-001'', ''service-002'']"
proof -
  have "cd_Policy (sample_data sample_hosts) = Some (the (cd_Policy (sample_data sample_hosts)))"
    "distinct (map ph_ID (cd_ProxyHosts (sample_data sample_hosts)))" by (simp_all add: sample_data_def sample_hosts_def)
  moreover have "distinct (map vi_Label sample_inputs)" "sample_inputs \<noteq> []" by (simp_all add: sample_inputs_def)
  ultimately have "set (vr_Common (buildValidationReport (Some (sample_data sample_hosts)) sample_inputs PrivacySummary ''environment_file'' sample_build)) =
     (\<Inter>v \<in> set sample_inputs. shown_services (sample_data sample_hosts) (the (cd_Policy (sample_data sample_hosts))) v)"
    by (rule validation_report_exact [THEN conjunct1])
  moreover have "commonValidationServices (identity_sets (validationProxyHosts sample_hosts) (sample_data sample_hosts) sample_inputs) = [''service-001'', ''service-002'']"
    by code_simp
  ultimately show ?thesis by blast
qed

end
