(* ===== verification/Setup.thy ===== *)
theory Setup
  imports Config Go_Flag
begin

text \<open>
  The setup wizard (\<open>setup.go\<close>, \<open>setup_service_editor.go\<close>): it asks for the settings, checks the whole configuration
  and replaces the environment file. What is typed is a text, line by line; the hidden secrets are a list of
  inputs, where \<open>None\<close> is a failing reader. What is printed is left out.
\<close>

datatype setup_error =
    SetupUsage | SetupLock | SetupRead | SetupInternal | SetupCancelled | SetupEnv env_error | SetupConfig config_error | SetupProxyCIDR
  | SetupBadSecret | SetupWrite env_write_error | SetupNoFile | SetupBadValue

section \<open>Prompts\<close>

definition newline_char :: char where "newline_char = char_of (10::nat)"

text \<open>A line without its end, and what is left of the input; nothing at the end of the input.\<close>

definition readSetupLine :: "string \<Rightarrow> (string \<times> string) option" where
  "readSetupLine input =
     (if input = [] then None
      else Some (trim_suffix (takeWhile (\<lambda>c. c \<noteq> newline_char) input) [char_of (13::nat)], drop 1 (dropWhile (\<lambda>c. c \<noteq> newline_char) input)))"

lemma readSetupLine_shorter: "readSetupLine input = Some (line, rest) \<Longrightarrow> length rest < length input"
  using length_dropWhile_le [of "\<lambda>c. c \<noteq> newline_char" input] by (cases input) (auto simp: readSetupLine_def)

definition yes_answer :: "string \<Rightarrow> bool" where
  "yes_answer line \<longleftrightarrow> to_lower (trim_space line) = ''y'' \<or> to_lower (trim_space line) = ''yes''"

definition promptSetupConfirmation :: "string \<Rightarrow> setup_error + bool \<times> string" where
  "promptSetupConfirmation input = (case readSetupLine input of None \<Rightarrow> Inl SetupRead
     | Some (line, rest) \<Rightarrow> Inr (yes_answer line, rest))"

type_synonym setup_validator = "string \<Rightarrow> string option"

function prompt_value :: "setup_validator \<Rightarrow> string \<Rightarrow> string \<Rightarrow> setup_error + string \<times> string" where
  "prompt_value valid preset input = (case readSetupLine input of None \<Rightarrow> Inl SetupRead
     | Some (line, rest) \<Rightarrow>
         (case valid (if trim_space line = [] then preset else trim_space line) of
            Some normalized \<Rightarrow> Inr (normalized, rest)
          | None \<Rightarrow> prompt_value valid preset rest))"
  by pat_completeness auto
termination by (relation "measure (\<lambda>(_, _, input). length input)") (auto simp: readSetupLine_shorter)

declare prompt_value.simps [simp del]

definition promptSetupValue :: "setup_validator \<Rightarrow> string \<Rightarrow> string \<Rightarrow> string \<Rightarrow> setup_error + string \<times> string" where
  "promptSetupValue valid existing0 fallback input =
     (let existing1 = trim_space existing0;
          existing = (if existing1 = [] then [] else (case valid existing1 of None \<Rightarrow> [] | Some n \<Rightarrow> n)) in
      if existing = [] \<and> fallback \<noteq> []
      then (case valid fallback of None \<Rightarrow> Inl SetupInternal | Some n \<Rightarrow> prompt_value valid n input)
      else prompt_value valid existing input)"

fun prompt_secret :: "string \<Rightarrow> string option list \<Rightarrow> setup_error + string \<times> string option list" where
  "prompt_secret existing [] = Inl SetupRead"
| "prompt_secret existing (None # secrets) = Inl SetupRead"
| "prompt_secret existing (Some secret # secrets) =
     (if secret = [] \<and> existing \<noteq> [] then Inr (existing, secrets)
      else if trim_space secret = [] then prompt_secret existing secrets
      else if \<not> validateEnvValue secret then prompt_secret existing secrets
      else Inr (secret, secrets))"

definition promptSetupSecret :: "string \<Rightarrow> string option list \<Rightarrow> setup_error + string \<times> string option list" where
  "promptSetupSecret existing secrets =
     and_then (reject_if (existing \<noteq> [] \<and> \<not> validateEnvValue existing) SetupBadSecret) (\<lambda>_. prompt_secret existing secrets)"

section \<open>Values\<close>

definition right_value :: "'e + 'a \<Rightarrow> 'a option" where
  "right_value r = (case r of Inl _ \<Rightarrow> None | Inr a \<Rightarrow> Some a)"

definition validateRequiredTrimmedSetupValue :: setup_validator where
  "validateRequiredTrimmedSetupValue v = (let t = trim_space v in if t = [] \<or> \<not> validateEnvValue t then None else Some t)"

definition validateSetupControlPlane :: setup_validator where
  "validateSetupControlPlane v = (let p = to_lower (trim_space v) in if p = ''headscale'' \<or> p = ''tailscale'' then Some p else None)"

text \<open>\<open>time.Duration.String\<close> for a duration of at least a second.\<close>

definition fraction_text :: "nat \<Rightarrow> string" where
  "fraction_text n = (let ds = show_nat n; padded = replicate (9 - length ds) (CHR ''0'') @ ds;
      shown = rev (dropWhile (\<lambda>c. c = CHR ''0'') (rev padded)) in
      if shown = [] then [] else CHR ''.'' # shown)"

definition duration_string :: "int \<Rightarrow> string" where
  "duration_string d =
     (let n = nat d; s = n div 1000000000; f = n mod 1000000000 in
      (if s div 3600 > 0 then show_nat (s div 3600) @ ''h'' else []) @
      (if s div 60 > 0 then show_nat (s div 60 mod 60) @ ''m'' else []) @
      show_nat (s mod 60) @ fraction_text f @ ''s'')"

definition validateSetupDuration :: setup_validator where
  "validateSetupDuration v = map_option duration_string (right_value (normalizePollInterval v))"

definition validateExistingTrustedProxy :: "string \<Rightarrow> bool" where
  "validateExistingTrustedProxy v \<longleftrightarrow> trim_space v = [] \<or> net_parse_cidr (trim_space v) \<noteq> None"

text \<open>A map as a lookup of the configuration.\<close>

definition value_lookup :: "(string, string) gomap \<Rightarrow> configLookup" where
  "value_lookup vals key = (case mapConfigLookup vals key of None \<Rightarrow> ([], False, False) | Some v \<Rightarrow> (v, True, False))"

definition validateSetupConfiguration :: "(string, string) gomap \<Rightarrow> setup_error + unit" where
  "validateSetupConfiguration vals = (case loadConfigFrom (value_lookup vals) of
     Inr _ \<Rightarrow> Inr ()
   | Inl e \<Rightarrow>
       if trim_space (gomap_get vals ''TRUSTED_PROXY_CIDR'' []) = [] \<and> e = ConfigMissing [''TRUSTED_PROXY_CIDR''] then Inr ()
       else Inl (SetupConfig e))"

definition setupHasAnyKey :: "(string, string) gomap \<Rightarrow> string list \<Rightarrow> bool" where
  "setupHasAnyKey vals ks \<longleftrightarrow> list_ex (gomap_has vals) ks"

definition setupPresentKeys :: "(string, string) gomap \<Rightarrow> string list \<Rightarrow> string list" where
  "setupPresentKeys vals ks = filter (gomap_has vals) ks"

fun provider_name :: "controlPlaneProvider \<Rightarrow> string" where
  "provider_name Headscale = ''headscale''"
| "provider_name Tailscale = ''tailscale''"

definition provider_of :: "string \<Rightarrow> controlPlaneProvider" where
  "provider_of p = (if p = ''tailscale'' then Tailscale else Headscale)"

definition setupExistingControlPlane :: "(string, string) gomap \<Rightarrow> controlPlaneProvider \<times> bool" where
  "setupExistingControlPlane vals =
     (let selector = to_lower (trim_space (gomap_get vals ''CONTROL_PLANE'' [])) in
      if selector = ''headscale'' \<or> selector = ''tailscale'' then (provider_of selector, True)
      else if setupHasAnyKey vals headscaleRequiredConfigKeys then (Headscale, True)
      else if setupHasAnyKey vals tailscaleRequiredConfigKeys then (Tailscale, True)
      else (Headscale, False))"

section \<open>The wizard\<close>

text \<open>What is asked and where: the values so far, the typed input and the secrets.\<close>

record wizard =
  wz_values :: "(string, string) gomap"
  wz_input :: string
  wz_secrets :: "string option list"

definition wz_get :: "wizard \<Rightarrow> string \<Rightarrow> string" where
  "wz_get w key = gomap_get (wz_values w) key []"

definition wz_put :: "string \<Rightarrow> string \<Rightarrow> wizard \<Rightarrow> wizard" where
  "wz_put key v w = w\<lparr>wz_values := gomap_put (wz_values w) key v\<rparr>"

definition ask :: "string \<Rightarrow> string \<Rightarrow> setup_validator \<Rightarrow> wizard \<Rightarrow> setup_error + wizard" where
  "ask key fallback valid w = and_then (promptSetupValue valid (wz_get w key) fallback (wz_input w)) (\<lambda>(v, rest).
     Inr (wz_put key v (w\<lparr>wz_input := rest\<rparr>)))"

definition ask_secret :: "string \<Rightarrow> wizard \<Rightarrow> setup_error + wizard" where
  "ask_secret key w = and_then (promptSetupSecret (wz_get w key) (wz_secrets w)) (\<lambda>(v, rest).
     Inr (wz_put key v (w\<lparr>wz_secrets := rest\<rparr>)))"

definition drop_keys :: "string list \<Rightarrow> (string, string) gomap \<Rightarrow> (string, string) gomap" where
  "drop_keys ks vals = filter (\<lambda>kv. fst kv \<notin> set ks) vals"

text \<open>The provider; changing it drops the credentials of the other one, after a confirmation.\<close>

definition choose_provider :: "wizard \<Rightarrow> setup_error + controlPlaneProvider \<times> wizard" where
  "choose_provider w0 = (case setupExistingControlPlane (wz_values w0) of (existing, known) \<Rightarrow>
     and_then (promptSetupValue validateSetupControlPlane (provider_name existing) ''headscale'' (wz_input w0)) (\<lambda>(v, rest).
       let provider = provider_of v; w = w0\<lparr>wz_input := rest\<rparr>;
           inactive = setupPresentKeys (wz_values w) (inactiveControlPlaneConfigKeys provider) in
       and_then (if known \<and> provider \<noteq> existing \<and> inactive \<noteq> []
         then and_then (promptSetupConfirmation (wz_input w)) (\<lambda>(confirmed, rest).
           and_then (reject_if (\<not> confirmed) SetupCancelled) (\<lambda>_.
             Inr (w\<lparr>wz_values := drop_keys inactive (wz_values w), wz_input := rest\<rparr>)))
         else Inr w) (\<lambda>w'. Inr (provider, wz_put ''CONTROL_PLANE'' (provider_name provider) w'))))"

fun ask_credentials :: "controlPlaneProvider \<Rightarrow> wizard \<Rightarrow> setup_error + wizard" where
  "ask_credentials Headscale w =
     and_then (ask ''HEADSCALE_URL'' [] (\<lambda>v. right_value (normalizeHeadscaleBaseURL v)) w) (ask_secret ''HEADSCALE_API_KEY'')"
| "ask_credentials Tailscale w =
     and_then (ask ''TAILSCALE_OAUTH_CLIENT_ID'' [] validateRequiredTrimmedSetupValue w) (ask_secret ''TAILSCALE_OAUTH_CLIENT_SECRET'')"

definition wizard_values :: "wizard \<Rightarrow> setup_error + (string, string) gomap" where
  "wizard_values w0 =
     and_then (choose_provider w0) (\<lambda>(provider, w).
     and_then (ask_credentials provider w) (\<lambda>w.
     and_then (ask ''NPM_URL'' [] (\<lambda>v. right_value (normalizeNPMBaseURL v)) w) (\<lambda>w.
     and_then (ask ''NPM_EMAIL'' ''admin@example.com'' validateRequiredTrimmedSetupValue w) (\<lambda>w.
     and_then (ask_secret ''NPM_PASSWORD'' w) (\<lambda>w.
     and_then (ask ''LISTEN_ADDR'' ''127.0.0.1:8080'' (\<lambda>v. right_value (normalizeListenAddr v)) w) (\<lambda>w.
     and_then (ask ''POLL_INTERVAL'' ''30s'' validateSetupDuration w) (\<lambda>w.
     and_then (reject_if (\<not> validateExistingTrustedProxy (wz_get w ''TRUSTED_PROXY_CIDR'')) SetupProxyCIDR) (\<lambda>_.
       let w' = (if trim_space (wz_get w ''TRUSTED_PROXY_CIDR'') = [] then wz_put ''TRUSTED_PROXY_CIDR'' [] w else w) in
     and_then (validateSetupConfiguration (wz_values w')) (\<lambda>_. Inr (wz_values w'))))))))))"

text \<open>What is in the file before: no file, or its values.\<close>

definition readSetupValues :: "env_disk \<Rightarrow> env_error + (string, string) gomap \<times> bool" where
  "readSetupValues d = (case env_file d of None \<Rightarrow> Inr ([], False)
     | Some contents \<Rightarrow> and_then (parseEnvFile contents) (\<lambda>vals. Inr (vals, True)))"

text \<open>The surroundings of a change of the file: the printable runes, the calls that fail, a torn write, and the lock.\<close>

record env_calls =
  ec_printable :: "string \<Rightarrow> bool"
  ec_fails :: "env_write_stage \<Rightarrow> bool"
  ec_partial :: nat
  ec_locked :: bool

definition replace_env ::
    "env_calls \<Rightarrow> string \<Rightarrow> (string, string) gomap \<Rightarrow> string option \<Rightarrow> env_disk \<Rightarrow> (setup_error + unit) \<times> env_disk" where
  "replace_env calls path vals original d =
     (case writeEnvFileWithSnapshot (ec_printable calls) (ec_fails calls) (ec_partial calls) path vals (Some original) d of
        (Inl e, d') \<Rightarrow> (Inl (SetupWrite e), d') | (Inr _, d') \<Rightarrow> (Inr (), d'))"

definition runSetupWizard :: "env_calls \<Rightarrow> string \<Rightarrow> string \<Rightarrow> string option list \<Rightarrow> env_disk \<Rightarrow> (setup_error + unit) \<times> env_disk" where
  "runSetupWizard calls path input secrets d =
     (if ec_locked calls then (Inl SetupLock, d)
      else (case captureEnvFileSnapshot (ec_fails calls) d of Inl e \<Rightarrow> (Inl (SetupWrite e), d)
      | Inr original \<Rightarrow>
        (case readSetupValues d of Inl e \<Rightarrow> (Inl (SetupEnv e), d)
        | Inr (vals, exists) \<Rightarrow>
          (case wizard_values \<lparr>wz_values = vals, wz_input = input, wz_secrets = secrets\<rparr> of Inl e \<Rightarrow> (Inl e, d)
          | Inr vals' \<Rightarrow> replace_env calls path vals' original d))))"

section \<open>What the wizard leaves\<close>

text \<open>The keys it asks for, and the credentials it may drop.\<close>

definition wizard_keys :: "string list" where
  "wizard_keys = ''CONTROL_PLANE'' # headscaleRequiredConfigKeys @ tailscaleRequiredConfigKeys
     @ [''NPM_URL'', ''NPM_EMAIL'', ''NPM_PASSWORD'', ''LISTEN_ADDR'', ''POLL_INTERVAL'']"

text \<open>The other keys are as they were.\<close>

definition framed :: "(string, string) gomap \<Rightarrow> (string, string) gomap \<Rightarrow> bool" where
  "framed m m' \<longleftrightarrow> (gomap_wf m \<longrightarrow> gomap_wf m') \<and> map_of m' |` (- set wizard_keys) = map_of m |` (- set wizard_keys)"

lemma framed_refl: "framed m m"
  by (simp add: framed_def)

lemma framed_trans: "framed a b \<Longrightarrow> framed b c \<Longrightarrow> framed a c"
  by (simp add: framed_def)

lemma framed_put: "k \<in> set wizard_keys \<Longrightarrow> framed m (gomap_put m k v)"
  by (simp add: framed_def)

lemma map_of_drop_keys: "map_of (drop_keys ks m) = map_of m |` (- set ks)"
  by (induction m) (auto simp: drop_keys_def restrict_map_def fun_eq_iff)

lemma gomap_wf_drop_keys: "gomap_wf m \<Longrightarrow> gomap_wf (drop_keys ks m)"
  by (simp add: drop_keys_def distinct_map_filter)

lemma framed_drop: "set ks \<subseteq> set wizard_keys \<Longrightarrow> framed m (drop_keys ks m)"
  using gomap_wf_drop_keys [of m ks] by (auto simp: framed_def map_of_drop_keys restrict_map_def fun_eq_iff)

lemma ask_framed: "ask k fallback valid w = Inr w' \<Longrightarrow> k \<in> set wizard_keys \<Longrightarrow> framed (wz_values w) (wz_values w')"
  by (auto simp: ask_def wz_put_def framed_put)

lemma ask_secret_framed: "ask_secret k w = Inr w' \<Longrightarrow> k \<in> set wizard_keys \<Longrightarrow> framed (wz_values w) (wz_values w')"
  by (auto simp: ask_secret_def wz_put_def framed_put)

lemma inactive_wizard_keys: "set (setupPresentKeys m (inactiveControlPlaneConfigKeys p)) \<subseteq> set wizard_keys"
  by (cases p) (auto simp: setupPresentKeys_def wizard_keys_def)

lemma choose_provider_framed:
  assumes "choose_provider w = Inr (provider, w')"
  shows "framed (wz_values w) (wz_values w')"
proof -
  let ?inactive = "\<lambda>p. setupPresentKeys (wz_values w) (inactiveControlPlaneConfigKeys p)"
  obtain p vals where last: "wz_values w' = gomap_put vals ''CONTROL_PLANE'' (provider_name p)"
      and before: "vals = wz_values w \<or> vals = drop_keys (?inactive p) (wz_values w)"
    using assms
    by (auto simp: choose_provider_def wz_put_def Let_def reject_if_def split: prod.splits if_splits elim!: and_thenE)
  from before have "framed (wz_values w) vals"
  proof
    assume "vals = wz_values w" then show ?thesis by (simp add: framed_refl)
  next
    assume "vals = drop_keys (?inactive p) (wz_values w)" then show ?thesis by (simp add: framed_drop [OF inactive_wizard_keys])
  qed
  moreover have "framed vals (wz_values w')" unfolding last by (rule framed_put) (simp add: wizard_keys_def)
  ultimately show ?thesis by (rule framed_trans)
qed

lemma ask_credentials_framed: "ask_credentials provider w = Inr w' \<Longrightarrow> framed (wz_values w) (wz_values w')"
  by (cases provider)
    (auto simp: wizard_keys_def headscaleRequiredConfigKeys_def tailscaleRequiredConfigKeys_def
      elim!: framed_trans [OF ask_framed ask_secret_framed])

text \<open>The trusted proxy is what it was, or empty when it was blank.\<close>

lemma wizard_values_sound:
  assumes "wizard_values w = Inr vals'"
  shows "validateSetupConfiguration vals' = Inr ()" and "gomap_wf (wz_values w) \<Longrightarrow> gomap_wf vals'"
    and "map_of vals' |` (- insert ''TRUSTED_PROXY_CIDR'' (set wizard_keys)) = map_of (wz_values w) |` (- insert ''TRUSTED_PROXY_CIDR'' (set wizard_keys))"
    and "gomap_get vals' ''TRUSTED_PROXY_CIDR'' [] =
      (if trim_space (wz_get w ''TRUSTED_PROXY_CIDR'') = [] then [] else wz_get w ''TRUSTED_PROXY_CIDR'')"
proof -
  obtain provider w1 w2 w3 w4 w5 w6 w7 where steps: "choose_provider w = Inr (provider, w1)" "ask_credentials provider w1 = Inr w2"
      "ask ''NPM_URL'' [] (\<lambda>v. right_value (normalizeNPMBaseURL v)) w2 = Inr w3"
      "ask ''NPM_EMAIL'' ''admin@example.com'' validateRequiredTrimmedSetupValue w3 = Inr w4" "ask_secret ''NPM_PASSWORD'' w4 = Inr w5"
      "ask ''LISTEN_ADDR'' ''127.0.0.1:8080'' (\<lambda>v. right_value (normalizeListenAddr v)) w5 = Inr w6"
      "ask ''POLL_INTERVAL'' ''30s'' validateSetupDuration w6 = Inr w7"
    and last: "vals' = wz_values (if trim_space (wz_get w7 ''TRUSTED_PROXY_CIDR'') = [] then wz_put ''TRUSTED_PROXY_CIDR'' [] w7 else w7)"
    and valid: "validateSetupConfiguration vals' = Inr ()"
    using assms unfolding wizard_values_def Let_def by (elim and_thenE) (auto elim!: and_thenE split: prod.splits)
  show "validateSetupConfiguration vals' = Inr ()" by (rule valid)
  have keys: "''NPM_URL'' \<in> set wizard_keys" "''NPM_EMAIL'' \<in> set wizard_keys" "''NPM_PASSWORD'' \<in> set wizard_keys"
      "''LISTEN_ADDR'' \<in> set wizard_keys" "''POLL_INTERVAL'' \<in> set wizard_keys" "''TRUSTED_PROXY_CIDR'' \<notin> set wizard_keys"
    by (simp_all add: wizard_keys_def headscaleRequiredConfigKeys_def tailscaleRequiredConfigKeys_def)
  have framed: "framed (wz_values w) (wz_values w7)"
    using choose_provider_framed [OF steps(1)] ask_credentials_framed [OF steps(2)] ask_framed [OF steps(3) keys(1)]
      ask_framed [OF steps(4) keys(2)] ask_secret_framed [OF steps(5) keys(3)] ask_framed [OF steps(6) keys(4)] ask_framed [OF steps(7) keys(5)]
    by (blast intro: framed_trans)
  then show "gomap_wf (wz_values w) \<Longrightarrow> gomap_wf vals'" by (simp add: framed_def last wz_put_def)
  have same: "map_of (wz_values w7) k = map_of (wz_values w) k" if "k \<notin> set wizard_keys" for k
    using framed that unfolding framed_def restrict_map_def fun_eq_iff by (metis ComplI)
  then show "map_of vals' |` (- insert ''TRUSTED_PROXY_CIDR'' (set wizard_keys)) = map_of (wz_values w) |` (- insert ''TRUSTED_PROXY_CIDR'' (set wizard_keys))"
    by (auto simp: last wz_put_def restrict_map_def fun_eq_iff)
  have "wz_get w7 ''TRUSTED_PROXY_CIDR'' = wz_get w ''TRUSTED_PROXY_CIDR''"
    using same [OF keys(6)] by (simp add: wz_get_def gomap_get_def)
  then show "gomap_get vals' ''TRUSTED_PROXY_CIDR'' [] =
      (if trim_space (wz_get w ''TRUSTED_PROXY_CIDR'') = [] then [] else wz_get w ''TRUSTED_PROXY_CIDR'')"
    by (simp add: last wz_put_def) (simp add: wz_get_def gomap_get_def)
qed

lemma env_entries_wf: "env_entries n m ls = Inr m' \<Longrightarrow> gomap_wf m \<Longrightarrow> gomap_wf m'"
  by (induction n m ls rule: env_entries.induct) (auto split: sum.splits option.splits prod.splits)

lemma parseEnvFile_wf: "parseEnvFile s = Inr m \<Longrightarrow> gomap_wf m"
  using env_entries_wf by (fastforce simp: parseEnvFile_def)

lemma readSetupValues_wf: "readSetupValues d = Inr (vals, exists) \<Longrightarrow> gomap_wf vals"
  using parseEnvFile_wf by (auto simp: readSetupValues_def split: option.splits elim!: and_thenE)

text \<open>A map that is read as the same map gives the same configuration.\<close>

lemma value_lookup_cong: "map_of m = map_of m' \<Longrightarrow> value_lookup m = value_lookup m'"
  by (simp add: value_lookup_def mapConfigLookup_def fun_eq_iff)

definition fits_a_line :: "(string \<Rightarrow> bool) \<Rightarrow> string \<times> string \<Rightarrow> bool" where
  "fits_a_line printable kv \<longleftrightarrow> int (length (written_line printable (fst kv) (snd kv))) \<le> 1024 * 1024"

definition settings_file :: "(string \<Rightarrow> bool) \<Rightarrow> (string, string) gomap \<Rightarrow> string option \<Rightarrow> bool" where
  "settings_file printable vals contents \<longleftrightarrow> (\<exists>s. serializeEnvFile printable vals = Inr s \<and> contents = Some s)"

lemma settings_file_read_back:
  assumes "settings_file printable vals (Some s)" and "gomap_wf vals" and "list_all (fits_a_line printable) vals"
  shows "\<exists>m. parseEnvFile s = Inr m \<and> map_of m = map_of vals"
  using env_file_round_trip [OF assms(2), of printable] assms(1,3)
  by (fastforce simp: settings_file_def fits_a_line_def list_all_iff)

lemma replace_env_outcome:
  "(case replace_env calls path vals original (d\<lparr>env_temporary := None\<rparr>) of
      (Inr _, d') \<Rightarrow> settings_file (ec_printable calls) vals (env_file d') \<and> env_temporary d' = None \<and> original = env_file d
    | (Inl _, d') \<Rightarrow> env_file d' = env_file d)"
  using env_write_atomic [where printable = "ec_printable calls" and fails = "ec_fails calls" and partial = "ec_partial calls"
      and path = path and vals = vals and expected = "Some original" and d = d]
  by (auto simp: replace_env_def settings_file_def split: sum.splits prod.splits)

lemma replace_env_kept: "replace_env calls path vals original (d\<lparr>env_temporary := None\<rparr>) = (Inl e, d') \<Longrightarrow> env_file d' = env_file d"
  using replace_env_outcome [where calls = calls and path = path and vals = vals and original = original and d = d] by simp

lemma replace_env_written:
  assumes "replace_env calls path vals original (d\<lparr>env_temporary := None\<rparr>) = (Inr u, d')"
  shows "settings_file (ec_printable calls) vals (env_file d')" and "env_temporary d' = None"
  using assms replace_env_outcome [where calls = calls and path = path and vals = vals and original = original and d = d] by simp_all

lemma runSetupWizard_InrE:
  assumes "runSetupWizard calls path input secrets d = (Inr u, d')"
  obtains original before exists vals where "readSetupValues d = Inr (before, exists)"
    "wizard_values \<lparr>wz_values = before, wz_input = input, wz_secrets = secrets\<rparr> = Inr vals"
    "replace_env calls path vals original d = (Inr u, d')"
  using assms unfolding runSetupWizard_def by (simp split: prod.split_asm sum.split_asm if_split_asm)

lemma setup_wizard_success:
  assumes "runSetupWizard calls path input secrets (d\<lparr>env_temporary := None\<rparr>) = (Inr u, d')"
  obtains before exists vals where "readSetupValues d = Inr (before, exists)"
    "wizard_values \<lparr>wz_values = before, wz_input = input, wz_secrets = secrets\<rparr> = Inr vals"
    "settings_file (ec_printable calls) vals (env_file d')" "env_temporary d' = None" "gomap_wf vals"
proof -
  have read: "readSetupValues (d\<lparr>env_temporary := None\<rparr>) = readSetupValues d" by (simp add: readSetupValues_def)
  obtain original before exists vals where r: "readSetupValues d = Inr (before, exists)"
      and w: "wizard_values \<lparr>wz_values = before, wz_input = input, wz_secrets = secrets\<rparr> = Inr vals"
      and rep: "replace_env calls path vals original (d\<lparr>env_temporary := None\<rparr>) = (Inr u, d')"
    using assms by (elim runSetupWizard_InrE) (simp add: read)
  have "gomap_wf vals" using wizard_values_sound(2) [OF w] readSetupValues_wf [OF r] by simp
  with r w replace_env_written [OF rep] show ?thesis by (rule that)
qed

text \<open>Unless a line is too long, the settings are read back as they were written.\<close>

lemma settings_file_loads:
  assumes "settings_file printable vals contents" and "gomap_wf vals"
  shows "list_ex (\<lambda>kv. int (length (written_line printable (fst kv) (snd kv))) > 1024 * 1024) vals
    \<or> (\<exists>s again. contents = Some s \<and> parseEnvFile s = Inr again \<and> loadConfigFrom (value_lookup again) = loadConfigFrom (value_lookup vals))"
proof (cases "list_all (fits_a_line printable) vals")
  case True
  then show ?thesis using settings_file_read_back [of printable vals] assms value_lookup_cong by (metis settings_file_def)
next
  case False
  then show ?thesis by (force simp: list_all_iff list_ex_iff fits_a_line_def not_le)
qed

text \<open>
  C24: The setup wizard. Whatever is typed, whichever call of the operating system fails and whatever the file
  held, on an error the environment file is as it was. On success the file holds the settings that were
  validated: only the keys of the wizard differ from the file before, the trusted proxy is never chosen (it
  is the old one, or empty when that was blank), and unless a line is longer than 1 MiB, reading the file
  back gives settings that a configuration accepts in the same way, lacking at most the trusted proxy.
\<close>
theorem setup_wizard_writes_valid:
  "(case runSetupWizard calls path input secrets (d\<lparr>env_temporary := None\<rparr>) of
      (Inl _, d') \<Rightarrow> env_file d' = env_file d
    | (Inr _, d') \<Rightarrow> \<exists>before exists vals. readSetupValues d = Inr (before, exists) \<and> settings_file (ec_printable calls) vals (env_file d')
        \<and> env_temporary d' = None
        \<and> validateSetupConfiguration vals = Inr ()
        \<and> map_of vals |` (- insert ''TRUSTED_PROXY_CIDR'' (set wizard_keys)) = map_of before |` (- insert ''TRUSTED_PROXY_CIDR'' (set wizard_keys))
        \<and> gomap_get vals ''TRUSTED_PROXY_CIDR'' [] =
            (if trim_space (gomap_get before ''TRUSTED_PROXY_CIDR'' []) = [] then [] else gomap_get before ''TRUSTED_PROXY_CIDR'' [])
        \<and> (list_ex (\<lambda>kv. int (length (written_line (ec_printable calls) (fst kv) (snd kv))) > 1024 * 1024) vals
            \<or> (\<exists>s again. env_file d' = Some s \<and> parseEnvFile s = Inr again \<and> loadConfigFrom (value_lookup again) = loadConfigFrom (value_lookup vals))))"
proof (cases "runSetupWizard calls path input secrets (d\<lparr>env_temporary := None\<rparr>)")
  case (Pair r d')
  show ?thesis
  proof (cases r)
    case (Inl e)
    with Pair have "env_file d' = env_file d"
      by (auto simp: runSetupWizard_def split: prod.splits sum.splits if_splits dest: replace_env_kept)
    then show ?thesis by (simp add: Pair Inl)
  next
    case (Inr u)
    note run = Pair [unfolded Inr]
    obtain before exists vals where r: "readSetupValues d = Inr (before, exists)"
        and w: "wizard_values \<lparr>wz_values = before, wz_input = input, wz_secrets = secrets\<rparr> = Inr vals"
        and written: "settings_file (ec_printable calls) vals (env_file d')" "env_temporary d' = None" and wf: "gomap_wf vals"
      using run by (rule setup_wizard_success)
    note sound = wizard_values_sound(1,3,4) [OF w, unfolded wz_get_def wizard.select_convs]
    show ?thesis
      unfolding run prod.case sum.case
      by (intro exI [of _ before] exI [of _ exists] exI [of _ vals] conjI r written sound settings_file_loads [OF written(1) wf])
  qed
qed

section \<open>The editor of the service metadata\<close>

definition service_editor_values :: "string \<Rightarrow> string \<Rightarrow> bool \<Rightarrow> (string, string) gomap \<Rightarrow> setup_error + (string, string) gomap" where
  "service_editor_values editors origin disable vals =
     (if disable then Inr (drop_keys [''PORTAL_EDITORS'', ''PORTAL_PUBLIC_ORIGIN''] vals)
      else (let vals' = gomap_put (gomap_put vals ''PORTAL_EDITORS'' editors) ''PORTAL_PUBLIC_ORIGIN'' origin in
        case loadServiceMetadataEditorConfig (value_lookup vals') (trim_space (gomap_get vals' ''SERVICE_METADATA_FILE'' [])) of
          Inl e \<Rightarrow> Inl (SetupConfig e) | Inr _ \<Rightarrow> Inr vals'))"

definition configureSetupServiceEditor ::
    "env_calls \<Rightarrow> string \<Rightarrow> string \<Rightarrow> string \<Rightarrow> bool \<Rightarrow> env_disk \<Rightarrow> (setup_error + unit) \<times> env_disk" where
  "configureSetupServiceEditor calls path editors origin disable d =
     (if ec_locked calls then (Inl SetupLock, d)
      else (case captureEnvFileSnapshot (ec_fails calls) d of Inl e \<Rightarrow> (Inl (SetupWrite e), d)
      | Inr original \<Rightarrow>
        (case readSetupValues d of Inl e \<Rightarrow> (Inl (SetupEnv e), d)
        | Inr (vals, exists) \<Rightarrow>
          if \<not> exists then (Inl SetupNoFile, d)
          else (case service_editor_values editors origin disable vals of Inl e \<Rightarrow> (Inl e, d)
          | Inr vals' \<Rightarrow> replace_env calls path vals' original d))))"

text \<open>Only the two settings of the editor change, and they are accepted when they are set.\<close>

lemma service_editor_values_sound:
  assumes "service_editor_values editors origin disable before = Inr vals"
  shows "map_of vals |` (- {''PORTAL_EDITORS'', ''PORTAL_PUBLIC_ORIGIN''}) = map_of before |` (- {''PORTAL_EDITORS'', ''PORTAL_PUBLIC_ORIGIN''})"
    and "if disable then map_of vals ''PORTAL_EDITORS'' = None \<and> map_of vals ''PORTAL_PUBLIC_ORIGIN'' = None
      else (\<exists>editor. loadServiceMetadataEditorConfig (value_lookup vals) (trim_space (gomap_get vals ''SERVICE_METADATA_FILE'' [])) = Inr editor)"
  using assms
  by (auto simp: service_editor_values_def Let_def map_of_drop_keys restrict_map_def fun_eq_iff split: sum.splits if_splits)

lemma service_editor_writes:
  "(case configureSetupServiceEditor calls path editors origin disable (d\<lparr>env_temporary := None\<rparr>) of
      (Inl _, d') \<Rightarrow> env_file d' = env_file d
    | (Inr _, d') \<Rightarrow> \<exists>before vals. readSetupValues d = Inr (before, True)
        \<and> service_editor_values editors origin disable before = Inr vals \<and> settings_file (ec_printable calls) vals (env_file d'))"
proof -
  have read: "readSetupValues (d\<lparr>env_temporary := None\<rparr>) = readSetupValues d" by (simp add: readSetupValues_def)
  show ?thesis
    unfolding configureSetupServiceEditor_def read
    by (auto split: prod.split sum.split dest: replace_env_kept replace_env_written)
qed

record service_editor_options =
  se_path :: string
  se_editors :: string
  se_origin :: string
  se_disable :: bool

text \<open>\<open>strconv.ParseBool\<close>.\<close>

definition parse_bool :: "string \<Rightarrow> bool option" where
  "parse_bool s = (if s \<in> {''1'', ''t'', ''T'', ''TRUE'', ''true'', ''True''} then Some True
     else if s \<in> {''0'', ''f'', ''F'', ''FALSE'', ''false'', ''False''} then Some False else None)"

definition service_editor_flags :: "service_editor_options flag list" where
  "service_editor_flags =
     [ValueFlag ''env-file'' (\<lambda>v o'. Some (o'\<lparr>se_path := v\<rparr>)), ValueFlag ''editors'' (\<lambda>v o'. Some (o'\<lparr>se_editors := v\<rparr>)),
      ValueFlag ''origin'' (\<lambda>v o'. Some (o'\<lparr>se_origin := v\<rparr>)),
      BoolFlag ''disable'' (\<lambda>v o'. case parse_bool v of None \<Rightarrow> None | Some b \<Rightarrow> Some (o'\<lparr>se_disable := b\<rparr>))]"

text \<open>The exit code; the environment file is the one at the path of the options.\<close>

definition runSetupServiceEditorCommand ::
    "env_calls \<Rightarrow> string list \<Rightarrow> (string \<Rightarrow> env_disk) \<Rightarrow> nat \<times> (string \<Rightarrow> env_disk)" where
  "runSetupServiceEditorCommand calls args disks =
     (if length args = 1 \<and> is_help (hd args) then (0, disks)
      else (case parse_flags service_editor_flags \<lparr>se_path = [], se_editors = [], se_origin = [], se_disable = False\<rparr> args of
        Some (o', []) \<Rightarrow>
          if se_path o' = [] \<or> (se_disable o' \<and> (se_editors o' \<noteq> [] \<or> se_origin o' \<noteq> []))
            \<or> (\<not> se_disable o' \<and> (se_editors o' = [] \<or> se_origin o' = [])) then (2, disks)
          else (case configureSetupServiceEditor calls (se_path o') (se_editors o') (se_origin o') (se_disable o') (disks (se_path o')) of
            (Inl _, d) \<Rightarrow> (1, disks(se_path o' := d)) | (Inr _, d) \<Rightarrow> (0, disks(se_path o' := d)))
      | _ \<Rightarrow> (2, disks)))"

definition quoteSetupCommandArgument :: "string \<Rightarrow> string" where
  "quoteSetupCommandArgument v = [single_quote] @
     concat (map (\<lambda>c. if c = single_quote then [single_quote, char_of (34::nat), single_quote, char_of (34::nat), single_quote] else [c]) v) @ [single_quote]"

end
