(* ===== verification/Suggest_Command.thy ===== *)
theory Suggest_Command
  imports Validation Setup
begin

text \<open>
  The command that proposes hostnames (\<open>hostname_suggestions_command.go\<close>): the feed on the standard input, the one
  load of the snapshot, the confirmation, and the new file with the proposal. The calls of the operating system
  that fail, and another process that creates the output file meanwhile, are arguments; the review that is printed
  is the theory \<open>Suggest_Review\<close>.
\<close>

section \<open>Input\<close>

text \<open>The records of the feed: lines that are not blank, each a valid name, within the limits.\<close>

fun stdin_records :: "nat \<Rightarrow> string list \<Rightarrow> string list option" where
  "stdin_records n [] = Some []"
| "stdin_records n (l # ls) = (let line = trim_suffix l [char_of (13::nat)] in
     if trim_space line = [] then stdin_records n ls
     else if length line > 253 then None
     else if n \<ge> 256 then None
     else if normalizeHostnameSuggestion line = None then None
     else map_option (\<lambda>rs. line # rs) (stdin_records (Suc n) ls))"

definition readHostnameSuggestionStdin :: "string option \<Rightarrow> string list option" where
  "readHostnameSuggestionStdin input = (case input of None \<Rightarrow> None
     | Some contents \<Rightarrow> (let data = take (64 * 1024 + 1) contents in
         if length data > 64 * 1024 then None else stdin_records 0 (split_byte newline_char data)))"

lemma stdin_records_bounds:
  "stdin_records n ls = Some rs \<Longrightarrow> n \<le> 256 \<Longrightarrow>
   n + length rs \<le> 256 \<and> list_all (\<lambda>r. length r \<le> 253 \<and> normalizeHostnameSuggestion r \<noteq> None) rs"
  by (induction n ls arbitrary: rs rule: stdin_records.induct) (fastforce simp: Let_def split: if_splits)+

text \<open>The answer must be a whole line.\<close>

function confirmHostnameSuggestionProposal :: "string \<Rightarrow> bool option" where
  "confirmHostnameSuggestionProposal input =
     (if newline_char \<notin> set input then None
      else (let answer = to_lower (trim_space (takeWhile (\<lambda>c. c \<noteq> newline_char) input)) in
        if answer = ''yes'' then Some True
        else if answer = [] \<or> answer = ''no'' then Some False
        else confirmHostnameSuggestionProposal (drop 1 (dropWhile (\<lambda>c. c \<noteq> newline_char) input))))"
  by pat_completeness auto
termination
proof (relation "measure length", simp)
  fix input :: string and answer
  assume "\<not> newline_char \<notin> set input"
  then have "input \<noteq> []" by auto
  then show "(drop 1 (dropWhile (\<lambda>c. c \<noteq> newline_char) input), input) \<in> measure length"
    using length_dropWhile_le [of "\<lambda>c. c \<noteq> newline_char" input] by (cases input) auto
qed

declare confirmHostnameSuggestionProposal.simps [simp del]

section \<open>The output file\<close>

datatype proposal_stage =
    PropCreate | PropChmod | PropWrite | PropSync | PropClose | PropLink | PropRemove | PropOpenDir | PropSyncDir | PropCloseDir
  | PropCleanup | PropWithdraw

datatype proposal_error = ProposalPath | ProposalActive | ProposalExists | ProposalInspect | ProposalFailed proposal_stage

text \<open>The file at the output path and the temporary file beside it.\<close>

record proposal_disk =
  pd_output :: "string option"
  pd_temporary :: "string option"

text \<open>
  What the file system answers: the canonical form of a path that is not blank, whether the output can be
  inspected, the calls that fail, how much a torn write has written, and what another process has put at the
  output path before the link.
\<close>

record proposal_calls =
  pc_canonical :: "string \<Rightarrow> string option"
  pc_inspects :: bool
  pc_fails :: "proposal_stage \<Rightarrow> bool"
  pc_partial :: nat
  pc_raced :: "string option"

definition canonicalHostnameSuggestionOutputPath :: "proposal_calls \<Rightarrow> string \<Rightarrow> string option" where
  "canonicalHostnameSuggestionOutputPath calls path = (if trim_space path = [] then None else pc_canonical calls (trim_space path))"

text \<open>The deferred removal of the temporary file, and the removal of the output after a late failure; their errors are ignored.\<close>

definition drop_temporary :: "proposal_calls \<Rightarrow> proposal_disk \<Rightarrow> proposal_disk" where
  "drop_temporary calls d = (if pc_fails calls PropCleanup then d else d\<lparr>pd_temporary := None\<rparr>)"

definition withdraw :: "proposal_calls \<Rightarrow> proposal_disk \<Rightarrow> proposal_disk" where
  "withdraw calls d = (if pc_fails calls PropWithdraw then d else d\<lparr>pd_output := None\<rparr>)"

definition prop_step :: "proposal_calls \<Rightarrow> proposal_stage \<Rightarrow> proposal_disk \<Rightarrow> proposal_disk \<Rightarrow>
    (proposal_disk \<Rightarrow> (proposal_error + unit) \<times> proposal_disk) \<Rightarrow> (proposal_error + unit) \<times> proposal_disk" where
  "prop_step calls stage failed done rest =
     (if pc_fails calls stage then (Inl (ProposalFailed stage), drop_temporary calls failed) else rest done)"

text \<open>After the link every failure withdraws the output.\<close>

definition publish_proposal :: "proposal_calls \<Rightarrow> proposal_disk \<Rightarrow> (proposal_error + unit) \<times> proposal_disk" where
  "publish_proposal calls d =
     prop_step calls PropRemove (withdraw calls d) (d\<lparr>pd_temporary := None\<rparr>) (\<lambda>d.
     prop_step calls PropOpenDir (withdraw calls d) d (\<lambda>d.
     prop_step calls PropSyncDir (withdraw calls d) d (\<lambda>d.
     prop_step calls PropCloseDir (withdraw calls d) d (\<lambda>d. (Inr (), d)))))"

definition writeHostnameSuggestionProposal ::
    "proposal_calls \<Rightarrow> string \<Rightarrow> string \<Rightarrow> string \<Rightarrow> proposal_disk \<Rightarrow> (proposal_error + unit) \<times> proposal_disk" where
  "writeHostnameSuggestionProposal calls path active data d =
     (case canonicalHostnameSuggestionOutputPath calls path of None \<Rightarrow> (Inl ProposalPath, d)
      | Some out \<Rightarrow>
          if trim_space active \<noteq> [] \<and> canonicalHostnameSuggestionOutputPath calls active = Some out then (Inl ProposalActive, d)
          else if pd_output d \<noteq> None then (Inl ProposalExists, d)
          else if \<not> pc_inspects calls then (Inl ProposalInspect, d)
          else if pc_fails calls PropCreate then (Inl (ProposalFailed PropCreate), d)
          else prop_step calls PropChmod (d\<lparr>pd_temporary := Some []\<rparr>) (d\<lparr>pd_temporary := Some []\<rparr>) (\<lambda>d.
            prop_step calls PropWrite (d\<lparr>pd_temporary := Some (take (pc_partial calls) data)\<rparr>) (d\<lparr>pd_temporary := Some data\<rparr>) (\<lambda>d.
            prop_step calls PropSync d d (\<lambda>d.
            prop_step calls PropClose d d (\<lambda>d.
              let raced = d\<lparr>pd_output := pc_raced calls\<rparr> in
              if pc_raced calls \<noteq> None then (Inl ProposalExists, drop_temporary calls raced)
              else prop_step calls PropLink raced (d\<lparr>pd_output := pd_temporary d\<rparr>) (publish_proposal calls))))))"

section \<open>The command\<close>

text \<open>The one load, with the names of the control plane.\<close>

fun load_names ::
    "server \<Rightarrow> clock \<Rightarrow> control_client \<Rightarrow> requests \<Rightarrow> (controlPlaneLoadError + ControlPlaneResult \<times> string list) \<times> requests" where
  "load_names srv clk (UseHeadscale c) rs = hs_LoadHostnameSuggestions srv c rs"
| "load_names srv clk (UseTailscale c) rs = (case ts_LoadHostnameSuggestions srv clk c rs of (out, _, rs') \<Rightarrow> (out, rs'))"

definition loadHostnameSuggestionData :: "doctor_world \<Rightarrow> Config \<Rightarrow> (CacheData \<times> string list) option" where
  "loadHostnameSuggestionData w cfg =
     (case serviceMetadataLoaderForPath (dw_document w) (ServiceMetadataFile cfg) of Inl _ \<Rightarrow> None
      | Inr metadata \<Rightarrow>
        (case (control (newUpstreamClients cfg), npm_client (newUpstreamClients cfg)) of
           (Some cp, Some npm) \<Rightarrow>
             (case load_names (dw_server w) (dw_clock w) cp [] of (Inl _, _) \<Rightarrow> None
              | (Inr (result, names), rs) \<Rightarrow>
                (case FetchProxyHosts (dw_server w) (dw_clock w) npm rs of (Inl _, _, _) \<Rightarrow> None
                 | (Inr hosts, _, _) \<Rightarrow>
                     Some (\<lparr>cd_Policy = cpr_Policy result, cd_Nodes = cpr_Nodes result, cd_ProxyHosts = hosts,
                        cd_ServiceMetadata = Some metadata, GrantRoleSelectorsByLogin = cpr_GrantRoleSelectorsByLogin result,
                        MachineSSHCapableByID = [], cd_ControlPlane = cpr_Metadata result, UpdatedAt = zero_time\<rparr>, names)))
         | _ \<Rightarrow> None))"

record suggest_options =
  sg_env_file :: string
  sg_privacy :: string
  sg_scheme :: string
  sg_output :: string
  sg_stdin :: bool

definition suggest_flags :: "suggest_options flag list" where
  "suggest_flags =
     [ValueFlag ''env-file'' (required_text (\<lambda>v o'. o'\<lparr>sg_env_file := v\<rparr>)), ValueFlag ''privacy'' (\<lambda>v o'. Some (o'\<lparr>sg_privacy := v\<rparr>)),
      ValueFlag ''browser-scheme'' (\<lambda>v o'. Some (o'\<lparr>sg_scheme := v\<rparr>)),
      BoolFlag ''stdin-hostnames'' (\<lambda>v o'. map_option (\<lambda>b. o'\<lparr>sg_stdin := b\<rparr>) (parse_bool v)),
      ValueFlag ''output'' (required_text (\<lambda>v o'. o'\<lparr>sg_output := v\<rparr>))]"

text \<open>From the names to the suggestions and the proposal.\<close>

definition suggest_proposal ::
    "CacheData \<Rightarrow> string list \<Rightarrow> string list \<Rightarrow> string \<Rightarrow> suggestion_error + hostnameSuggestion list \<times> string" where
  "suggest_proposal snapshot names stdin_names scheme =
     and_then (mergeHostnameSuggestionCandidates names stdin_names) (\<lambda>candidates.
     and_then (eligibleHostnameSuggestionHosts (Some snapshot) (cd_ServiceMetadata snapshot)) (\<lambda>eligible.
     and_then (buildHostnameSuggestions candidates eligible) (\<lambda>(suggestions, _).
     and_then (buildHostnameSuggestionProposal suggestions eligible scheme) (\<lambda>proposal. Inr (suggestions, proposal)))))"

text \<open>The exit code, what is written to the standard output, and the disk; the terminal is \<open>None\<close> when there is none.\<close>

definition runHostnameSuggestionsCommand ::
    "doctor_world \<Rightarrow> proposal_calls \<Rightarrow> string option \<Rightarrow> string option \<Rightarrow> string list \<Rightarrow> proposal_disk \<Rightarrow> nat \<times> string option \<times> proposal_disk" where
  "runHostnameSuggestionsCommand w calls stdin terminal args d =
     (case command_line suggest_flags \<lparr>sg_env_file = [], sg_privacy = [], sg_scheme = [], sg_output = [], sg_stdin = False\<rparr> args of
        ShowHelp \<Rightarrow> (0, None, d)
      | BadUsage \<Rightarrow> (2, None, d)
      | Options o' \<Rightarrow> (let scheme = to_lower (trim_space (sg_scheme o')) in
          if sg_privacy o' \<noteq> ''private'' \<or> (scheme \<noteq> ''http'' \<and> scheme \<noteq> ''https'') then (2, None, d)
          else (case validationConfigLookup w (sg_env_file o') of None \<Rightarrow> (1, None, d) | Some (lookup, _) \<Rightarrow>
          (case loadConfigFrom lookup of Inl _ \<Rightarrow> (1, None, d) | Inr cfg \<Rightarrow>
          (case (if sg_stdin o' then readHostnameSuggestionStdin stdin else Some []) of None \<Rightarrow> (1, None, d) | Some stdin_names \<Rightarrow>
          (case loadHostnameSuggestionData w cfg of None \<Rightarrow> (1, None, d) | Some (snapshot, names) \<Rightarrow>
          (case suggest_proposal snapshot names stdin_names scheme of Inl _ \<Rightarrow> (1, None, d) | Inr (suggestions, proposal) \<Rightarrow>
            if suggestions = [] then (0, None, d)
            else (case (if sg_stdin o' then terminal else stdin) of None \<Rightarrow> (1, None, d) | Some answers \<Rightarrow>
            (case confirmHostnameSuggestionProposal answers of None \<Rightarrow> (1, None, d) | Some False \<Rightarrow> (0, None, d)
             | Some True \<Rightarrow>
                 if sg_output o' = [] then (0, Some proposal, d)
                 else (case writeHostnameSuggestionProposal calls (sg_output o') (ServiceMetadataFile cfg) proposal d of
                   (Inl _, d') \<Rightarrow> (1, None, d') | (Inr _, d') \<Rightarrow> (0, None, d')))))))))))"

section \<open>What is written\<close>

lemma publish_proposal_outcome:
  "(case publish_proposal calls d of
      (Inr _, d') \<Rightarrow> d' = d\<lparr>pd_temporary := None\<rparr>
    | (Inl _, d') \<Rightarrow> pd_output d' = None \<or> (pc_fails calls PropWithdraw \<and> pd_output d' = pd_output d))"
  by (simp add: publish_proposal_def prop_step_def drop_temporary_def withdraw_def)

text \<open>Nothing that exists is replaced, and the output appears whole or not at all.\<close>

lemma write_proposal_outcome:
  assumes "writeHostnameSuggestionProposal calls path active data d = (r, d')"
  shows "(case r of
      Inr _ \<Rightarrow> pd_output d = None \<and> pd_output d' = Some data \<and> pd_temporary d' = None
        \<and> (trim_space active = [] \<or> canonicalHostnameSuggestionOutputPath calls active \<noteq> canonicalHostnameSuggestionOutputPath calls path)
    | Inl _ \<Rightarrow> pd_output d' \<in> {pd_output d, pc_raced calls} \<or> (pc_fails calls PropWithdraw \<and> pd_output d = None \<and> pd_output d' = Some data))"
proof -
  define linked where "linked = publish_proposal calls (d\<lparr>pd_output := Some data, pd_temporary := Some data\<rparr>)"
  have out: "(case linked of
      (Inr _, d') \<Rightarrow> d' = d\<lparr>pd_output := Some data, pd_temporary := None\<rparr>
    | (Inl _, d') \<Rightarrow> pd_output d' = None \<or> (pc_fails calls PropWithdraw \<and> pd_output d' = Some data))"
    using publish_proposal_outcome [of calls "d\<lparr>pd_output := Some data, pd_temporary := Some data\<rparr>"]
    by (simp add: linked_def split: prod.splits sum.splits)
  have "d\<lparr>pd_temporary := Some data, pd_output := Some data\<rparr> = d\<lparr>pd_output := Some data, pd_temporary := Some data\<rparr>" by simp
  with assms out show ?thesis
    unfolding writeHostnameSuggestionProposal_def prop_step_def drop_temporary_def Let_def linked_def [symmetric]
    by (cases d) (auto simp: linked_def split: option.splits if_splits sum.splits prod.splits)
qed

text \<open>
  The contract of the command: a proposal is approved when the options are accepted, the configuration, the feed and
  the data are loaded, the proposal is the one built from them and the answer is yes; and what it means
  that it was placed on the standard output or in the output file.
\<close>

definition approved :: "doctor_world \<Rightarrow> string option \<Rightarrow> string option \<Rightarrow> string list \<Rightarrow> suggest_options \<Rightarrow> Config \<Rightarrow> string \<Rightarrow> bool" where
  "approved w stdin terminal args o' cfg proposal \<longleftrightarrow>
     command_line suggest_flags \<lparr>sg_env_file = [], sg_privacy = [], sg_scheme = [], sg_output = [], sg_stdin = False\<rparr> args = Options o'
     \<and> sg_privacy o' = ''private''
     \<and> (\<exists>lookup source. validationConfigLookup w (sg_env_file o') = Some (lookup, source) \<and> loadConfigFrom lookup = Inr cfg)
     \<and> (\<exists>snapshot names stdin_names suggestions.
          (if sg_stdin o' then readHostnameSuggestionStdin stdin else Some []) = Some stdin_names
          \<and> loadHostnameSuggestionData w cfg = Some (snapshot, names)
          \<and> suggest_proposal snapshot names stdin_names (to_lower (trim_space (sg_scheme o'))) = Inr (suggestions, proposal) \<and> suggestions \<noteq> [])
     \<and> Some True = (case (if sg_stdin o' then terminal else stdin) of None \<Rightarrow> None | Some answers \<Rightarrow> confirmHostnameSuggestionProposal answers)"

definition placed :: "proposal_calls \<Rightarrow> suggest_options \<Rightarrow> Config \<Rightarrow> string \<Rightarrow> proposal_disk \<Rightarrow> nat \<times> string option \<times> proposal_disk \<Rightarrow> bool" where
  "placed calls o' cfg proposal d = (\<lambda>(code, out, d').
     if sg_output o' = [] then code = 0 \<and> out = Some proposal \<and> d' = d
     else out = None \<and> pd_output d = None \<and> pd_output d' = Some proposal \<and> (code = 0 \<or> pc_fails calls PropWithdraw)
       \<and> (code \<noteq> 0 \<or> trim_space (ServiceMetadataFile cfg) = []
          \<or> canonicalHostnameSuggestionOutputPath calls (ServiceMetadataFile cfg) \<noteq> canonicalHostnameSuggestionOutputPath calls (sg_output o')))"

definition untouched :: "proposal_calls \<Rightarrow> proposal_disk \<Rightarrow> nat \<times> string option \<times> proposal_disk \<Rightarrow> bool" where
  "untouched calls d = (\<lambda>(code, out, d'). out = None \<and> pd_output d' \<in> {pd_output d, pc_raced calls})"

definition deliver :: "proposal_calls \<Rightarrow> suggest_options \<Rightarrow> Config \<Rightarrow> string \<Rightarrow> proposal_disk \<Rightarrow> nat \<times> string option \<times> proposal_disk" where
  "deliver calls o' cfg proposal d =
     (if sg_output o' = [] then (0, Some proposal, d)
      else (case writeHostnameSuggestionProposal calls (sg_output o') (ServiceMetadataFile cfg) proposal d of
        (Inl _, d') \<Rightarrow> (1, None, d') | (Inr _, d') \<Rightarrow> (0, None, d')))"

lemma command_delivers_approved:
  assumes "runHostnameSuggestionsCommand w calls stdin terminal args d = (code, out, d')"
  shows "(out = None \<and> d' = d) \<or> (\<exists>o' cfg proposal. approved w stdin terminal args o' cfg proposal \<and> deliver calls o' cfg proposal d = (code, out, d'))"
proof (rule disjCI)
  assume "\<not> (\<exists>o' cfg proposal. approved w stdin terminal args o' cfg proposal \<and> deliver calls o' cfg proposal d = (code, out, d'))"
  then have none: "deliver calls o' cfg proposal d \<noteq> (code, out, d')" if "approved w stdin terminal args o' cfg proposal" for o' cfg proposal
    using that by blast
  show "out = None \<and> d' = d"
    using assms none unfolding runHostnameSuggestionsCommand_def Let_def approved_def deliver_def
    by (simp split: command_line.split_asm if_split_asm option.split_asm sum.split_asm prod.split_asm bool.split_asm; fastforce)
qed

lemma delivered:
  "untouched calls d (deliver calls o' cfg proposal d) \<or> placed calls o' cfg proposal d (deliver calls o' cfg proposal d)"
proof -
  obtain r d1 where wr: "writeHostnameSuggestionProposal calls (sg_output o') (ServiceMetadataFile cfg) proposal d = (r, d1)" by fastforce
  show ?thesis
    using write_proposal_outcome [OF wr]
    by (cases r) (auto simp: untouched_def placed_def deliver_def wr)
qed

text \<open>
  C30: What the hostname command writes. Whatever the options, the feeds, the servers and the calls that fail, the
  standard output and the output file get nothing but the proposal built from the loaded snapshot and
  the names, and only after a yes, read from the terminal when the names came from the standard input;
  an existing file, and the file of the active metadata, are never replaced, and after an error the output file
  is as another process left it or could not be withdrawn.
\<close>
theorem proposal_only_after_yes:
  "untouched calls d (runHostnameSuggestionsCommand w calls stdin terminal args d)
   \<or> (\<exists>o' cfg proposal. approved w stdin terminal args o' cfg proposal
        \<and> placed calls o' cfg proposal d (runHostnameSuggestionsCommand w calls stdin terminal args d))"
proof (cases "runHostnameSuggestionsCommand w calls stdin terminal args d")
  case (fields code out d')
  from command_delivers_approved [OF fields] show ?thesis
  proof
    assume "out = None \<and> d' = d"
    then show ?thesis by (simp add: fields untouched_def)
  next
    assume "\<exists>o' cfg proposal. approved w stdin terminal args o' cfg proposal \<and> deliver calls o' cfg proposal d = (code, out, d')"
    then show ?thesis unfolding fields using delivered by metis
  qed
qed

end
