(* ===== verification/Suggest_Review.thy ===== *)
theory Suggest_Review
  imports Suggest_Command
begin

text \<open>
  The review that the hostname command prints before it asks (\<open>renderHostnameSuggestionReview\<close> in
  \<open>hostname_suggestions_command.go\<close>), byte for byte; a writer that fails stops it. What is shown comes from other machines
  of the tailnet, and the operator decides by it.
\<close>

fun source_text :: "hostnameSuggestionSource \<Rightarrow> string" where
  "source_text SourceControlPlane = ''selected_control_plane''"
| "source_text SourceStdin = ''stdin''"
| "source_text SourceCombined = ''selected_control_plane+stdin''"

definition suggestion_line :: "hostnameSuggestion \<Rightarrow> string" where
  "suggestion_line s = ''  proxy_host_id='' @ show_int (sug_ProxyHostID s) @ '' hostname='' @ sug_Hostname s @ '' source='' @ source_text (sug_Source s)"

definition ambiguity_line :: "hostnameSuggestionAmbiguity \<Rightarrow> string" where
  "ambiguity_line a = ''  proxy_host_ids='' @ join_with '','' (map show_int (ProxyHostIDs a)) @
     '' hostnames='' @ join_with '','' (map cand_Hostname (Candidates a))"

definition or_none :: "string list \<Rightarrow> string list" where
  "or_none lines = (if lines = [] then [''  none''] else lines)"

definition review_lines :: "hostnameSuggestion list \<Rightarrow> hostnameSuggestionAmbiguity list \<Rightarrow> string list" where
  "review_lines suggestions ambiguities =
     [''WARNING: private review follows. It contains internal hostnames and NPM proxy-host IDs; do not share it publicly.'',
      ''Provider-supplied names are untrusted suggestions, not proof that they route to the listed NPM service. Verify every destination before merging.'',
      ''Unambiguous suggestions:''] @ or_none (map suggestion_line suggestions) @
     [''Excluded ambiguous components:''] @ or_none (map ambiguity_line ambiguities)"

definition renderHostnameSuggestionReview :: "hostnameSuggestion list \<Rightarrow> hostnameSuggestionAmbiguity list \<Rightarrow> string" where
  "renderHostnameSuggestionReview suggestions ambiguities =
     concat (map (\<lambda>l. l @ [newline_char]) (review_lines suggestions ambiguities))"

section \<open>Nothing in the review is more than text\<close>

definition printable_text :: "string \<Rightarrow> bool" where
  "printable_text s \<longleftrightarrow> list_all (\<lambda>c. 32 \<le> byte c \<and> byte c \<le> 126) s"

lemma printable_text_simps [simp]:
  "printable_text []" "printable_text (c # s) \<longleftrightarrow> 32 \<le> byte c \<and> byte c \<le> 126 \<and> printable_text s" "printable_text (s @ t) \<longleftrightarrow> printable_text s \<and> printable_text t"
  by (auto simp: printable_text_def)

lemma printable_text_join: "printable_text sep \<Longrightarrow> list_all printable_text ss \<Longrightarrow> printable_text (join_with sep ss)"
  by (induction sep ss rule: join_with.induct) simp_all

lemma printable_text_show_int [simp]: "printable_text (show_int i)"
proof -
  have "printable_text (show_nat n)" for n
    using show_nat_digits [of n] by (auto simp: printable_text_def list_all_iff is_digit_def)
  then show ?thesis by (simp add: show_int_def)
qed

lemma printable_text_source [simp]: "printable_text (source_text s)"
  by (cases s) simp_all

lemma normalized_plain: "normalizeHostnameSuggestion raw = Some h \<Longrightarrow> printable_text h"
proof -
  assume "normalizeHostnameSuggestion raw = Some h"
  then have "validateServiceHealthHost h" by (auto simp: normalizeHostnameSuggestion_def Let_def split: if_split_asm)
  from valid_host_bytes(3) [OF this] show ?thesis
    by (auto simp: printable_text_def list_all_iff host_char_def is_lower_def is_digit_def)
qed

text \<open>The names of the candidates are normalized names.\<close>

definition plain_sources :: "(string, hostnameSuggestionSource) gomap \<Rightarrow> bool" where
  "plain_sources sources \<longleftrightarrow> list_all printable_text (map fst sources)"

lemma plain_sources_put: "printable_text h \<Longrightarrow> plain_sources sources \<Longrightarrow> plain_sources (gomap_put sources h v)"
  unfolding plain_sources_def fst_gomap_put by (auto simp: list_all_iff)

lemma add_source_plain:
  "add_source source h sources = Inr sources' \<Longrightarrow> printable_text h \<Longrightarrow> plain_sources sources \<Longrightarrow> plain_sources sources'"
  by (auto simp: add_source_def plain_sources_put split: option.split_asm if_split_asm)

lemma add_control_plane_names_plain:
  "add_control_plane_names raws sources = Inr sources' \<Longrightarrow> plain_sources sources \<Longrightarrow> plain_sources sources'"
  by (induction raws sources rule: add_control_plane_names.induct)
    (auto split: option.split_asm dest: add_source_plain normalized_plain)

lemma add_stdin_names_plain:
  "add_stdin_names i raws sources = Inr sources' \<Longrightarrow> plain_sources sources \<Longrightarrow> plain_sources sources'"
  by (induction i raws sources rule: add_stdin_names.induct)
    (auto split: option.split_asm dest: add_source_plain normalized_plain)

lemma candidates_plain:
  assumes "mergeHostnameSuggestionCandidates names stdin_names = Inr cs" and "c \<in> set cs"
  shows "printable_text (cand_Hostname c)"
proof -
  obtain s1 s2 where "add_control_plane_names names [] = Inr s1" "add_stdin_names 0 stdin_names s1 = Inr s2"
      and c: "\<exists>h s. (h, s) \<in> set s2 \<and> c = \<lparr>cand_Hostname = h, cand_Source = s\<rparr>"
    using assms by (auto simp: mergeHostnameSuggestionCandidates_def reject_if_def split: if_split_asm)
  then have "plain_sources s2"
    using add_control_plane_names_plain [of names "[]" s1] add_stdin_names_plain [of 0 stdin_names s1 s2] by (simp add: plain_sources_def)
  with c show ?thesis by (force simp: plain_sources_def list_all_iff)
qed

lemma candidate_for_plain:
  assumes "\<And>c. c \<in> set cs \<Longrightarrow> printable_text (cand_Hostname c)"
  shows "printable_text (cand_Hostname (candidate_for cs h))"
  using assms by (auto simp: candidate_for_def find_Some_iff split: option.split) (metis length_rev nth_mem set_rev)

lemma built_review_plain:
  assumes "mergeHostnameSuggestionCandidates names stdin_names = Inr cs" and "buildHostnameSuggestions cs eligible = Inr (ss, as)"
  shows "list_all printable_text (review_lines ss as)"
proof -
  note plain = candidate_for_plain [OF candidates_plain [OF assms(1)]]
  obtain comps where "ss = sort_slice suggestion_less (List.map_filter (suggestion_of cs) comps)"
      "as = sort_slice ambiguity_less (List.map_filter (ambiguity_of cs) comps)"
    using assms(2) by (auto simp: buildHostnameSuggestions_def Let_def split: if_split_asm)
  then have "list_all (\<lambda>s. printable_text (sug_Hostname s)) ss" "list_all (\<lambda>a. list_all printable_text (map cand_Hostname (Candidates a))) as"
    by (auto simp: list_all_iff map_filter_def suggestion_of_def ambiguity_of_def Let_def plain split: list.splits)
  then have "list_all printable_text (map suggestion_line ss)" "list_all printable_text (map ambiguity_line as)"
    by (auto simp: list_all_iff suggestion_line_def ambiguity_line_def intro!: printable_text_join)
  moreover have "list_all printable_text (or_none ls)" if "list_all printable_text ls" for ls
    using that by (simp add: or_none_def)
  ultimately show ?thesis by (simp add: review_lines_def)
qed

lemma split_terminated:
  "list_all (\<lambda>l. c \<notin> set l) ls \<Longrightarrow> split_byte c (concat (map (\<lambda>l. l @ [c]) ls)) = ls @ [[]]"
proof (induction ls)
  case (Cons l ls)
  have "split_byte c (l @ c # t) = l # split_byte c t" if "c \<notin> set l" for t
    using that by (induction l) auto
  with Cons show ?case by simp
qed simp

text \<open>
  The review cannot be forged: whatever names the control plane and the standard input give, it consists of the fixed
  lines, one line for each suggestion and one for each excluded component, of printable ASCII characters.
\<close>

theorem review_cannot_be_forged:
  assumes "mergeHostnameSuggestionCandidates names stdin_names = Inr cs" and "buildHostnameSuggestions cs eligible = Inr (ss, as)"
  shows "split_byte newline_char (renderHostnameSuggestionReview ss as) = review_lines ss as @ [[]] \<and> list_all printable_text (review_lines ss as)"
proof -
  have "newline_char \<notin> set l" if "printable_text l" for l
    using that by (auto simp: printable_text_def list_all_iff newline_char_def)
  with built_review_plain [OF assms] show ?thesis
    unfolding renderHostnameSuggestionReview_def by (simp add: split_terminated list_all_iff)
qed

end
