(* ===== verification/Proxy_Observer.thy ===== *)
theory Proxy_Observer
  imports Setup Auth
begin

text \<open>
  Observing the proxy (\<open>proxy_observer.go\<close>): a temporary server tells from where the identity proxy
  connects, and after a confirmation only that address is written as the trusted proxy. The requests, the
  sends on the channel and what the main goroutine sees come in any order, as a list of events.
\<close>

section \<open>The one-time path\<close>

definition base64_char :: "nat \<Rightarrow> char" where
  "base64_char n = (if n < 26 then char_of (65 + n) else if n < 52 then char_of (97 + (n - 26))
     else if n < 62 then char_of (48 + (n - 52)) else if n = 62 then CHR ''-'' else CHR ''_'')"

text \<open>\<open>RawURLEncoding\<close>: three bytes give four characters, the rest gives no padding.\<close>

fun base64_raw_url :: "string \<Rightarrow> string" where
  "base64_raw_url (a # b # c # s) = (let n = byte a * 65536 + byte b * 256 + byte c in
     map base64_char [n div 262144, n div 4096 mod 64, n div 64 mod 64, n mod 64] @ base64_raw_url s)"
| "base64_raw_url [a, b] = (let n = byte a * 65536 + byte b * 256 in map base64_char [n div 262144, n div 4096 mod 64, n div 64 mod 64])"
| "base64_raw_url [a] = (let n = byte a * 65536 in map base64_char [n div 262144, n div 4096 mod 64])"
| "base64_raw_url [] = []"

definition proxyObservationPathPrefix :: string where
  "proxyObservationPathPrefix = ''/_velociportal/observe/''"

text \<open>The random source gives its bytes until it ends; 24 of them are needed.\<close>

definition newProxyObservationPath :: "string \<Rightarrow> string option" where
  "newProxyObservationPath random =
     (if length random < 24 then None else Some (proxyObservationPathPrefix @ base64_raw_url (take 24 random)))"

section \<open>The handler\<close>

definition exactCIDRFromRemoteAddr :: "string \<Rightarrow> string option" where
  "exactCIDRFromRemoteAddr remote = (case SplitHostPort (trim_space remote) of None \<Rightarrow> None
     | Some (host0, _) \<Rightarrow>
        (let host = (case last_index_byte host0 (CHR ''%'') of Some i \<Rightarrow> take i host0 | None \<Rightarrow> host0) in
         case parse_addr host of None \<Rightarrow> None
         | Some a \<Rightarrow> (let u = addr_unmap a in
             Some (prefix_string \<lparr>prefix_addr = u, prefix_bits = (if addr_is4 u then 32 else 128)\<rparr>))))"

record observer_request = http_in +
  or_Method :: string
  or_Path :: string

datatype observer_reply = ObserverNotFound | ObserverBadMethod | ObserverBadSource | ObserverGone | ObserverSeen string

text \<open>The flag of the handler, the requests that are about to send, and the channel of one place.\<close>

record observer =
  ob_claimed :: bool
  ob_sending :: "string list"
  ob_channel :: "string list"

definition new_observer :: observer where
  "new_observer = \<lparr>ob_claimed = False, ob_sending = [], ob_channel = []\<rparr>"

text \<open>A request up to its send; the comparison and the swap of the flag are one step.\<close>

definition observer_ServeHTTP :: "string \<Rightarrow> observer_request \<Rightarrow> observer \<Rightarrow> observer_reply \<times> observer" where
  "observer_ServeHTTP path r ob =
     (if or_Path r \<noteq> path then (ObserverNotFound, ob)
      else if or_Method r \<noteq> ''GET'' then (ObserverBadMethod, ob)
      else (case exactCIDRFromRemoteAddr (RemoteAddr r) of None \<Rightarrow> (ObserverBadSource, ob)
        | Some cidr \<Rightarrow>
            if ob_claimed ob then (ObserverGone, ob)
            else (ObserverSeen cidr, ob\<lparr>ob_claimed := True, ob_sending := ob_sending ob @ [cidr]\<rparr>)))"

text \<open>A send goes on when the channel has a place.\<close>

definition send_observed :: "observer \<Rightarrow> observer" where
  "send_observed ob = (case ob_sending ob of [] \<Rightarrow> ob
     | cidr # rest \<Rightarrow> if ob_channel ob = [] then ob\<lparr>ob_sending := rest, ob_channel := [cidr]\<rparr> else ob)"

text \<open>What happens, and what the main goroutine selects among the things that are ready.\<close>

datatype observer_event = ObserverRequest observer_request | ObserverSend | ObserverReceive | ObserverServerFails | ObserverTimeout

datatype observe_error = ObserveRandom | ObserveListen | ObserveServer | ObserveTimeout | ObserveShutdown

text \<open>The wait of the main goroutine: nothing when the events end before it.\<close>

fun observe_wait :: "string \<Rightarrow> observer \<Rightarrow> observer_event list \<Rightarrow> (observe_error + string) option" where
  "observe_wait path ob [] = None"
| "observe_wait path ob (ObserverRequest r # es) = observe_wait path (snd (observer_ServeHTTP path r ob)) es"
| "observe_wait path ob (ObserverSend # es) = observe_wait path (send_observed ob) es"
| "observe_wait path ob (ObserverReceive # es) = (case ob_channel ob of [] \<Rightarrow> observe_wait path ob es | cidr # _ \<Rightarrow> Some (Inr cidr))"
| "observe_wait path ob (ObserverServerFails # es) = Some (Inl ObserveServer)"
| "observe_wait path ob (ObserverTimeout # es) = Some (Inl ObserveTimeout)"

text \<open>The surroundings: the random bytes, whether listening and shutting down work, and the events.\<close>

record observer_calls = env_calls +
  oc_random :: string
  oc_listens :: bool
  oc_events :: "observer_event list"
  oc_shuts_down :: bool

definition observeProxySource :: "observer_calls \<Rightarrow> (observe_error + string) option" where
  "observeProxySource calls = (case newProxyObservationPath (oc_random calls) of None \<Rightarrow> Some (Inl ObserveRandom)
     | Some path \<Rightarrow>
        if \<not> oc_listens calls then Some (Inl ObserveListen)
        else (case observe_wait path new_observer (oc_events calls) of None \<Rightarrow> None
          | Some (Inl e) \<Rightarrow> Some (Inl e)
          | Some (Inr cidr) \<Rightarrow> Some (if oc_shuts_down calls then Inr cidr else Inl ObserveShutdown)))"

section \<open>The command\<close>

function confirmProxyCIDR :: "string \<Rightarrow> bool option" where
  "confirmProxyCIDR input = (case readSetupLine input of None \<Rightarrow> None
     | Some (line, rest) \<Rightarrow> (let answer = to_lower (trim_space line) in
        if answer = ''y'' \<or> answer = ''yes'' then Some True
        else if answer = [] \<or> answer = ''n'' \<or> answer = ''no'' then Some False
        else confirmProxyCIDR rest))"
  by pat_completeness auto
termination by (relation "measure length") (auto simp: readSetupLine_shorter)

declare confirmProxyCIDR.simps [simp del]

definition normalizeProxyObserverListenAddr :: "string \<Rightarrow> string option" where
  "normalizeProxyObserverListenAddr raw = (case SplitHostPort (trim_space raw) of None \<Rightarrow> None
     | Some (host, port) \<Rightarrow>
        if port \<noteq> ''0'' then right_value (normalizeListenAddr (trim_space raw))
        else (case normalizeListenAddr (JoinHostPort host ''1'') of Inl _ \<Rightarrow> None
          | Inr validated \<Rightarrow> (case SplitHostPort validated of None \<Rightarrow> None
              | Some (validatedHost, _) \<Rightarrow> Some (JoinHostPort validatedHost ''0''))))"

record observe_options =
  op_path :: string
  op_listen :: string
  op_timeout :: string

definition observe_flags :: "observe_options flag list" where
  "observe_flags =
     [ValueFlag ''env-file'' (required_text (\<lambda>v o'. o'\<lparr>op_path := v\<rparr>)), ValueFlag ''listen'' (required_text (\<lambda>v o'. o'\<lparr>op_listen := v\<rparr>)),
      ValueFlag ''timeout'' (required_text (\<lambda>v o'. o'\<lparr>op_timeout := v\<rparr>))]"

definition observe_zero :: observe_options where
  "observe_zero = \<lparr>op_path = ''.env'', op_listen = ''127.0.0.1:8080'', op_timeout = ''2m''\<rparr>"

definition positive_duration :: "string \<Rightarrow> bool" where
  "positive_duration t = (case parse_duration (trim_space t) of None \<Rightarrow> False | Some d \<Rightarrow> d > 0)"

text \<open>The change of the file, under the lock.\<close>

definition write_observed :: "'a env_calls_scheme \<Rightarrow> string \<Rightarrow> string \<Rightarrow> env_disk \<Rightarrow> (setup_error + unit) \<times> env_disk" where
  "write_observed calls path cidr d =
     (if ec_locked calls then (Inl SetupLock, d)
      else (case captureEnvFileSnapshot (ec_fails calls) d of Inl e \<Rightarrow> (Inl (SetupWrite e), d)
      | Inr original \<Rightarrow>
        (case readSetupValues d of Inl e \<Rightarrow> (Inl (SetupEnv e), d)
        | Inr (vals, exists) \<Rightarrow>
          if \<not> exists then (Inl SetupNoFile, d)
          else replace_env (env_calls.truncate calls) path (gomap_put vals ''TRUSTED_PROXY_CIDR'' cidr) original d)))"

text \<open>The exit code and the file; nothing when it waits for ever. \<open>existing\<close> is the file when the command starts.\<close>

definition runObserveProxyCommand ::
    "observer_calls \<Rightarrow> (string \<Rightarrow> bool) \<Rightarrow> string list \<Rightarrow> string \<Rightarrow> (string \<Rightarrow> env_disk) \<Rightarrow> (nat \<times> (string \<Rightarrow> env_disk)) option" where
  "runObserveProxyCommand calls existing args input disks = (case command_line observe_flags observe_zero args of
     ShowHelp \<Rightarrow> Some (0, disks)
   | BadUsage \<Rightarrow> Some (2, disks)
   | Options o' \<Rightarrow>
       if normalizeProxyObserverListenAddr (op_listen o') = None then Some (2, disks)
       else if \<not> positive_duration (op_timeout o') then Some (2, disks)
       else if \<not> existing (op_path o') then Some (1, disks)
       else (case observeProxySource calls of None \<Rightarrow> None
         | Some (Inl _) \<Rightarrow> Some (1, disks)
         | Some (Inr cidr) \<Rightarrow>
           (case confirmProxyCIDR input of None \<Rightarrow> Some (1, disks)
            | Some False \<Rightarrow> Some (0, disks)
            | Some True \<Rightarrow>
              (case write_observed calls (op_path o') cidr (disks (op_path o')) of
                 (Inl _, d) \<Rightarrow> Some (1, disks(op_path o' := d)) | (Inr _, d) \<Rightarrow> Some (0, disks(op_path o' := d))))))"

section \<open>What is observed\<close>

text \<open>A request whose source is observed.\<close>

definition observed_request :: "string \<Rightarrow> observer_request \<Rightarrow> string \<Rightarrow> bool" where
  "observed_request path r cidr \<longleftrightarrow> or_Path r = path \<and> or_Method r = ''GET'' \<and> exactCIDRFromRemoteAddr (RemoteAddr r) = Some cidr"

text \<open>The flag is set exactly when one value is on its way, so that a send never waits.\<close>

definition observer_ok :: "string \<Rightarrow> observer_request set \<Rightarrow> observer \<Rightarrow> bool" where
  "observer_ok path R ob \<longleftrightarrow>
     (if ob_claimed ob then (\<exists>r \<in> R. \<exists>cidr. observed_request path r cidr \<and> ob_sending ob @ ob_channel ob = [cidr])
      else ob_sending ob = [] \<and> ob_channel ob = [])"

lemma observer_ok_new: "observer_ok path R new_observer"
  by (simp add: observer_ok_def new_observer_def)

lemma observer_ok_ServeHTTP: "observer_ok path R ob \<Longrightarrow> r \<in> R \<Longrightarrow> observer_ok path R (snd (observer_ServeHTTP path r ob))"
  by (auto simp: observer_ok_def observer_ServeHTTP_def observed_request_def split: option.split)

lemma observer_ok_send: "observer_ok path R ob \<Longrightarrow> observer_ok path R (send_observed ob)"
  by (cases "ob_sending ob") (auto simp: observer_ok_def send_observed_def split: if_splits)

lemma observer_ok_no_wait: "observer_ok path R ob \<Longrightarrow> ob_sending ob \<noteq> [] \<Longrightarrow> ob_channel ob = []"
  by (cases "ob_sending ob") (auto simp: observer_ok_def split: if_splits)

lemma observe_wait_ok:
  assumes "observer_ok path R ob" and "{r. ObserverRequest r \<in> set es} \<subseteq> R" and "observe_wait path ob es = Some (Inr cidr)"
  shows "\<exists>r \<in> R. observed_request path r cidr"
  using assms
proof (induction path ob es rule: observe_wait.induct)
  case (2 path ob r es)
  then show ?case using observer_ok_ServeHTTP by (simp add: subset_iff)
next
  case (3 path ob es)
  then show ?case using observer_ok_send by (simp add: subset_iff)
next
  case (4 path ob es)
  then show ?case
    by (cases "ob_channel ob") (auto simp: observer_ok_def append_eq_Cons_conv split: if_splits)
qed simp_all

lemma observeProxySource_request:
  assumes "observeProxySource calls = Some (Inr cidr)"
  shows "\<exists>path r. newProxyObservationPath (oc_random calls) = Some path \<and> ObserverRequest r \<in> set (oc_events calls) \<and> observed_request path r cidr"
  using assms observe_wait_ok [OF observer_ok_new subset_refl]
  by (auto simp: observeProxySource_def split: option.splits sum.splits if_splits)

section \<open>The observed peer is the trusted one\<close>

lemma whole_masks: "mask4 32 = - 1" "mask16 128 = - 1"
  by (simp_all add: mask4_def mask16_def)

text \<open>The network of one address alone, and its text.\<close>

definition exact_network :: "128 word \<Rightarrow> ipnet" where
  "exact_network ip = (if mapped_v4 ip then Net4 (ucast ip) 32 else Net6 ip 128)"

definition exact_cidr :: "128 word \<Rightarrow> string" where
  "exact_cidr ip = net_ip_string ip @ (if mapped_v4 ip then ''/32'' else ''/128'')"

lemma exactCIDR_peer:
  assumes "zone_name zone"
  shows "exactCIDRFromRemoteAddr (peer_address ip zone port) = Some (exact_cidr ip)"
proof -
  have "show_nat 32 = ''32''" "show_nat 128 = ''128''" by code_simp+
  then show ?thesis
    by (simp add: exactCIDRFromRemoteAddr_def trim_peer_address split_peer_address [OF assms] cut_peer_zone [OF assms]
        prefix_string_def exact_cidr_def)
qed

lemma addr_of_ip_cases: "addr_of_ip ip = (if mapped_v4 ip then V4 (ucast ip) else V6 ip [])"
  by (simp add: addr_of_ip_def)

lemma net_parse_exact: "net_parse_cidr (exact_cidr ip) = Some (ip, exact_network ip)"
proof -
  have "CHR ''/'' \<notin> set (net_ip_string ip)" using ip_text_bytes(5) by blast
  then have cut: "cut_byte (net_ip_string ip @ CHR ''/'' # m) (CHR ''/'') = Some (net_ip_string ip, m)" for m
    by (simp add: cut_byte_def index_byte_append)
  have "parse_digits ''32'' = Some 32" "parse_digits ''128'' = Some 128" by code_simp+
  then show ?thesis using addr_of_ip(1) [of ip]
    by (simp add: net_parse_cidr_def exact_cidr_def exact_network_def cut whole_masks addr_of_ip_cases split: if_splits del: addr_of_ip addr_as16.simps)
qed

lemma exact_contains: "ipnet_contains (exact_network ip) other \<longleftrightarrow> other = ip"
proof (cases "mapped_v4 ip")
  case True
  have "ucast ip = (ucast other :: 32 word) \<Longrightarrow> mapped_v4 other \<Longrightarrow> other = ip"
    using mapped_v4_split [OF True] mapped_v4_split [of other] by metis
  with True show ?thesis by (auto simp: exact_network_def whole_masks ip_to4_def)
next
  case False
  then show ?thesis by (auto simp: exact_network_def whole_masks ip_to4_def)
qed

lemma exact_network_small: "\<not> trustedProxyCoversAddressSpace (Some (exact_network ip))"
proof
  have "addr_as16 (V4 0) \<noteq> addr_as16 (V4 1)" by (metis ip_to4_as16_V4 option.inject zero_neq_one)
  moreover have "0 \<noteq> (- 1 :: 128 word)" by simp
  moreover assume "trustedProxyCoversAddressSpace (Some (exact_network ip))"
  then have "(\<forall>w. addr_as16 (V4 w) = ip) \<or> (\<forall>other. ip_to4 other = None \<longrightarrow> other = ip)"
    by (simp only: trusted_proxy_check exact_contains)
  ultimately show False using ip_to4_ends by metis
qed

lemma trusted_proxy_exact: "trusted_proxy (exact_cidr ip) = Inr (exact_network ip)"
proof -
  have "trim_space (exact_cidr ip) = exact_cidr ip"
    using ip_text_bytes(1,2) [of _ ip] by (intro trim_space_id) (auto simp: exact_cidr_def is_ascii_def ascii_space_def split: if_splits)
  then show ?thesis by (simp add: trusted_proxy_def net_parse_exact exact_network_small)
qed

text \<open>
  C16: The observed proxy is exactly the one that is trusted afterwards. For a connection from any IPv4 or IPv6
  address, in any zone and on any port, the network that is observed is accepted as the trusted proxy, and with it
  the middleware admits the requests of a peer, of whatever address, zone and port and with whatever headers,
  exactly when it has the same address.
\<close>
theorem observed_proxy_is_the_trusted_one:
  assumes "zone_name zone" and "zone_name zone'"
  shows "\<exists>cidr network. exactCIDRFromRemoteAddr (peer_address ip zone port) = Some cidr \<and> trusted_proxy cidr = Inr network
     \<and> (IdentityMiddleware (Some network) (r\<lparr>RemoteAddr := peer_address ip' zone' port'\<rparr>) \<noteq> AuthForbidden \<longleftrightarrow> ip' = ip)"
proof -
  have "IdentityMiddleware (Some (exact_network ip)) (r\<lparr>RemoteAddr := peer_address ip' zone' port'\<rparr>) \<noteq> AuthForbidden \<longleftrightarrow> ip' = ip"
    by (simp add: IdentityMiddleware_def peer_host_address [OF assms(2)] exact_contains Let_def del: ipnet_contains.simps)
  then show ?thesis using exactCIDR_peer [OF assms(1)] trusted_proxy_exact by blast
qed

lemma observed_proxy_is_the_trusted_one_witness:
  "\<exists>cidr network. exactCIDRFromRemoteAddr ''[fe80::1234%eth0]:4321'' = Some cidr \<and> trusted_proxy cidr = Inr network
     \<and> IdentityMiddleware (Some network) link_local_peer \<noteq> AuthForbidden"
proof -
  have "zone_name ''eth0''" by (simp add: zone_name_def net_byte_def)
  from observed_proxy_is_the_trusted_one [OF this this, where ip = "0xFE800000000000000000000000001234" and port = 4321 and r = link_local_peer
      and ip' = "0xFE800000000000000000000000001234" and port' = 4321]
  show ?thesis by (simp add: link_local_address) (simp add: link_local_peer_def)
qed

section \<open>What is written\<close>

lemma truncate_calls: "ec_printable (env_calls.truncate calls) = ec_printable calls"
  by (simp add: env_calls.truncate_def)

lemma write_observed_outcome:
  "(case write_observed calls path cidr (d\<lparr>env_temporary := None\<rparr>) of
      (Inl _, d') \<Rightarrow> env_file d' = env_file d
    | (Inr _, d') \<Rightarrow> \<exists>before. readSetupValues d = Inr (before, True)
        \<and> settings_file (ec_printable calls) (gomap_put before ''TRUSTED_PROXY_CIDR'' cidr) (env_file d'))"
proof -
  have read: "readSetupValues (d\<lparr>env_temporary := None\<rparr>) = readSetupValues d" by (simp add: readSetupValues_def)
  show ?thesis
    unfolding write_observed_def read
    by (auto split: prod.split sum.split dest: replace_env_kept replace_env_written simp: truncate_calls)
qed

text \<open>
  What observing the proxy changes. Whatever the arguments, the answers, the requests and their order,
  and whichever calls fail: no other file changes, and the file of the options is as it was or, after the
  confirmation, holds its former settings with only the trusted proxy replaced, by the exact address of the
  connection of a GET request that was served at the one-time path.
\<close>
theorem observe_proxy_writes_the_peer:
  "(case runObserveProxyCommand calls existing args input (\<lambda>path. (disks path)\<lparr>env_temporary := None\<rparr>) of None \<Rightarrow> True
    | Some (code, disks') \<Rightarrow>
        (\<forall>path. env_file (disks' path) = env_file (disks path))
        \<or> (\<exists>o' cidr before path r. command_line observe_flags observe_zero args = Options o' \<and> code = 0 \<and> confirmProxyCIDR input = Some True
            \<and> newProxyObservationPath (oc_random calls) = Some path \<and> ObserverRequest r \<in> set (oc_events calls) \<and> observed_request path r cidr
            \<and> readSetupValues (disks (op_path o')) = Inr (before, True)
            \<and> settings_file (ec_printable calls) (gomap_put before ''TRUSTED_PROXY_CIDR'' cidr) (env_file (disks' (op_path o')))
            \<and> (\<lambda>q. env_file (disks' q))(op_path o' := None) = (\<lambda>q. env_file (disks q))(op_path o' := None)))"
proof (cases "runObserveProxyCommand calls existing args input (\<lambda>path. (disks path)\<lparr>env_temporary := None\<rparr>)")
  case (Some result)
  let ?disks = "\<lambda>path. (disks path)\<lparr>env_temporary := None\<rparr>"
  obtain code disks' where result: "result = (code, disks')" by (cases result)
  show ?thesis
  proof (cases "disks' = ?disks")
    case True
    then show ?thesis by (simp add: Some result)
  next
    case False
    then obtain o' cidr out d where o': "command_line observe_flags observe_zero args = Options o'"
        and source: "observeProxySource calls = Some (Inr cidr)" and yes: "confirmProxyCIDR input = Some True"
        and w: "write_observed calls (op_path o') cidr (?disks (op_path o')) = (out, d)"
        and disks': "disks' = ?disks(op_path o' := d)" and code: "code = (case out of Inl _ \<Rightarrow> 1 | Inr _ \<Rightarrow> 0)"
      using Some unfolding runObserveProxyCommand_def result
      by (auto split: command_line.splits option.splits sum.splits bool.splits prod.splits if_splits)
    note outcome = write_observed_outcome [where calls = calls and path = "op_path o'" and cidr = cidr and d = "disks (op_path o')"]
    show ?thesis
    proof (cases out)
      case (Inl e)
      then show ?thesis using outcome w by (simp add: Some result disks')
    next
      case (Inr u)
      with outcome w obtain before where "readSetupValues (disks (op_path o')) = Inr (before, True)"
          "settings_file (ec_printable calls) (gomap_put before ''TRUSTED_PROXY_CIDR'' cidr) (env_file d)" by auto
      with observeProxySource_request [OF source] o' yes show ?thesis
        by (auto simp: Some result disks' code Inr fun_eq_iff)
    qed
  qed
qed simp

end
