(* ===== verification/Cli.thy ===== *)
theory Cli
  imports Proxy_Observer Healthcheck
begin

text \<open>
  The command line (\<open>cli.go\<close>): the dispatch to the commands, the help, and the choice of the settings with which
  the server starts. The commands are parameters that change a world; a missing one is \<open>None\<close>.
\<close>

section \<open>The setup command\<close>

record setup_options =
  so_path :: string

definition setup_flags :: "setup_options flag list" where
  "setup_flags = [ValueFlag ''env-file'' (required_text (\<lambda>v o'. o'\<lparr>so_path := v\<rparr>))]"

definition runSetupCommand ::
    "observer_calls \<Rightarrow> (string \<Rightarrow> bool) \<Rightarrow> string list \<Rightarrow> string \<Rightarrow> string option list \<Rightarrow> (string \<Rightarrow> env_disk) \<Rightarrow> (nat \<times> (string \<Rightarrow> env_disk)) option" where
  "runSetupCommand calls existing args input secrets disks =
     (if args \<noteq> [] \<and> hd args = ''service-editor'' then Some (runSetupServiceEditorCommand (env_calls.truncate calls) (tl args) disks)
      else if args \<noteq> [] \<and> hd args = ''observe-proxy'' then runObserveProxyCommand calls existing (tl args) input disks
      else (case command_line setup_flags \<lparr>so_path = ''.env''\<rparr> args of
        ShowHelp \<Rightarrow> Some (0, disks)
      | BadUsage \<Rightarrow> Some (2, disks)
      | Options o' \<Rightarrow>
          (case runSetupWizard (env_calls.truncate calls) (so_path o') input secrets (disks (so_path o')) of
             (Inl _, d) \<Rightarrow> Some (1, disks(so_path o' := d)) | (Inr _, d) \<Rightarrow> Some (0, disks(so_path o' := d)))))"

section \<open>The serve command\<close>

text \<open>The server with its settings: whether it ended without an error, and the world after it.\<close>

type_synonym 'w serve_command = "configLookup \<Rightarrow> 'w \<Rightarrow> bool \<times> 'w"

type_synonym 'w plain_command = "string list \<Rightarrow> 'w \<Rightarrow> nat \<times> 'w"

definition executeServe :: "configLookup \<Rightarrow> 'w serve_command option \<Rightarrow> 'w \<Rightarrow> nat \<times> 'w" where
  "executeServe lookup serve w = (case serve of None \<Rightarrow> (1, w)
     | Some f \<Rightarrow> (case f lookup w of (ok, w') \<Rightarrow> (if ok then 0 else 1, w')))"

record serve_options =
  sv_path :: string
  sv_listen :: string

definition serve_flags :: "serve_options flag list" where
  "serve_flags =
     [ValueFlag ''env-file'' (required_text (\<lambda>v o'. o'\<lparr>sv_path := v\<rparr>)),
      ValueFlag ''listen'' (\<lambda>v o'. map_option (\<lambda>n. o'\<lparr>sv_listen := n\<rparr>) (right_value (normalizeListenAddr v)))]"

definition override_listen :: "string \<Rightarrow> configLookup \<Rightarrow> configLookup" where
  "override_listen addr base key = (if key = ''LISTEN_ADDR'' then (addr, True, False) else base key)"

definition executeServeCommand ::
    "(string \<Rightarrow> string option) \<Rightarrow> (string \<Rightarrow> string option) \<Rightarrow> string list \<Rightarrow> 'w serve_command option \<Rightarrow> 'w \<Rightarrow> nat \<times> 'w" where
  "executeServeCommand env files args serve w = (case command_line serve_flags \<lparr>sv_path = [], sv_listen = []\<rparr> args of
     ShowHelp \<Rightarrow> (0, w)
   | BadUsage \<Rightarrow> (2, w)
   | Options o' \<Rightarrow>
       (case (if sv_path o' = [] then Some (processConfigLookup env)
              else (case files (sv_path o') of None \<Rightarrow> None
                | Some contents \<Rightarrow> (case parseEnvFile contents of Inl _ \<Rightarrow> None | Inr vals \<Rightarrow> Some (value_lookup vals)))) of
          None \<Rightarrow> (1, w)
        | Some lookup \<Rightarrow> executeServe (if sv_listen o' \<noteq> [] then override_listen (sv_listen o') lookup else lookup) serve w))"

section \<open>The commands\<close>

record 'w cli_commands =
  cmd_serve :: "'w serve_command option"
  cmd_setup :: "'w plain_command option"
  cmd_doctor :: "'w plain_command option"
  cmd_validate :: "'w plain_command option"
  cmd_suggestHostnames :: "'w plain_command option"
  cmd_healthcheck :: "'w plain_command option"

definition help_topics :: "string list" where
  "help_topics = [''serve'', ''setup'', ''doctor'', ''validate'', ''suggest-hostnames'', ''healthcheck'', ''help'']"

definition executeHelp :: "string list \<Rightarrow> nat" where
  "executeHelp args =
     (if hd args = ''-h'' \<or> hd args = ''--help'' then (if length args \<noteq> 1 then 2 else 0)
      else if length args = 1 then 0
      else if length args \<noteq> 2 then 2
      else if args ! 1 \<in> set help_topics then 0 else 2)"

definition run_command :: "'w plain_command option \<Rightarrow> string list \<Rightarrow> 'w \<Rightarrow> nat \<times> 'w" where
  "run_command command args w = (case command of None \<Rightarrow> (1, w) | Some f \<Rightarrow> f args w)"

definition runCLIWithCommands ::
    "(string \<Rightarrow> string option) \<Rightarrow> (string \<Rightarrow> string option) \<Rightarrow> string list \<Rightarrow> 'w cli_commands \<Rightarrow> 'w \<Rightarrow> nat \<times> 'w" where
  "runCLIWithCommands env files args commands w = (case args of
     [] \<Rightarrow> executeServe (processConfigLookup env) (cmd_serve commands) w
   | name # rest \<Rightarrow>
       if name = ''help'' \<or> is_help name then (executeHelp args, w)
       else if name = ''serve'' then executeServeCommand env files rest (cmd_serve commands) w
       else if name = ''setup'' then run_command (cmd_setup commands) rest w
       else if name = ''doctor'' then run_command (cmd_doctor commands) rest w
       else if name = ''validate'' then run_command (cmd_validate commands) rest w
       else if name = ''suggest-hostnames'' then run_command (cmd_suggestHostnames commands) rest w
       else if name = ''healthcheck'' then run_command (cmd_healthcheck commands) rest w
       else (2, w))"

section \<open>From the wizard to the server\<close>

lemma serve_env_file:
  assumes "trim_space path \<noteq> []"
  shows "command_line serve_flags \<lparr>sv_path = [], sv_listen = []\<rparr> [''--env-file='' @ path] = Options \<lparr>sv_path = path, sv_listen = []\<rparr>"
  using assms
  by (simp add: command_line_def is_help_def flag_arg_of_def split_flag_def serve_flags_def required_text_def)

lemma runSetupWizard_path: "runSetupWizard calls path input secrets d = (Inr u, d') \<Longrightarrow> trim_space path \<noteq> []"
  by (auto elim!: runSetupWizard_InrE simp: replace_env_def writeEnvFileWithSnapshot_def split: prod.split_asm sum.split_asm)

text \<open>
  C26: The setup wizard and the server agree. After a successful run of the wizard, whatever was typed and
  whatever the process environment and the other files hold, starting the server with the environment file
  gives it settings that the configuration accepts, or that lack exactly the trusted proxy that the wizard
  does not choose; only a line of more than 1 MiB is not read back.
\<close>
theorem setup_then_serve:
  "(case runSetupWizard calls path input secrets (d\<lparr>env_temporary := None\<rparr>) of (Inl _, _) \<Rightarrow> True
    | (Inr _, d') \<Rightarrow>
        (\<exists>vals. settings_file (ec_printable calls) vals (env_file d') \<and>
          list_ex (\<lambda>kv. int (length (written_line (ec_printable calls) (fst kv) (snd kv))) > 1024 * 1024) vals)
        \<or> (\<exists>lookup. executeServeCommand env (files(path := env_file d')) [''--env-file='' @ path] serve w = executeServe lookup serve w
            \<and> (loadConfigFrom lookup = Inl (ConfigMissing [''TRUSTED_PROXY_CIDR'']) \<or> (\<exists>config. loadConfigFrom lookup = Inr config))))"
proof (cases "runSetupWizard calls path input secrets (d\<lparr>env_temporary := None\<rparr>)")
  case (Pair r d')
  show ?thesis
  proof (cases r)
    case (Inr u)
    note run = Pair [unfolded Inr]
    obtain before exists vals where w: "wizard_values \<lparr>wz_values = before, wz_input = input, wz_secrets = secrets\<rparr> = Inr vals"
        and written: "settings_file (ec_printable calls) vals (env_file d')" and wf: "gomap_wf vals"
      using run by (rule setup_wizard_success)
    have accepted: "loadConfigFrom (value_lookup vals) = Inl (ConfigMissing [''TRUSTED_PROXY_CIDR'']) \<or> (\<exists>config. loadConfigFrom (value_lookup vals) = Inr config)"
      using wizard_values_sound(1) [OF w] by (auto simp: validateSetupConfiguration_def split: sum.splits if_splits)
    have "\<exists>lookup. executeServeCommand env (files(path := env_file d')) [''--env-file='' @ path] serve w = executeServe lookup serve w
            \<and> (loadConfigFrom lookup = Inl (ConfigMissing [''TRUSTED_PROXY_CIDR'']) \<or> (\<exists>config. loadConfigFrom lookup = Inr config))"
      if "env_file d' = Some s" "parseEnvFile s = Inr again" "loadConfigFrom (value_lookup again) = loadConfigFrom (value_lookup vals)" for s again
    proof (intro exI conjI)
      show "executeServeCommand env (files(path := env_file d')) [''--env-file='' @ path] serve w = executeServe (value_lookup again) serve w"
        unfolding executeServeCommand_def serve_env_file [OF runSetupWizard_path [OF run]]
        using that runSetupWizard_path [OF run] by (cases "path = []") simp_all
      show "loadConfigFrom (value_lookup again) = Inl (ConfigMissing [''TRUSTED_PROXY_CIDR'']) \<or> (\<exists>config. loadConfigFrom (value_lookup again) = Inr config)"
        using accepted that by simp
    qed
    with settings_file_loads [OF written wf] show ?thesis
      unfolding run prod.case sum.case using written by blast
  qed (simp add: Pair)
qed

end
