(* ===== verification/Html.thy ===== *)
theory Html
  imports Go_Url
begin

text \<open>
  Writing HTML: the escaping of \<open>html.EscapeString\<close>, and what a browser makes of it. The reader of markup below
  tells text, tags and quoted attribute values apart, and keeps the markup only: the names of the tags and of
  their attributes, with the quotes. Escaped text leaves no trace in it.
\<close>

section \<open>Escaping\<close>

lemma quote_chars: "dquote = CHR 0x22" "squote = CHR 0x27"
  by code_simp+

definition html_escape_char :: "char \<Rightarrow> string" where
  "html_escape_char c =
     (if c = CHR ''&'' then ''&amp;'' else if c = squote then ''&#39;'' else if c = CHR ''<'' then ''&lt;''
      else if c = CHR ''>'' then ''&gt;'' else if c = dquote then ''&#34;'' else [c])"

definition html_escape :: "string \<Rightarrow> string" where
  "html_escape s = concat (map html_escape_char s)"

text \<open>The character references of the escaped text, read back.\<close>

definition html_reference :: "string \<Rightarrow> char \<times> string" where
  "html_reference s =
     (if has_prefix s ''&amp;'' then (CHR ''&'', drop 5 s)
      else if has_prefix s ''&#39;'' then (squote, drop 5 s)
      else if has_prefix s ''&lt;'' then (CHR ''<'', drop 4 s)
      else if has_prefix s ''&gt;'' then (CHR ''>'', drop 4 s)
      else if has_prefix s ''&#34;'' then (dquote, drop 5 s)
      else (hd s, tl s))"


lemma html_reference_shorter: "s \<noteq> [] \<Longrightarrow> length (snd (html_reference s)) < length s"
  by (auto simp: html_reference_def)

function html_unescape :: "string \<Rightarrow> string" where
  "html_unescape s = (if s = [] then [] else fst (html_reference s) # html_unescape (snd (html_reference s)))"
  by pat_completeness auto
termination
  by (relation "measure length") (simp_all add: html_reference_shorter)

declare html_unescape.simps [simp del]

lemma html_reference_escape: "html_reference (html_escape_char c @ s) = (c, s)"
  by (simp add: html_escape_char_def html_reference_def has_prefix_iff quote_chars)

text \<open>What is escaped is read back as it was.\<close>

lemma html_unescape_escape: "html_unescape (html_escape s) = s"
proof (induction s)
  case Nil
  then show ?case by (simp add: html_escape_def html_unescape.simps)
next
  case (Cons c s)
  have "html_escape (c # s) = html_escape_char c @ html_escape s" by (simp add: html_escape_def)
  moreover have "html_escape_char c @ html_escape s \<noteq> []" by (simp add: html_escape_char_def)
  ultimately show ?case
    using Cons.IH by (subst html_unescape.simps) (simp add: html_reference_escape)
qed

section \<open>Reading markup\<close>

datatype html_mode = InText | InTag | InValue

text \<open>One character: the next mode, and whether the character belongs to the markup.\<close>

fun html_step :: "html_mode \<Rightarrow> char \<Rightarrow> html_mode \<times> bool" where
  "html_step InText c = (if c = CHR ''<'' then (InTag, True) else (InText, False))"
| "html_step InTag c = (if c = CHR ''>'' then (InText, True) else if c = dquote then (InValue, True) else (InTag, True))"
| "html_step InValue c = (if c = dquote then (InTag, True) else (InValue, False))"

fun html_scan :: "html_mode \<Rightarrow> string \<Rightarrow> html_mode \<times> string" where
  "html_scan m [] = (m, [])"
| "html_scan m (c # s) = (case html_step m c of (m1, keep) \<Rightarrow> (case html_scan m1 s of (m2, out) \<Rightarrow> (m2, if keep then c # out else out)))"

lemma html_scan_append:
  "html_scan m (a @ b) = (case html_scan m a of (m1, x) \<Rightarrow> (case html_scan m1 b of (m2, y) \<Rightarrow> (m2, x @ y)))"
  by (induction a arbitrary: m) (simp_all split: prod.split)

text \<open>Reading one character at a time; text and values pass without a trace.\<close>

definition mark :: "char \<Rightarrow> html_mode \<times> string \<Rightarrow> html_mode \<times> string" where
  "mark c r = (fst r, c # snd r)"

lemma mark_Pair [simp]: "mark c (m, out) = (m, c # out)"
  by (simp add: mark_def)

lemma html_scan_steps [simp]:
  "html_scan InText (CHR ''<'' # s) = mark (CHR ''<'') (html_scan InTag s)"
  "c \<noteq> CHR ''<'' \<Longrightarrow> html_scan InText (c # s) = html_scan InText s"
  "html_scan InTag (CHR ''>'' # s) = mark (CHR ''>'') (html_scan InText s)"
  "html_scan InTag (CHR 0x22 # s) = mark (CHR 0x22) (html_scan InValue s)"
  "c \<noteq> CHR ''>'' \<Longrightarrow> c \<noteq> CHR 0x22 \<Longrightarrow> html_scan InTag (c # s) = mark c (html_scan InTag s)"
  "html_scan InValue (CHR 0x22 # s) = mark (CHR 0x22) (html_scan InTag s)"
  "c \<noteq> CHR 0x22 \<Longrightarrow> html_scan InValue (c # s) = html_scan InValue s"
  by (simp_all add: quote_chars mark_def case_prod_beta)

declare html_scan.simps(2) [simp del]

text \<open>Text without an angle bracket or a double quote.\<close>

definition plain_text :: "string \<Rightarrow> bool" where
  "plain_text s \<longleftrightarrow> list_all (\<lambda>c. c \<noteq> CHR ''<'' \<and> c \<noteq> CHR ''>'' \<and> c \<noteq> dquote) s"

lemma plain_text_append [simp]: "plain_text (a @ b) \<longleftrightarrow> plain_text a \<and> plain_text b"
  by (simp add: plain_text_def)

lemma plain_scan:
  assumes "plain_text s"
  shows "html_scan InText s = (InText, [])" and "html_scan InValue s = (InValue, [])"
  using assms by (induction s) (auto simp: plain_text_def quote_chars)

lemma plain_text_escape [simp]: "plain_text (html_escape s)"
  by (induction s) (auto simp: html_escape_def html_escape_char_def plain_text_def quote_chars)

lemma html_digit_plain: "is_digit c \<Longrightarrow> c \<noteq> CHR ''<'' \<and> c \<noteq> CHR ''>'' \<and> c \<noteq> dquote"
  by (auto simp: is_digit_def quote_chars)

lemma plain_text_nat [simp]: "plain_text (show_nat n)"
  using show_nat_digits [of n] html_digit_plain by (auto simp: plain_text_def list_all_iff)

lemma plain_text_int [simp]: "plain_text (show_int i)"
proof -
  have "plain_text (CHR ''-'' # show_nat n) \<longleftrightarrow> plain_text (show_nat n)" for n by (simp add: plain_text_def quote_chars)
  then show ?thesis by (simp add: show_int_def)
qed

text \<open>
  Markup that leaves the reader in the text: what follows is read from the text again.
\<close>

definition html_marks :: "string \<Rightarrow> string \<Rightarrow> bool" where
  "html_marks s marks \<longleftrightarrow> html_scan InText s = (InText, marks)"

lemma html_marks_append: "html_marks a x \<Longrightarrow> html_marks b y \<Longrightarrow> html_marks (a @ b) (x @ y)"
  by (simp add: html_marks_def html_scan_append)

lemma html_marks_Nil [simp]: "html_marks [] []"
  by (simp add: html_marks_def)

lemma html_marks_plain: "plain_text s \<Longrightarrow> html_marks s []"
  by (simp add: html_marks_def plain_scan)

lemma html_marks_concat:
  assumes "\<And>x. x \<in> set xs \<Longrightarrow> html_marks (f x) (g x)"
  shows "html_marks (concat (map f xs)) (concat (map g xs))"
  using assms by (induction xs) (auto intro: html_marks_append)

section \<open>Reading attributes\<close>

text \<open>
  The values of the quoted attributes, in order, each with its name up to the equals sign. A state is the mode with
  what has been read of the name and of the value.
\<close>

type_synonym html_state = "html_mode \<times> string \<times> string"

definition html_in_text :: html_state where
  "html_in_text = (InText, [], [])"

fun attr_step :: "html_state \<Rightarrow> char \<Rightarrow> html_state \<times> (string \<times> string) list" where
  "attr_step (InText, n, v) c = (if c = CHR ''<'' then (InTag, [], []) else (InText, n, v), [])"
| "attr_step (InTag, n, v) c =
     (if c = CHR ''>'' then html_in_text else if c = dquote then (InValue, n, []) else if c = CHR '' '' then (InTag, [], []) else (InTag, n @ [c], v), [])"
| "attr_step (InValue, n, v) c = (if c = dquote then ((InTag, [], []), [(n, v)]) else ((InValue, n, v @ [c]), []))"

fun attr_scan :: "html_state \<Rightarrow> string \<Rightarrow> html_state \<times> (string \<times> string) list" where
  "attr_scan st [] = (st, [])"
| "attr_scan st (c # s) = (case attr_step st c of (st1, x) \<Rightarrow> (case attr_scan st1 s of (st2, y) \<Rightarrow> (st2, x @ y)))"

text \<open>What a browser takes for the values of an attribute, its character references read.\<close>

definition html_values :: "string \<Rightarrow> string \<Rightarrow> string list" where
  "html_values name s = map (\<lambda>p. html_unescape (snd p)) (filter (\<lambda>p. fst p = name @ ''='') (snd (attr_scan html_in_text s)))"

lemma attr_scan_append:
  "attr_scan st (a @ b) = (case attr_scan st a of (st1, x) \<Rightarrow> (case attr_scan st1 b of (st2, y) \<Rightarrow> (st2, x @ y)))"
  by (induction a arbitrary: st) (simp_all split: prod.split)

definition attr_found :: "string \<times> string \<Rightarrow> html_state \<times> (string \<times> string) list \<Rightarrow> html_state \<times> (string \<times> string) list" where
  "attr_found p r = (fst r, p # snd r)"

lemma attr_found_Pair [simp]: "attr_found p (st, ps) = (st, p # ps)"
  by (simp add: attr_found_def)

lemma attr_scan_steps [simp]:
  "attr_scan (InText, n, v) (CHR ''<'' # s) = attr_scan (InTag, [], []) s"
  "c \<noteq> CHR ''<'' \<Longrightarrow> attr_scan (InText, n, v) (c # s) = attr_scan (InText, n, v) s"
  "attr_scan (InTag, n, v) (CHR ''>'' # s) = attr_scan (InText, [], []) s"
  "attr_scan (InTag, n, v) (CHR 0x22 # s) = attr_scan (InValue, n, []) s"
  "attr_scan (InTag, n, v) (CHR '' '' # s) = attr_scan (InTag, [], []) s"
  "c \<noteq> CHR ''>'' \<Longrightarrow> c \<noteq> CHR 0x22 \<Longrightarrow> c \<noteq> CHR '' '' \<Longrightarrow> attr_scan (InTag, n, v) (c # s) = attr_scan (InTag, n @ [c], v) s"
  "attr_scan (InValue, n, v) (CHR 0x22 # s) = attr_found (n, v) (attr_scan (InTag, [], []) s)"
  "c \<noteq> CHR 0x22 \<Longrightarrow> attr_scan (InValue, n, v) (c # s) = attr_scan (InValue, n, v @ [c]) s"
  by (simp_all add: quote_chars html_in_text_def attr_found_def case_prod_beta)

declare attr_scan.simps(2) [simp del]

lemma plain_attr_scan:
  assumes "plain_text s"
  shows "attr_scan (InText, n, v) s = ((InText, n, v), [])" and "attr_scan (InValue, n, v) s = ((InValue, n, v @ s), [])"
  using assms by (induction s arbitrary: v) (auto simp: plain_text_def quote_chars)

text \<open>Markup with its attributes that is read from the text to the text.\<close>

definition html_attributes :: "string \<Rightarrow> (string \<times> string) list \<Rightarrow> bool" where
  "html_attributes s ps \<longleftrightarrow> attr_scan html_in_text s = (html_in_text, ps)"

lemma html_attributes_append: "html_attributes a x \<Longrightarrow> html_attributes b y \<Longrightarrow> html_attributes (a @ b) (x @ y)"
  by (simp add: html_attributes_def attr_scan_append)

lemma html_attributes_Nil [simp]: "html_attributes [] []"
  by (simp add: html_attributes_def)

lemma html_attributes_concat:
  assumes "\<And>x. x \<in> set xs \<Longrightarrow> html_attributes (f x) (g x)"
  shows "html_attributes (concat (map f xs)) (concat (map g xs))"
  using assms by (induction xs) (auto intro: html_attributes_append)

lemma html_attributes_values:
  "html_attributes s ps \<Longrightarrow> html_values name s = map (\<lambda>p. html_unescape (snd p)) (filter (\<lambda>p. fst p = name @ ''='') ps)"
  by (simp add: html_attributes_def html_values_def)

lemma html_unescape_none: "CHR ''&'' \<notin> set s \<Longrightarrow> html_unescape s = s"
proof (induction s)
  case Nil
  then show ?case by (simp add: html_unescape.simps)
next
  case (Cons c s)
  then have "html_reference (c # s) = (c, s)" by (auto simp: html_reference_def has_prefix_iff)
  with Cons show ?case by (subst html_unescape.simps) simp
qed

end
