(* ===== verification/Portal_Cards.thy ===== *)
theory Portal_Cards
  imports Html Service_Health
begin

text \<open>
  The service cards of the page (\<open>handlers.go\<close>): links, icons, health labels and sections, byte for byte. The clock
  is looked at once for all cards. A store of health results that is \<open>None\<close> is a nil pointer.
\<close>

section \<open>Links\<close>

definition cardURLScheme :: "string \<Rightarrow> string option" where
  "cardURLScheme raw = (case url_parse raw of None \<Rightarrow> None | Some u \<Rightarrow>
     if \<not> is_abs u \<or> Opaque u \<noteq> [] \<or> HasUser u \<or> Host u = [] \<or> hostname u = [] \<or> CHR ''*'' \<in> set (hostname u) then None
     else if Scheme u \<noteq> ''http'' \<and> Scheme u \<noteq> ''https'' then None
     else Some (Scheme u))"

text \<open>The scheme of a card that is a link.\<close>

definition card_link :: "ServiceCard \<Rightarrow> string option" where
  "card_link sc = (if LinkState sc = LinkReady then cardURLScheme (card_URL sc) else None)"

definition anyCardUnlinked :: "ServiceCard list \<Rightarrow> bool" where
  "anyCardUnlinked cards \<longleftrightarrow> list_ex (\<lambda>sc. card_link sc = None) cards"

section \<open>Health\<close>

fun health_label :: "ServiceHealthState \<Rightarrow> string \<times> string" where
  "health_label HealthUnknown = (''unknown'', ''check unknown'')"
| "health_label HealthReachable = (''reachable'', ''backend check passed'')"
| "health_label HealthAuthRequired = (''auth-required'', ''backend denied'')"
| "health_label HealthResponseError = (''response-error'', ''unexpected response'')"
| "health_label HealthUnreachable = (''unreachable'', ''check failed'')"
| "health_label HealthStale = (''stale'', ''check stale'')"

definition health_result :: "ServiceHealthStore option \<Rightarrow> int \<Rightarrow> int \<Rightarrow> ServiceHealthResult option" where
  "health_result store now host_id = (case store of None \<Rightarrow> None | Some s \<Rightarrow> store_get s now host_id)"

definition renderServiceHealthStatus :: "ServiceHealthStore option \<Rightarrow> int \<Rightarrow> int \<Rightarrow> string" where
  "renderServiceHealthStatus store now host_id = (case health_result store now host_id of None \<Rightarrow> []
   | Some r \<Rightarrow> (case health_label (hr_State r) of (class_name, label) \<Rightarrow>
       ''<span class=\"health-status health-'' @ class_name @ ''\" aria-label=\"Backend service check: '' @ html_escape label @ ''\">'' @
       html_escape label @ ''</span>''))"

definition renderServiceHealthHelp :: "bool \<Rightarrow> bool \<Rightarrow> string" where
  "renderServiceHealthHelp hasHealth hasUnlinkedCards =
     (if \<not> hasHealth \<and> \<not> hasUnlinkedCards then []
      else ''<details class=\"service-health-help\">'' @ ''<summary>'' @
        (if hasHealth \<and> hasUnlinkedCards then ''About links and backend checks''
         else if hasHealth then ''What does a service check mean?'' else ''What does \"link needed\" mean?'') @
        ''</summary>'' @ ''<div class=\"service-health-help-body\">'' @
        (if hasHealth then
           ''<p>Each label describes a backend check run from this server, not what your browser will see. '' @
           ''A TCP check only confirms a connection could be opened; it says nothing about the page behind it. '' @
           ''An HTTP check accepts a configured range of status codes as a pass, but an accepted status does not prove a usable page, '' @
           ''and a denial (401/403) is always treated as a denial regardless of that range.</p>'' @
           ''<p>Browser DNS, proxy rules, application logins, and existing sessions can still block access even after a passed check, '' @
           ''and a denial is not assurance that signing in will resolve it. \"Check unknown\" means no usable recent observation exists, '' @
           ''not necessarily that a check was never attempted.</p>''
         else []) @
        (if hasUnlinkedCards then
           ''<p>A card marked \"link needed\" has no concrete browser URL Velociportal can open directly -- often because '' @
           ''the matched destination is a wildcard hostname. It still confirms the destination is authorized; adding a concrete '' @
           ''service URL in Velociportal metadata is what turns it into a clickable link.</p>''
         else []) @
        ''</div>'' @ ''</details>'')"

section \<open>Cards\<close>

definition icon_markup :: "bool \<Rightarrow> bool \<Rightarrow> ServiceCard \<Rightarrow> string" where
  "icon_markup editing editor_available sc =
     (if card_Icon sc \<noteq> [] \<or> editing \<or> editor_available
      then ''<img class=\"service-icon\" src=\"'' @ icon_Path (serviceIconForID (card_Icon sc)) @ ''\" width=\"32\" height=\"32\" alt=\"\">''
      else [])"

definition card_attrs :: "ServiceCard \<Rightarrow> string" where
  "card_attrs sc = ''data-service=\"'' @ html_escape (card_Name sc) @ ''\" data-service-id=\"'' @ show_int (card_ID sc) @
     ''\" data-service-hostname=\"'' @
     html_escape (case card_link sc of None \<Rightarrow> [] | Some _ \<Rightarrow> (case url_parse (card_URL sc) of None \<Rightarrow> [] | Some u \<Rightarrow> hostname u)) @ ''\"''"

definition card_content :: "bool \<Rightarrow> bool \<Rightarrow> ServiceHealthStore option \<Rightarrow> int \<Rightarrow> ServiceCard \<Rightarrow> string" where
  "card_content editing editor_available store now sc =
     icon_markup editing editor_available sc @ ''<span class=\"card-head\"><span class=\"card-name\">'' @ html_escape (card_Name sc) @
     ''</span></span><span class=\"card-meta\"><span class=\"badge\">'' @ (case card_link sc of None \<Rightarrow> ''link needed'' | Some scheme \<Rightarrow> scheme) @
     ''</span>'' @ renderServiceHealthStatus store now (card_ID sc) @ ''</span>''"

definition renderServiceCard :: "bool \<Rightarrow> bool \<Rightarrow> ServiceHealthStore option \<Rightarrow> int \<Rightarrow> ServiceCard \<Rightarrow> string" where
  "renderServiceCard editing editor_available store now sc =
     (let content = card_content editing editor_available store now sc; linkable = card_link sc \<noteq> None in
      if editing then
        ''<article class=\"card card-editable\" '' @ card_attrs sc @ ''>'' @
        (if linkable then ''<a class=\"service-main\" href=\"'' @ html_escape (card_URL sc) @ ''\">'' @ content @ ''</a>''
         else ''<div class=\"service-main card-unlinked\">'' @ content @ ''</div>'') @
        ''<button type=\"button\" class=\"service-edit-button\" data-edit-service=\"'' @ show_int (card_ID sc) @ ''\" aria-label=\"Edit service: '' @
        html_escape (card_Name sc) @ ''\" aria-haspopup=\"dialog\" aria-controls=\"service-editor\">Edit service</button></article>''
      else if linkable then
        ''<a class=\"card\" href=\"'' @ html_escape (card_URL sc) @ ''\" '' @ card_attrs sc @ ''>'' @ content @ ''</a>''
      else ''<article class=\"card card-unlinked\" '' @ card_attrs sc @ ''>'' @ content @ ''</article>'')"

section \<open>Sections\<close>

text \<open>Runs of cards with the same category, numbered from one.\<close>

function renderServiceSections :: "(ServiceCard \<Rightarrow> string) \<Rightarrow> nat \<Rightarrow> ServiceCard list \<Rightarrow> string" where
  "renderServiceSections render k [] = []"
| "renderServiceSections render k (sc # cards) =
     (let same = (\<lambda>c. card_Category c = card_Category sc);
          label = (if card_Category sc = [] then ''Uncategorized'' else card_Category sc);
          heading = ''service-category-'' @ show_nat (Suc k) in
      ''<section class=\"service-category\" aria-labelledby=\"'' @ heading @ ''\">'' @
      ''<h2 class=\"service-category-title\" id=\"'' @ heading @ ''\">'' @ html_escape label @ ''</h2>'' @ ''<div class=\"grid\">'' @
      concat (map render (sc # takeWhile same cards)) @ ''</div></section>'' @
      renderServiceSections render (Suc k) (dropWhile same cards))"
  by pat_completeness auto
termination
  by (relation "measure (\<lambda>(render, k, cards). length cards)") (simp_all add: le_imp_less_Suc length_dropWhile_le)

definition serviceCardsHaveOrganizationMetadata :: "ServiceCard list \<Rightarrow> bool" where
  "serviceCardsHaveOrganizationMetadata cards \<longleftrightarrow> list_ex (\<lambda>sc. card_Category sc \<noteq> [] \<or> card_Order sc \<noteq> None) cards"

definition render_services :: "bool \<Rightarrow> bool \<Rightarrow> bool \<Rightarrow> ServiceHealthStore option \<Rightarrow> int \<Rightarrow> ServiceCard list \<Rightarrow> string" where
  "render_services organized editing editor_available store now cards =
     (let render = renderServiceCard editing editor_available store now in
      (if organized then renderServiceSections render 0 cards else concat (map render cards)) @
      (if cards = [] then ''<div class=\"empty\">'' @ ''<div class=\"empty-icon\" aria-hidden=\"true\">&#9671;</div>'' @
         ''<p>No services are available to your account.</p>'' @ ''</div>'' else []))"

section \<open>The markup of the cards\<close>

text \<open>
  What the browser is to see as tags and attributes: only whether a card has an icon, a link and a health result,
  and which cards share a section, makes a difference.
\<close>

definition content_marks :: "bool \<Rightarrow> bool \<Rightarrow> string" where
  "content_marks icon health =
     (if icon then ''<img class=\"\" src=\"\" width=\"\" height=\"\" alt=\"\">'' else []) @
     ''<span class=\"\"><span class=\"\"></span></span><span class=\"\"><span class=\"\"></span>'' @
     (if health then ''<span class=\"\" aria-label=\"\"></span>'' else []) @ ''</span>''"

definition card_marks :: "bool \<Rightarrow> bool \<Rightarrow> bool \<Rightarrow> bool \<Rightarrow> string" where
  "card_marks editing icon link health =
     (if editing then
        ''<article class=\"\" data-service=\"\" data-service-id=\"\" data-service-hostname=\"\">'' @
        (if link then ''<a class=\"\" href=\"\">'' @ content_marks icon health @ ''</a>''
         else ''<div class=\"\">'' @ content_marks icon health @ ''</div>'') @
        ''<button type=\"\" class=\"\" data-edit-service=\"\" aria-label=\"\" aria-haspopup=\"\" aria-controls=\"\"></button></article>''
      else if link then
        ''<a class=\"\" href=\"\" data-service=\"\" data-service-id=\"\" data-service-hostname=\"\">'' @ content_marks icon health @ ''</a>''
      else ''<article class=\"\" data-service=\"\" data-service-id=\"\" data-service-hostname=\"\">'' @ content_marks icon health @ ''</article>'')"

definition marks_of_card :: "bool \<Rightarrow> bool \<Rightarrow> ServiceHealthStore option \<Rightarrow> int \<Rightarrow> ServiceCard \<Rightarrow> string" where
  "marks_of_card editing editor_available store now sc =
     card_marks editing (card_Icon sc \<noteq> [] \<or> editing \<or> editor_available) (card_link sc \<noteq> None)
       (health_result store now (card_ID sc) \<noteq> None)"

function sections_marks :: "(ServiceCard \<Rightarrow> string) \<Rightarrow> ServiceCard list \<Rightarrow> string" where
  "sections_marks marks [] = []"
| "sections_marks marks (sc # cards) =
     (let same = (\<lambda>c. card_Category c = card_Category sc) in
      ''<section class=\"\" aria-labelledby=\"\"><h2 class=\"\" id=\"\"></h2><div class=\"\">'' @
      concat (map marks (sc # takeWhile same cards)) @ ''</div></section>'' @ sections_marks marks (dropWhile same cards))"
  by pat_completeness auto
termination
  by (relation "measure (\<lambda>(marks, cards). length cards)") (simp_all add: le_imp_less_Suc length_dropWhile_le)

definition services_marks :: "bool \<Rightarrow> bool \<Rightarrow> bool \<Rightarrow> ServiceHealthStore option \<Rightarrow> int \<Rightarrow> ServiceCard list \<Rightarrow> string" where
  "services_marks organized editing editor_available store now cards =
     (let marks = marks_of_card editing editor_available store now in
      (if organized then sections_marks marks cards else concat (map marks cards)) @
      (if cards = [] then ''<div class=\"\"><div class=\"\" aria-hidden=\"\"></div><p></p></div>'' else []))"

lemma icon_path_plain [simp]: "plain_text (icon_Path (serviceIconForID i))"
proof -
  have "list_all (\<lambda>icon. plain_text (icon_Path icon)) serviceIcons"
    by (simp add: serviceIcons_def plain_text_def quote_chars)
  moreover have "serviceIconForID i \<in> set serviceIcons"
  proof (cases "find (\<lambda>icon. icon_ID icon = i) serviceIcons")
    case None
    then show ?thesis by (simp add: serviceIconForID_def serviceIcons_def)
  next
    case (Some icon)
    then have "icon \<in> set serviceIcons" by (auto simp: find_Some_iff)
    with Some show ?thesis by (simp add: serviceIconForID_def)
  qed
  ultimately show ?thesis by (simp add: list_all_iff)
qed

lemma card_link_scheme: "card_link sc = Some s \<Longrightarrow> s = ''http'' \<or> s = ''https''"
  by (auto simp: card_link_def cardURLScheme_def split: if_splits option.splits)

lemma health_label_plain [simp]: "plain_text (fst (health_label st))"
  by (cases st) (simp_all add: plain_text_def quote_chars)

lemmas scan_simps = html_scan_append plain_scan quote_chars

lemma icon_scan:
  "html_scan InText (icon_markup editing editor_available sc) =
     (InText, if card_Icon sc \<noteq> [] \<or> editing \<or> editor_available then ''<img class=\"\" src=\"\" width=\"\" height=\"\" alt=\"\">'' else [])"
  by (simp add: icon_markup_def scan_simps)

lemma health_scan:
  "html_scan InText (renderServiceHealthStatus store now host_id) =
     (InText, if health_result store now host_id \<noteq> None then ''<span class=\"\" aria-label=\"\"></span>'' else [])"
proof (cases "health_result store now host_id")
  case None
  then show ?thesis by (simp add: renderServiceHealthStatus_def)
next
  case (Some r)
  obtain c l where label: "health_label (hr_State r) = (c, l)" by fastforce
  have "plain_text c" using health_label_plain [of "hr_State r"] by (simp add: label)
  then have "html_scan InText (''<span class=\"health-status health-'' @ c @ ''\" aria-label=\"Backend service check: '' @
      html_escape l @ ''\">'' @ html_escape l @ ''</span>'') = (InText, ''<span class=\"\" aria-label=\"\"></span>'')"
    by (simp add: scan_simps)
  with Some show ?thesis unfolding renderServiceHealthStatus_def Some option.case label prod.case by (simp only: option.distinct if_True not_False_eq_True simp_thms)
qed

lemma badge_scan: "html_scan InText (case card_link sc of None \<Rightarrow> ''link needed'' | Some scheme \<Rightarrow> scheme) = (InText, [])"
  using card_link_scheme [of sc] by (auto split: option.split)

lemma content_scan:
  "html_scan InText (card_content editing editor_available store now sc) =
     (InText, content_marks (card_Icon sc \<noteq> [] \<or> editing \<or> editor_available) (health_result store now (card_ID sc) \<noteq> None))"
  unfolding card_content_def content_marks_def
  by (simp add: html_scan_append icon_scan health_scan badge_scan plain_scan quote_chars del: html_escape_def)

lemma attrs_scan:
  "html_scan InTag (card_attrs sc) = (InTag, ''data-service=\"\" data-service-id=\"\" data-service-hostname=\"\"'')"
  unfolding card_attrs_def by (simp add: scan_simps)

lemma card_scan: "html_marks (renderServiceCard editing editor_available store now sc) (marks_of_card editing editor_available store now sc)"
  unfolding html_marks_def renderServiceCard_def marks_of_card_def card_marks_def Let_def
  by (simp add: html_scan_append content_scan attrs_scan plain_scan quote_chars)

lemma sections_scan:
  assumes "\<And>c. html_marks (render c) (marks c)"
  shows "html_marks (renderServiceSections render k cards) (sections_marks marks cards)"
  using assms
proof (induction marks cards arbitrary: k rule: sections_marks.induct)
  case (1 marks)
  then show ?case by simp
next
  case (2 marks sc cards)
  let ?same = "\<lambda>c. card_Category c = card_Category sc"
  have head: "html_marks (''<section class=\"service-category\" aria-labelledby=\"'' @ h @ ''\">'' @ ''<h2 class=\"service-category-title\" id=\"'' @ h @ ''\">'' @
      html_escape l @ ''</h2>'' @ ''<div class=\"grid\">'') ''<section class=\"\" aria-labelledby=\"\"><h2 class=\"\" id=\"\"></h2><div class=\"\">''"
    if "plain_text h" for h l
    using that by (simp add: html_marks_def html_scan_append plain_scan quote_chars)
  have "plain_text ''service-category-''" by (simp add: plain_text_def quote_chars)
  then have "plain_text (''service-category-'' @ show_nat (Suc k))" unfolding plain_text_append by simp
  note parts = head [OF this] html_marks_concat [of "sc # takeWhile ?same cards", OF 2(2)] 2(1) [OF refl 2(2)]
  have close: "html_marks ''</div></section>'' ''</div></section>''" by (simp add: html_marks_def quote_chars)
  show ?case
    using html_marks_append [OF parts(1) html_marks_append [OF parts(2) html_marks_append [OF close parts(3)]]]
    unfolding renderServiceSections.simps sections_marks.simps Let_def by (simp only: append_assoc)
qed

section \<open>Where links go\<close>

lemma get_scheme_split:
  "get_scheme_from raw seen s = Some (scheme, rest) \<Longrightarrow> raw = seen @ s \<Longrightarrow> scheme \<noteq> [] \<Longrightarrow> raw = scheme @ CHR '':'' # rest"
  by (induction raw seen s rule: get_scheme_from.induct) (auto split: if_splits)

lemma has_prefix_take [simp]: "has_prefix s (take n s)"
  by (metis append_take_drop_id has_prefix_iff)

lemma cut_byte_prefix: "cut_byte s c = Some (a, b) \<Longrightarrow> has_prefix s a"
  by (auto simp: cut_byte_def split: option.splits)

lemma cut_query_prefix: "cut_query s = (rest, force, q) \<Longrightarrow> has_prefix s rest"
  using cut_byte_prefix [of s "CHR ''?''"]
  by (auto simp: cut_query_def butlast_conv_take has_prefix_iff split: if_split_asm option.split_asm prod.split_asm)
    (metis append_take_drop_id)

lemma set_path_Some: "set_path p u = Some v \<Longrightarrow> Host v = Host u \<and> Scheme v = Scheme u"
  by (auto simp: set_path_def split: option.splits)

lemma url_parse_rest_host:
  assumes "url_parse_rest via u rest = Some v" and "Host u = []" and "Host v \<noteq> []"
  shows "has_prefix rest ''//'' \<and> Scheme v = Scheme u"
  using assms by (auto simp: url_parse_rest_def Let_def dest!: set_path_Some split: if_splits option.splits prod.splits)

lemma url_parse_uri_scheme:
  assumes "url_parse_uri via raw = Some u" and "Scheme u \<noteq> []" and "Host u \<noteq> []"
  shows "has_prefix (to_lower raw) (Scheme u @ ''://'')"
proof -
  obtain scheme rest0 rest force q where g: "get_scheme_from raw [] raw = Some (scheme, rest0)" "cut_query rest0 = (rest, force, q)"
      and r: "url_parse_rest via (no_url\<lparr>Scheme := to_lower scheme, ForceQuery := force, RawQuery := q\<rparr>) rest = Some u"
  proof -
    from assms(1) obtain scheme rest0 where g: "get_scheme_from raw [] raw = Some (scheme, rest0)"
      using assms(2) unfolding url_parse_uri_def by (auto simp: no_url_def split: if_split_asm option.split_asm)
    obtain rest force q where c: "cut_query rest0 = (rest, force, q)" by (cases "cut_query rest0") auto
    have "url_parse_rest via (no_url\<lparr>Scheme := to_lower scheme, ForceQuery := force, RawQuery := q\<rparr>) rest = Some u"
      using assms unfolding url_parse_uri_def g c Let_def option.case prod.case
      by (simp add: no_url_def split: if_split_asm) auto
    with g c show thesis by (rule that)
  qed
  from url_parse_rest_host [OF r] assms(3) have rest: "has_prefix rest ''//''" "Scheme u = to_lower scheme" by (simp_all add: no_url_def)
  with assms(2) have "raw = scheme @ CHR '':'' # rest0" using get_scheme_split [OF g(1)] by simp
  moreover obtain t where "rest0 = ''//'' @ t" using cut_query_prefix [OF g(2)] rest(1) by (auto simp: has_prefix_iff)
  ultimately have "to_lower raw = Scheme u @ ''://'' @ to_lower t" by (simp add: rest(2) to_lower_def ascii_lower_def is_upper_def)
  then show ?thesis by (simp add: has_prefix_iff)
qed

lemma url_parse_scheme:
  assumes "url_parse raw = Some u" and "Scheme u \<noteq> []" and "Host u \<noteq> []"
  shows "has_prefix (to_lower raw) (Scheme u @ ''://'')"
proof -
  obtain base v where b: "has_prefix raw base" "url_parse_uri False base = Some v" "Scheme v = Scheme u" "Host v = Host u"
  proof (cases "cut_byte raw (CHR ''#'')")
    case None
    show thesis by (rule that [of raw u]) (use assms(1) in \<open>simp_all add: url_parse_def None has_prefix_iff split: option.split_asm\<close>)
  next
    case (Some p)
    obtain base frag where p: "p = (base, frag)" by (cases p)
    from assms(1) obtain v where v: "url_parse_uri False base = Some v" "Scheme v = Scheme u" "Host v = Host u"
      unfolding url_parse_def Some p by (auto split: option.split_asm if_split_asm)
    show thesis using cut_byte_prefix [OF Some [unfolded p]] v by (rule that)
  qed
  then obtain t where "raw = base @ t" by (auto simp: has_prefix_iff)
  then have "to_lower raw = to_lower base @ to_lower t" by (simp add: to_lower_def)
  with url_parse_uri_scheme [OF b(2)] b(3,4) assms(2,3) show ?thesis by (auto simp: has_prefix_iff)
qed

lemma card_link_goes:
  assumes "card_link sc = Some s"
  shows "has_prefix (to_lower (card_URL sc)) (s @ ''://'')"
proof -
  obtain u where "url_parse (card_URL sc) = Some u" "Scheme u \<noteq> []" "Host u \<noteq> []" "Scheme u = s"
    using assms by (auto simp: card_link_def cardURLScheme_def is_abs_def split: if_splits option.splits)
  then show ?thesis using url_parse_scheme [of "card_URL sc" u] by simp
qed

section \<open>The attributes of the cards\<close>

text \<open>The attributes that the browser is to read, with their values as they are written.\<close>

definition icon_attributes :: "ServiceCard \<Rightarrow> (string \<times> string) list" where
  "icon_attributes sc = [(''class='', ''service-icon''), (''src='', icon_Path (serviceIconForID (card_Icon sc))),
     (''width='', ''32''), (''height='', ''32''), (''alt='', [])]"

definition health_attributes :: "ServiceHealthStore option \<Rightarrow> int \<Rightarrow> int \<Rightarrow> (string \<times> string) list" where
  "health_attributes store now host_id = (case health_result store now host_id of None \<Rightarrow> []
     | Some r \<Rightarrow> [(''class='', ''health-status health-'' @ fst (health_label (hr_State r))),
         (''aria-label='', ''Backend service check: '' @ html_escape (snd (health_label (hr_State r))))])"

definition content_attributes :: "bool \<Rightarrow> bool \<Rightarrow> ServiceHealthStore option \<Rightarrow> int \<Rightarrow> ServiceCard \<Rightarrow> (string \<times> string) list" where
  "content_attributes editing editor_available store now sc =
     (if card_Icon sc \<noteq> [] \<or> editing \<or> editor_available then icon_attributes sc else []) @
     [(''class='', ''card-head''), (''class='', ''card-name''), (''class='', ''card-meta''), (''class='', ''badge'')] @
     health_attributes store now (card_ID sc)"

definition data_attributes :: "ServiceCard \<Rightarrow> (string \<times> string) list" where
  "data_attributes sc = [(''data-service='', html_escape (card_Name sc)), (''data-service-id='', show_int (card_ID sc)),
     (''data-service-hostname='',
       html_escape (case card_link sc of None \<Rightarrow> [] | Some _ \<Rightarrow> (case url_parse (card_URL sc) of None \<Rightarrow> [] | Some u \<Rightarrow> hostname u)))]"

definition card_attributes :: "bool \<Rightarrow> bool \<Rightarrow> ServiceHealthStore option \<Rightarrow> int \<Rightarrow> ServiceCard \<Rightarrow> (string \<times> string) list" where
  "card_attributes editing editor_available store now sc =
     (let content = content_attributes editing editor_available store now sc; linkable = card_link sc \<noteq> None;
          href = (''href='', html_escape (card_URL sc)) in
      if editing then
        (''class='', ''card card-editable'') # data_attributes sc @
        (if linkable then [(''class='', ''service-main''), href] else [(''class='', ''service-main card-unlinked'')]) @ content @
        [(''type='', ''button''), (''class='', ''service-edit-button''), (''data-edit-service='', show_int (card_ID sc)),
         (''aria-label='', ''Edit service: '' @ html_escape (card_Name sc)), (''aria-haspopup='', ''dialog''), (''aria-controls='', ''service-editor'')]
      else if linkable then (''class='', ''card'') # href # data_attributes sc @ content
      else (''class='', ''card card-unlinked'') # data_attributes sc @ content)"

lemmas attr_simps = attr_scan_append plain_attr_scan quote_chars html_in_text_def

lemma icon_attr_scan:
  "html_attributes (icon_markup editing editor_available sc) (if card_Icon sc \<noteq> [] \<or> editing \<or> editor_available then icon_attributes sc else [])"
  by (simp add: html_attributes_def icon_markup_def icon_attributes_def attr_simps)

lemma health_attr_scan: "html_attributes (renderServiceHealthStatus store now host_id) (health_attributes store now host_id)"
proof (cases "health_result store now host_id")
  case None
  then show ?thesis by (simp add: renderServiceHealthStatus_def health_attributes_def)
next
  case (Some r)
  obtain c l where label: "health_label (hr_State r) = (c, l)" by fastforce
  have "plain_text c" using health_label_plain [of "hr_State r"] by (simp add: label)
  then have "html_attributes (''<span class=\"health-status health-'' @ c @ ''\" aria-label=\"Backend service check: '' @
      html_escape l @ ''\">'' @ html_escape l @ ''</span>'')
      [(''class='', ''health-status health-'' @ c), (''aria-label='', ''Backend service check: '' @ html_escape l)]"
    by (simp add: html_attributes_def attr_simps)
  then show ?thesis
    unfolding renderServiceHealthStatus_def health_attributes_def Some option.case label prod.case fst_conv snd_conv .
qed

lemma badge_attr_scan:
  "attr_scan (InText, n, v) (case card_link sc of None \<Rightarrow> ''link needed'' | Some scheme \<Rightarrow> scheme) = ((InText, n, v), [])"
  using card_link_scheme [of sc] by (auto split: option.split)

lemma content_attr_scan:
  "html_attributes (card_content editing editor_available store now sc) (content_attributes editing editor_available store now sc)"
  using icon_attr_scan [of editing editor_available sc] health_attr_scan [of store now "card_ID sc"]
  unfolding html_attributes_def card_content_def content_attributes_def
  by (simp add: attr_scan_append badge_attr_scan plain_attr_scan html_in_text_def)

lemma data_attr_scan: "attr_scan (InTag, [], v) (card_attrs sc) = ((InTag, [], []), data_attributes sc)"
  unfolding card_attrs_def data_attributes_def by (simp add: attr_simps)

lemma card_attr_scan:
  "html_attributes (renderServiceCard editing editor_available store now sc) (card_attributes editing editor_available store now sc)"
proof -
  have "attr_scan (InText, [], []) (card_content e editor_available store now sc) =
      ((InText, [], []), content_attributes e editor_available store now sc)" for e
    using content_attr_scan [of e editor_available store now sc] unfolding html_attributes_def html_in_text_def .
  then show ?thesis
    unfolding html_attributes_def renderServiceCard_def card_attributes_def Let_def html_in_text_def
    by (simp add: attr_scan_append data_attr_scan plain_attr_scan quote_chars)
qed

text \<open>The values of one attribute, of which the headings of the sections have none.\<close>

definition attrs_named :: "string \<Rightarrow> (string \<times> string) list \<Rightarrow> (string \<times> string) list" where
  "attrs_named name = filter (\<lambda>p. fst p = name @ ''='')"

lemma attrs_named_Nil [simp]: "attrs_named name [] = []"
  by (simp add: attrs_named_def)

lemma attrs_named_append [simp]: "attrs_named name (a @ b) = attrs_named name a @ attrs_named name b"
  by (simp add: attrs_named_def)

lemma attrs_named_concat: "attrs_named name (concat (map f xs)) = concat (map (\<lambda>x. attrs_named name (f x)) xs)"
  by (induction xs) (simp_all add: attrs_named_def)

lemma sections_attr_scan:
  assumes "\<And>c. html_attributes (render c) (attrs c)" and "name \<notin> {''class'', ''id'', ''aria-labelledby''}"
  shows "\<exists>ps. html_attributes (renderServiceSections render k cards) ps \<and> attrs_named name ps = concat (map (\<lambda>c. attrs_named name (attrs c)) cards)"
  using assms(1)
proof (induction render k cards rule: renderServiceSections.induct)
  case (1 render k)
  then show ?case by (intro exI [of _ "[]"]) (simp add: attrs_named_def)
next
  case (2 render k sc cards)
  let ?same = "\<lambda>c. card_Category c = card_Category sc"
  have head: "html_attributes (''<section class=\"service-category\" aria-labelledby=\"'' @ h @ ''\">'' @ ''<h2 class=\"service-category-title\" id=\"'' @ h @ ''\">'' @
      html_escape l @ ''</h2>'' @ ''<div class=\"grid\">'')
      [(''class='', ''service-category''), (''aria-labelledby='', h), (''class='', ''service-category-title''), (''id='', h), (''class='', ''grid'')]"
    if "plain_text h" for h l
    using that by (simp add: html_attributes_def attr_simps)
  have "plain_text ''service-category-''" by (simp add: plain_text_def quote_chars)
  then have "plain_text (''service-category-'' @ show_nat (Suc k))" unfolding plain_text_append by simp
  note parts = head [OF this] html_attributes_concat [of "sc # takeWhile ?same cards" render attrs, OF 2(2)]
  have close: "html_attributes ''</div></section>'' []" by (simp add: html_attributes_def attr_simps)
  obtain ps where ps: "html_attributes (renderServiceSections render (Suc k) (dropWhile ?same cards)) ps"
      "attrs_named name ps = concat (map (\<lambda>c. attrs_named name (attrs c)) (dropWhile ?same cards))"
    using 2(1) [OF refl refl refl 2(2)] by auto
  have "concat (map f (takeWhile ?same cards)) @ concat (map f (dropWhile ?same cards)) = concat (map f cards)" for f :: "ServiceCard \<Rightarrow> (string \<times> string) list"
    by (metis concat_append map_append takeWhile_dropWhile_id)
  note joined = this
  let ?h = "''service-category-'' @ show_nat (Suc k)"
  let ?qs = "[(''class='', ''service-category''), (''aria-labelledby='', ?h), (''class='', ''service-category-title''), (''id='', ?h), (''class='', ''grid'')]"
  have all: "html_attributes (renderServiceSections render k (sc # cards)) (?qs @ concat (map attrs (sc # takeWhile ?same cards)) @ [] @ ps)"
    using html_attributes_append [OF parts(1) html_attributes_append [OF parts(2) html_attributes_append [OF close ps(1)]]]
    unfolding renderServiceSections.simps Let_def by (simp only: append_assoc)
  have "attrs_named name ?qs = []" using assms(2) by (auto simp: attrs_named_def)
  then have "attrs_named name (?qs @ concat (map attrs (sc # takeWhile ?same cards)) @ [] @ ps) = concat (map (\<lambda>c. attrs_named name (attrs c)) (sc # cards))"
    using joined [of "\<lambda>c. attrs_named name (attrs c)"] by (simp only: attrs_named_append attrs_named_concat ps(2)) simp
  with all show ?case by blast
qed

lemma services_attributes:
  assumes "name \<notin> {''class'', ''id'', ''aria-labelledby'', ''aria-hidden''}"
  shows "\<exists>ps. html_attributes (render_services organized editing editor_available store now cards) ps
    \<and> attrs_named name ps = concat (map (\<lambda>c. attrs_named name (card_attributes editing editor_available store now c)) cards)"
proof -
  let ?render = "renderServiceCard editing editor_available store now" and ?attrs = "card_attributes editing editor_available store now"
  note card = card_attr_scan [of editing editor_available store now]
  obtain ps where ps: "html_attributes (if organized then renderServiceSections ?render 0 cards else concat (map ?render cards)) ps"
      "attrs_named name ps = concat (map (\<lambda>c. attrs_named name (?attrs c)) cards)"
  proof (cases organized)
    case True
    with sections_attr_scan [of ?render ?attrs name 0 cards, OF card] assms that show thesis by auto
  next
    case False
    with html_attributes_concat [of cards ?render ?attrs, OF card] that [of "concat (map ?attrs cards)"] show thesis by (simp add: attrs_named_concat)
  qed
  have none: "html_attributes (''<div class=\"empty\">'' @ ''<div class=\"empty-icon\" aria-hidden=\"true\">&#9671;</div>'' @
      ''<p>No services are available to your account.</p>'' @ ''</div>'') [(''class='', ''empty''), (''class='', ''empty-icon''), (''aria-hidden='', ''true'')]"
    by (simp add: html_attributes_def attr_simps)
  have tail: "html_attributes (if b then x else []) (if b then y else [])" if "html_attributes x y" for b x y
    using that by simp
  let ?qs = "if cards = [] then [(''class='', ''empty''), (''class='', ''empty-icon''), (''aria-hidden='', ''true'')] else []"
  have "attrs_named name ?qs = []" using assms by (auto simp: attrs_named_def)
  with ps(2) have "attrs_named name (ps @ ?qs) = concat (map (\<lambda>c. attrs_named name (?attrs c)) cards)" by simp
  with html_attributes_append [OF ps(1) tail [OF none, of "cards = []"]] show ?thesis unfolding render_services_def Let_def by blast
qed

lemma services_values:
  assumes "name \<notin> {''class'', ''id'', ''aria-labelledby'', ''aria-hidden''}"
  shows "html_values name (render_services organized editing editor_available store now cards) =
    concat (map (\<lambda>c. map (html_unescape \<circ> snd) (attrs_named name (card_attributes editing editor_available store now c))) cards)"
  using services_attributes [OF assms, of organized editing editor_available store now cards]
  by (auto simp: html_attributes_values attrs_named_def [symmetric] map_concat comp_def)

lemma show_int_unescape: "html_unescape (show_int i) = show_int i"
proof (rule html_unescape_none)
  have "CHR ''&'' \<notin> set (show_nat n)" for n using show_nat_no_sep [of "CHR ''&''" n] by (simp add: is_digit_def)
  then show "CHR ''&'' \<notin> set (show_int i)" by (simp add: show_int_def)
qed

lemma card_values:
  "map (html_unescape \<circ> snd) (attrs_named ''href'' (card_attributes editing editor_available store now sc)) = (if card_link sc = None then [] else [card_URL sc])"
  "map (html_unescape \<circ> snd) (attrs_named ''data-service'' (card_attributes editing editor_available store now sc)) = [card_Name sc]"
  "map (html_unescape \<circ> snd) (attrs_named ''data-service-id'' (card_attributes editing editor_available store now sc)) = [show_int (card_ID sc)]"
  by (simp_all add: attrs_named_def card_attributes_def data_attributes_def content_attributes_def icon_attributes_def health_attributes_def
      html_unescape_escape show_int_unescape Let_def split: option.split)

text \<open>
  C8: The data of the cards cannot become markup, and links go where they may. Whatever the names, categories, URLs
  and icons, the browser sees the fixed tags and attributes of the cards, which depend only on what a card has and on the
  shared categories, and is back in the text after them. The addresses of the links that it reads in them are exactly
  the URLs of the cards that are links, in order, each beginning with http or https and two slashes; and the names and
  numbers that it reads for the cards are exactly theirs.
\<close>
theorem services_markup_fixed:
  "let out = render_services organized editing editor_available store now cards in
    html_scan InText out = (InText, services_marks organized editing editor_available store now cards)
    \<and> html_values ''href'' out = map card_URL (filter (\<lambda>sc. card_link sc \<noteq> None) cards)
    \<and> list_all (\<lambda>u. has_prefix (to_lower u) ''http://'' \<or> has_prefix (to_lower u) ''https://'') (html_values ''href'' out)
    \<and> html_values ''data-service'' out = map card_Name cards
    \<and> html_values ''data-service-id'' out = map (\<lambda>sc. show_int (card_ID sc)) cards"
  unfolding Let_def
proof (intro conjI)
  let ?out = "render_services organized editing editor_available store now cards"
  note card = card_scan [of editing editor_available store now]
  have none: "html_marks (''<div class=\"empty\">'' @ ''<div class=\"empty-icon\" aria-hidden=\"true\">&#9671;</div>'' @
         ''<p>No services are available to your account.</p>'' @ ''</div>'') ''<div class=\"\"><div class=\"\" aria-hidden=\"\"></div><p></p></div>''"
    by (simp add: html_marks_def quote_chars)
  have tail: "html_marks (if b then x else []) (if b then y else [])" if "html_marks x y" for b x y
    using that by simp
  have body: "html_marks (if organized then renderServiceSections (renderServiceCard editing editor_available store now) 0 cards
        else concat (map (renderServiceCard editing editor_available store now) cards))
      (if organized then sections_marks (marks_of_card editing editor_available store now) cards
        else concat (map (marks_of_card editing editor_available store now) cards))"
    by (cases organized) (simp_all only: if_True if_False sections_scan [OF card] html_marks_concat [OF card])
  show "html_scan InText ?out = (InText, services_marks organized editing editor_available store now cards)"
    using html_marks_append [OF body tail [OF none, of "cards = []"]]
    unfolding html_marks_def render_services_def services_marks_def Let_def .
  have "concat (map (\<lambda>c. if card_link c = None then [] else [card_URL c]) cards) = map card_URL (filter (\<lambda>sc. card_link sc \<noteq> None) cards)"
    by (induction cards) auto
  then show href: "html_values ''href'' ?out = map card_URL (filter (\<lambda>sc. card_link sc \<noteq> None) cards)"
    by (simp add: services_values card_values)
  show "list_all (\<lambda>u. has_prefix (to_lower u) ''http://'' \<or> has_prefix (to_lower u) ''https://'') (html_values ''href'' ?out)"
    unfolding href using card_link_scheme card_link_goes by (fastforce simp: list_all_iff)
  show "html_values ''data-service'' ?out = map card_Name cards" "html_values ''data-service-id'' ?out = map (\<lambda>sc. show_int (card_ID sc)) cards"
    by (simp_all add: services_values card_values concat_map_singleton)
qed

end
