(* ===== verification/Portal_Machines.thy ===== *)
theory Portal_Machines
  imports Html Machines
begin

text \<open>
  The machine cards of the page (\<open>handlers.go\<close>), byte for byte, with the command that the page offers to copy.
\<close>

section \<open>Names and labels\<close>

text \<open>The name to show, and the full target when it is another one.\<close>

definition machineCardNames :: "string \<Rightarrow> string \<times> string option" where
  "machineCardNames target = (case machineShortName target of Some name \<Rightarrow> (name, Some target) | None \<Rightarrow> (target, None))"

definition machineCheckPeriodLabel :: "int \<Rightarrow> string" where
  "machineCheckPeriodLabel period =
     (if period \<le> 0 then ''12h (default)''
      else if period mod hour = 0 then show_int (period div hour) @ ''h''
      else show_int (period div minute) @ ''m'')"

definition machineActionLabel :: "MachineAccess \<Rightarrow> string" where
  "machineActionLabel access =
     (if Action access = ''accept'' then ''No extra sign-in''
      else if Action access = ''check'' then ''Reauthenticate every '' @ machineCheckPeriodLabel (CheckPeriod access)
      else ''SSH policy action unavailable'')"

definition backslash :: char where "backslash = char_of (92::nat)"

definition machineSSHCommand :: "string \<Rightarrow> string \<Rightarrow> string option" where
  "machineSSHCommand user target =
     (if user = nonroot \<or> \<not> supportedSSHUser user then None
      else if normalizeMachineTargetName target \<noteq> Some target \<and> tailscaleMachineAddress target \<noteq> Some target then None
      else Some (''tailscale ssh '' @
        (if has_suffix user ''$'' then trim_suffix user ''$'' @ [backslash] @ ''$@'' @ target else user @ ''@'' @ target)))"

section \<open>The card\<close>

text \<open>The accounts that can be offered as a command, and whether any other account is allowed.\<close>

definition literal_access :: "MachineCard \<Rightarrow> MachineAccess list" where
  "literal_access m = filter (\<lambda>a. User a \<noteq> nonroot \<and> machineSSHCommand (User a) (Target m) \<noteq> None) (Access m)"

definition has_nonroot :: "MachineCard \<Rightarrow> bool" where
  "has_nonroot m \<longleftrightarrow> list_ex (\<lambda>a. User a = nonroot) (Access m)"

definition account_option :: "string \<Rightarrow> MachineAccess \<Rightarrow> string" where
  "account_option target a =
     ''<option value=\"'' @ html_escape (User a) @ ''\" data-command=\"'' @
     html_escape (case machineSSHCommand (User a) target of None \<Rightarrow> [] | Some command \<Rightarrow> command) @ ''\">'' @ html_escape (User a) @ ''</option>''"

definition account_select :: "string \<Rightarrow> MachineCard \<Rightarrow> string" where
  "account_select machine_id m =
     (if literal_access m = [] then []
      else ''<label class=\"machine-field-label\" for=\"'' @ machine_id @ ''-user'' @ ''\">SSH as</label>'' @
        (if has_nonroot m then ''<select id=\"'' @ machine_id @ ''-user'' @ ''\" data-machine-account-select aria-controls=\"'' @ machine_id @
           ''-custom-account'' @ ''\" aria-expanded=\"false\">''
         else ''<select id=\"'' @ machine_id @ ''-user'' @ ''\" data-machine-account-select>'') @
        concat (map (account_option (Target m)) (literal_access m)) @
        (if has_nonroot m then ''<option value=\"\" data-custom-account=\"true\">Other non-root account&hellip;</option>'' else []) @
        ''</select>'')"

definition custom_account :: "string \<Rightarrow> MachineCard \<Rightarrow> string" where
  "custom_account machine_id m =
     (if \<not> has_nonroot m then []
      else (let mixed = (literal_access m \<noteq> []) in
        ''<div class=\"machine-custom-account\" id=\"'' @ machine_id @ ''-custom-account'' @ ''\"'' @ (if mixed then '' hidden'' else []) @ ''>'' @
        ''<label class=\"machine-field-label\" for=\"'' @ machine_id @ ''-account'' @ ''\">'' @ (if mixed then ''Non-root account'' else ''SSH as'') @
        ''</label>'' @
        ''<input type=\"text\" id=\"'' @ machine_id @ ''-account'' @
        ''\" class=\"machine-account-input\" list=\"ssh-account-suggestions\" autocomplete=\"off\" spellcheck=\"false\" maxlength=\"256\" placeholder=\"Account name\" data-account-target=\"'' @
        html_escape (Target m) @ ''\">'' @ ''</div>''))"

definition copy_button :: "string \<Rightarrow> MachineCard \<Rightarrow> string" where
  "copy_button machine_id m =
     (if literal_access m = [] \<and> \<not> has_nonroot m then []
      else ''<button type=\"button\" class=\"copy-command machine-copy\" data-copy-machine-ssh aria-describedby=\"'' @ machine_id @ ''-copy-feedback'' @ ''\"'' @
        (if literal_access m \<noteq> [] then '' data-user-select=\"'' @ machine_id @ ''-user'' @ ''\"'' else []) @
        (if has_nonroot m then '' data-account-input=\"'' @ machine_id @ ''-account'' @ ''\"'' else []) @
        ''>Copy Tailscale SSH</button>'')"

definition policy_account :: "MachineAccess \<Rightarrow> string" where
  "policy_account a =
     ''<li><span class=\"machine-account-name\">'' @ html_escape (if User a = nonroot then ''Any non-root account'' else User a) @
     ''</span><span class=\"machine-account-detail\">'' @ html_escape (machineActionLabel a) @ ''</span></li>''"

definition console_action :: "bool \<Rightarrow> MachineCard \<Rightarrow> string option" where
  "console_action eligible m = (if eligible then machineConsoleURL (Target m) else None)"

definition console_link :: "bool \<Rightarrow> MachineCard \<Rightarrow> string" where
  "console_link eligible m = (case console_action eligible m of None \<Rightarrow> []
   | Some url \<Rightarrow> ''<a class=\"btn-console\" href=\"'' @ html_escape url @ ''\" target=\"_blank\" rel=\"noopener noreferrer\" aria-label=\"Open '' @
       html_escape (fst (machineCardNames (Target m))) @ '' in Tailscale Machines\">Tailscale Machines</a>'')"

definition machine_head :: "string \<Rightarrow> MachineCard \<Rightarrow> string" where
  "machine_head machine_id m =
     ''<article class=\"machine-row\" data-machine=\"'' @ html_escape (Target m) @ ''\" aria-labelledby=\"'' @ machine_id @ ''-name\">'' @
     ''<div class=\"machine-identity\"><h3 class=\"machine-name\" id=\"'' @ machine_id @ ''-name\">'' @ html_escape (fst (machineCardNames (Target m))) @ ''</h3>'' @
     (case snd (machineCardNames (Target m)) of None \<Rightarrow> [] | Some full \<Rightarrow> ''<p class=\"machine-target\">'' @ html_escape full @ ''</p>'') @
     ''</div><div class=\"machine-connect\">''"

definition machine_actions :: "string \<Rightarrow> bool \<Rightarrow> MachineCard \<Rightarrow> string" where
  "machine_actions machine_id eligible m =
     ''</div><div class=\"'' @ (if console_action eligible m \<noteq> None then ''machine-actions machine-actions-with-console'' else ''machine-actions'') @
     ''\">'' @ copy_button machine_id m @ console_link eligible m @
     ''<span class=\"copy-feedback machine-feedback\" id=\"'' @ machine_id @ ''-copy-feedback'' @ ''\" role=\"status\" aria-live=\"polite\"></span></div>''"

definition machine_policy :: "MachineCard \<Rightarrow> string" where
  "machine_policy m =
     ''<details class=\"machine-policy-details\"><summary>Policy details</summary><div class=\"machine-policy-body\">'' @
     ''<p class=\"machine-policy-evidence\">Visible because this device reports Tailscale SSH enabled, SSH policy matches, and a network Grant permits TCP port 22.</p>'' @
     ''<ul class=\"machine-policy-accounts\" aria-label=\"Accounts allowed by policy\">'' @
     concat (map policy_account (Access m)) @
     ''</ul><p class=\"machine-policy-note\">Local account existence and machine health are not verified.</p></div></details></article>''"

definition renderMachineCard :: "MachineCard \<Rightarrow> nat \<Rightarrow> bool \<Rightarrow> string" where
  "renderMachineCard m index consoleEligible =
     (let machine_id = ''machine-'' @ show_nat index in
      machine_head machine_id m @ account_select machine_id m @ custom_account machine_id m @
      machine_actions machine_id consoleEligible m @ machine_policy m)"

definition render_machines :: "(string \<Rightarrow> bool) \<Rightarrow> bool \<Rightarrow> MachineCard list \<Rightarrow> string" where
  "render_machines capable eligible machines =
     ''<section class=\"portal-section\" aria-labelledby=\"machines-heading\">'' @
     ''<h2 class=\"section-title\" id=\"machines-heading\">Machines</h2>'' @
     ''<p class=\"machines-help\">Only devices that currently report Tailscale SSH enabled and match your SSH policy plus TCP/22 Grant are shown. Accounts and reachability are not verified. Tailscale Machines opens the admin console, not a session.</p>'' @
     ''<div class=\"machine-list\" id=\"machines\">'' @
     concat (map (\<lambda>(i, m). renderMachineCard m (Suc i) (eligible \<and> capable (mcard_ID m))) (enumerate 0 machines)) @
     (if machines = [] then ''<div class=\"empty machine-empty\">'' @ ''<div class=\"empty-icon\" aria-hidden=\"true\">&#9671;</div>'' @
        ''<p>No machines are available from the supported SSH policy view.</p>'' @ ''</div>'' else []) @
     ''</div>'' @ ''</section>''"

section \<open>The markup of the cards\<close>

definition machine_marks :: "nat \<Rightarrow> nat \<Rightarrow> bool \<Rightarrow> bool \<Rightarrow> bool \<Rightarrow> string" where
  "machine_marks accounts listed anyone full console =
     ''<article class=\"\" data-machine=\"\" aria-labelledby=\"\"><div class=\"\"><h3 class=\"\" id=\"\"></h3>'' @
     (if full then ''<p class=\"\"></p>'' else []) @ ''</div><div class=\"\">'' @
     (if accounts = 0 then []
      else ''<label class=\"\" for=\"\"></label>'' @
        (if anyone then ''<select id=\"\" data-machine-account-select aria-controls=\"\" aria-expanded=\"\">'' else ''<select id=\"\" data-machine-account-select>'') @
        concat (replicate accounts ''<option value=\"\" data-command=\"\"></option>'') @
        (if anyone then ''<option value=\"\" data-custom-account=\"\"></option>'' else []) @ ''</select>'') @
     (if \<not> anyone then []
      else ''<div class=\"\" id=\"\"'' @ (if accounts \<noteq> 0 then '' hidden'' else []) @ ''><label class=\"\" for=\"\"></label>'' @
        ''<input type=\"\" id=\"\" class=\"\" list=\"\" autocomplete=\"\" spellcheck=\"\" maxlength=\"\" placeholder=\"\" data-account-target=\"\"></div>'') @
     ''</div><div class=\"\">'' @
     (if accounts = 0 \<and> \<not> anyone then []
      else ''<button type=\"\" class=\"\" data-copy-machine-ssh aria-describedby=\"\"'' @ (if accounts \<noteq> 0 then '' data-user-select=\"\"'' else []) @
        (if anyone then '' data-account-input=\"\"'' else []) @ ''></button>'') @
     (if console then ''<a class=\"\" href=\"\" target=\"\" rel=\"\" aria-label=\"\"></a>'' else []) @
     ''<span class=\"\" id=\"\" role=\"\" aria-live=\"\"></span></div>'' @
     ''<details class=\"\"><summary></summary><div class=\"\"><p class=\"\"></p><ul class=\"\" aria-label=\"\">'' @
     concat (replicate listed ''<li><span class=\"\"></span><span class=\"\"></span></li>'') @
     ''</ul><p class=\"\"></p></div></details></article>''"

definition marks_of_machine :: "MachineCard \<Rightarrow> bool \<Rightarrow> string" where
  "marks_of_machine m eligible =
     machine_marks (length (literal_access m)) (length (Access m)) (has_nonroot m) (snd (machineCardNames (Target m)) \<noteq> None)
       (console_action eligible m \<noteq> None)"

definition machines_marks :: "(string \<Rightarrow> bool) \<Rightarrow> bool \<Rightarrow> MachineCard list \<Rightarrow> string" where
  "machines_marks capable eligible machines =
     ''<section class=\"\" aria-labelledby=\"\"><h2 class=\"\" id=\"\"></h2><p class=\"\"></p><div class=\"\" id=\"\">'' @
     concat (map (\<lambda>m. marks_of_machine m (eligible \<and> capable (mcard_ID m))) machines) @
     (if machines = [] then ''<div class=\"\"><div class=\"\" aria-hidden=\"\"></div><p></p></div>'' else []) @ ''</div></section>''"

lemma concat_marks:
  assumes "\<And>x. x \<in> set xs \<Longrightarrow> html_scan InText (f x) = (InText, marks)"
  shows "html_scan InText (concat (map f xs)) = (InText, concat (replicate (length xs) marks))"
  using assms by (induction xs) (simp_all add: html_scan_append)

lemma option_scan: "html_scan InText (account_option target a) = (InText, ''<option value=\"\" data-command=\"\"></option>'')"
  unfolding account_option_def by (simp add: html_scan_append plain_scan quote_chars)

lemma policy_account_scan: "html_scan InText (policy_account a) = (InText, ''<li><span class=\"\"></span><span class=\"\"></span></li>'')"
  unfolding policy_account_def by (simp add: html_scan_append plain_scan quote_chars)

lemma select_scan:
  assumes "plain_text machine_id"
  shows "html_scan InText (account_select machine_id m) =
    (InText, if literal_access m = [] then []
      else ''<label class=\"\" for=\"\"></label>'' @
        (if has_nonroot m then ''<select id=\"\" data-machine-account-select aria-controls=\"\" aria-expanded=\"\">'' else ''<select id=\"\" data-machine-account-select>'') @
        concat (replicate (length (literal_access m)) ''<option value=\"\" data-command=\"\"></option>'') @
        (if has_nonroot m then ''<option value=\"\" data-custom-account=\"\"></option>'' else []) @ ''</select>'')"
  unfolding account_select_def using concat_marks [where f = "account_option (Target m)" and xs = "literal_access m", OF option_scan]
  by (simp add: html_scan_append plain_scan assms quote_chars)

lemma custom_scan:
  assumes "plain_text machine_id"
  shows "html_scan InText (custom_account machine_id m) =
    (InText, if \<not> has_nonroot m then []
      else ''<div class=\"\" id=\"\"'' @ (if literal_access m \<noteq> [] then '' hidden'' else []) @ ''><label class=\"\" for=\"\"></label>'' @
        ''<input type=\"\" id=\"\" class=\"\" list=\"\" autocomplete=\"\" spellcheck=\"\" maxlength=\"\" placeholder=\"\" data-account-target=\"\"></div>'')"
  unfolding custom_account_def Let_def by (simp add: html_scan_append plain_scan assms quote_chars)

lemma copy_scan:
  assumes "plain_text machine_id"
  shows "html_scan InText (copy_button machine_id m) =
    (InText, if literal_access m = [] \<and> \<not> has_nonroot m then []
      else ''<button type=\"\" class=\"\" data-copy-machine-ssh aria-describedby=\"\"'' @ (if literal_access m \<noteq> [] then '' data-user-select=\"\"'' else []) @
        (if has_nonroot m then '' data-account-input=\"\"'' else []) @ ''></button>'')"
  unfolding copy_button_def by (simp add: html_scan_append plain_scan assms quote_chars)

lemma console_scan:
  "html_scan InText (console_link eligible m) =
    (InText, if console_action eligible m \<noteq> None then ''<a class=\"\" href=\"\" target=\"\" rel=\"\" aria-label=\"\"></a>'' else [])"
  unfolding console_link_def by (cases "console_action eligible m") (simp_all add: html_scan_append plain_scan quote_chars)

lemma full_scan:
  "html_scan InText (case names of None \<Rightarrow> [] | Some full \<Rightarrow> ''<p class=\"machine-target\">'' @ html_escape full @ ''</p>'') =
    (InText, if names \<noteq> None then ''<p class=\"\"></p>'' else [])"
  by (cases names) (simp_all add: html_scan_append plain_scan quote_chars)

lemma head_scan:
  assumes "plain_text machine_id"
  shows "html_scan InText (machine_head machine_id m) =
    (InText, ''<article class=\"\" data-machine=\"\" aria-labelledby=\"\"><div class=\"\"><h3 class=\"\" id=\"\"></h3>'' @
      (if snd (machineCardNames (Target m)) \<noteq> None then ''<p class=\"\"></p>'' else []) @ ''</div><div class=\"\">'')"
  unfolding machine_head_def by (simp add: html_scan_append plain_scan quote_chars full_scan assms)

lemma actions_scan:
  assumes "plain_text machine_id"
  shows "html_scan InText (machine_actions machine_id eligible m) =
    (InText, ''</div><div class=\"\">'' @
     (if literal_access m = [] \<and> \<not> has_nonroot m then []
      else ''<button type=\"\" class=\"\" data-copy-machine-ssh aria-describedby=\"\"'' @ (if literal_access m \<noteq> [] then '' data-user-select=\"\"'' else []) @
        (if has_nonroot m then '' data-account-input=\"\"'' else []) @ ''></button>'') @
     (if console_action eligible m \<noteq> None then ''<a class=\"\" href=\"\" target=\"\" rel=\"\" aria-label=\"\"></a>'' else []) @
     ''<span class=\"\" id=\"\" role=\"\" aria-live=\"\"></span></div>'')"
  unfolding machine_actions_def by (simp add: html_scan_append plain_scan quote_chars copy_scan [OF assms] console_scan assms)

lemma policy_scan:
  "html_scan InText (machine_policy m) =
    (InText, ''<details class=\"\"><summary></summary><div class=\"\"><p class=\"\"></p><ul class=\"\" aria-label=\"\">'' @
     concat (replicate (length (Access m)) ''<li><span class=\"\"></span><span class=\"\"></span></li>'') @
     ''</ul><p class=\"\"></p></div></details></article>'')"
  unfolding machine_policy_def
  using concat_marks [where f = policy_account and xs = "Access m", OF policy_account_scan]
  by (simp add: html_scan_append plain_scan quote_chars)

lemma machine_scan: "html_marks (renderMachineCard m index eligible) (marks_of_machine m eligible)"
proof -
  have "plain_text ''machine-''" by (simp add: plain_text_def quote_chars)
  then have id: "plain_text (''machine-'' @ show_nat index)" unfolding plain_text_append by simp
  note parts = html_marks_append [OF head_scan [OF id, of m, folded html_marks_def]
      html_marks_append [OF select_scan [OF id, of m, folded html_marks_def]
      html_marks_append [OF custom_scan [OF id, of m, folded html_marks_def]
      html_marks_append [OF actions_scan [OF id, of eligible m, folded html_marks_def] policy_scan [of m, folded html_marks_def]]]]]
  then show ?thesis
    unfolding renderMachineCard_def Let_def marks_of_machine_def machine_marks_def length_0_conv by (simp only: append_assoc)
qed

text \<open>
  The data of the machines cannot become markup. Whatever the targets, the accounts, the actions and the
  console links, the browser sees the fixed tags and attributes of the machine cards, which depend only on how many
  accounts a card offers and lists, on whether other accounts are allowed, and on whether it has a full name and a
  console link, and is back in the text after them.
\<close>
theorem machines_markup_fixed:
  "html_scan InText (render_machines capable eligible machines) = (InText, machines_marks capable eligible machines)"
proof -
  let ?show = "\<lambda>i m. renderMachineCard m (Suc i) (eligible \<and> capable (mcard_ID m))"
  let ?marks = "\<lambda>m. marks_of_machine m (eligible \<and> capable (mcard_ID m))"
  have cards: "html_marks (concat (map (\<lambda>(i, m). ?show i m) (enumerate k ms))) (concat (map ?marks ms))" for k ms
    by (induction ms arbitrary: k) (simp_all add: html_marks_append [OF machine_scan])
  have none: "html_marks (if b then ''<div class=\"empty machine-empty\">'' @ ''<div class=\"empty-icon\" aria-hidden=\"true\">&#9671;</div>'' @
      ''<p>No machines are available from the supported SSH policy view.</p>'' @ ''</div>'' else [])
      (if b then ''<div class=\"\"><div class=\"\" aria-hidden=\"\"></div><p></p></div>'' else [])" for b
    by (simp add: html_marks_def)
  have head: "html_marks (''<section class=\"portal-section\" aria-labelledby=\"machines-heading\">'' @
     ''<h2 class=\"section-title\" id=\"machines-heading\">Machines</h2>'' @
     ''<p class=\"machines-help\">Only devices that currently report Tailscale SSH enabled and match your SSH policy plus TCP/22 Grant are shown. Accounts and reachability are not verified. Tailscale Machines opens the admin console, not a session.</p>'' @
     ''<div class=\"machine-list\" id=\"machines\">'') ''<section class=\"\" aria-labelledby=\"\"><h2 class=\"\" id=\"\"></h2><p class=\"\"></p><div class=\"\" id=\"\">''"
    by (simp add: html_marks_def)
  have close: "html_marks (''</div>'' @ ''</section>'') ''</div></section>''" by (simp add: html_marks_def)
  show ?thesis
    using html_marks_append [OF head html_marks_append [OF cards [of 0 machines] html_marks_append [OF none [of "machines = []"] close]]]
    unfolding html_marks_def render_machines_def machines_marks_def by (simp only: append_assoc)
qed

section \<open>The command\<close>

text \<open>
  How a shell reads a simple command: blanks separate the words, a backslash takes the next character as it is, and
  only characters that mean nothing else to a shell are accepted besides.
\<close>

definition shell_plain :: "char \<Rightarrow> bool" where
  "shell_plain c \<longleftrightarrow> is_lower c \<or> is_upper c \<or> is_digit c \<or> c \<in> set ''@%_-+:,./''"

definition end_word :: "string option \<Rightarrow> string list" where
  "end_word w = (case w of None \<Rightarrow> [] | Some u \<Rightarrow> [u])"

definition grow_word :: "string option \<Rightarrow> char \<Rightarrow> string option" where
  "grow_word w c = Some ((case w of None \<Rightarrow> [] | Some u \<Rightarrow> u) @ [c])"

fun shell_words :: "string option \<Rightarrow> string \<Rightarrow> string list option" where
  "shell_words w [] = Some (end_word w)"
| "shell_words w (c # s) =
     (if c = CHR '' '' then map_option ((@) (end_word w)) (shell_words None s)
      else if c = backslash then (case s of [] \<Rightarrow> None | d # t \<Rightarrow> shell_words (grow_word w d) t)
      else if shell_plain c then shell_words (grow_word w c) s
      else None)"

lemma backslash_char: "backslash = CHR 0x5C"
  by code_simp

lemma shell_plain_word: "shell_plain c \<Longrightarrow> c \<noteq> CHR '' '' \<and> c \<noteq> backslash"
  by (auto simp: shell_plain_def is_lower_def is_upper_def is_digit_def backslash_char)

lemma shell_words_plain:
  "list_all shell_plain a \<Longrightarrow> shell_words (Some u) (a @ s) = shell_words (Some (u @ a)) s"
proof (induction a arbitrary: u)
  case (Cons c a)
  then show ?case using shell_plain_word [of c] by (simp add: grow_word_def)
qed simp

lemma user_plain:
  assumes "ssh_user_rest cs"
  shows "(\<exists>u. cs = u @ ''$'' \<and> list_all shell_plain u) \<or> list_all shell_plain cs"
  using assms
proof (induction cs)
  case (Cons c cs)
  show ?case
  proof (cases "sshUserBody c")
    case True
    then have "shell_plain c" by (auto simp: sshUserBody_def sshUserInitial_def shell_plain_def is_lower_def is_upper_def)
    with True Cons show ?thesis by (auto intro: exI [of _ "c # _"])
  next
    case False
    with Cons.prems have "c # cs = [] @ ''$''" by (simp split: if_split_asm)
    then show ?thesis by (intro disjI1 exI [of _ "[]"]) simp
  qed
qed simp

lemma join_set: "set (join_with sep ps) \<subseteq> set sep \<union> \<Union> (set ` set ps)"
  by (induction sep ps rule: join_with.induct) auto

lemma show_hex_plain: "c \<in> set (show_hex n) \<Longrightarrow> shell_plain c"
proof (induction n rule: show_hex.induct)
  case (1 n)
  have digit: "shell_plain (hex_char d)" if "d < 16" for d
    using that by (auto simp: hex_char_def shell_plain_def is_digit_def is_lower_def)
  show ?case using 1 digit by (cases "n < 16") (auto simp: show_hex.simps [of n])
qed

lemma address_text_plain: "c \<in> set (v4_string w) \<Longrightarrow> shell_plain c"
  using join_set [of "''.''" "map show_nat (octets_of_v4 w)"] show_nat_digits
  by (fastforce simp: v4_string_def shell_plain_def list_all_iff)

lemma v6_plain: "c \<in> set (v6_groups_string gs) \<Longrightarrow> shell_plain c"
proof -
  have colon: "shell_plain (CHR '':'')" by (simp add: shell_plain_def)
  have join: "c \<in> set (join_with '':'' (map show_hex xs)) \<Longrightarrow> shell_plain c" for c xs
    using join_set [of "'':''" "map show_hex xs"] show_hex_plain colon by fastforce
  show "c \<in> set (v6_groups_string gs) \<Longrightarrow> shell_plain c"
    using join colon by (auto simp: v6_groups_string_def split: prod.split_asm if_split_asm)
qed

lemma machine_target_plain:
  assumes "normalizeMachineTargetName target = Some target \<or> tailscaleMachineAddress target = Some target"
  shows "list_all shell_plain target"
  using assms
proof
  assume "normalizeMachineTargetName target = Some target"
  then have "validateServiceHealthHost target" by (rule normalized_target)
  from valid_host_bytes(3) [OF this] show ?thesis by (auto simp: list_all_iff host_char_def shell_plain_def)
next
  assume "tailscaleMachineAddress target = Some target"
  then obtain a where a: "addr_zone a = []" "target = addr_string (addr_unmap a)"
    by (auto simp: tailscaleMachineAddress_def Let_def split: option.split_asm if_split_asm)
  have "c \<in> set (addr_string b) \<Longrightarrow> addr_zone b = [] \<Longrightarrow> shell_plain c" for b c
  proof (cases b)
    case (V6 w z)
    have "list_all shell_plain ''::ffff:''" by (simp add: shell_plain_def is_lower_def)
    then show "c \<in> set (addr_string b) \<Longrightarrow> addr_zone b = [] \<Longrightarrow> shell_plain c"
      using V6 address_text_plain v6_plain by (auto simp: list_all_iff split: if_split_asm)
  qed (simp add: address_text_plain)
  moreover have "addr_zone (addr_unmap a) = []" using a(1) by (cases a) simp_all
  ultimately show ?thesis using a(2) by (simp add: list_all_iff)
qed

lemma command_words: "shell_words None (''tailscale ssh '' @ s) = map_option (\<lambda>ws. ''tailscale'' # ''ssh'' # ws) (shell_words None s)"
  by (simp add: shell_plain_def grow_word_def end_word_def is_lower_def backslash_char option.map_comp comp_def)

text \<open>The account at the target is one word of the shell, with a trailing dollar sign escaped.\<close>

lemma account_is_one_word:
  assumes user: "user \<noteq> nonroot" "supportedSSHUser user"
    and target: "normalizeMachineTargetName target = Some target \<or> tailscaleMachineAddress target = Some target"
  shows "shell_words None (if has_suffix user ''$'' then trim_suffix user ''$'' @ [backslash] @ ''$@'' @ target else user @ ''@'' @ target)
      = Some [user @ ''@'' @ target]"
proof -
  obtain c cs where cs: "user = c # cs" "sshUserInitial c" "ssh_user_rest cs"
    using user by (auto simp: supportedSSHUser_def nonroot_def split: if_split_asm list.split_asm)
  have c: "shell_plain c" using cs(2) by (auto simp: sshUserInitial_def shell_plain_def)
  have start: "shell_words None (c # s) = shell_words (Some [c]) s" for s
    using c shell_plain_word by (simp add: grow_word_def)
  have at: "shell_words (Some u) (''@'' @ target) = Some [u @ ''@'' @ target]" for u
    using shell_words_plain [OF machine_target_plain [OF target], of "u @ ''@''" "[]"]
    by (simp add: grow_word_def end_word_def shell_plain_def backslash_char)
  have dollar: "\<not> shell_plain (CHR ''$'')" by (simp add: shell_plain_def is_lower_def is_upper_def is_digit_def)
  show ?thesis
    using user_plain [OF cs(3)]
  proof
    assume "\<exists>u. cs = u @ ''$'' \<and> list_all shell_plain u"
    then obtain u where u: "cs = u @ ''$''" "list_all shell_plain u" by blast
    have "user = (c # u) @ ''$''" using cs(1) u(1) by simp
    then have "has_suffix user ''$''" "trim_suffix user ''$'' = c # u" by (simp_all add: has_suffix_iff trim_suffix_def)
    moreover have "shell_words None ((c # u) @ [backslash] @ ''$@'' @ target) = Some [(c # u) @ ''$'' @ ''@'' @ target]"
    proof -
      have escaped: "shell_words (Some v) (backslash # d # s) = shell_words (Some (v @ [d])) s" for v d s
        by (simp add: backslash_char grow_word_def)
      have "shell_words None ((c # u) @ [backslash] @ ''$@'' @ target) = shell_words (Some [c]) (u @ backslash # CHR ''$'' # ''@'' @ target)"
        using start [of "u @ backslash # CHR ''$'' # ''@'' @ target"] by (simp del: shell_words.simps)
      also have "\<dots> = shell_words (Some (([c] @ u) @ [CHR ''$''])) (''@'' @ target)" unfolding shell_words_plain [OF u(2)] escaped ..
      finally show ?thesis unfolding at by simp
    qed
    ultimately show ?thesis using cs(1) u(1) by simp
  next
    assume plain: "list_all shell_plain cs"
    have "\<not> has_suffix user ''$''" using plain c dollar cs(1) by (auto simp: has_suffix_iff list_all_iff Cons_eq_append_conv)
    then show ?thesis using at [of user] start shell_words_plain [OF plain, of "[c]"] cs(1) by simp
  qed
qed

text \<open>
  C22: A copied command is one command for one account. Whatever the account of a policy and the target, the command
  that the page offers is read by a shell as exactly three words, the program, its subcommand and the account at the
  target: no account or target adds a word, an expansion or another command. No command is offered for the
  selector of all other accounts.
\<close>
theorem ssh_command_words:
  "(case machineSSHCommand user target of None \<Rightarrow> True
    | Some command \<Rightarrow> shell_words None command = Some [''tailscale'', ''ssh'', user @ ''@'' @ target] \<and> user \<noteq> nonroot \<and>
        supportedSSHUser user \<and> html_unescape (html_escape command) = command)"
proof (cases "machineSSHCommand user target")
  case (Some command)
  then have user: "user \<noteq> nonroot" "supportedSSHUser user"
    and target: "normalizeMachineTargetName target = Some target \<or> tailscaleMachineAddress target = Some target"
    and command: "command = ''tailscale ssh '' @
        (if has_suffix user ''$'' then trim_suffix user ''$'' @ [backslash] @ ''$@'' @ target else user @ ''@'' @ target)"
    by (auto simp: machineSSHCommand_def split: if_split_asm)
  have "shell_words None command = Some [''tailscale'', ''ssh'', user @ ''@'' @ target]"
    unfolding command command_words by (simp add: account_is_one_word [OF user target])
  with Some user show ?thesis by (simp add: html_unescape_escape)
qed simp

end
