(* ===== verification/Editor_Http.thy ===== *)
theory Editor_Http
  imports Editor Auth Service_Cards Health_Config
begin

text \<open>
  The HTTP side of the editor (\<open>service_metadata_editor_http.go\<close>): who may edit, the token against
  cross-site requests, the form and the save. The cache and the clock whenever the handler looks at
  them, the disk and the calls that fail are arguments; so are the keyed digest and the SHA-256 of a login.
\<close>

section \<open>Requests and responses\<close>

record editor_request = http_in +
  req_Method :: string
  req_Host :: string
  req_Path :: string
  req_RawPath :: string
  req_RawQuery :: string
  req_ForceQuery :: bool
  req_Body :: "string option"

record editor_response =
  resp_Status :: nat
  resp_Header :: "(string \<times> string) list"
  resp_Body :: string

definition writeEditorJSON :: "nat \<Rightarrow> json \<Rightarrow> editor_response" where
  "writeEditorJSON status v = \<lparr>resp_Status = status, resp_Header = [(''Content-Type'', ''application/json'')],
     resp_Body = compact v @ [char_of (10::nat)]\<rparr>"

definition fail_with :: "nat \<Rightarrow> string \<Rightarrow> editor_response" where
  "fail_with status message = writeEditorJSON status (JObj [(''error'', JStr message)])"

text \<open>The value of a header that occurs once under any spelling, whether it does, and whether it occurs at all.\<close>

definition singleRawHeader :: "(string, string list) gomap \<Rightarrow> string \<Rightarrow> string \<times> bool \<times> bool" where
  "singleRawHeader header name =
     (let vs = concat (map snd (filter (\<lambda>kv. equal_fold (fst kv) name) header)) in
      (if vs = [] then [] else last vs, length vs = 1, length vs > 0))"

definition editingIdentity :: "ServiceMetadataEditor \<Rightarrow> Identity \<Rightarrow> editor_request \<Rightarrow> bool" where
  "editingIdentity e identity r \<longleftrightarrow>
     Login identity \<in> set (Logins (ed_config e)) \<and> req_Host r = ed_Host (ed_config e) \<and>
     list_all (\<lambda>key. case singleRawHeader (in_Header r) key of (v, single, present) \<Rightarrow>
         \<not> (present \<and> \<not> single \<or> key = ''Tailscale-User-Login'' \<and> (\<not> single \<or> v \<noteq> Login identity)))
       [''Tailscale-User-Login'', ''Tailscale-User-Name'', ''Tailscale-User-Profile-Pic'']"

section \<open>The body of a save\<close>

record serviceMetadataEditRequest =
  edit_Action :: string
  edit_Revision :: string
  edit_TargetRevision :: string
  edit_CSRF :: string
  edit_Name :: string
  edit_URL :: string
  edit_Icon :: string

definition zero_edit :: serviceMetadataEditRequest where
  "zero_edit = \<lparr>edit_Action = [], edit_Revision = [], edit_TargetRevision = [], edit_CSRF = [], edit_Name = [], edit_URL = [], edit_Icon = []\<rparr>"

definition edit_fields :: "serviceMetadataEditRequest field list" where
  "edit_fields =
     [string_field ''action'' (\<lambda>s r. r\<lparr>edit_Action := s\<rparr>), string_field ''revision'' (\<lambda>s r. r\<lparr>edit_Revision := s\<rparr>),
      string_field ''target_revision'' (\<lambda>s r. r\<lparr>edit_TargetRevision := s\<rparr>), string_field ''csrf'' (\<lambda>s r. r\<lparr>edit_CSRF := s\<rparr>),
      string_field ''name'' (\<lambda>s r. r\<lparr>edit_Name := s\<rparr>), string_field ''url'' (\<lambda>s r. r\<lparr>edit_URL := s\<rparr>),
      string_field ''icon'' (\<lambda>s r. r\<lparr>edit_Icon := s\<rparr>)]"

datatype body_error = BodyTooLarge | BodyInvalid

definition required_member :: "(string \<times> json) list \<Rightarrow> string \<Rightarrow> bool" where
  "required_member ms f \<longleftrightarrow> (case map_of ms f of Some (JStr s) \<Rightarrow> s \<noteq> [] \<and> length s \<le> 256 | _ \<Rightarrow> False)"

definition editable_member :: "bool \<Rightarrow> (string \<times> json) list \<Rightarrow> string \<Rightarrow> bool" where
  "editable_member reset ms f \<longleftrightarrow>
     (if reset then map_of ms f = None else (case map_of ms f of Some (JStr s) \<Rightarrow> True | _ \<Rightarrow> False))"

definition decodeServiceMetadataEditRequest :: "string option \<Rightarrow> body_error + serviceMetadataEditRequest" where
  "decodeServiceMetadataEditRequest body = (case body of None \<Rightarrow> Inl BodyInvalid | Some data \<Rightarrow>
     and_then (reject_if (length data > 16 * 1024) BodyTooLarge) (\<lambda>_.
     and_then (reject_if (\<not> utf8_valid data) BodyInvalid) (\<lambda>_.
     and_then (or_fail BodyInvalid (rejectDuplicateJSONFields data)) (\<lambda>v. case v of
       JObj ms \<Rightarrow>
         and_then (reject_if (\<not> containsOnlyJSONFields ms [''action'', ''revision'', ''target_revision'', ''csrf'', ''name'', ''url'', ''icon''])
           BodyInvalid) (\<lambda>_.
         and_then (reject_if (\<not> list_all (required_member ms) [''action'', ''revision'', ''target_revision'', ''csrf'']) BodyInvalid) (\<lambda>_.
         (case decode_struct edit_fields zero_edit v of None \<Rightarrow> Inl BodyInvalid | Some r \<Rightarrow>
           and_then (reject_if (edit_Action r \<noteq> ''save'' \<and> edit_Action r \<noteq> ''reset'') BodyInvalid) (\<lambda>_.
           and_then (reject_if (\<not> list_all (editable_member (edit_Action r = ''reset'') ms) [''name'', ''url'', ''icon'']) BodyInvalid) (\<lambda>_.
             Inr r)))))
     | _ \<Rightarrow> Inl BodyInvalid))))"

section \<open>The token against cross-site requests\<close>

definition csrfMAC :: "digest \<Rightarrow> ServiceMetadataEditor \<Rightarrow> string \<Rightarrow> string \<Rightarrow> string" where
  "csrfMAC digest e login stamp = digest ''csrf'' (compact (JArr [JStr login, JStr (Origin (ed_config e)), JStr stamp]))"

definition csrf :: "digest \<Rightarrow> ServiceMetadataEditor \<Rightarrow> string \<Rightarrow> int \<Rightarrow> string" where
  "csrf digest e login now = (let stamp = show_int (now div second) in stamp @ ''.'' @ csrfMAC digest e login stamp)"

definition serviceMetadataCSRFDuration :: int where
  "serviceMetadataCSRFDuration = 30 * 60 * second"

definition validCSRF :: "digest \<Rightarrow> ServiceMetadataEditor \<Rightarrow> string \<Rightarrow> string \<Rightarrow> int \<Rightarrow> bool" where
  "validCSRF digest e login token now = (case split_byte (CHR ''.'') token of
     [stamp, mac] \<Rightarrow> (case atoi stamp of None \<Rightarrow> False | Some issued \<Rightarrow>
       if show_int issued \<noteq> stamp then False
       else (let age = now - issued * second in
         0 \<le> age \<and> age \<le> serviceMetadataCSRFDuration \<and> mac = csrfMAC digest e login stamp))
   | _ \<Rightarrow> False)"

section \<open>The service to edit\<close>

text \<open>What the handler sees when it looks: the snapshot and the time.\<close>

record moment =
  seen_Data :: "CacheData option"
  seen_Now :: int

definition visibleHost :: "digest \<Rightarrow> int \<Rightarrow> ServiceMetadataEditor \<Rightarrow> moment \<Rightarrow> Identity \<Rightarrow> int \<Rightarrow> string \<Rightarrow> editor_error + ProxyHost" where
  "visibleHost digest stale_after e seen identity host_id target =
     (case requestData (Some e) (seen_Data seen) of None \<Rightarrow> Inl MetadataStale | Some d \<Rightarrow>
        if UpdatedAt d = zero_time \<or> seen_Now seen - UpdatedAt d > stale_after \<or> UpdatedAt d > seen_Now seen then Inl MetadataStale
        else (case filter (\<lambda>m. ph_ID (sm_ProxyHost m) = host_id) (evaluateServices (Some identity) (Some d)) of
          [m] \<Rightarrow> if target \<noteq> [] \<and> target \<noteq> targetRevision digest (sm_ProxyHost m) then Inl MetadataConflict
                 else Inr (sm_ProxyHost m)
        | _ \<Rightarrow> Inl MetadataNotVisible))"

section \<open>The handler\<close>

text \<open>The looks of the handler in their order, the disk at the two checks, and the calls that fail.\<close>

record editor_env =
  env_look :: "nat \<Rightarrow> moment"
  env_fs :: editor_fs
  env_fs_recheck :: editor_fs
  env_fails :: "edit_stage \<Rightarrow> bool"
  env_stale_after :: int
  env_scope :: "string \<Rightarrow> string"

fun respondError :: "editor_error \<Rightarrow> editor_response" where
  "respondError MetadataCSRF = fail_with 403 ''forbidden''"
| "respondError MetadataConflict = fail_with 409 ''conflict''"
| "respondError MetadataNotVisible = fail_with 404 ''not_found''"
| "respondError MetadataStale = fail_with 503 ''unavailable''"
| "respondError MetadataUncertain = fail_with 503 ''uncertain''"
| "respondError _ = fail_with 500 ''storage_unavailable''"

type_synonym edit_outcome = "editor_response \<times> ServiceMetadataEditor \<times> string option"

definition final_check :: "digest \<Rightarrow> editor_env \<Rightarrow> ServiceMetadataEditor \<Rightarrow> Identity \<Rightarrow> int \<Rightarrow> serviceMetadataEditRequest \<Rightarrow> editor_error + unit" where
  "final_check digest env e identity host_id request =
     (if \<not> validCSRF digest e (Login identity) (edit_CSRF request) (seen_Now (env_look env 2)) then Inl MetadataCSRF
      else and_then (visibleHost digest (env_stale_after env) e (env_look env 3) identity host_id (edit_TargetRevision request)) (\<lambda>_. Inr ()))"

definition save :: "digest \<Rightarrow> editor_env \<Rightarrow> ServiceMetadataEditor \<Rightarrow> Identity \<Rightarrow> int \<Rightarrow> serviceMetadataEditRequest \<Rightarrow> edit_outcome" where
  "save digest env e identity host_id request =
     (if ed_disabled e then (respondError MetadataUncertain, e, None)
      else (case visibleHost digest (env_stale_after env) e (env_look env 1) identity host_id (edit_TargetRevision request) of
        Inl err \<Rightarrow> (respondError err, e, None)
      | Inr _ \<Rightarrow>
        (case mutateServiceMetadata (document (view_metadata (ed_view e))) host_id (edit_Name request) (edit_URL request) (edit_Icon request)
              (edit_Action request = ''reset'') of
          Inl _ \<Rightarrow> (fail_with 400 ''invalid_fields'', e, None)
        | Inr doc \<Rightarrow>
          (case commit digest (env_fs env) (env_fs_recheck env) (env_fails env) (edit_Revision request) doc
                (final_check digest env e identity host_id request) e of
            (Inl err, e', written) \<Rightarrow> (respondError err, e', written)
          | (Inr _, e', written) \<Rightarrow> (writeEditorJSON 200 (JObj [(''status'', JStr ''saved'')]), e', written)))))"

definition editable_json :: "string \<Rightarrow> string \<Rightarrow> string \<Rightarrow> json" where
  "editable_json name url icon = JObj [(''name'', JStr name), (''url'', JStr url), (''icon'', JStr icon)]"

definition zero_override :: ServiceOverride where
  "zero_override = \<lparr>override_Name = [], override_URL = [], override_Category = [], override_Order = None, override_Icon = []\<rparr>"

definition edit_form :: "digest \<Rightarrow> editor_env \<Rightarrow> ServiceMetadataEditor \<Rightarrow> Identity \<Rightarrow> int \<Rightarrow> ProxyHost \<Rightarrow> json" where
  "edit_form digest env e identity host_id host =
     (let ov = gomap_get (Overrides (view_metadata (ed_view e))) host_id zero_override;
          defaults = (case resolveServiceCard host None of None \<Rightarrow> ([], []) | Some c \<Rightarrow> (card_Name c, card_URL c)) in
      JObj [(''id'', json_int host_id),
        (''fields'', editable_json (override_Name ov) (override_URL ov) (override_Icon ov)),
        (''defaults'', editable_json (fst defaults) (snd defaults) ''generic''),
        (''icons'', JArr (map JStr serviceIconIDs)),
        (''revision'', JStr (view_revision (ed_view e))),
        (''target_revision'', JStr (targetRevision digest host)),
        (''csrf'', JStr (csrf digest e (Login identity) (seen_Now (env_look env 1)))),
        (''identity_scope'', JStr (env_scope env (Login identity)))])"

definition show_form :: "digest \<Rightarrow> editor_env \<Rightarrow> ServiceMetadataEditor \<Rightarrow> Identity \<Rightarrow> int \<Rightarrow> editor_response" where
  "show_form digest env e identity host_id =
     (if ed_disabled e then fail_with 503 ''uncertain''
      else (case visibleHost digest (env_stale_after env) e (env_look env 0) identity host_id [] of
        Inl err \<Rightarrow> respondError err
      | Inr host \<Rightarrow> (case checkDisk (env_fs env) e of
          Inl err \<Rightarrow> respondError err
        | Inr _ \<Rightarrow> writeEditorJSON 200 (edit_form digest env e identity host_id host))))"

definition serviceMetadataEditorRoute :: string where
  "serviceMetadataEditorRoute = ''/api/service-metadata/''"

definition edit_target :: "editor_request \<Rightarrow> int option" where
  "edit_target r =
     (if req_RawQuery r \<noteq> [] \<or> req_ForceQuery r \<or> req_RawPath r \<noteq> [] then None
      else (let text = trim_prefix (req_Path r) serviceMetadataEditorRoute in
        case atoi text of None \<Rightarrow> None | Some host_id \<Rightarrow>
          if host_id \<le> 0 \<or> show_int host_id \<noteq> text \<or> req_Path r \<noteq> serviceMetadataEditorRoute @ text then None else Some host_id))"

text \<open>The checks of a POST before the body counts: its origin, its site and its media type.\<close>

definition post_headers :: "ServiceMetadataEditor \<Rightarrow> editor_request \<Rightarrow> editor_response + unit" where
  "post_headers e r =
     and_then (case singleRawHeader (in_Header r) ''Origin'' of (v, single, _) \<Rightarrow>
        reject_if (\<not> single \<or> v \<noteq> Origin (ed_config e)) (fail_with 403 ''forbidden'')) (\<lambda>_.
     and_then (case singleRawHeader (in_Header r) ''Sec-Fetch-Site'' of (v, single, present) \<Rightarrow>
        reject_if (present \<and> (\<not> single \<or> (v \<noteq> ''same-origin'' \<and> v \<noteq> ''none''))) (fail_with 403 ''forbidden'')) (\<lambda>_.
     (case singleRawHeader (in_Header r) ''Content-Type'' of (v, single, _) \<Rightarrow>
        reject_if (\<not> single \<or> v \<noteq> ''application/json'') (fail_with 415 ''unsupported_media_type''))))"

definition ServeHTTP :: "digest \<Rightarrow> editor_env \<Rightarrow> ServiceMetadataEditor \<Rightarrow> Identity \<Rightarrow> editor_request \<Rightarrow> edit_outcome" where
  "ServeHTTP digest env e identity r =
     (if \<not> editingIdentity e identity r then (fail_with 403 ''forbidden'', e, None)
      else if req_Method r \<noteq> ''GET'' \<and> req_Method r \<noteq> ''POST'' then
        (let resp = fail_with 405 ''method_not_allowed'' in (resp\<lparr>resp_Header := (''Allow'', ''GET, POST'') # resp_Header resp\<rparr>, e, None))
      else (case edit_target r of None \<Rightarrow> (fail_with 404 ''not_found'', e, None) | Some host_id \<Rightarrow>
        if req_Method r = ''GET'' then (show_form digest env e identity host_id, e, None)
        else (case post_headers e r of Inl resp \<Rightarrow> (resp, e, None) | Inr _ \<Rightarrow>
          (case decodeServiceMetadataEditRequest (req_Body r) of
            Inl BodyTooLarge \<Rightarrow> (fail_with 413 ''body_too_large'', e, None)
          | Inl BodyInvalid \<Rightarrow> (fail_with 400 ''invalid_request'', e, None)
          | Inr request \<Rightarrow>
              if \<not> validCSRF digest e (Login identity) (edit_CSRF request) (seen_Now (env_look env 0)) then (fail_with 403 ''forbidden'', e, None)
              else save digest env e identity host_id request))))"

text \<open>The handler behind the identity middleware, with the headers it sets on every response.\<close>

definition text_response :: "nat \<Rightarrow> string \<Rightarrow> editor_response" where
  "text_response status message = \<lparr>resp_Status = status, resp_Header = [(''Content-Type'', ''text/plain; charset=utf-8''),
     (''X-Content-Type-Options'', ''nosniff'')], resp_Body = message @ [char_of (10::nat)]\<rparr>"

definition editor_handler ::
    "digest \<Rightarrow> editor_env \<Rightarrow> ipnet option \<Rightarrow> ServiceMetadataEditor \<Rightarrow> editor_request \<Rightarrow> edit_outcome" where
  "editor_handler digest env trusted e r =
     (case (case IdentityMiddleware trusted (http_in.truncate r) of
         AuthForbidden \<Rightarrow> (text_response 403 ''untrusted source'', e, None)
       | AuthUnauthorized \<Rightarrow> (text_response 401 ''no identity'', e, None)
       | AuthServe identity \<Rightarrow> ServeHTTP digest env e identity r) of
       (resp, e', written) \<Rightarrow>
         (resp\<lparr>resp_Header := setIdentityResponseCacheHeaders @ [(''X-Frame-Options'', ''DENY''),
            (''Content-Security-Policy'', ''frame-ancestors '' @ [squote] @ ''none'' @ [squote]), (''X-Content-Type-Options'', ''nosniff'')] @ resp_Header resp\<rparr>, e', written))"


section \<open>Tokens\<close>

lemma show_int_no_dot: "CHR ''.'' \<notin> set (show_int i)"
proof -
  have "\<not> is_digit (CHR ''.'')" by (simp add: is_digit_def)
  then show ?thesis using show_nat_bytes [of "CHR ''.''"] by (auto simp: show_int_def)
qed

lemma split_dot_pair:
  "split_byte (CHR ''.'') token = [stamp, mac] \<longleftrightarrow> token = stamp @ ''.'' @ mac \<and> CHR ''.'' \<notin> set stamp \<and> CHR ''.'' \<notin> set mac"
proof
  assume l: "split_byte (CHR ''.'') token = [stamp, mac]"
  from join_split_byte [of "CHR ''.''" token] have "token = stamp @ ''.'' @ mac" by (simp add: l)
  moreover have "CHR ''.'' \<notin> set stamp" "CHR ''.'' \<notin> set mac"
    using split_byte_no_sep [of stamp "CHR ''.''" token] split_byte_no_sep [of mac "CHR ''.''" token] by (simp_all add: l)
  ultimately show "token = stamp @ ''.'' @ mac \<and> CHR ''.'' \<notin> set stamp \<and> CHR ''.'' \<notin> set mac" by simp
next
  assume "token = stamp @ ''.'' @ mac \<and> CHR ''.'' \<notin> set stamp \<and> CHR ''.'' \<notin> set mac"
  then show "split_byte (CHR ''.'') token = [stamp, mac]"
    by (simp add: split_byte_append split_byte_single)
qed

lemma second_div [simp]: "issued * second div second = issued"
  by (simp add: second_def)

lemma atoi_int64: "atoi s = Some i \<Longrightarrow> min_int64 \<le> i \<and> i \<le> max_int64"
  by (auto simp: atoi_def in_int64_def split: list.splits if_splits option.splits)

text \<open>
  C23: A token is good exactly when it is one the editor itself made for this login, and at most thirty minutes
  ago: the good tokens at a time are the ones issued for the login at a whole second of the last thirty minutes.
  A token of another login, of another origin, of the future or with another spelling of its time is none of them
  unless the digests collide.
\<close>
theorem validCSRF_exact:
  assumes "\<And>v. CHR ''.'' \<notin> set (digest ''csrf'' v)"
  shows "{token. validCSRF digest e login token now} =
    {csrf digest e login (issued * second) | issued. min_int64 \<le> issued \<and> issued \<le> max_int64 \<and>
       issued * second \<le> now \<and> now \<le> issued * second + 30 * 60 * second}"
proof (intro set_eqI iffI)
  fix token
  assume "token \<in> {token. validCSRF digest e login token now}"
  then obtain stamp mac issued where split: "split_byte (CHR ''.'') token = [stamp, mac]" and i: "atoi stamp = Some issued"
      and ok: "show_int issued = stamp" "0 \<le> now - issued * second" "now - issued * second \<le> 30 * 60 * second"
        "mac = csrfMAC digest e login stamp"
    by (auto simp: validCSRF_def serviceMetadataCSRFDuration_def Let_def split: list.splits option.splits if_splits)
  from split have "token = csrf digest e login (issued * second)"
    unfolding split_dot_pair by (simp add: csrf_def ok)
  with ok(2, 3) atoi_int64 [OF i]
  show "token \<in> {csrf digest e login (issued * second) | issued. min_int64 \<le> issued \<and> issued \<le> max_int64 \<and>
       issued * second \<le> now \<and> now \<le> issued * second + 30 * 60 * second}" by (auto intro!: exI [of _ issued])
next
  fix token
  assume "token \<in> {csrf digest e login (issued * second) | issued. min_int64 \<le> issued \<and> issued \<le> max_int64 \<and>
       issued * second \<le> now \<and> now \<le> issued * second + 30 * 60 * second}"
  then obtain issued where t: "token = csrf digest e login (issued * second)" and i: "min_int64 \<le> issued" "issued \<le> max_int64"
      and age: "issued * second \<le> now" "now \<le> issued * second + 30 * 60 * second" by blast
  from t have "split_byte (CHR ''.'') token = [show_int issued, csrfMAC digest e login (show_int issued)]"
    unfolding split_dot_pair using assms by (simp add: csrf_def csrfMAC_def Let_def show_int_no_dot)
  then show "token \<in> {token. validCSRF digest e login token now}"
    using i age by (simp add: validCSRF_def atoi_show_int serviceMetadataCSRFDuration_def)
qed

lemma validCSRF_exact_witness: "validCSRF (\<lambda>purpose v. purpose) sample_editor ''a@x'' ''0.csrf'' (30 * 60 * second)"
proof -
  have "CHR ''.'' \<notin> set ((\<lambda>purpose v. purpose :: string) ''csrf'' v)" for v :: string by simp
  from validCSRF_exact [where digest = "\<lambda>purpose v. purpose", OF this, of sample_editor "''a@x''" "30 * 60 * second"]
  have "csrf (\<lambda>purpose v. purpose) sample_editor ''a@x'' (0 * second) \<in>
      {token. validCSRF (\<lambda>purpose v. purpose) sample_editor ''a@x'' token (30 * 60 * second)}"
    by (auto intro!: exI [of _ 0] simp: min_int64_def max_int64_def second_def)
  moreover have "csrf (\<lambda>purpose v. purpose) sample_editor ''a@x'' (0 * second) = ''0.csrf''"
    by (simp add: csrf_def csrfMAC_def Let_def second_def show_int_def) code_simp
  ultimately show ?thesis by simp
qed

section \<open>Who can change the file\<close>

lemma visibleHost_InrD:
  assumes "visibleHost digest stale_after e seen identity host_id target = Inr host"
  shows "\<exists>d m. seen_Data seen = Some d \<and> UpdatedAt d \<noteq> zero_time \<and> UpdatedAt d \<le> seen_Now seen \<and>
      seen_Now seen - UpdatedAt d \<le> stale_after \<and>
      filter (\<lambda>m. ph_ID (sm_ProxyHost m) = host_id)
        (evaluateServices (Some identity) (Some (d\<lparr>cd_ServiceMetadata := Some (view_metadata (ed_view e))\<rparr>))) = [m] \<and>
      host = sm_ProxyHost m \<and> target \<in> {[], targetRevision digest host}"
  using assms by (auto simp: visibleHost_def requestData_def split: option.split_asm if_split_asm list.split_asm)

lemma singleRawHeader_single: "singleRawHeader header name = (v, True, present) \<Longrightarrow> present"
proof -
  have single: "(if vs = [] then [] else last vs, length vs = 1, length vs > 0) = (v, True, present) \<Longrightarrow> present"
    for vs :: "string list" by auto
  show "singleRawHeader header name = (v, True, present) \<Longrightarrow> present"
    unfolding singleRawHeader_def Let_def by (rule single)
qed

lemma editingIdentityD:
  assumes "editingIdentity e identity r"
  shows "Login identity \<in> set (Logins (ed_config e))" "req_Host r = ed_Host (ed_config e)"
    "singleRawHeader (in_Header r) ''Tailscale-User-Login'' = (Login identity, True, True)"
proof -
  show "Login identity \<in> set (Logins (ed_config e))" "req_Host r = ed_Host (ed_config e)"
    using assms by (simp_all add: editingIdentity_def)
  obtain v single present where h: "singleRawHeader (in_Header r) ''Tailscale-User-Login'' = (v, single, present)"
    by (metis prod_cases3)
  with assms have "single" "v = Login identity" by (simp_all add: editingIdentity_def)
  with h singleRawHeader_single show "singleRawHeader (in_Header r) ''Tailscale-User-Login'' = (Login identity, True, True)" by auto
qed

lemma IdentityMiddleware_ServeD:
  assumes "IdentityMiddleware trusted r = AuthServe identity"
  shows "\<exists>cidr ip. trusted = Some cidr \<and> net_parse_ip (peer_host (RemoteAddr r)) = Some ip \<and> ipnet_contains cidr ip"
  using assms by (auto simp: IdentityMiddleware_def Let_def split: option.split_asm if_split_asm)

lemma commit_writes:
  assumes "commit digest fs fs_recheck fails expected doc finalCheck e = (out, e', Some contents)"
  shows "serializeServiceMetadataDocumentV3 doc = Inr contents \<and> expected = view_revision (ed_view e) \<and> finalCheck = Inr ()"
proof -
  from assms obtain m where "prepare_commit fs fs_recheck fails expected doc finalCheck e = Inr (contents, m)"
    by (auto simp: commit_def split: sum.split_asm prod.split_asm if_split_asm)
  from prepare_commit_InrD [OF this] show ?thesis by simp
qed

lemma save_writes:
  assumes "save digest env e identity host_id request = (resp, e', Some contents)"
  shows "\<exists>doc. mutateServiceMetadata (document (view_metadata (ed_view e))) host_id (edit_Name request) (edit_URL request) (edit_Icon request)
       (edit_Action request = ''reset'') = Inr doc \<and> serializeServiceMetadataDocumentV3 doc = Inr contents \<and>
     edit_Revision request = view_revision (ed_view e) \<and> final_check digest env e identity host_id request = Inr ()"
  using assms by (auto simp: save_def dest!: commit_writes split: sum.split_asm if_split_asm prod.split_asm)

lemma editor_handler_writes:
  assumes "editor_handler digest env trusted e r = (resp, e', Some contents)"
  obtains identity host_id request resp' where "IdentityMiddleware trusted (http_in.truncate r) = AuthServe identity"
    "editingIdentity e identity r" "req_Method r = ''POST''" "edit_target r = Some host_id" "post_headers e r = Inr ()"
    "decodeServiceMetadataEditRequest (req_Body r) = Inr request"
    "save digest env e identity host_id request = (resp', e', Some contents)"
  using assms
  by (auto simp: editor_handler_def ServeHTTP_def Let_def split: auth_outcome.split_asm prod.split_asm if_split_asm option.split_asm
      sum.split_asm body_error.split_asm)


text \<open>
  C3: Nothing but an authorized edit reaches the file. If handling a request replaces the file, the request is a POST
  that came through the trusted proxy, to the configured host, with one login header, of a login that may edit,
  with the configured origin and a token that was good when the file was about to be replaced; at that time the
  snapshot was fresh and showed this login exactly one service with the ID of the path, whose target had the
  revision the caller reviewed; the caller had reviewed the document that was on disk, and what was written is that
  document with the edit.
\<close>
theorem edits_are_authorized:
  assumes "editor_handler digest env trusted e r = (resp, e', Some contents)"
  shows "\<exists>cidr ip identity host_id request doc d m.
     trusted = Some cidr \<and> net_parse_ip (peer_host (RemoteAddr r)) = Some ip \<and> ipnet_contains cidr ip \<and>
     req_Method r = ''POST'' \<and> req_Host r = ed_Host (ed_config e) \<and> edit_target r = Some host_id \<and>
     singleRawHeader (in_Header r) ''Tailscale-User-Login'' = (Login identity, True, True) \<and>
     Login identity \<in> set (Logins (ed_config e)) \<and>
     fst (singleRawHeader (in_Header r) ''Origin'') = Origin (ed_config e) \<and>
     decodeServiceMetadataEditRequest (req_Body r) = Inr request \<and>
     validCSRF digest e (Login identity) (edit_CSRF request) (seen_Now (env_look env 2)) \<and>
     seen_Data (env_look env 3) = Some d \<and> 0 \<le> seen_Now (env_look env 3) - UpdatedAt d \<and>
     seen_Now (env_look env 3) - UpdatedAt d \<le> env_stale_after env \<and>
     filter (\<lambda>m. ph_ID (sm_ProxyHost m) = host_id)
       (evaluateServices (Some identity) (Some (d\<lparr>cd_ServiceMetadata := Some (view_metadata (ed_view e))\<rparr>))) = [m] \<and>
     edit_TargetRevision request \<in> {[], targetRevision digest (sm_ProxyHost m)} \<and>
     edit_Revision request = view_revision (ed_view e) \<and>
     mutateServiceMetadata (document (view_metadata (ed_view e))) host_id (edit_Name request) (edit_URL request) (edit_Icon request)
       (edit_Action request = ''reset'') = Inr doc \<and>
     serializeServiceMetadataDocumentV3 doc = Inr contents"
proof -
  from assms obtain identity host_id request resp' where auth: "IdentityMiddleware trusted (http_in.truncate r) = AuthServe identity"
      and edit: "editingIdentity e identity r" and post: "req_Method r = ''POST''" "edit_target r = Some host_id" "post_headers e r = Inr ()"
      and body: "decodeServiceMetadataEditRequest (req_Body r) = Inr request"
      and save: "save digest env e identity host_id request = (resp', e', Some contents)"
    by (rule editor_handler_writes)
  from save_writes [OF save] obtain doc where doc: "mutateServiceMetadata (document (view_metadata (ed_view e))) host_id
        (edit_Name request) (edit_URL request) (edit_Icon request) (edit_Action request = ''reset'') = Inr doc"
      "serializeServiceMetadataDocumentV3 doc = Inr contents" "edit_Revision request = view_revision (ed_view e)"
      and final: "final_check digest env e identity host_id request = Inr ()" by blast
  from final obtain host where csrf: "validCSRF digest e (Login identity) (edit_CSRF request) (seen_Now (env_look env 2))"
      and host: "visibleHost digest (env_stale_after env) e (env_look env 3) identity host_id (edit_TargetRevision request) = Inr host"
    by (auto simp: final_check_def split: if_split_asm)
  from visibleHost_InrD [OF host] obtain d m where "seen_Data (env_look env 3) = Some d" "UpdatedAt d \<le> seen_Now (env_look env 3)"
      "seen_Now (env_look env 3) - UpdatedAt d \<le> env_stale_after env"
      "filter (\<lambda>m. ph_ID (sm_ProxyHost m) = host_id)
        (evaluateServices (Some identity) (Some (d\<lparr>cd_ServiceMetadata := Some (view_metadata (ed_view e))\<rparr>))) = [m]"
      "edit_TargetRevision request \<in> {[], targetRevision digest (sm_ProxyHost m)}" by blast
  moreover have "fst (singleRawHeader (in_Header r) ''Origin'') = Origin (ed_config e)"
    using post(3) by (auto simp: post_headers_def split: prod.split_asm)
  moreover from IdentityMiddleware_ServeD [OF auth] obtain cidr ip where "trusted = Some cidr"
      "net_parse_ip (peer_host (RemoteAddr r)) = Some ip" "ipnet_contains cidr ip" by (auto simp: http_in.truncate_def)
  ultimately show ?thesis using post(1, 2) editingIdentityD [OF edit] body csrf doc by (auto simp del: ipnet_contains.simps)
qed


section \<open>A sample edit\<close>

definition sample_body :: string where
  "sample_body = ''{'' @ quote_json ''action'' @ '':'' @ quote_json ''reset'' @ '','' @ quote_json ''revision'' @ '':'' @ quote_json ''file'' @
     '','' @ quote_json ''target_revision'' @ '':'' @ quote_json ''target'' @ '','' @ quote_json ''csrf'' @ '':'' @ quote_json ''0.csrf'' @ ''}''"

definition sample_edit :: serviceMetadataEditRequest where
  "sample_edit = zero_edit\<lparr>edit_Action := ''reset'', edit_Revision := ''file'', edit_TargetRevision := ''target'', edit_CSRF := ''0.csrf''\<rparr>"

lemma decode_sample: "decodeServiceMetadataEditRequest (Some sample_body) = Inr sample_edit"
proof -
  let ?ms = "[(''action'', JStr ''reset''), (''revision'', JStr ''file''), (''target_revision'', JStr ''target''), (''csrf'', JStr ''0.csrf'')]"
  have "\<not> length sample_body > 16 * 1024" by (simp add: sample_body_def quote_json_def)
  moreover have "utf8_valid sample_body" by code_simp
  moreover have "rejectDuplicateJSONFields sample_body = Inr (JObj ?ms)" by code_simp
  moreover have "containsOnlyJSONFields ?ms [''action'', ''revision'', ''target_revision'', ''csrf'', ''name'', ''url'', ''icon'']"
    by code_simp
  moreover have "decode_struct edit_fields zero_edit (JObj ?ms) = Some sample_edit" by code_simp
  ultimately show ?thesis
    by (simp add: decodeServiceMetadataEditRequest_def reject_if_def or_fail_def required_member_def editable_member_def sample_edit_def)
qed

definition sample_request :: editor_request where
  "sample_request = \<lparr>RemoteAddr = JoinHostPort (v4_string 0) (show_nat 80),
     in_Header = [(''Tailscale-User-Login'', [''a@x'']), (''Origin'', [''https://p.example'']), (''Content-Type'', [''application/json''])],
     req_Method = ''POST'', req_Host = ''p.example'', req_Path = ''/api/service-metadata/7'', req_RawPath = [], req_RawQuery = [],
     req_ForceQuery = False, req_Body = Some sample_body\<rparr>"

definition sample_env :: editor_env where
  "sample_env = \<lparr>env_look = (\<lambda>_. \<lparr>seen_Data = Some (sample_data [sample_host]), seen_Now = UpdatedAt (sample_data [sample_host])\<rparr>),
     env_fs = sample_fs, env_fs_recheck = sample_fs, env_fails = (\<lambda>_. False), env_stale_after = 0, env_scope = (\<lambda>login. [])\<rparr>"

definition sample_caller :: Identity where
  "sample_caller = \<lparr>Login = ''a@x'', id_Name = [], ProfilePic = []\<rparr>"

lemma sample_visible:
  "filter (\<lambda>m. ph_ID (sm_ProxyHost m) = 7)
     (evaluateServices (Some sample_caller) (Some (sample_data [sample_host]\<lparr>cd_ServiceMetadata := Some sample_metadata\<rparr>))) =
   evaluateServices (Some sample_caller) (Some (sample_data [sample_host]\<lparr>cd_ServiceMetadata := Some sample_metadata\<rparr>))"
  "map sm_ProxyHost (evaluateServices (Some sample_caller) (Some (sample_data [sample_host]\<lparr>cd_ServiceMetadata := Some sample_metadata\<rparr>))) = [sample_host]"
  by code_simp+


lemma sample_visibleHost:
  "visibleHost (\<lambda>purpose v. purpose) 0 sample_editor (env_look sample_env i) sample_caller 7 ''target'' = Inr sample_host"
proof -
  let ?es = "evaluateServices (Some sample_caller) (Some (sample_data [sample_host]\<lparr>cd_ServiceMetadata := Some sample_metadata\<rparr>))"
  from sample_visible(2) obtain m where m: "?es = [m]" "sm_ProxyHost m = sample_host" by auto
  have "requestData (Some sample_editor) (Some (sample_data [sample_host])) = Some (sample_data [sample_host]\<lparr>cd_ServiceMetadata := Some sample_metadata\<rparr>)"
    by (simp add: requestData_def sample_editor_def new_view_def)
  moreover have "UpdatedAt (sample_data [sample_host]) = 0" by (simp add: sample_data_def)
  ultimately show ?thesis
    using sample_visible(1) by (simp add: visibleHost_def sample_env_def m zero_time_def targetRevision_def)
qed

lemma sample_token: "validCSRF (\<lambda>purpose v. purpose) sample_editor ''a@x'' ''0.csrf'' 0"
proof -
  have "split_byte (CHR ''.'') ''0.csrf'' = [''0'', ''csrf'']" "atoi ''0'' = Some 0" "show_int 0 = ''0''" by code_simp+
  then show ?thesis by (simp add: validCSRF_def serviceMetadataCSRFDuration_def second_def csrfMAC_def)
qed

lemma sample_save:
  "\<exists>resp e' contents. save (\<lambda>purpose v. purpose) sample_env sample_editor sample_caller 7 sample_edit = (resp, e', Some contents)"
proof -
  have final: "final_check (\<lambda>purpose v. purpose) sample_env sample_editor sample_caller 7 sample_edit = Inr ()"
    using sample_visibleHost [of 3] sample_token
    by (simp add: final_check_def sample_edit_def sample_caller_def sample_env_def sample_data_def)
  from serialize_sample obtain data where d: "serializeServiceMetadataDocumentV3 edited_sample = Inr data" ..
  have e: "\<not> ed_disabled sample_editor" "readFile sample_fs sample_editor = Inr sample_metadata_text"
      "view_revision (ed_view sample_editor) = ''file''" "view_metadata (ed_view sample_editor) = sample_metadata"
    by (simp_all add: sample_editor_def sample_read new_view_def)
  have "\<exists>e'. commit (\<lambda>purpose v. purpose) sample_fs sample_fs (\<lambda>_. False) ''file'' edited_sample (Inr ()) sample_editor = (Inr (), e', Some data)"
    using editor_commit_sample d by blast
  with final sample_visibleHost [of 1] mutate_sample e show ?thesis
    by (auto simp: save_def sample_edit_def zero_edit_def sample_env_def)
qed

lemma sample_handled:
  "\<exists>resp e' contents. editor_handler (\<lambda>purpose v. purpose) sample_env (Some (Net4 0 0)) sample_editor sample_request = (resp, e', Some contents)"
proof -
  have "ipnet_contains (Net4 0 0) (addr_as16 (V4 0))" by (simp del: addr_as16.simps add: mask4_def)
  moreover have "net_parse_ip (v4_string 0) = Some (addr_as16 (V4 0))" by (simp add: net_parse_ip_def)
  ultimately have auth: "IdentityMiddleware (Some (Net4 0 0)) (http_in.truncate sample_request) = AuthServe sample_caller"
    by (simp add: IdentityMiddleware_def http_in.truncate_def sample_request_def peer_host_v4 in_header_def sample_caller_def del: addr_as16.simps)
  have config: "ed_config sample_editor = \<lparr>Logins = [''a@x''], Origin = ''https://p.example'', ed_Host = ''p.example''\<rparr>"
    by (simp add: sample_editor_def)
  have headers: "singleRawHeader (in_Header sample_request) ''Tailscale-User-Login'' = (''a@x'', True, True)"
      "singleRawHeader (in_Header sample_request) ''Tailscale-User-Name'' = ([], False, False)"
      "singleRawHeader (in_Header sample_request) ''Tailscale-User-Profile-Pic'' = ([], False, False)"
      "singleRawHeader (in_Header sample_request) ''Origin'' = (''https://p.example'', True, True)"
      "singleRawHeader (in_Header sample_request) ''Sec-Fetch-Site'' = ([], False, False)"
      "singleRawHeader (in_Header sample_request) ''Content-Type'' = (''application/json'', True, True)"
    by (simp_all add: sample_request_def singleRawHeader_def equal_fold_def to_lower_def ascii_lower_def is_upper_def)
  have edit: "editingIdentity sample_editor sample_caller sample_request"
    by (simp add: editingIdentity_def config headers) (simp add: sample_caller_def sample_request_def)
  have "trim_prefix ''/api/service-metadata/7'' serviceMetadataEditorRoute = ''7''" "atoi ''7'' = Some 7" "show_int 7 = ''7''" by code_simp+
  then have target: "edit_target sample_request = Some 7"
    by (simp add: edit_target_def sample_request_def Let_def) (simp add: serviceMetadataEditorRoute_def)
  have rest: "post_headers sample_editor sample_request = Inr ()"
    by (simp add: post_headers_def config headers reject_if_def)
  have req: "req_Method sample_request = ''POST''" "req_Body sample_request = Some sample_body" by (simp_all add: sample_request_def)
  have csrf: "validCSRF (\<lambda>purpose v. purpose) sample_editor (Login sample_caller) (edit_CSRF sample_edit) (seen_Now (env_look sample_env 0))"
    using sample_token by (simp add: sample_caller_def sample_edit_def sample_env_def sample_data_def)
  from sample_save obtain resp e' contents where
    "save (\<lambda>purpose v. purpose) sample_env sample_editor sample_caller 7 sample_edit = (resp, e', Some contents)" by blast
  with auth edit target rest req csrf decode_sample show ?thesis by (simp add: editor_handler_def ServeHTTP_def)
qed

lemma edits_are_authorized_witness:
  "\<exists>contents doc. serializeServiceMetadataDocumentV3 doc = Inr contents \<and> validCSRF (\<lambda>purpose v. purpose) sample_editor ''a@x'' ''0.csrf'' 0 \<and>
     (\<exists>resp e'. editor_handler (\<lambda>purpose v. purpose) sample_env (Some (Net4 0 0)) sample_editor sample_request = (resp, e', Some contents))"
proof -
  from sample_handled obtain resp e' contents
    where h: "editor_handler (\<lambda>purpose v. purpose) sample_env (Some (Net4 0 0)) sample_editor sample_request = (resp, e', Some contents)" by blast
  from edits_are_authorized [OF h] have "\<exists>doc. serializeServiceMetadataDocumentV3 doc = Inr contents" by blast
  with h sample_token show ?thesis by blast
qed

end
