(* ===== verification/Portal_Page.thy ===== *)
theory Portal_Page
  imports Portal_Cards Portal_Machines Editor_Http
begin

text \<open>
  The portal page (\<open>handlers.go\<close>, \<open>service_metadata_editor_ui.go\<close>): what goes into the page, and the handler with its
  answers. The text of the page with its place holders and the style sheet of the editor are arguments, and so is the
  SHA-256 of a login in hexadecimal digits.
\<close>

section \<open>Static parts\<close>

definition newline :: string where "newline = [char_of (10::nat)]"

definition bottomNavIconServices :: string where
  "bottomNavIconServices =
     ''<svg viewBox=\"0 0 24 24\" fill=\"none\" stroke=\"currentColor\" stroke-width=\"2\" stroke-linecap=\"round\" stroke-linejoin=\"round\" aria-hidden=\"true\" focusable=\"false\"><rect x=\"3\" y=\"3\" width=\"7\" height=\"7\"></rect><rect x=\"14\" y=\"3\" width=\"7\" height=\"7\"></rect><rect x=\"3\" y=\"14\" width=\"7\" height=\"7\"></rect><rect x=\"14\" y=\"14\" width=\"7\" height=\"7\"></rect></svg>''"

definition bottomNavIconMachines :: string where
  "bottomNavIconMachines =
     ''<svg viewBox=\"0 0 24 24\" fill=\"none\" stroke=\"currentColor\" stroke-width=\"2\" stroke-linecap=\"round\" stroke-linejoin=\"round\" aria-hidden=\"true\" focusable=\"false\"><rect x=\"3\" y=\"4\" width=\"18\" height=\"12\" rx=\"2\"></rect><line x1=\"8\" y1=\"20\" x2=\"16\" y2=\"20\"></line><line x1=\"12\" y1=\"16\" x2=\"12\" y2=\"20\"></line></svg>''"

definition bottomNavIconSearch :: string where
  "bottomNavIconSearch =
     ''<svg viewBox=\"0 0 24 24\" fill=\"none\" stroke=\"currentColor\" stroke-width=\"2\" stroke-linecap=\"round\" stroke-linejoin=\"round\" aria-hidden=\"true\" focusable=\"false\"><circle cx=\"11\" cy=\"11\" r=\"7\"></circle><line x1=\"21\" y1=\"21\" x2=\"16.65\" y2=\"16.65\"></line></svg>''"

definition bottomNavIconMore :: string where
  "bottomNavIconMore =
     ''<svg viewBox=\"0 0 24 24\" fill=\"none\" stroke=\"currentColor\" stroke-width=\"2\" stroke-linecap=\"round\" stroke-linejoin=\"round\" aria-hidden=\"true\" focusable=\"false\"><circle cx=\"5\" cy=\"12\" r=\"1.5\"></circle><circle cx=\"12\" cy=\"12\" r=\"1.5\"></circle><circle cx=\"19\" cy=\"12\" r=\"1.5\"></circle></svg>''"

definition renderBottomNav :: "bool \<Rightarrow> string" where
  "renderBottomNav machinesAvailable =
     ''<nav class=\"bottom-nav\" id=\"bottom-nav\" aria-label=\"Portal navigation\">'' @
     ''<a class=\"bottom-nav-item\" id=\"bottom-nav-services\" href=\"#services-heading\" data-bottom-nav-scroll=\"services-heading\" aria-current=\"location\"><span class=\"bottom-nav-icon\" aria-hidden=\"true\">'' @
     bottomNavIconServices @
     ''</span><span class=\"bottom-nav-label\">Services</span></a>'' @
     ''<a class=\"bottom-nav-item\" id=\"bottom-nav-machines\" href=\"#machines-heading\" data-bottom-nav-scroll=\"machines-heading\"'' @
     (if machinesAvailable then [] else '' hidden'') @
     ''><span class=\"bottom-nav-icon\" aria-hidden=\"true\">'' @
     bottomNavIconMachines @
     ''</span><span class=\"bottom-nav-label\">Machines</span></a>'' @
     ''<button type=\"button\" class=\"bottom-nav-item\" id=\"bottom-nav-search\"><span class=\"bottom-nav-icon\" aria-hidden=\"true\">'' @
     bottomNavIconSearch @
     ''</span><span class=\"bottom-nav-label\">Search</span></button>'' @
     ''<button type=\"button\" class=\"bottom-nav-item\" id=\"bottom-nav-more\" aria-haspopup=\"dialog\" aria-controls=\"account-panel\" aria-expanded=\"false\"><span class=\"bottom-nav-icon\" aria-hidden=\"true\">'' @
     bottomNavIconMore @
     ''</span><span class=\"bottom-nav-label\">More</span></button>'' @
     ''</nav>''"

definition icon_choices :: string where
  "icon_choices = ''<option value=\"\" data-icon-path=\"/static/service-icons/generic.svg\">Default (generic service)</option>'' @
     concat (map (\<lambda>icon. ''<option value=\"'' @ icon_ID icon @ ''\" data-icon-path=\"'' @ icon_Path icon @ ''\">'' @
       html_escape (icon_Label icon) @ ''</option>'') serviceIcons)"

definition renderServiceEditor :: "bool \<Rightarrow> string" where
  "renderServiceEditor enabled = (if \<not> enabled then [] else
     ''<p class=\"service-editor-announcement\" id=\"service-editor-announcement\" role=\"status\" aria-live=\"polite\"></p>'' @ newline @
     ''<dialog id=\"service-editor\" class=\"service-editor\" aria-labelledby=\"service-editor-title\" aria-describedby=\"service-editor-help\">'' @ newline @
     ''<form id=\"service-editor-form\">'' @ newline @
     ''<h2 id=\"service-editor-title\" tabindex=\"-1\" autofocus>Edit service</h2>'' @ newline @
     ''<p id=\"service-editor-help\">Changes are shared with everyone who can already see this service. They do not change access or backend checks.</p>'' @ newline @
     ''<p id=\"service-editor-status\" role=\"status\" aria-live=\"polite\">Loading current values'' @ [char_of (226::nat)] @ [char_of (128::nat)] @ [char_of (166::nat)] @ ''</p>'' @ newline @
     ''<fieldset id=\"service-editor-fields\" disabled>'' @ newline @
     ''<label for=\"service-editor-name\">Display name</label>'' @ newline @
     ''<input id=\"service-editor-name\" type=\"text\" maxlength=\"120\" autocomplete=\"off\" spellcheck=\"false\" aria-describedby=\"service-editor-defaults\">'' @ newline @
     ''<label for=\"service-editor-url\">Link URL</label>'' @ newline @
     ''<input id=\"service-editor-url\" type=\"text\" inputmode=\"url\" maxlength=\"2048\" autocomplete=\"off\" spellcheck=\"false\" autocapitalize=\"none\" aria-describedby=\"service-editor-defaults\">'' @ newline @
     ''<p id=\"service-editor-defaults\" class=\"service-editor-hint\">Leave fields empty to use the current defaults.</p>'' @ newline @
     ''<label for=\"service-editor-icon\">Local icon</label>'' @ newline @
     ''<div class=\"service-icon-picker\"><img id=\"service-editor-preview\" src=\"/static/service-icons/generic.svg\" width=\"40\" height=\"40\" alt=\"\"><select id=\"service-editor-icon\">'' @
     icon_choices @
     ''</select></div>'' @ newline @
     ''</fieldset>'' @ newline @
     ''<div class=\"service-editor-actions\"><button id=\"service-editor-save\" class=\"service-editor-primary\" type=\"submit\" disabled>Save for everyone</button><button id=\"service-editor-cancel\" type=\"button\">Cancel</button></div>'' @ newline @
     ''<div class=\"service-editor-secondary\"><button id=\"service-editor-reset\" type=\"button\" disabled>Reset name/link/icon</button><button id=\"service-editor-reload\" type=\"button\" hidden>Reload for review</button></div>'' @ newline @
     ''</form>'' @ newline @
     ''</dialog>'' @ newline @
     ''<script src=\"/static/service-editor.js\" defer></script>'')"

section \<open>Filling in the page\<close>

text \<open>
  \<open>strings.NewReplacer\<close>: from left to right, the first pair whose place holder stands at the position; what has been
  filled in is not looked at again.
\<close>

function replace_all :: "(string \<times> string) list \<Rightarrow> string \<Rightarrow> string" where
  "replace_all pairs [] = []"
| "replace_all pairs (c # s) = (case find (\<lambda>(k, v). k \<noteq> [] \<and> has_prefix (c # s) k) pairs of
     None \<Rightarrow> c # replace_all pairs s
   | Some (k, v) \<Rightarrow> v @ replace_all pairs (drop (length k - 1) s))"
  by pat_completeness auto
termination
  by (relation "measure (\<lambda>(pairs, s). length s)") simp_all

declare replace_all.simps(2) [simp del]

record portalRenderOptions =
  opt_Machines :: "MachineCard list"
  MachinesAvailable :: bool
  ConsoleEligible :: bool
  MachineConsoleCapable :: "string \<Rightarrow> bool"
  Organized :: bool
  LogoDefaultVisible :: bool
  opt_Health :: "ServiceHealthStore option"
  ServiceEditing :: bool
  ServiceEditorAvailable :: bool

record portal_texts =
  page_text :: string
  editor_css :: string
  login_scope :: "string \<Rightarrow> string"

definition display_name :: "Identity \<Rightarrow> string" where
  "display_name identity = (if trim_space (id_Name identity) = [] then Login identity else trim_space (id_Name identity))"

definition machines_section :: "portalRenderOptions \<Rightarrow> string" where
  "machines_section opts =
     (if MachinesAvailable opts then render_machines (MachineConsoleCapable opts) (ConsoleEligible opts) (opt_Machines opts) else [])"

definition bool_literal :: "bool \<Rightarrow> string" where
  "bool_literal b = (if b then ''true'' else ''false'')"

definition page_values :: "portal_texts \<Rightarrow> int \<Rightarrow> Identity \<Rightarrow> ServiceCard list \<Rightarrow> portalRenderOptions \<Rightarrow> (string \<times> string) list" where
  "page_values texts now identity cards opts =
     [(''{{USER_NAME}}'', html_escape (display_name identity)),
      (''{{USER_LOGIN}}'', html_escape (Login identity)),
      (''{{SERVICES_CLASS}}'', if Organized opts then ''services-organized'' else ''grid''),
      (''{{SERVICES_BODY}}'', render_services (Organized opts) (ServiceEditing opts) (ServiceEditorAvailable opts) (opt_Health opts) now cards),
      (''{{SERVICES_HEALTH_HELP}}'', renderServiceHealthHelp (opt_Health opts \<noteq> None) (anyCardUnlinked cards)),
      (''{{MACHINES_SECTION}}'', machines_section opts),
      (''{{BOTTOM_NAV}}'', renderBottomNav (MachinesAvailable opts)),
      (''{{LOGO_PREF_SCOPE}}'', login_scope texts (Login identity)),
      (''{{LOGO_DEFAULT_VISIBLE}}'', bool_literal (LogoDefaultVisible opts)),
      (''{{SERVICE_EDITING}}'', bool_literal (ServiceEditing opts)),
      (''{{SERVICE_EDITOR}}'', renderServiceEditor (ServiceEditorAvailable opts \<or> ServiceEditing opts)),
      (''{{SERVICE_EDITOR_CSS}}'', editor_css texts),
      (''{{PORTAL_REFRESH_TRIGGER}}'', ''every 60s'' @ (if ServiceEditing opts then '', service-metadata-saved from:body'' else []))]"

definition renderPortalWithOptions :: "portal_texts \<Rightarrow> int \<Rightarrow> Identity \<Rightarrow> ServiceCard list \<Rightarrow> portalRenderOptions \<Rightarrow> string" where
  "renderPortalWithOptions texts now identity cards opts = replace_all (page_values texts now identity cards opts) (page_text texts)"

section \<open>The handler\<close>

text \<open>The snapshot of the cache, the results of the health checks and the time that a request sees.\<close>

record portal_view =
  pv_Data :: "CacheData option"
  pv_Health :: "ServiceHealthStore option"
  pv_Now :: int

record PortalHandler =
  ph_texts :: portal_texts
  ph_logo :: bool
  ph_editor :: "ServiceMetadataEditor option"

definition portal_headers :: "PortalHandler \<Rightarrow> (string \<times> string) list" where
  "portal_headers h = setIdentityResponseCacheHeaders @
     (if ph_editor h \<noteq> None then [(''X-Frame-Options'', ''DENY''), (''Content-Security-Policy'', ''frame-ancestors '' @ [squote] @ ''none'' @ [squote])]
      else [])"

definition render_options :: "PortalHandler \<Rightarrow> portal_view \<Rightarrow> Identity \<Rightarrow> editor_request \<Rightarrow> CacheData \<Rightarrow> portalRenderOptions" where
  "render_options h view identity r d =
     (let machines = MatchMachines (Some identity) (Some d); eligible = machineConsoleEligible (Login identity) (Some d) in
      \<lparr>opt_Machines = machines, MachinesAvailable = machineProjectionAvailable (Some d), ConsoleEligible = eligible,
       MachineConsoleCapable = (\<lambda>i. eligible \<and> i \<in> set (map mcard_ID machines) \<and> machineSSHCapable i (Some d)),
       Organized = serviceMetadataHasOrganization (cd_ServiceMetadata d), LogoDefaultVisible = ph_logo h, opt_Health = pv_Health view,
       ServiceEditing = (case ph_editor h of None \<Rightarrow> False | Some e \<Rightarrow> editingIdentity e identity r),
       ServiceEditorAvailable = (ph_editor h \<noteq> None)\<rparr>)"

definition portal_page :: "PortalHandler \<Rightarrow> portal_view \<Rightarrow> Identity \<Rightarrow> editor_request \<Rightarrow> CacheData \<Rightarrow> string" where
  "portal_page h view identity r d =
     renderPortalWithOptions (ph_texts h) (pv_Now view) identity (MatchServices (Some identity) (Some d)) (render_options h view identity r d)"

definition portal_ServeHTTP :: "PortalHandler \<Rightarrow> portal_view \<Rightarrow> Identity option \<Rightarrow> editor_request \<Rightarrow> editor_response" where
  "portal_ServeHTTP h view caller r =
     (let resp = (case caller of None \<Rightarrow> text_response 401 ''unauthorized''
        | Some identity \<Rightarrow> (case requestData (ph_editor h) (pv_Data view) of
            None \<Rightarrow> text_response 503 ''portal unavailable''
          | Some d \<Rightarrow> \<lparr>resp_Status = 200, resp_Header = [(''Content-Type'', ''text/html; charset=utf-8'')], resp_Body = portal_page h view identity r d\<rparr>))
      in resp\<lparr>resp_Header := portal_headers h @ resp_Header resp\<rparr>)"

text \<open>Behind the identity middleware.\<close>

definition portal_handler :: "PortalHandler \<Rightarrow> ipnet option \<Rightarrow> portal_view \<Rightarrow> editor_request \<Rightarrow> editor_response" where
  "portal_handler h trusted view r =
     (case IdentityMiddleware trusted (http_in.truncate r) of
        AuthForbidden \<Rightarrow> (text_response 403 ''untrusted source'')\<lparr>resp_Header := setIdentityResponseCacheHeaders @ resp_Header (text_response 403 [])\<rparr>
      | AuthUnauthorized \<Rightarrow> (text_response 401 ''no identity'')\<lparr>resp_Header := setIdentityResponseCacheHeaders @ resp_Header (text_response 401 [])\<rparr>
      | AuthServe identity \<Rightarrow> portal_ServeHTTP h view (Some identity) r)"

section \<open>The page is filled in once\<close>

text \<open>A page as text and place holders; the text holds no two opening braces in a row and does not end in one.\<close>

datatype piece = Plain string | Hole string

fun piece_text :: "piece \<Rightarrow> string" where
  "piece_text (Plain t) = t"
| "piece_text (Hole k) = k"

fun quiet :: "string \<Rightarrow> bool" where
  "quiet [] = True"
| "quiet [c] = (c \<noteq> CHR ''{'')"
| "quiet (c # d # s) = ((c \<noteq> CHR ''{'' \<or> d \<noteq> CHR ''{'') \<and> quiet (d # s))"

definition page_keys :: "string list" where
  "page_keys = [''{{USER_NAME}}'', ''{{USER_LOGIN}}'', ''{{SERVICES_CLASS}}'', ''{{SERVICES_BODY}}'', ''{{SERVICES_HEALTH_HELP}}'',
     ''{{MACHINES_SECTION}}'', ''{{BOTTOM_NAV}}'', ''{{LOGO_PREF_SCOPE}}'', ''{{LOGO_DEFAULT_VISIBLE}}'', ''{{SERVICE_EDITING}}'',
     ''{{SERVICE_EDITOR}}'', ''{{SERVICE_EDITOR_CSS}}'', ''{{PORTAL_REFRESH_TRIGGER}}'']"

fun piece_ok :: "piece \<Rightarrow> bool" where
  "piece_ok (Plain t) = quiet t"
| "piece_ok (Hole k) = (k \<in> set page_keys)"

lemma page_values_keys: "fst ` set (page_values texts now identity cards opts) = set page_keys"
  by (simp add: page_values_def page_keys_def)

lemma page_keys_open: "k \<in> set page_keys \<Longrightarrow> has_prefix k ''{{''"
proof -
  have "list_all (\<lambda>k. has_prefix k ''{{'') page_keys" by code_simp
  then show "k \<in> set page_keys \<Longrightarrow> has_prefix k ''{{''" by (simp add: list_all_iff)
qed

lemma page_keys_prefix: "k \<in> set page_keys \<Longrightarrow> k' \<in> set page_keys \<Longrightarrow> has_prefix k k' \<Longrightarrow> k = k'"
proof -
  have "list_all (\<lambda>k. list_all (\<lambda>k'. has_prefix k k' = (k = k')) page_keys) page_keys" by code_simp
  then show "k \<in> set page_keys \<Longrightarrow> k' \<in> set page_keys \<Longrightarrow> has_prefix k k' \<Longrightarrow> k = k'" by (simp add: list_all_iff)
qed

text \<open>No other place holder stands where one stands.\<close>

lemma page_keys_unique:
  assumes "k \<in> set page_keys" and "k' \<in> set page_keys" and "has_prefix (k @ s) k'"
  shows "k = k'"
proof -
  from assms(3) obtain t where "k @ s = k' @ t" by (auto simp: has_prefix_iff)
  then have "has_prefix k k' \<or> has_prefix k' k" by (auto simp: has_prefix_iff append_eq_append_conv2)
  with assms(1,2) page_keys_prefix show ?thesis by blast
qed

lemma find_no_key: "(\<And>k. k \<in> fst ` set pairs \<Longrightarrow> \<not> P k) \<Longrightarrow> find (\<lambda>(k, v). P k) pairs = None"
  by (force simp: find_None_iff)

lemma replace_plain:
  assumes "fst ` set pairs = set page_keys" and "quiet t"
  shows "replace_all pairs (t @ s) = t @ replace_all pairs s"
  using assms(2)
proof (induction t rule: quiet.induct)
  case (2 c)
  have "\<not> has_prefix (c # s) k" if "k \<in> set page_keys" for k
    using page_keys_open [OF that] 2 by (auto simp: has_prefix_iff)
  then have "find (\<lambda>(k, v). k \<noteq> [] \<and> has_prefix (c # s) k) pairs = None"
    by (intro find_no_key) (simp add: assms(1))
  then show ?case by (simp add: replace_all.simps(2))
next
  case (3 c d t)
  have "\<not> has_prefix (c # d # t @ s) k" if "k \<in> set page_keys" for k
    using page_keys_open [OF that] 3(2) by (auto simp: has_prefix_iff)
  then have "find (\<lambda>(k, v). k \<noteq> [] \<and> has_prefix (c # d # t @ s) k) pairs = None"
    by (intro find_no_key) (simp add: assms(1))
  with 3 show ?case by (simp add: replace_all.simps(2))
qed simp

lemma find_key:
  assumes "map_of pairs k = Some v" and "\<And>k'. k' \<in> fst ` set pairs \<Longrightarrow> P k' \<longleftrightarrow> k' = k"
  shows "find (\<lambda>(k, v). P k) pairs = Some (k, v)"
  using assms by (induction pairs) (auto split: if_split_asm)

lemma replace_hole:
  assumes keys: "fst ` set pairs = set page_keys" and "k \<in> set page_keys"
  shows "replace_all pairs (k @ s) = the (map_of pairs k) @ replace_all pairs s"
proof -
  obtain v where v: "map_of pairs k = Some v" using assms by (metis map_of_eq_None_iff not_None_eq)
  have nonempty: "k' \<noteq> []" if "k' \<in> set page_keys" for k'
    using page_keys_open [OF that] by (auto simp: has_prefix_iff)
  obtain c u where k: "k = c # u" using nonempty [OF assms(2)] by (cases k) auto
  have "find (\<lambda>(k', v). k' \<noteq> [] \<and> has_prefix (c # (u @ s)) k') pairs = Some (k, v)"
  proof (rule find_key [OF v])
    fix k'
    assume "k' \<in> fst ` set pairs"
    then have k': "k' \<in> set page_keys" by (simp add: keys)
    show "(k' \<noteq> [] \<and> has_prefix (c # (u @ s)) k') = (k' = k)"
      using page_keys_unique [OF assms(2) k', of s] nonempty [OF k'] by (auto simp: k has_prefix_iff)
  qed
  then show ?thesis using v by (simp add: k replace_all.simps(2))
qed

text \<open>
  C25: The page is filled in exactly once. For a page of text and place holders, every place holder is replaced by its
  value and the text is kept; whatever the values hold, even the text of a place holder, is not filled in again, so
  that a name or a login cannot pull in another part of the page.
\<close>
theorem page_filled_once:
  assumes "list_all piece_ok pieces"
  shows "renderPortalWithOptions (texts\<lparr>page_text := concat (map piece_text pieces)\<rparr>) now identity cards opts =
    concat (map (\<lambda>p. case p of Plain t \<Rightarrow> t | Hole k \<Rightarrow> the (map_of (page_values texts now identity cards opts) k)) pieces)"
proof -
  have "page_values (texts\<lparr>page_text := t\<rparr>) now identity cards opts = page_values texts now identity cards opts" for t
    by (simp add: page_values_def)
  moreover have "replace_all (page_values texts now identity cards opts) (concat (map piece_text pieces)) =
      concat (map (\<lambda>p. case p of Plain t \<Rightarrow> t | Hole k \<Rightarrow> the (map_of (page_values texts now identity cards opts) k)) pieces)"
    using assms
  proof (induction pieces)
    case (Cons p ps)
    then show ?case
      using replace_plain [OF page_values_keys] replace_hole [OF page_values_keys] by (cases p) simp_all
  qed simp
  ultimately show ?thesis by (simp add: renderPortalWithOptions_def)
qed

definition sample_texts :: portal_texts where
  "sample_texts = \<lparr>page_text = [], editor_css = [], login_scope = (\<lambda>login. [])\<rparr>"

definition sample_pieces :: "piece list" where
  "sample_pieces = [Plain ''<p>'', Hole ''{{USER_NAME}}'', Plain ''</p>'']"

definition sneaky_identity :: Identity where
  "sneaky_identity = \<lparr>Login = ''eve@example.com'', id_Name = ''{{USER_LOGIN}}<b>'', ProfilePic = []\<rparr>"

definition plain_options :: portalRenderOptions where
  "plain_options = \<lparr>opt_Machines = [], MachinesAvailable = False, ConsoleEligible = False, MachineConsoleCapable = (\<lambda>i. False),
     Organized = False, LogoDefaultVisible = True, opt_Health = None, ServiceEditing = False, ServiceEditorAvailable = False\<rparr>"

lemma page_filled_once_witness:
  "renderPortalWithOptions (sample_texts\<lparr>page_text := ''<p>{{USER_NAME}}</p>''\<rparr>) 0 sneaky_identity [] plain_options =
     ''<p>{{USER_LOGIN}}&lt;b&gt;</p>''"
proof -
  have ok: "list_all piece_ok sample_pieces" by (simp add: sample_pieces_def page_keys_def)
  have "html_escape (display_name sneaky_identity) = ''{{USER_LOGIN}}&lt;b&gt;''" by code_simp
  then have filled: "map_of (page_values sample_texts 0 sneaky_identity [] plain_options) ''{{USER_NAME}}'' = Some ''{{USER_LOGIN}}&lt;b&gt;''"
    by (simp add: page_values_def)
  show ?thesis
    using page_filled_once [OF ok, of sample_texts 0 sneaky_identity "[]" plain_options] by (simp add: sample_pieces_def filled)
qed

end
