(* ===== verification/Server.thy ===== *)
theory Server
  imports Portal_Page Setup Cache
begin

text \<open>
  The server (\<open>runServer\<close> in \<open>main.go\<close>): starting it, the routes of its multiplexer, and what one request gets. A
  request is answered from what it sees: the snapshot of the cache, the results of the health checks and the time.
  The signals and the shutdown are left out; the static files are named by their path.
\<close>

section \<open>Starting\<close>

record portal_server =
  ps_trusted :: "ipnet option"
  ps_interval :: int
  ps_logo :: bool
  ps_editor :: "ServiceMetadataEditor option"

text \<open>The editor first: without it the server does not start when it is configured.\<close>

definition start_server ::
    "digest \<Rightarrow> editor_fs \<Rightarrow> editor_fs \<Rightarrow> (start_stage \<Rightarrow> bool) \<Rightarrow> Config \<Rightarrow> editor_error + portal_server" where
  "start_server digest fs1 fs2 fails cfg =
     and_then (newServiceMetadataEditor digest fs1 fs2 fails (ServiceMetadataFile cfg) (ServiceMetadataEditor cfg)) (\<lambda>editor.
       Inr \<lparr>ps_trusted = Some (TrustedProxyCIDR cfg), ps_interval = PollInterval cfg, ps_logo = PortalLogoDefaultVisible cfg, ps_editor = editor\<rparr>)"

text \<open>What the poller publishes: with an editor its view, otherwise the file.\<close>

definition metadata_loader :: "ServiceMetadataEditor option \<Rightarrow> metadata_load \<Rightarrow> metadata_load" where
  "metadata_loader editor loaded = (case editor of None \<Rightarrow> loaded | Some e \<Rightarrow> Inr (Some (view_metadata (ed_view e))))"

section \<open>Routes\<close>

text \<open>\<open>path.Clean\<close> of a rooted path, with the slash at the end kept, as the multiplexer cleans paths.\<close>

fun clean_segments :: "string list \<Rightarrow> string list \<Rightarrow> string list" where
  "clean_segments stack [] = rev stack"
| "clean_segments stack (s # ss) =
     (if s = [] \<or> s = ''.'' then clean_segments stack ss
      else if s = ''..'' then clean_segments (drop 1 stack) ss
      else clean_segments (s # stack) ss)"

definition clean_path :: "string \<Rightarrow> string" where
  "clean_path p =
     (let rooted = (if has_prefix p ''/'' then p else CHR ''/'' # p);
          np = CHR ''/'' # join_with ''/'' (clean_segments [] (split_byte (CHR ''/'') rooted)) in
      if has_suffix rooted ''/'' \<and> np \<noteq> ''/'' then np @ ''/'' else np)"

definition path_segments :: "string \<Rightarrow> string list" where
  "path_segments p = map (\<lambda>s. case unescape EncodePath s of Some t \<Rightarrow> t | None \<Rightarrow> s) (tl (split_byte (CHR ''/'') p))"

datatype route = RouteEditor | RouteHealth | RouteStatic | RoutePortal

definition reads :: "string \<Rightarrow> bool" where
  "reads req_method \<longleftrightarrow> req_method = ''GET'' \<or> req_method = ''HEAD''"

text \<open>The most specific pattern: the editor takes every method, the others take reading ones.\<close>

definition route_of :: "bool \<Rightarrow> string \<Rightarrow> string list \<Rightarrow> route option" where
  "route_of editor req_method segs =
     (if editor \<and> length segs \<ge> 3 \<and> take 2 segs = [''api'', ''service-metadata''] then Some RouteEditor
      else if \<not> reads req_method then None
      else if segs = [''healthz''] then Some RouteHealth
      else if length segs \<ge> 2 \<and> hd segs = ''static'' then Some RouteStatic
      else Some RoutePortal)"

text \<open>A subtree asked for without its last slash.\<close>

definition subtree_root :: "bool \<Rightarrow> string \<Rightarrow> string list \<Rightarrow> bool" where
  "subtree_root editor req_method segs \<longleftrightarrow>
     (editor \<and> segs = [''api'', ''service-metadata'']) \<or> (reads req_method \<and> segs = [''static''])"

datatype answer = Answer editor_response | StaticFile "(string \<times> string) list" string | HealthAnswer editor_response | Redirect string | MethodNotAllowed

definition request_url :: "editor_request \<Rightarrow> url" where
  "request_url r = no_url\<lparr>Path := req_Path r, RawPath := req_RawPath r, RawQuery := req_RawQuery r\<rparr>"

definition redirect_to :: "string \<Rightarrow> editor_request \<Rightarrow> answer" where
  "redirect_to p r = Redirect (url_string (no_url\<lparr>Path := p, RawQuery := req_RawQuery r\<rparr>))"

definition staticAssetHandler :: "editor_request \<Rightarrow> answer" where
  "staticAssetHandler r = StaticFile
     (if req_Path r = ''/static/sw.js'' then [(''Service-Worker-Allowed'', ''/''), (''Cache-Control'', ''no-cache'')] else [])
     (trim_prefix (req_Path r) ''/static/'')"

section \<open>The health endpoint\<close>

text \<open>\<open>time.Since\<close>, which stays within 64 bits, \<open>Round\<close> to a second, half away from zero, and the text of the duration.\<close>

definition time_since :: "int \<Rightarrow> int \<Rightarrow> int" where
  "time_since now t = max (- (2 ^ 63)) (min (2 ^ 63 - 1) (now - t))"

definition round_second :: "int \<Rightarrow> int" where
  "round_second d =
     (let r = \<bar>d\<bar> mod 1000000000; away = 1000000000 - r in
      if d < 0 then (if 2 * r < 1000000000 then d + r else max (- (2 ^ 63)) (d - away))
      else if 2 * r < 1000000000 then d - r else min (2 ^ 63 - 1) (d + away))"

definition duration_text :: "int \<Rightarrow> string" where
  "duration_text d = (if d < 0 then CHR ''-'' # duration_string (- d) else duration_string d)"

text \<open>
  The handler of \<open>/healthz\<close>, with the headers that the code sets: without a snapshot, or with one older than three polling
  intervals, it is stale. It reads the time of the snapshot more than once, but one request sees one snapshot here.
\<close>

definition healthz :: "int \<Rightarrow> int \<Rightarrow> int \<Rightarrow> editor_response" where
  "healthz last_updated interval now =
     (let age = time_since now last_updated; shown = duration_text (round_second age) in
      if last_updated = zero_time \<or> age > interval * 3 then text_response 503 (''stale cache: age='' @ shown)
      else \<lparr>resp_Status = 200, resp_Header = [], resp_Body = ''ok cache_age='' @ shown @ [char_of (10::nat)]\<rparr>)"

section \<open>One request\<close>

definition last_updated :: "portal_view \<Rightarrow> int" where
  "last_updated view = (case pv_Data view of None \<Rightarrow> zero_time | Some d \<Rightarrow> UpdatedAt d)"

definition request_path :: "editor_request \<Rightarrow> string" where
  "request_path r = (let escaped = escaped_path (request_url r) in if req_Method r = ''CONNECT'' then escaped else clean_path escaped)"

text \<open>The handler of the route, with the editor afterwards, and what has been written to its file.\<close>

definition serve_route ::
    "portal_texts \<Rightarrow> digest \<Rightarrow> editor_env \<Rightarrow> portal_server \<Rightarrow> portal_view \<Rightarrow> editor_request \<Rightarrow> route option \<Rightarrow>
     answer \<times> ServiceMetadataEditor option \<times> string option" where
  "serve_route texts digest env s view r chosen = (case chosen of
     None \<Rightarrow> (MethodNotAllowed, ps_editor s, None)
   | Some RouteEditor \<Rightarrow> (case ps_editor s of None \<Rightarrow> (MethodNotAllowed, None, None)
       | Some e \<Rightarrow> (case editor_handler digest (env\<lparr>env_stale_after := ps_interval s * 3\<rparr>) (ps_trusted s) e r of
           (resp, e', written) \<Rightarrow> (Answer resp, Some e', written)))
   | Some RouteHealth \<Rightarrow> (HealthAnswer (healthz (last_updated view) (ps_interval s) (pv_Now view)), ps_editor s, None)
   | Some RouteStatic \<Rightarrow> (staticAssetHandler r, ps_editor s, None)
   | Some RoutePortal \<Rightarrow>
       (Answer (portal_handler \<lparr>ph_texts = texts, ph_logo = ps_logo s, ph_editor = ps_editor s\<rparr> (ps_trusted s) view r), ps_editor s, None))"

definition serve_request ::
    "portal_texts \<Rightarrow> digest \<Rightarrow> editor_env \<Rightarrow> portal_server \<Rightarrow> portal_view \<Rightarrow> editor_request \<Rightarrow> answer \<times> ServiceMetadataEditor option \<times> string option" where
  "serve_request texts digest env s view r =
     (let segs = path_segments (request_path r); editing = (ps_editor s \<noteq> None) in
      if subtree_root editing (req_Method r) segs then (redirect_to (clean_path (req_Path r) @ ''/'') r, ps_editor s, None)
      else if request_path r \<noteq> escaped_path (request_url r) then (redirect_to (request_path r) r, ps_editor s, None)
      else serve_route texts digest env s view r (route_of editing (req_Method r) segs))"

section \<open>Requests that do not come from the proxy\<close>

lemma portal_handler_forbidden:
  assumes "IdentityMiddleware trusted (http_in.truncate r) = AuthForbidden"
  shows "portal_handler h trusted view r =
    (text_response 403 ''untrusted source'')\<lparr>resp_Header := setIdentityResponseCacheHeaders @ resp_Header (text_response 403 [])\<rparr>"
  by (simp add: portal_handler_def assms)

lemma editor_handler_forbidden:
  assumes "IdentityMiddleware trusted (http_in.truncate r) = AuthForbidden"
  shows "\<exists>resp. resp_Status resp = 403 \<and> (\<forall>digest env e. editor_handler digest env trusted e r = (resp, e, None))"
  by (simp add: editor_handler_def assms text_response_def)

text \<open>
  Two answers to a stranger, with the editor and the file after them: the same one, which forbids the portal and the
  editor, or the answers of the health endpoint.
\<close>

definition answers_alike ::
    "answer \<times> ServiceMetadataEditor option \<times> string option \<Rightarrow> answer \<times> ServiceMetadataEditor option \<times> string option \<Rightarrow>
     portal_server \<Rightarrow> portal_server \<Rightarrow> bool" where
  "answers_alike a b s s' \<longleftrightarrow> (\<exists>answer. a = (answer, ps_editor s, None) \<and> b = (answer, ps_editor s', None) \<and>
     (case answer of Answer resp \<Rightarrow> resp_Status resp = 403 | HealthAnswer resp \<Rightarrow> False | _ \<Rightarrow> True))"

definition health_answers ::
    "answer \<times> ServiceMetadataEditor option \<times> string option \<Rightarrow> answer \<times> ServiceMetadataEditor option \<times> string option \<Rightarrow>
     portal_server \<Rightarrow> portal_view \<Rightarrow> portal_server \<Rightarrow> portal_view \<Rightarrow> bool" where
  "health_answers a b s view s' view' \<longleftrightarrow>
     a = (HealthAnswer (healthz (last_updated view) (ps_interval s) (pv_Now view)), ps_editor s, None) \<and>
     b = (HealthAnswer (healthz (last_updated view') (ps_interval s') (pv_Now view')), ps_editor s', None)"

lemma serve_route_forbidden:
  assumes "IdentityMiddleware (ps_trusted s) (http_in.truncate r) = AuthForbidden" and "ps_trusted s' = ps_trusted s"
    and "(ps_editor s' = None) = (ps_editor s = None)"
  shows "if chosen = Some RouteHealth
    then health_answers (serve_route texts digest env s view r chosen) (serve_route texts' digest' env' s' view' r chosen) s view s' view'
    else answers_alike (serve_route texts digest env s view r chosen) (serve_route texts' digest' env' s' view' r chosen) s s'"
proof (cases chosen)
  case None
  then show ?thesis by (simp add: serve_route_def answers_alike_def)
next
  case (Some c)
  obtain resp where resp: "resp_Status resp = 403" "\<And>dg ev e. editor_handler dg ev (ps_trusted s) e r = (resp, e, None)"
    using editor_handler_forbidden [OF assms(1)] by blast
  show ?thesis
  proof (cases c)
    case RouteEditor
    show ?thesis
    proof (cases "ps_editor s")
      case None
      then show ?thesis using assms(3) by (simp add: serve_route_def answers_alike_def Some RouteEditor)
    next
      case e: (Some e)
      then obtain e' where "ps_editor s' = Some e'" using assms(3) by auto
      with e resp assms(2) show ?thesis by (simp add: serve_route_def answers_alike_def Some RouteEditor)
    qed
  next
    case RoutePortal
    then show ?thesis
      using portal_handler_forbidden [OF assms(1)] assms(2) by (simp add: serve_route_def answers_alike_def Some text_response_def)
  qed (simp_all add: serve_route_def answers_alike_def health_answers_def Some staticAssetHandler_def)
qed

lemma health_route: "route_of editor req_method segs = Some RouteHealth \<longleftrightarrow> reads req_method \<and> segs = [''healthz'']"
  by (auto simp: route_of_def)

lemma serve_request_forbidden:
  assumes "IdentityMiddleware (ps_trusted s) (http_in.truncate r) = AuthForbidden" and "ps_trusted s' = ps_trusted s"
    and "(ps_editor s' = None) = (ps_editor s = None)"
  shows "answers_alike (serve_request texts digest env s view r) (serve_request texts' digest' env' s' view' r) s s'
    \<or> reads (req_Method r) \<and> path_segments (request_path r) = [''healthz'']
      \<and> health_answers (serve_request texts digest env s view r) (serve_request texts' digest' env' s' view' r) s view s' view'"
proof -
  let ?chosen = "route_of (ps_editor s \<noteq> None) (req_Method r) (path_segments (request_path r))"
  have "route_of (ps_editor s' \<noteq> None) (req_Method r) (path_segments (request_path r)) = ?chosen" using assms(3) by simp
  then show ?thesis
    using serve_route_forbidden [OF assms, of ?chosen texts digest env view texts' digest' env' view'] assms(3) health_route
    by (cases "?chosen = Some RouteHealth") (auto simp: serve_request_def Let_def answers_alike_def redirect_to_def)
qed

text \<open>What the health endpoint tells: how old the snapshot is, if there is one, against the interval.\<close>

definition told_age :: "portal_server \<Rightarrow> portal_view \<Rightarrow> int \<times> bool \<times> int" where
  "told_age s view = (ps_interval s, last_updated view = zero_time, pv_Now view - last_updated view)"

lemma healthz_age:
  "told_age s' view' = told_age s view \<Longrightarrow>
    healthz (last_updated view') (ps_interval s') (pv_Now view') = healthz (last_updated view) (ps_interval s) (pv_Now view)"
  by (simp add: healthz_def told_age_def time_since_def Let_def)

text \<open>
  C6: Nobody but the trusted proxy learns more than the age of the snapshot. For a request from outside the trusted
  network, whatever its headers, method and path, and for any two snapshots, health results, texts, digests and documents
  of the editor: the editor is left as it was and nothing is written; the answer is the same for both, with the status 403
  wherever the portal or the editor answers, unless it is the one of the health endpoint to a reading request for its
  path; and that one too is the same when both snapshots have the same age, or are both missing at the
  same time, under the same polling interval.
\<close>
theorem untrusted_learns_only_the_age:
  assumes "IdentityMiddleware (ps_trusted s) (http_in.truncate r) = AuthForbidden"
    and "ps_trusted s' = ps_trusted s" and "(ps_editor s' = None) = (ps_editor s = None)"
  shows "\<exists>answer answer'. serve_request texts digest env s view r = (answer, ps_editor s, None)
    \<and> serve_request texts' digest' env' s' view' r = (answer', ps_editor s', None)
    \<and> (answer' = answer \<and> (case answer of Answer resp \<Rightarrow> resp_Status resp = 403 | HealthAnswer resp \<Rightarrow> False | _ \<Rightarrow> True)
      \<or> reads (req_Method r) \<and> path_segments (request_path r) = [''healthz'']
        \<and> answer = HealthAnswer (healthz (last_updated view) (ps_interval s) (pv_Now view))
        \<and> answer' = HealthAnswer (healthz (last_updated view') (ps_interval s') (pv_Now view')))
    \<and> (told_age s' view' = told_age s view \<longrightarrow> answer' = answer)"
  using serve_request_forbidden [OF assms, of texts digest env view texts' digest' env' view'] healthz_age [of s' view' s view]
  by (auto simp: answers_alike_def health_answers_def)

definition stranger_request :: editor_request where
  "stranger_request = sample_request\<lparr>RemoteAddr := ''x'', req_Method := ''GET'', req_Path := ''/''\<rparr>"

definition sample_server :: "ServiceMetadataEditor option \<Rightarrow> portal_server" where
  "sample_server editor = \<lparr>ps_trusted = Some (Net4 0 0), ps_interval = 1, ps_logo = True, ps_editor = editor\<rparr>"

definition sample_view :: "CacheData option \<Rightarrow> portal_view" where
  "sample_view data = \<lparr>pv_Data = data, pv_Health = None, pv_Now = 10\<rparr>"

lemma stranger_untrusted: "IdentityMiddleware trusted (http_in.truncate stranger_request) = AuthForbidden"
proof -
  have "net_parse_ip (peer_host ''x'') = None" by code_simp
  then show ?thesis by (simp add: IdentityMiddleware_def http_in.truncate_def stranger_request_def)
qed

lemma untrusted_learns_only_the_age_witness:
  "fst (serve_request sample_texts (\<lambda>purpose v. v) sample_env (sample_server None) (sample_view (Some (sample_data [sample_host]))) stranger_request) =
   fst (serve_request sample_texts (\<lambda>purpose v. v) sample_env (sample_server None) (sample_view (Some (sample_data []))) stranger_request)"
proof -
  have "told_age (sample_server None) (sample_view (Some (sample_data []))) = told_age (sample_server None) (sample_view (Some (sample_data [sample_host])))"
    by (simp add: told_age_def last_updated_def sample_view_def sample_server_def sample_data_def)
  with untrusted_learns_only_the_age [OF stranger_untrusted refl refl, of sample_texts "\<lambda>purpose v. v" sample_env "sample_server None"
      "sample_view (Some (sample_data [sample_host]))" sample_texts "\<lambda>purpose v. v" sample_env "sample_view (Some (sample_data []))"]
  show ?thesis by auto
qed

end
