(* ===== verification/Redact.thy ===== *)
theory Redact
  imports Config "HOL-Library.Sublist"
begin

text \<open>
  The redaction of error texts (\<open>sanitizeDoctorError\<close> in \<open>doctor.go\<close>, \<open>redactErrorWith\<close> in \<open>tailscale.go\<close>, the excerpts of
  response bodies), byte for byte, with the four regular expressions written as matchers. Letter case is folded as
  the expressions fold it: beyond ASCII, the long s counts as an s and the Kelvin sign as a k.
\<close>

section \<open>Replacing matches\<close>

definition redacted :: string where
  "redacted = ''[REDACTED]''"

text \<open>
  \<open>ReplaceAllString\<close>: a matcher looks at the start of the rest of the text and gives the replacement and what follows
  the match. The comparison of lengths only makes the recursion total: every matcher below consumes something.
\<close>

type_synonym matcher = "string \<Rightarrow> (string \<times> string) option"

function replace_matches :: "matcher \<Rightarrow> string \<Rightarrow> string" where
  "replace_matches m s = (case s of [] \<Rightarrow> [] | c # t \<Rightarrow>
     (case m s of None \<Rightarrow> c # replace_matches m t
      | Some (out, rest) \<Rightarrow> if length rest < length s then out @ replace_matches m rest else s))"
  by pat_completeness auto
termination
  by (relation "measure (\<lambda>(m, s). length s)") auto

declare replace_matches.simps [simp del]

text \<open>\<open>strings.ReplaceAll\<close> of a text that is not empty.\<close>

definition literal :: "string \<Rightarrow> matcher" where
  "literal old s = (if has_prefix s old then Some (redacted, drop (length old) s) else None)"

section \<open>The regular expressions\<close>

definition fold_one :: "char \<Rightarrow> string \<Rightarrow> string option" where
  "fold_one c s = (case s of [] \<Rightarrow> None | d # t \<Rightarrow>
     if ascii_lower d = c then Some t
     else if c = CHR ''s'' \<and> has_prefix s (map char_of [0xC5, 0xBF::nat]) then Some (drop 2 s)
     else if c = CHR ''k'' \<and> has_prefix s (map char_of [0xE2, 0x84, 0xAA::nat]) then Some (drop 3 s)
     else None)"

fun fold_word :: "string \<Rightarrow> string \<Rightarrow> string option" where
  "fold_word [] s = Some s"
| "fold_word (c # p) s = (case fold_one c s of None \<Rightarrow> None | Some t \<Rightarrow> fold_word p t)"

fun fold_any :: "string list \<Rightarrow> string \<Rightarrow> string option" where
  "fold_any [] s = None"
| "fold_any (p # ps) s = (case fold_word p s of None \<Rightarrow> fold_any ps s | Some t \<Rightarrow> Some t)"

text \<open>What was read between two suffixes of a text.\<close>

definition consumed :: "string \<Rightarrow> string \<Rightarrow> string" where
  "consumed s rest = take (length s - length rest) s"

definition regexp_space :: "char \<Rightarrow> bool" where
  "regexp_space c \<longleftrightarrow> byte c \<in> {9, 10, 12, 13, 32}"

definition skip_re_space :: "string \<Rightarrow> string" where
  "skip_re_space s = dropWhile regexp_space s"

definition opt_quote :: "string \<Rightarrow> string" where
  "opt_quote s = (case s of [] \<Rightarrow> [] | c # t \<Rightarrow> if c = dquote \<or> c = squote then t else s)"

text \<open>A status with a response body: everything up to the end of the text.\<close>

definition doctorHTTPBodyRE :: matcher where
  "doctorHTTPBodyRE s = (case fold_any [''returned'', ''unexpected''] s of None \<Rightarrow> None | Some s1 \<Rightarrow>
     (case fold_word '' status '' s1 of None \<Rightarrow> None | Some s2 \<Rightarrow>
     (case s2 of a # b # c # d # rest \<Rightarrow>
          if is_digit a \<and> is_digit b \<and> is_digit c \<and> d = CHR '':'' then Some (consumed s rest @ '' '' @ redacted, []) else None
      | _ \<Rightarrow> None)))"

text \<open>
  A sensitive name, a separator and a value. The expression never backtracks with success: no name starts another one, and
  neither white space nor a quote can be part of a value.
\<close>

definition sensitive_value :: "char \<Rightarrow> bool" where
  "sensitive_value c \<longleftrightarrow> c \<noteq> dquote \<and> c \<noteq> squote \<and> c \<noteq> CHR '','' \<and> c \<noteq> CHR ''}'' \<and> \<not> regexp_space c"

definition sensitive_names :: "string list" where
  "sensitive_names = [''token'', ''secret'', ''password'', ''apikey'', ''api_key'', ''api-key'', ''authorization'']"

definition doctorSensitiveFieldRE :: matcher where
  "doctorSensitiveFieldRE s =
     (case fold_any sensitive_names (opt_quote s) of None \<Rightarrow> None
      | Some s1 \<Rightarrow> (case skip_re_space (opt_quote s1) of [] \<Rightarrow> None | c # s2 \<Rightarrow>
          if c = CHR '':'' \<or> c = CHR ''='' then
            (let s3 = opt_quote (skip_re_space s2); rest = dropWhile sensitive_value s3 in
             if rest = s3 then None else Some (consumed s s3 @ redacted, rest))
          else None))"

text \<open>The characters of a bearer token, with the letters that fold into the class.\<close>

definition bearer_char :: "char \<Rightarrow> bool" where
  "bearer_char c \<longleftrightarrow> is_alnum c \<or> c \<in> set ''._~+/=-''"

fun bearer_rest :: "string \<Rightarrow> string" where
  "bearer_rest [] = []"
| "bearer_rest (c # t) =
     (if bearer_char c then bearer_rest t
      else if has_prefix (c # t) (map char_of [0xC5, 0xBF::nat]) then bearer_rest (drop 1 t)
      else if has_prefix (c # t) (map char_of [0xE2, 0x84, 0xAA::nat]) then bearer_rest (drop 2 t)
      else c # t)"

definition doctorBearerRE :: matcher where
  "doctorBearerRE s = (case fold_word ''bearer'' s of None \<Rightarrow> None | Some s1 \<Rightarrow>
     (let s2 = skip_re_space s1; rest = bearer_rest s2 in
      if s2 = s1 \<or> rest = s2 then None else Some (consumed s s2 @ redacted, rest)))"

text \<open>Three groups of at least eight characters with dots between them.\<close>

definition jwt_char :: "char \<Rightarrow> bool" where
  "jwt_char c \<longleftrightarrow> is_alnum c \<or> c = CHR ''_'' \<or> c = CHR ''-''"

definition jwt_group :: "string \<Rightarrow> string option" where
  "jwt_group s = (if length (takeWhile jwt_char s) < 8 then None else Some (dropWhile jwt_char s))"

definition jwt_dot :: "string \<Rightarrow> string option" where
  "jwt_dot s = (case s of [] \<Rightarrow> None | c # t \<Rightarrow> if c = CHR ''.'' then Some t else None)"

definition doctorJWTRE :: matcher where
  "doctorJWTRE s =
     (case Option.bind (jwt_group s) jwt_dot of None \<Rightarrow> None | Some s1 \<Rightarrow>
     (case Option.bind (jwt_group s1) jwt_dot of None \<Rightarrow> None | Some s2 \<Rightarrow>
     (case jwt_group s2 of None \<Rightarrow> None | Some rest \<Rightarrow> Some (redacted, rest))))"

section \<open>Redaction\<close>

text \<open>The conversion to runes and back: a byte that is not part of a rune becomes U+FFFD.\<close>

definition rune_text :: "string \<times> bool \<Rightarrow> string" where
  "rune_text r = (if snd r then fst r else encode_rune 0xFFFD)"

definition runes_text :: "(string \<times> bool) list \<Rightarrow> string" where
  "runes_text rs = concat (map rune_text rs)"

text \<open>
  One secret: itself, and as it looks in a JSON text. The order is that of an insertion sort, which is what
  \<open>sort.Slice\<close> does for up to twelve values; what is shown below holds for every order.
\<close>

definition redact_secret :: "string \<Rightarrow> string \<Rightarrow> string" where
  "redact_secret text secret = (if secret = [] then text
     else replace_matches (literal (concat (map quote_rune (runes secret)))) (replace_matches (literal secret) text))"

definition longer_secret :: "string \<Rightarrow> string \<Rightarrow> bool" where
  "longer_secret l r \<longleftrightarrow> length l > length r"

definition bound_error :: "string \<Rightarrow> string" where
  "bound_error text = (if text = [] then ''request failed without details''
     else if length (runes text) > 240 then runes_text (take 237 (runes text)) @ ''...''
     else runes_text (runes text))"

definition sanitizeDoctorError :: "string option \<Rightarrow> string list \<Rightarrow> string" where
  "sanitizeDoctorError err secrets = (case err of None \<Rightarrow> ''unknown error'' | Some text \<Rightarrow>
     (let text = foldl redact_secret text (sort_slice longer_secret secrets);
          text = runes_text (take 4096 (runes text));
          text = replace_matches doctorHTTPBodyRE text;
          text = replace_matches doctorSensitiveFieldRE text;
          text = replace_matches doctorBearerRE text;
          text = replace_matches doctorJWTRE text
      in bound_error (join_with '' '' (string_fields text))))"

section \<open>What is redacted\<close>

definition secret_keys :: "string list" where
  "secret_keys = [''HEADSCALE_URL'', ''HEADSCALE_API_KEY'', ''TAILSCALE_OAUTH_CLIENT_ID'', ''TAILSCALE_OAUTH_CLIENT_SECRET'',
     ''NPM_URL'', ''NPM_EMAIL'', ''NPM_PASSWORD'']"

definition doctorSecretValues :: "configLookup \<Rightarrow> string list" where
  "doctorSecretValues lookup =
     concat (map (\<lambda>key. case lookup key of (v, found, failed) \<Rightarrow> if \<not> failed \<and> found \<and> v \<noteq> [] then [v] else []) secret_keys)"

definition config_secrets :: "Config \<Rightarrow> string list" where
  "config_secrets cfg = ControlPlaneRedactionValues cfg @
     [HeadscaleAPIKey cfg, TailscaleOAuthClientID cfg, TailscaleOAuthClientSecret cfg, NPMPassword cfg]"

fun doctorControlPlaneToken :: "control_client option \<Rightarrow> string" where
  "doctorControlPlaneToken (Some (UseTailscale c)) = accessToken c"
| "doctorControlPlaneToken _ = []"

definition doctorNPMToken :: "NPMClient option \<Rightarrow> string" where
  "doctorNPMToken client = (case client of None \<Rightarrow> [] | Some c \<Rightarrow> npm_token c)"

text \<open>The excerpt of a response body; the body is nothing, or fails to be read, or is its bytes.\<close>

definition error_excerpt :: "nat \<Rightarrow> string option option \<Rightarrow> string list \<Rightarrow> string" where
  "error_excerpt limit body secrets = (case body of None \<Rightarrow> ''response body unavailable''
     | Some None \<Rightarrow> ''response body unreadable''
     | Some (Some contents) \<Rightarrow>
         if take limit contents = [] then ''response body empty'' else sanitizeDoctorError (Some (take limit contents)) secrets)"

definition headscaleErrorExcerpt :: "string option option \<Rightarrow> string \<Rightarrow> string" where
  "headscaleErrorExcerpt body key = error_excerpt 4096 body [key]"

definition npmErrorExcerpt :: "string option option \<Rightarrow> string list \<Rightarrow> string" where
  "npmErrorExcerpt body secrets = error_excerpt 4096 body secrets"

definition tailscaleErrorExcerpt :: "string \<Rightarrow> string" where
  "tailscaleErrorExcerpt body = (if body = [] then ''response body empty''
     else trim_space (go_quote (\<lambda>_. False) (take 4096 body)))"

definition tailscale_secrets :: "TailscaleClient \<Rightarrow> string list \<Rightarrow> string list" where
  "tailscale_secrets c extra =
     concat (map (\<lambda>v. if v = [] then [] else v # (if escape EncodeQuery v \<noteq> v then [escape EncodeQuery v] else []))
       ([clientID c, clientSecret c, accessToken c] @ extra))"

text \<open>An error with its text and, for an unsupported policy, the section and the reason it carries.\<close>

definition redactErrorWith ::
    "TailscaleClient \<Rightarrow> (string \<times> (string \<times> string) option) option \<Rightarrow> string list \<Rightarrow> (string \<times> (string \<times> string) option) option" where
  "redactErrorWith c err extra = map_option (\<lambda>(text, unsupported). let secrets = tailscale_secrets c extra in
     (sanitizeDoctorError (Some text) secrets,
      map_option (\<lambda>(section, reason).
        (if section = [] then [] else sanitizeDoctorError (Some section) secrets, sanitizeDoctorError (Some reason) secrets)) unsupported)) err"

section \<open>Parts of a text\<close>

text \<open>A contiguous part without a character is on one side of it.\<close>

lemma sublist_at_separator:
  assumes "sublist w (a @ c # b)" and "c \<notin> set w"
  shows "sublist w a \<or> sublist w b"
proof -
  from assms(1) obtain p q where "a @ (c # b) = p @ (w @ q)" by (auto simp: sublist_def)
  then consider us where "c # b = us @ w @ q" | us where "a = p @ us" "us @ (c # b) = w @ q"
    by (auto simp: append_eq_append_conv2)
  then show ?thesis
  proof cases
    case 1
    with assms(2) show ?thesis by (cases us; cases w) (auto simp: sublist_def)
  next
    case 2
    then consider vs where "us = w @ vs" | vs where "w = us @ vs" "c # b = vs @ q" by (auto simp: append_eq_append_conv2)
    then show ?thesis
    proof cases
      case 1
      with 2 show ?thesis by (auto simp: sublist_def)
    next
      case (2 vs)
      with assms(2) \<open>a = p @ us\<close> show ?thesis by (cases vs) auto
    qed
  qed
qed

lemma sublist_within: "sublist w s \<Longrightarrow> sublist w (a @ s @ b)"
  by (meson sublist_appendI sublist_order.order_trans)

lemma sublist_snoc_other:
  assumes "sublist w (a @ [c])" and "w \<noteq> []" and "last w \<noteq> c"
  shows "sublist w a"
proof -
  from assms(1) obtain p q where "a @ [c] = p @ w @ q" by (auto simp: sublist_def)
  with assms(2, 3) show ?thesis by (cases q rule: rev_cases) (auto simp: append_eq_append_conv2 Cons_eq_append_conv)
qed

text \<open>
  A part is plain when it is not empty, is ASCII without a space or bracket and does not end in a dot. A step of
  the redaction is harmless when it brings no plain part into the text but parts of the mark.
\<close>

definition plain_part :: "string \<Rightarrow> bool" where
  "plain_part w \<longleftrightarrow> w \<noteq> [] \<and> list_all (\<lambda>c. byte c < 128) w \<and> CHR '' '' \<notin> set w \<and> CHR ''['' \<notin> set w \<and> CHR '']'' \<notin> set w \<and> last w \<noteq> CHR ''.''"

definition harmless :: "string \<Rightarrow> string \<Rightarrow> bool" where
  "harmless t t' \<longleftrightarrow> (\<forall>w. plain_part w \<longrightarrow> sublist w t' \<longrightarrow> sublist w t \<or> sublist w ''REDACTED'')"

lemma harmlessI: "(\<And>w. plain_part w \<Longrightarrow> sublist w t' \<Longrightarrow> sublist w t \<or> sublist w ''REDACTED'') \<Longrightarrow> harmless t t'"
  by (simp add: harmless_def)

lemma harmless_refl [intro]: "harmless t t"
  by (simp add: harmless_def)

lemma harmless_trans [trans]: "harmless t u \<Longrightarrow> harmless u v \<Longrightarrow> harmless t v"
  unfolding harmless_def by blast

lemma plain_part_separators:
  assumes "plain_part w"
  shows "CHR '' '' \<notin> set w" "CHR ''['' \<notin> set w" "CHR '']'' \<notin> set w" "128 \<le> byte c \<Longrightarrow> c \<notin> set w"
  using assms by (auto simp: plain_part_def list_all_iff)

lemma plain_in_mark:
  assumes "plain_part w" and "sublist w (a @ redacted @ b)"
  shows "sublist w a \<or> sublist w ''REDACTED'' \<or> sublist w b"
proof -
  have "sublist w (a @ CHR ''['' # (''REDACTED'' @ CHR '']'' # b))" using assms(2) by (simp add: redacted_def)
  from sublist_at_separator [OF this] sublist_at_separator [of w "''REDACTED''" "CHR '']''" b] plain_part_separators [OF assms(1)]
  show ?thesis by blast
qed

section \<open>Replacing is harmless\<close>

text \<open>The contract of the matchers: what is put in the place of a match is a beginning of the match and the mark.\<close>

definition marks :: "matcher \<Rightarrow> bool" where
  "marks m \<longleftrightarrow> (\<forall>s out rest. m s = Some (out, rest) \<longrightarrow>
     (\<exists>p q g. s = p @ q @ rest \<and> p @ q \<noteq> [] \<and> out = p @ g @ redacted \<and> g \<in> {[], '' ''}))"

lemma marksD: "marks m \<Longrightarrow> m s = Some (out, rest) \<Longrightarrow> \<exists>p q g. s = p @ q @ rest \<and> p @ q \<noteq> [] \<and> out = p @ g @ redacted \<and> g \<in> {[], '' ''}"
  by (simp add: marks_def)

lemma replace_matches_Nil [simp]: "replace_matches m [] = []"
  by (simp add: replace_matches.simps)

lemma replace_matches_None: "m (c # t) = None \<Longrightarrow> replace_matches m (c # t) = c # replace_matches m t"
  by (simp add: replace_matches.simps [of m "c # t"])

lemma replace_matches_Some: "m s = Some (out, rest) \<Longrightarrow> length rest < length s \<Longrightarrow> replace_matches m s = out @ replace_matches m rest"
  by (subst replace_matches.simps) (auto split: list.split)

lemma marks_induct [consumes 1, case_names Nil Skip Match]:
  assumes "marks m" and "P []"
    and "\<And>c t. m (c # t) = None \<Longrightarrow> P t \<Longrightarrow> P (c # t)"
    and "\<And>p q g rest. m (p @ q @ rest) = Some (p @ g @ redacted, rest) \<Longrightarrow> p @ q \<noteq> [] \<Longrightarrow> g \<in> {[], '' ''}
      \<Longrightarrow> replace_matches m (p @ q @ rest) = p @ g @ redacted @ replace_matches m rest \<Longrightarrow> P rest \<Longrightarrow> P (p @ q @ rest)"
  shows "P s"
proof (induction s rule: measure_induct_rule [of length])
  case (less s)
  show ?case
  proof (cases "m s")
    case None
    with less assms(2, 3) show ?thesis by (cases s) auto
  next
    case (Some or)
    then obtain out rest where "m s = Some (out, rest)" by (cases or) auto
    from marksD [OF assms(1) this] this obtain p q g where *: "s = p @ q @ rest" "p @ q \<noteq> []" "out = p @ g @ redacted" "g \<in> {[], '' ''}"
        "m s = Some (p @ g @ redacted, rest)" by blast
    then have "length rest < length s" by auto
    with * less assms(4) [of p q rest g] replace_matches_Some [of m s "p @ g @ redacted" rest] show ?thesis by simp
  qed
qed

lemma replace_matches_part:
  assumes "marks m" and "plain_part w"
  shows "sublist w (a @ replace_matches m s) \<Longrightarrow> sublist w (a @ s) \<or> sublist w ''REDACTED''"
  using assms(1)
proof (induction s arbitrary: a rule: marks_induct)
  case (Skip c t)
  then show ?case using Skip.IH [of "a @ [c]"] by (simp add: replace_matches_None)
next
  case (Match p q g rest)
  have "sublist w ((a @ p @ g) @ redacted @ replace_matches m rest)" using Match by simp
  with plain_in_mark [OF assms(2)] consider "sublist w (a @ p @ g)" | "sublist w ''REDACTED''" | "sublist w (replace_matches m rest)" by blast
  then show ?case
  proof cases
    case 1
    with Match(3) sublist_at_separator [of w "a @ p" "CHR '' ''" "[]"] plain_part_separators(1) [OF assms(2)]
    have "sublist w (a @ p) \<or> w = []" by auto
    then show ?thesis using sublist_within [of w "a @ p" "[]" "q @ rest"] by auto
  next
    case 3
    with Match.IH [of "[]"] sublist_within [of w rest "a @ p @ q" "[]"] show ?thesis by auto
  qed simp
qed simp

lemma replace_matches_harmless: "marks m \<Longrightarrow> harmless t (replace_matches m t)"
  using replace_matches_part [where a = "[]"] by (auto intro!: harmlessI)

section \<open>The matchers keep their contract\<close>

lemma literal_marks:
  assumes "old \<noteq> []"
  shows "marks (literal old)"
  unfolding marks_def
proof (intro allI impI exI conjI)
  fix s out rest
  assume "literal old s = Some (out, rest)"
  then have "s = old @ rest" "out = redacted" by (auto simp: literal_def has_prefix_iff split: if_splits)
  then show "s = [] @ old @ rest" "out = [] @ [] @ redacted" by simp_all
qed (use assms in simp_all)

lemma suffix_consumed: "suffix rest s \<Longrightarrow> s = consumed s rest @ rest"
  by (auto simp: suffix_def consumed_def)

lemma fold_one_suffix: "fold_one c s = Some t \<Longrightarrow> suffix t s \<and> t \<noteq> s"
  by (cases s) (auto simp: fold_one_def has_prefix_iff split: if_splits intro: suffix_ConsI suffix_drop suffixI)

lemma fold_word_suffix: "fold_word p s = Some t \<Longrightarrow> suffix t s"
proof (induction p s rule: fold_word.induct)
  case (2 c p s)
  then show ?case by (auto split: option.splits dest!: fold_one_suffix intro: suffix_order.order_trans)
qed simp

lemma fold_any_suffix: "fold_any ps s = Some t \<Longrightarrow> suffix t s"
  by (induction ps) (auto split: option.splits dest: fold_word_suffix)

lemma suffix_steps:
  "suffix (opt_quote s) s" "suffix (skip_re_space s) s" "suffix (bearer_rest s) s" "suffix (dropWhile P s) s"
proof -
  show "suffix (bearer_rest s) s"
  proof (induction s rule: bearer_rest.induct)
    case (2 c t)
    then show ?case using suffix_drop [of 1 t] suffix_drop [of 2 t]
      by (auto intro: suffix_ConsI suffix_order.order_trans simp del: suffix_drop)
  qed simp
qed (auto simp: opt_quote_def skip_re_space_def suffix_dropWhile split: list.splits intro: suffix_ConsI)

text \<open>A match that keeps its text up to a suffix and puts the mark before what follows that suffix.\<close>

lemma mark_value:
  assumes "suffix s3 s" and "suffix rest s3" and "rest \<noteq> s3"
  shows "\<exists>p q g. s = p @ q @ rest \<and> p @ q \<noteq> [] \<and> consumed s s3 @ redacted = p @ g @ redacted \<and> g \<in> {[], '' ''}"
proof (intro exI conjI)
  show "s = consumed s s3 @ consumed s3 rest @ rest" using suffix_consumed assms by metis
  then show "consumed s s3 @ consumed s3 rest \<noteq> []" using assms(3) suffix_consumed [OF assms(1)] suffix_consumed [OF assms(2)] by auto
  show "consumed s s3 @ redacted = consumed s s3 @ [] @ redacted" by simp
qed simp

lemmas suffix_trans = suffix_order.order_trans

lemma suffix_shorter:
  assumes "suffix t s" and "suffix u t" and "suffix r u" and "r \<noteq> u"
  shows "suffix r s \<and> r \<noteq> s"
  using assms by (auto simp: suffix_def)

lemma doctorHTTPBodyRE_marks: "marks doctorHTTPBodyRE"
  unfolding marks_def
proof (intro allI impI)
  fix s out rest
  assume "doctorHTTPBodyRE s = Some (out, rest)"
  then obtain s1 s2 a b c r where "fold_any [''returned'', ''unexpected''] s = Some s1" "fold_word '' status '' s1 = Some s2"
      "s2 = a # b # c # CHR '':'' # r" "out = consumed s r @ '' '' @ redacted" "rest = []"
    by (auto simp: doctorHTTPBodyRE_def split: option.splits list.splits if_splits)
  moreover from this have "suffix r s2" "r \<noteq> s2" by (auto simp: suffix_def)
  ultimately have r: "suffix r s" "r \<noteq> s" "out = consumed s r @ '' '' @ redacted" "rest = []"
    using suffix_shorter [OF fold_any_suffix fold_word_suffix] by blast+
  then show "\<exists>p q g. s = p @ q @ rest \<and> p @ q \<noteq> [] \<and> out = p @ g @ redacted \<and> g \<in> {[], '' ''}"
    using suffix_consumed [OF r(1)] by (intro exI [of _ "consumed s r"] exI [of _ r] exI [of _ "'' ''"]) auto
qed

lemma doctorSensitiveFieldRE_marks: "marks doctorSensitiveFieldRE"
  unfolding marks_def
proof (intro allI impI)
  fix s out rest
  assume "doctorSensitiveFieldRE s = Some (out, rest)"
  then obtain s1 c s2 where a: "fold_any sensitive_names (opt_quote s) = Some s1" "skip_re_space (opt_quote s1) = c # s2"
      and b: "rest = dropWhile sensitive_value (opt_quote (skip_re_space s2))" "rest \<noteq> opt_quote (skip_re_space s2)"
      "out = consumed s (opt_quote (skip_re_space s2)) @ redacted"
    by (auto simp: doctorSensitiveFieldRE_def Let_def split: option.split_asm list.split_asm if_split_asm)
  have "suffix (c # s2) s"
    using suffix_trans [OF suffix_steps(2) [of "opt_quote s1", unfolded a(2)]
        suffix_trans [OF suffix_steps(1) suffix_trans [OF fold_any_suffix [OF a(1)] suffix_steps(1)]]] .
  from suffix_trans [OF suffix_trans [OF suffix_steps(1) suffix_steps(2)] suffix_ConsD [OF this]]
  have "suffix (opt_quote (skip_re_space s2)) s" .
  from mark_value [OF this suffix_steps(4)] b
  show "\<exists>p q g. s = p @ q @ rest \<and> p @ q \<noteq> [] \<and> out = p @ g @ redacted \<and> g \<in> {[], '' ''}" by blast
qed

lemma doctorBearerRE_marks: "marks doctorBearerRE"
  unfolding marks_def
proof (intro allI impI)
  fix s out rest
  assume "doctorBearerRE s = Some (out, rest)"
  then obtain s1 where a: "fold_word ''bearer'' s = Some s1" and b: "rest = bearer_rest (skip_re_space s1)" "rest \<noteq> skip_re_space s1"
      "out = consumed s (skip_re_space s1) @ redacted"
    by (auto simp: doctorBearerRE_def Let_def split: option.split_asm if_split_asm)
  have "suffix (skip_re_space s1) s"
    by (rule suffix_trans [OF suffix_steps(2) fold_word_suffix [OF a]])
  from mark_value [OF this suffix_steps(3)] b
  show "\<exists>p q g. s = p @ q @ rest \<and> p @ q \<noteq> [] \<and> out = p @ g @ redacted \<and> g \<in> {[], '' ''}" by blast
qed

lemma jwt_group_suffix:
  assumes "jwt_group s = Some t"
  shows "suffix t s \<and> t \<noteq> s"
proof -
  have t: "t = dropWhile jwt_char s" and "takeWhile jwt_char s \<noteq> []" using assms by (auto simp: jwt_group_def split: if_splits)
  with takeWhile_dropWhile_id [of jwt_char s] show ?thesis by (metis append_self_conv2 suffix_dropWhile)
qed

lemma jwt_dot_suffix: "jwt_dot s = Some t \<Longrightarrow> suffix t s"
  by (cases s) (auto simp: jwt_dot_def split: if_splits intro: suffix_ConsI)

lemma doctorJWTRE_marks: "marks doctorJWTRE"
  unfolding marks_def
proof (intro allI impI)
  fix s out rest
  assume "doctorJWTRE s = Some (out, rest)"
  then obtain s0 s1 s2 s3 where j: "jwt_group s = Some s0" "jwt_dot s0 = Some s1" "jwt_group s1 = Some s2" "jwt_dot s2 = Some s3"
      "jwt_group s3 = Some rest" and out: "out = redacted"
    by (auto simp: doctorJWTRE_def split: option.split_asm bind_split_asm)
  have "suffix rest s0 \<and> suffix s0 s \<and> s0 \<noteq> s"
    using suffix_trans [OF suffix_trans [OF _ jwt_dot_suffix [OF j(4)]] suffix_trans [OF _ jwt_dot_suffix [OF j(2)]]]
      jwt_group_suffix [OF j(1)] jwt_group_suffix [OF j(3)] jwt_group_suffix [OF j(5)] by blast
  then have "suffix rest s" "rest \<noteq> s" by (auto simp: suffix_def)
  then obtain q where "s = q @ rest" "q \<noteq> []" by (auto simp: suffix_def)
  with out show "\<exists>p q g. s = p @ q @ rest \<and> p @ q \<noteq> [] \<and> out = p @ g @ redacted \<and> g \<in> {[], '' ''}"
    by (intro exI [of _ "[]"] exI [of _ q]) simp
qed

lemmas regexps_harmless = doctorHTTPBodyRE_marks [THEN replace_matches_harmless] doctorSensitiveFieldRE_marks [THEN replace_matches_harmless]
  doctorBearerRE_marks [THEN replace_matches_harmless] doctorJWTRE_marks [THEN replace_matches_harmless]

section \<open>Runes, fields and the bound\<close>

lemma runes_text_part:
  assumes "plain_part w"
  shows "sublist w (a @ runes_text (runes s)) \<Longrightarrow> sublist w (a @ s)"
proof (induction s arbitrary: a rule: rune_induct)
  case Nil
  then show ?case by (simp add: runes_text_def runes.simps)
next
  case (Valid bs s)
  then show ?case using Valid.IH [of "a @ bs"] by (simp add: runes_text_def rune_text_def runes_valid)
next
  case (Invalid c s)
  have mark: "encode_rune 0xFFFD = map char_of [0xEF, 0xBF, 0xBD::nat]" by (simp add: encode_rune_def)
  have high: "\<And>b :: nat. 128 \<le> b \<Longrightarrow> b < 256 \<Longrightarrow> char_of b \<notin> set w"
    using plain_part_separators(4) [OF assms] by simp
  have "sublist w (a @ char_of (0xEF::nat) # char_of (0xBF::nat) # char_of (0xBD::nat) # runes_text (runes s))"
    using Invalid by (simp add: runes_text_def rune_text_def runes_invalid mark)
  then have "sublist w a \<or> sublist w ([] @ char_of (0xBF::nat) # char_of (0xBD::nat) # runes_text (runes s))"
    using sublist_at_separator [of w a "char_of (0xEF::nat)"] high [of "0xEF"] by simp
  moreover have "w \<noteq> []" using assms by (simp add: plain_part_def)
  ultimately have "sublist w a \<or> sublist w ([] @ char_of (0xBD::nat) # runes_text (runes s))"
    using sublist_at_separator [of w "[]" "char_of (0xBF::nat)"] high [of "0xBF"] by auto
  then have "sublist w a \<or> sublist w (runes_text (runes s))"
    using sublist_at_separator [of w "[]" "char_of (0xBD::nat)" "runes_text (runes s)"] high [of "0xBD"] \<open>w \<noteq> []\<close> by auto
  then show ?case
    using Invalid.IH [of "[]"] sublist_within [of w a "[]" "c # s"] sublist_within [of w s "a @ [c]" "[]"] by auto
qed

lemma runes_text_take: "prefix (runes_text (take n rs)) (runes_text rs)"
  unfolding runes_text_def by (metis append_take_drop_id concat_append map_append prefixI)

lemma runes_text_harmless: "harmless s (runes_text (take n (runes s)))"
proof (rule harmlessI)
  fix w assume w: "plain_part w" "sublist w (runes_text (take n (runes s)))"
  then have "sublist w (runes_text (runes s))" using runes_text_take sublist_order.order_trans prefix_imp_sublist by blast
  with runes_text_part [OF w(1), of "[]" s] show "sublist w s \<or> sublist w ''REDACTED''" by simp
qed

lemma group_runes_parts: "f \<in> set (group_runes rs v) \<Longrightarrow> sublist f (v @ concat (map fst rs))"
proof (induction rs arbitrary: v)
  case (Cons r rs)
  then show ?case
    using sublist_within [of f "concat (map fst rs)" "v @ fst r" "[]"] sublist_within [of f v "[]" "fst r @ concat (map fst rs)"]
    by (fastforce split: if_splits)
qed (simp split: if_splits)

lemma concat_runes: "concat (map fst (runes s)) = s"
  by (induction s rule: rune_induct) (simp_all add: runes_valid runes_invalid runes.simps [of "[]"])

lemma string_fields_parts: "f \<in> set (string_fields s) \<Longrightarrow> sublist f s"
  using group_runes_parts [of f "runes s" "[]"] by (simp add: string_fields_def concat_runes)

lemma join_part:
  assumes "w \<noteq> []" and "CHR '' '' \<notin> set w"
  shows "sublist w (join_with '' '' fs) \<Longrightarrow> \<exists>f \<in> set fs. sublist w f"
proof (induction "'' '' :: string" fs rule: join_with.induct)
  case (3 f g fs)
  then have "sublist w f \<or> sublist w (join_with '' '' (g # fs))"
    using sublist_at_separator [OF _ assms(2)] by simp
  with 3 show ?case by auto
qed (use assms in simp_all)

lemma fields_harmless: "harmless s (join_with '' '' (string_fields s))"
proof (rule harmlessI)
  fix w assume w: "plain_part w" "sublist w (join_with '' '' (string_fields s))"
  with join_part [of w] obtain f where "f \<in> set (string_fields s)" "sublist w f" by (auto simp: plain_part_def)
  with string_fields_parts sublist_order.order_trans show "sublist w s \<or> sublist w ''REDACTED''" by blast
qed

lemma bound_error_harmless: "s \<noteq> [] \<Longrightarrow> harmless s (bound_error s)"
proof (rule harmlessI)
  fix w assume s: "s \<noteq> []" and w: "plain_part w" "sublist w (bound_error s)"
  from w(1) have "w \<noteq> []" "last w \<noteq> CHR ''.''" by (simp_all add: plain_part_def)
  then have dots: "sublist w (a @ ''...'') \<Longrightarrow> sublist w a" for a
    using sublist_snoc_other [of w "a @ ''..''" "CHR ''.''"] sublist_snoc_other [of w "a @ ''.''" "CHR ''.''"]
      sublist_snoc_other [of w a "CHR ''.''"] by simp
  have "sublist w (runes_text (take 237 (runes s))) \<or> sublist w (runes_text (take (length (runes s)) (runes s)))"
    using w(2) s dots by (auto simp: bound_error_def split: if_splits)
  with runes_text_harmless w(1) show "sublist w s \<or> sublist w ''REDACTED''" unfolding harmless_def by blast
qed

section \<open>Secrets are gone\<close>

lemma replaced_prefix:
  assumes "CHR ''['' \<notin> set v" and "prefix v (replace_matches (literal x) s)" and "x \<noteq> []"
  shows "prefix v s"
  using literal_marks [OF assms(3)] assms(1, 2)
proof (induction s arbitrary: v rule: marks_induct)
  case (Skip c t)
  then show ?case by (cases v) (auto simp: replace_matches_None)
next
  case (Match p q g rest)
  then have out: "p @ g = []"
    by (auto simp: literal_def redacted_def append_eq_Cons_conv split: if_splits)
  with Match(4, 7) have "prefix v (redacted @ replace_matches (literal x) rest)" by simp
  with Match(6) show ?case by (cases v) (auto simp: redacted_def)
qed simp

lemma literal_gone:
  assumes "plain_part x" and "\<not> sublist x ''REDACTED''"
  shows "\<not> sublist x (replace_matches (literal x) s)"
proof -
  have x: "x \<noteq> []" "CHR ''['' \<notin> set x" using assms(1) by (simp_all add: plain_part_def)
  from literal_marks [OF x(1)] show ?thesis
  proof (induction s rule: marks_induct)
    case (Skip c t)
    have "\<not> prefix x (c # replace_matches (literal x) t)"
    proof
      assume "prefix x (c # replace_matches (literal x) t)"
      with x obtain v where v: "x = c # v" "prefix v (replace_matches (literal x) t)" by (auto simp: prefix_Cons)
      with replaced_prefix [of v x t] x have "prefix x (c # t)" by simp
      with Skip(1) show False by (auto simp: literal_def has_prefix_iff prefix_def split: if_splits)
    qed
    with Skip show ?case by (simp add: replace_matches_None sublist_Cons_right)
  next
    case (Match p q g rest)
    then have out: "p @ g = []" by (auto simp: literal_def redacted_def append_eq_Cons_conv split: if_splits)
    show ?case
    proof
      assume "sublist x (replace_matches (literal x) (p @ q @ rest))"
      then have "sublist x ([] @ redacted @ replace_matches (literal x) rest)" using Match(4) out by simp
      from plain_in_mark [OF assms(1) this] assms(2) Match x show False by auto
    qed
  qed (use x in simp)
qed

lemma literal_harmless: "harmless t (replace_matches (literal old) t)"
proof (cases "old = []")
  case True
  have "literal [] u = Some (redacted, u)" for u by (simp add: literal_def has_prefix_def)
  with True have "replace_matches (literal old) t = t" by (subst replace_matches.simps) (auto split: list.split)
  then show ?thesis by (simp add: harmless_refl)
qed (rule replace_matches_harmless [OF literal_marks])

lemma redact_secret_harmless: "harmless t (redact_secret t x)"
  by (cases "x = []") (simp_all add: redact_secret_def harmless_refl harmless_trans [OF literal_harmless literal_harmless])

lemma redact_secrets_harmless: "harmless t (foldl redact_secret t xs)"
  by (induction xs arbitrary: t) (auto intro: harmless_trans redact_secret_harmless)

lemma harmless_gone:
  assumes "harmless t t'" and "plain_part x" and "\<not> sublist x ''REDACTED''" and "\<not> sublist x t"
  shows "\<not> sublist x t'"
  using assms unfolding harmless_def by blast

lemma redact_secrets_gone:
  assumes "x \<in> set xs" and "plain_part x" and "\<not> sublist x ''REDACTED''"
  shows "\<not> sublist x (foldl redact_secret t xs)"
proof -
  from assms(1) obtain us vs where xs: "xs = us @ x # vs" by (auto simp: in_set_conv_decomp)
  let ?u = "foldl redact_secret t us"
  have "\<not> sublist x (redact_secret ?u x)"
    using harmless_gone [OF literal_harmless assms(2, 3) literal_gone [OF assms(2, 3)]] assms(2)
    by (simp add: redact_secret_def plain_part_def)
  from harmless_gone [OF redact_secrets_harmless assms(2, 3) this] show ?thesis by (simp add: xs)
qed

text \<open>The steps after the secrets, put together.\<close>

lemma sanitize_steps:
  assumes "sanitizeDoctorError (Some text) secrets \<noteq> ''request failed without details''"
  shows "harmless (foldl redact_secret text (sort_slice longer_secret secrets)) (sanitizeDoctorError (Some text) secrets)"
proof -
  let ?m = "replace_matches"
  define t1 where "t1 = runes_text (take 4096 (runes (foldl redact_secret text (sort_slice longer_secret secrets))))"
  define t2 where "t2 = ?m doctorJWTRE (?m doctorBearerRE (?m doctorSensitiveFieldRE (?m doctorHTTPBodyRE t1)))"
  have out: "sanitizeDoctorError (Some text) secrets = bound_error (join_with '' '' (string_fields t2))"
    by (simp add: sanitizeDoctorError_def Let_def t1_def t2_def)
  with assms have "join_with '' '' (string_fields t2) \<noteq> []" by (auto simp: bound_error_def)
  from bound_error_harmless [OF this] fields_harmless [of t2] have "harmless t2 (sanitizeDoctorError (Some text) secrets)"
    unfolding out by (blast intro: harmless_trans)
  moreover have "harmless t1 t2" unfolding t2_def using regexps_harmless by (blast intro: harmless_trans)
  moreover have "harmless (foldl redact_secret text (sort_slice longer_secret secrets)) t1"
    unfolding t1_def by (rule runes_text_harmless)
  ultimately show ?thesis by (blast intro: harmless_trans)
qed

lemma sanitize_hides:
  assumes "x \<in> set secrets" and "plain_part x" and "\<not> sublist x ''REDACTED''"
    and "sanitizeDoctorError (Some text) secrets \<noteq> ''request failed without details''"
  shows "\<not> sublist x (sanitizeDoctorError (Some text) secrets)"
  using harmless_gone [OF sanitize_steps [OF assms(4)] assms(2, 3) redact_secrets_gone [OF _ assms(2, 3)]] assms(1) by simp

text \<open>
  C13: A secret never gets into an error text. Whatever the error says, and in whatever form the secrets occur, a known secret
  that is ASCII without spaces and brackets, does not end in a dot and is no part of the word of the mark does not occur
  in what is shown, which is otherwise one of the two texts for errors without details; the other redactions, the
  conversions, the joining and the cut do not bring it back.
\<close>
theorem redaction_hides_secrets:
  assumes "x \<in> set secrets" and "plain_part x" and "\<not> sublist x ''REDACTED''"
  shows "case err of None \<Rightarrow> sanitizeDoctorError err secrets = ''unknown error''
    | Some text \<Rightarrow> if sanitizeDoctorError err secrets = ''request failed without details'' then True
        else \<not> sublist x (sanitizeDoctorError err secrets)"
proof (cases err)
  case None
  then show ?thesis by (simp add: sanitizeDoctorError_def)
next
  case (Some msg)
  with sanitize_hides [OF assms, of msg] show ?thesis by simp
qed

lemma redaction_hides_secrets_witness:
  "\<not> sublist ''s3cr3t'' (sanitizeDoctorError (Some ''GET /x: key s3cr3t  refused'') [''s3cr3t'', ''other''])"
proof -
  have "sanitizeDoctorError (Some ''GET /x: key s3cr3t  refused'') [''s3cr3t'', ''other''] = ''GET /x: key [REDACTED] refused''"
    by code_simp
  moreover have "plain_part ''s3cr3t''" "\<not> sublist ''s3cr3t'' ''REDACTED''" by (simp_all add: plain_part_def sublist_code)
  ultimately show ?thesis
    using redaction_hides_secrets [of "''s3cr3t''" "[''s3cr3t'', ''other'']" "Some ''GET /x: key s3cr3t  refused''"] by simp
qed

text \<open>The same for the values that the Tailscale client knows, in the message and in the cause it carries.\<close>

theorem tailscale_errors_hide_secrets:
  assumes "x \<in> set ([clientID c, clientSecret c, accessToken c] @ extra)" and "plain_part x" and "\<not> sublist x ''REDACTED''"
    and "redactErrorWith c (Some (text, Some (section, reason))) extra = Some (message, Some (section', reason'))"
    and "t \<in> {message, section', reason'}"
  shows "t = ''request failed without details'' \<or> \<not> sublist x t"
proof -
  have "x \<in> set (tailscale_secrets c extra)"
    using assms(1, 2) by (auto simp: tailscale_secrets_def plain_part_def)
  note hides = sanitize_hides [OF this assms(2, 3)]
  have "x \<noteq> []" using assms(2) by (simp add: plain_part_def)
  with hides assms(4, 5) show ?thesis
    by (auto simp: redactErrorWith_def Let_def split: if_splits)
qed

text \<open>The values of the configuration and of the environment are among those the commands redact.\<close>

lemma doctorSecretValues_complete:
  "lookup key = (v, True, False) \<Longrightarrow> v \<noteq> [] \<Longrightarrow> key \<in> set secret_keys \<Longrightarrow> v \<in> set (doctorSecretValues lookup)"
  by (force simp: doctorSecretValues_def intro!: bexI [of _ key])

lemma npm_excerpt_hides_password:
  assumes "plain_part (password c)" and "\<not> sublist (password c) ''REDACTED''"
    and "e = npmErrorExcerpt (Some (Some body)) [password c, npm_token c]"
  shows "e \<in> {''response body empty'', ''request failed without details''} \<or> \<not> sublist (password c) e"
  using sanitize_hides [OF _ assms(1, 2), of "[password c, npm_token c]" "take 4096 body"] assms(3)
  by (auto simp: npmErrorExcerpt_def error_excerpt_def)

end
