(* ===== verification/Health_Poller.thy ===== *)
theory Health_Poller
  imports Service_Health File_Load
begin

text \<open>
  The loop of the health poller (\<open>Start\<close> in \<open>service_health.go\<close>): a cycle at once, then one each time the delay the last one
  returned is over, until the context is cancelled. Every cycle loads the configuration anew. Time, the files, the snapshot
  and the schedule of the workers are those of the step.
\<close>

record poller =
  po_running :: bool
  po_due :: int
  po_store :: ServiceHealthStore
  po_dialed :: "(addr \<times> 16 word) list"
  po_starts :: "int list"

definition NewServiceHealthPoller :: "int \<Rightarrow> poller" where
  "NewServiceHealthPoller now = \<lparr>po_running = True, po_due = now, po_store = None, po_dialed = [], po_starts = []\<rparr>"

text \<open>One round that starts at one time and ends at another.\<close>

definition poller_cycle ::
    "cycle_env \<Rightarrow> string list \<Rightarrow> (string \<Rightarrow> disk_file) \<Rightarrow> string \<Rightarrow> CacheData option \<Rightarrow> int \<Rightarrow> int \<Rightarrow> poller \<Rightarrow> poller" where
  "poller_cycle env urls files path snapshot t t' p =
     (case runCycle env urls snapshot (map_sum id Some (serviceHealthConfigLoaderForPath files path)) (po_store p) of
        (delay, store, dialed) \<Rightarrow>
          p\<lparr>po_due := t' + delay, po_store := store, po_dialed := po_dialed p @ dialed, po_starts := po_starts p @ [t]\<rparr>)"

inductive poller_step :: "string list \<Rightarrow> string \<Rightarrow> poller \<Rightarrow> poller \<Rightarrow> bool" for urls :: "string list" and path :: string where
  Cycle: "po_running p \<Longrightarrow> po_due p \<le> t \<Longrightarrow> t \<le> t' \<Longrightarrow> (\<And>jobs. set (ce_probed env jobs) \<subseteq> set jobs)
    \<Longrightarrow> poller_step urls path p (poller_cycle env urls files path snapshot t t' p)"
| Cancel: "po_running p \<Longrightarrow> poller_step urls path p (p\<lparr>po_running := False\<rparr>)"

inductive_cases poller_stepE: "poller_step urls path p p'"

inductive poller_reachable :: "string list \<Rightarrow> string \<Rightarrow> poller \<Rightarrow> bool" for urls :: "string list" and path :: string where
  Start: "poller_reachable urls path (NewServiceHealthPoller now)"
| Step: "poller_reachable urls path p \<Longrightarrow> poller_step urls path p p' \<Longrightarrow> poller_reachable urls path p'"

text \<open>A configuration that is enabled came from a file that the parser accepted.\<close>

lemma loaded_enabled_ok:
  assumes "serviceHealthConfigLoaderForPath files path = Inr c" and "hc_Enabled c"
  shows "health_config_ok c"
proof (cases "trim_space path = []")
  case True
  with assms have "hc_Enabled emptyServiceHealthConfig" by (simp add: serviceHealthConfigLoaderForPath_def)
  then show ?thesis by (simp add: emptyServiceHealthConfig_def)
next
  case False
  with assms(1) obtain data where "parseServiceHealthConfig data = Inr c"
    by (auto simp: serviceHealthConfigLoaderForPath_def loadServiceHealthConfigFile_def parse_loaded_def split: sum.splits)
  then show ?thesis by (rule parseServiceHealthConfig_sound)
qed

lemma cycle_delay:
  assumes "runCycle env urls snapshot (map_sum id Some (serviceHealthConfigLoaderForPath files path)) store = (delay, store', dialed)"
  shows "min_interval \<le> delay"
proof -
  have delay: "fst (enabled_cycle env urls snapshot c) = Interval c" for c
    by (simp add: enabled_cycle_def Let_def split: option.split sum.split)
  have "delay = default_interval \<or> (\<exists>c. serviceHealthConfigLoaderForPath files path = Inr c \<and> hc_Enabled c \<and> delay = Interval c)"
  proof (cases "serviceHealthConfigLoaderForPath files path")
    case (Inr c)
    with assms delay [of c] show ?thesis by (auto simp: runCycle_def split: if_split_asm)
  qed (use assms in \<open>simp add: runCycle_def\<close>)
  then show ?thesis
    using loaded_enabled_ok by (auto simp: health_config_ok_def min_interval_def default_interval_def second_def)
qed

lemma cycle_confined:
  assumes "runCycle env urls snapshot (map_sum id Some (serviceHealthConfigLoaderForPath files path)) store = (delay, store', dialed)"
    and "(a, port) \<in> set dialed" and "\<And>jobs. set (ce_probed env jobs) \<subseteq> set jobs"
  shows "\<not> serviceProbeDangerousAddress a \<and> (\<exists>c. health_config_ok c \<and> (\<exists>n \<in> set (AllowedCIDRs c). prefix_contains n a))"
proof -
  obtain c where c: "serviceHealthConfigLoaderForPath files path = Inr c"
    using assms(1, 2) by (cases "serviceHealthConfigLoaderForPath files path") (auto simp: runCycle_def)
  with assms(1) have "runCycle env urls snapshot (Inr (Some c) :: health_config_error document_error + _) store = (delay, store', dialed)"
    by simp
  with assms(2) have "(a, port) \<in> set (snd (snd (runCycle env urls snapshot (Inr (Some c) :: health_config_error document_error + _) store)))"
    by simp
  then obtain d engine j where j: "newServiceProbeEngine (Some c) urls = Inr engine" "hc_Enabled c" "(a, port) \<in> set (snd (job_probe env engine j))"
    by (rule runCycle_dialed)
  from j(3) [unfolded job_probe_def] obtain target addresses where
      "validateTarget engine (net_answer (ce_net env j)) (net_protected (ce_net env j)) target = Some addresses" "a \<in> set addresses"
    by (rule Probe_dialed)
  from validateTarget_ok [OF this] newServiceProbeEngine_ok [OF j(1)] loaded_enabled_ok [OF c j(2)]
  show ?thesis by (auto simp: safe_socket_def)
qed

section \<open>Every run\<close>

text \<open>
  The invariant of the loop: cycles start at least fifteen seconds apart, the next one is no earlier, and whatever was
  dialed lies in a network that an accepted configuration allows and is no dangerous address.
\<close>

definition paced :: "int list \<Rightarrow> bool" where
  "paced ts \<longleftrightarrow> successively (\<lambda>t u. t + min_interval \<le> u) ts"

definition confined :: "(addr \<times> 16 word) list \<Rightarrow> bool" where
  "confined dialed \<longleftrightarrow> (\<forall>(a, port) \<in> set dialed.
     \<not> serviceProbeDangerousAddress a \<and> (\<exists>c. health_config_ok c \<and> (\<exists>n \<in> set (AllowedCIDRs c). prefix_contains n a)))"

definition poller_ok :: "poller \<Rightarrow> bool" where
  "poller_ok p \<longleftrightarrow> paced (po_starts p) \<and> (po_starts p = [] \<or> last (po_starts p) + min_interval \<le> po_due p) \<and> confined (po_dialed p)"

lemma poller_cycle_ok:
  assumes "poller_ok p" and "po_due p \<le> t" and "t \<le> t'" and "\<And>jobs. set (ce_probed env jobs) \<subseteq> set jobs"
  shows "poller_ok (poller_cycle env urls files path snapshot t t' p)"
proof -
  obtain delay store dialed where run:
      "runCycle env urls snapshot (map_sum id Some (serviceHealthConfigLoaderForPath files path)) (po_store p) = (delay, store, dialed)"
    by (metis prod_cases3)
  from cycle_confined [OF run _ assms(4)] have "confined dialed" by (auto simp: confined_def)
  with assms(1-3) cycle_delay [OF run] show ?thesis
    by (auto simp: poller_ok_def poller_cycle_def run paced_def confined_def successively_append_iff)
qed

theorem poller_paced_and_confined:
  "poller_reachable urls path p \<Longrightarrow> poller_ok p"
proof (induction rule: poller_reachable.induct)
  case (Start now)
  show ?case by (simp add: poller_ok_def NewServiceHealthPoller_def paced_def confined_def)
next
  case (Step p p')
  from Step(2) show ?case
  proof (cases rule: poller_step.cases)
    case (Cycle t t' env files snapshot)
    with poller_cycle_ok [OF Step.IH] show ?thesis by simp
  next
    case Cancel
    with Step.IH show ?thesis by (simp add: poller_ok_def)
  qed
qed

text \<open>After the cancellation nothing happens any more.\<close>

lemma cancelled_is_final: "\<not> po_running p \<Longrightarrow> \<not> poller_step urls path p p'"
  by (auto elim: poller_stepE)

end
