(* ===== verification/Spec2Isabelle.thy ===== *)
theory Spec2Isabelle
  imports Suggest_Review Cli Cache Envfile Server Redact Health_Poller
begin

text \<open>
  Velociportal: a portal in front of Nginx Proxy Manager that shows each person of a tailnet the services and the
  machines that the access policy of the tailnet lets them open, and nothing else.

  \<^bold>\<open>The program.\<close> A refresh (\<open>cache.go\<close>) loads the access policy, the users, groups and devices from one control plane,
  Headscale (\<open>headscale.go\<close>) or Tailscale (\<open>tailscale.go\<close>), both decoded and validated by \<open>controlplane.go\<close>, and the
  proxy hosts from the proxy manager (\<open>npm.go\<close>), all through \<open>upstream.go\<close>; the metadata of the services comes from a
  file (\<open>service_metadata.go\<close>) or from its editor (\<open>service_metadata_editor.go\<close>). The result is one snapshot. A poller
  (\<open>service_health.go\<close>, \<open>service_probe.go\<close>) dials the backends that the file of \<open>service_health_config.go\<close> allows. A
  request passes the identity middleware (\<open>auth.go\<close>), which trusts the headers of one proxy only; \<open>matcher.go\<close> and
  \<open>machine_matcher.go\<close> compute what the identity may open in the snapshot, and \<open>handlers.go\<close> writes the page.
  \<open>service_metadata_editor_http.go\<close> serves the editor. \<open>main.go\<close> reads the configuration and starts the server;
  \<open>cli.go\<close> dispatches to the commands setup (\<open>setup.go\<close>, \<open>proxy_observer.go\<close>, \<open>envfile.go\<close>), doctor (\<open>doctor.go\<close>,
  \<open>doctor_stack_env.go\<close>), validate (\<open>validation.go\<close>), suggest-hostnames (\<open>hostname_suggestions.go\<close> and
  \<open>hostname_suggestions_command.go\<close>) and healthcheck.

  \<^bold>\<open>The standard library.\<close> What the program uses of Go is defined once, on byte strings, and shared:
  \<^item> \<open>Portal_Prelude\<close>: results, loops that stop at an error, maps as entry sequences in iteration order, and sorting with a
    comparison. The locales \<open>sort_order\<close> and \<open>total_sort_order\<close> say what a comparison has to satisfy; they are
    interpreted for the linear orders here and for every comparison function of the program where it is defined.
  \<^item> \<open>Go_Strings\<close> (strings, strconv, unicode), \<open>Go_Utf8\<close>, \<open>Go_Quote\<close> (strconv.Quote), \<open>Go_Netip\<close> and \<open>Go_Net\<close>
    (addresses at 32 and 128 bits), \<open>Netip_Print\<close> (printed addresses and peers are read back), \<open>Go_Url\<close>, \<open>Go_Time\<close> and \<open>Go_Clock\<close> (durations, RFC 3339), \<open>Go_Json\<close>, \<open>Go_Struct\<close>,
    \<open>Go_Json_Raw\<close>, \<open>Json_Print\<close> (encoding/json in both directions), \<open>Go_Flag\<close> (flag.FlagSet), \<open>Html\<close>
    (html.EscapeString and a reader of markup and of attributes).
  \<^item> \<open>Json_Roundtrip\<close> and \<open>Json_Utf8\<close>: printed values are read back, decoded strings are valid UTF-8.

  \<^bold>\<open>The program's parts, and what is shown of each.\<close>
  \<^item> \<open>Policy_Types\<close>, \<open>Ssh_Policy\<close>, \<open>Policy_Doc\<close> (\<open>controlplane.go\<close>): the policy and its validation. An accepted policy satisfies the
    invariant of the matchers; browser sources are people; capabilities that are printed are parsed back; a member that is
    not known is refused, with the one exception that is stated.
  \<^item> \<open>Portal_Data\<close>, \<open>Auth\<close> (\<open>auth.go\<close>): the identity of a request comes from the headers of the trusted peer, of any
    IPv4 or IPv6 address with or without a zone, or there is none.
  \<^item> \<open>Matcher\<close>, \<open>Service_Cards\<close> (\<open>matcher.go\<close>): the services of an identity are exactly those a declarative
    specification of the policy grants, in the order of the comparison; a generated link has the host and the scheme of the card. Nested
    groups are followed only in the order in which the map is visited, and it is stated which ones.
  \<^item> \<open>Machines\<close> (\<open>machine_matcher.go\<close>): the same for machines, with the accounts and the actions of the SSH rules.
  \<^item> \<open>Upstream\<close>, \<open>Npm\<close>, \<open>Control_Plane\<close>, \<open>Headscale_Client\<close>, \<open>Tailscale_Client\<close>: the loads with their errors. The
    locale \<open>bearer_client\<close> is the contract of a token that is renewed once, interpreted for the proxy manager and for
    Tailscale; the locale \<open>control_plane\<close> is the contract of a load, interpreted for both clients. A load makes a bounded
    number of requests, its roles are the known ones, every device has its owner, and the lifetime of a token is computed with the
    wrap-around of a 64-bit duration.
  \<^item> \<open>Cache\<close> (\<open>cache.go\<close>): a refresh replaces the whole snapshot or keeps it; no reachable cache holds part of one.
  \<^item> \<open>Metadata\<close>, \<open>Metadata_Write\<close>, \<open>Editor\<close>, \<open>File_Load\<close> (\<open>service_metadata.go\<close>, \<open>service_icons.go\<close>,
    \<open>service_metadata_editor.go\<close>): accepted documents are within every limit, a change alters one entry, what was written is read back, a
    commit happens on disk and in the view or in neither, and when the disk works it happens.
  \<^item> \<open>Editor_Http\<close> (\<open>service_metadata_editor_http.go\<close>): only the editor's login with a fresh token and the right origin changes
    the file.
  \<^item> \<open>Health_Config\<close>, \<open>Probe\<close>, \<open>Service_Health\<close>: a cycle, with its workers as any schedule, dials only addresses that
    the configuration allows and never the protected ones; it publishes a result for every host. \<open>Health_Poller\<close>: the loop around the
    cycles as a step relation; cycles are at least fifteen seconds apart in every run.
  \<^item> \<open>Suggestions\<close>, \<open>Suggest_Command\<close>: a suggestion is an isolated pair of the graph of names and hosts. The locale
    \<open>bipartite\<close> is the contract of the two neighbour functions, interpreted on the graph of the program. The command writes
    nothing but the proposal, after a yes, and replaces nothing. \<open>Suggest_Review\<close>: the review printed before has exactly the
    lines it should have, whatever the names.
  \<^item> \<open>Config\<close>, \<open>Setup\<close>, \<open>Envfile\<close>, \<open>Proxy_Observer\<close>, \<open>Cli\<close>, \<open>Healthcheck\<close>: an accepted configuration is safe to serve, the trusted
    proxies are never a whole address space, the wizard writes files that the server accepts, files are replaced
    atomically, and the observed proxy is the peer that the middleware will trust.
  \<^item> \<open>Stack_Env\<close>, \<open>Doctor\<close>, \<open>Validation\<close>: the reports. The exit code of the diagnostics is exactly the presence of an
    error; the report of the validation is what the matcher shows.
  \<^item> \<open>Redact\<close> (\<open>sanitizeDoctorError\<close>, \<open>redactErrorWith\<close>): error texts with their secrets removed; a known secret never occurs in
    one.
  \<^item> \<open>Portal_Cards\<close>, \<open>Portal_Machines\<close>, \<open>Portal_Page\<close>, \<open>Server\<close> (\<open>handlers.go\<close>, \<open>service_metadata_editor_ui.go\<close>, \<open>main.go\<close>):
    the cards byte for byte. The markup is the same whatever the data: no name or label adds a tag or an
    attribute, and the links that are read in it are the http and https URLs of the linked cards; a copied command is three words for a shell; the page is filled in one pass, so data with the text of a place holder
    stays data; a request from an address that is not trusted gets an answer that does not depend on the
    snapshot, the editor or the results of the checks, but for the age of the snapshot that the health endpoint tells everybody.
\<close>

text \<open>
  \<^bold>\<open>Conventions.\<close> Strings are lists of bytes. A Go function with an error returns \<open>Inl\<close> the kind of error or \<open>Inr\<close> the
  value; a pointer or a second boolean result is an option. A map is the sequence of its entries in the order one \<open>range\<close>
  visits them, so that theorems hold for every order; a nil and an empty slice are the same where the program
  does not tell them apart. Signed integers of 64 bits are kept in bounds where the program checks them and wrap around
  where it does not. Times are nanoseconds since 1970; durations with a fraction are computed exactly.

  What is outside the program is an argument: a server is a function of the number of the request and the request, the clock a
  function of the requests made so far, the file system the answers of its calls and the ones that fail, and the resolver,
  the dialer, the digests, the random bytes, the printable runes beyond ASCII, the resolution of paths and
  the schedule of the workers are parameters of the definitions that use them.

  \<^bold>\<open>Bounds and fuel.\<close> The JSON parser gets twice the length of the text and two more, since every call consumes a byte or
  enters a value (\<open>fuel_enough\<close>: more changes nothing). The exploration of the suggestion graph gets one round more than there are
  hostnames, since every round but the last visits one (\<open>explore_ok\<close>). Everything else is structural or has a
  measure; a load makes a number of requests that the code bounds.

  \<^bold>\<open>Not modelled.\<close>
  \<^item> The text of the page with its scripts and styles and the style sheet of the editor: constants without place in a property;
    they are arguments of the page, which is proved for every text.
  \<^item> The texts of errors (beyond the redaction of a given text) and of log lines, the rendering of the reports as text, and the usage texts: an error is its kind, a line of a
    report its level and label, a finding its code and subject.
  \<^item> Letter case beyond ASCII in \<open>strings.ToLower\<close> and \<open>strings.EqualFold\<close>, and the limit of 10000 nested JSON values.
  \<^item> Operating system and network: listening, TLS, signals, the shutdown with its waits, the lock of the directory of environment
    files (\<open>acquireEnvFileLock\<close>), hidden input on a terminal, the transport settings of the HTTP client.
  \<^item> The waiting of the refresh ticker; the refreshes themselves are the steps of \<open>cache_reachable\<close>.
\<close>

end
